(* ===== verification/Prelude.thy ===== *)
theory Prelude
  imports Main "HOL-Library.Word"
begin

text \<open>
  Shared ground of the development: the machine types of the C++ sources, byte strings, the
  error values that stand for undefined behaviour and failed preconditions, and the generic
  lemmas on lists and functions that the component theories use.

  A \<open>uint8_t\<close> (and a \<open>char\<close>, read as its unsigned code) is a natural number below 256; the places
  where the sources do arithmetic on a \<^emph>\<open>signed\<close> \<open>char\<close> go through \<open>schar\<close>. Wider unsigned
  integers are natural numbers with their wrap-around written out (\<open>wrap16\<close>, \<open>wrap32\<close>), or words
  where the sources work on single bits.
\<close>

type_synonym byte = nat
type_synonym bytes = "byte list"
type_synonym codepoint = nat

text \<open>Rules about the components' step functions that \<open>simp\<close> should use together.\<close>

named_theorems step_simps
named_theorems invariant_intros

subsection \<open>Machine arithmetic\<close>

definition wrap8 :: "nat \<Rightarrow> nat" where
  "wrap8 n = n mod 256"

definition wrap16 :: "nat \<Rightarrow> nat" where
  "wrap16 n = n mod 65536"

definition wrap32 :: "nat \<Rightarrow> nat" where
  "wrap32 n = n mod 4294967296"

text \<open>
  The value of a \<open>char\<close> in an arithmetic expression: two's complement of its code. (Codes from 256
  on do not occur; the last branch makes the function injective on all of \<open>nat\<close>.)
\<close>

definition schar :: "byte \<Rightarrow> int" where
  "schar b = (if b < 128 then int b else if b < 256 then int b - 256 else int b)"

lemma schar_inj [simp]: "schar a = schar b \<longleftrightarrow> a = b"
  by (auto simp: schar_def)

lemma schar_ascii [simp]: "b < 128 \<Longrightarrow> schar b = int b"
  by (simp add: schar_def)

text \<open>Conversion of a signed integer to an unsigned 16-bit parameter.\<close>

definition to_u16 :: "int \<Rightarrow> nat" where
  "to_u16 i = nat (i mod 65536)"

text \<open>Conversion of a signed integer to \<open>size_t\<close>, and the range of a \<open>long\<close>.\<close>

definition to_size_t :: "int \<Rightarrow> nat" where
  "to_size_t i = nat (i mod 18446744073709551616)"

definition is_long :: "int \<Rightarrow> bool" where
  "is_long i \<longleftrightarrow> - 9223372036854775808 \<le> i \<and> i < 9223372036854775808"

text \<open>Conversion to a 32-bit \<open>int\<close>, and its range.\<close>

definition is_int :: "int \<Rightarrow> bool" where
  "is_int i \<longleftrightarrow> - 2147483648 \<le> i \<and> i < 2147483648"

definition to_int :: "int \<Rightarrow> int" where
  "to_int i = (i + 2147483648) mod 4294967296 - 2147483648"

lemma to_size_t_of_nat [simp]: "n < 18446744073709551616 \<Longrightarrow> to_size_t (int n) = n"
  by (simp add: to_size_t_def)

lemma to_size_t_nonneg: "0 \<le> i \<Longrightarrow> i < 18446744073709551616 \<Longrightarrow> to_size_t i = nat i"
  by (simp add: to_size_t_def)

lemma to_int_id [simp]: "is_int i \<Longrightarrow> to_int i = i"
  by (simp add: to_int_def is_int_def)

lemma is_int_to_int [simp]: "is_int (to_int i)"
proof -
  have "0 \<le> (i + 2147483648) mod 4294967296" "(i + 2147483648) mod 4294967296 < 4294967296"
    by simp_all
  then show ?thesis by (simp only: to_int_def is_int_def) linarith
qed

lemma wrap8_less [simp]: "wrap8 n < 256"
  by (simp add: wrap8_def)

lemma wrap16_less [simp]: "wrap16 n < 65536"
  by (simp add: wrap16_def)

lemma wrap32_less [simp]: "wrap32 n < 4294967296"
  by (simp add: wrap32_def)

lemma wrap16_id [simp]: "n < 65536 \<Longrightarrow> wrap16 n = n"
  by (simp add: wrap16_def)

lemma to_u16_less [simp]: "to_u16 i < 65536"
proof -
  have "i mod 65536 < (65536 :: int)" by simp
  then show ?thesis by (simp add: to_u16_def nat_less_iff)
qed

lemma to_u16_of_nat [simp]: "n < 65536 \<Longrightarrow> to_u16 (int n) = n"
  by (simp add: to_u16_def)

subsection \<open>Undefined behaviour and failed preconditions as values\<close>

datatype fault =
    OutOfBounds          \<comment> \<open>access outside an array\<close>
  | ShiftOutOfRange      \<comment> \<open>shift count not below the operand's width\<close>
  | SignedOverflow       \<comment> \<open>overflow of a signed \<open>int\<close>\<close>
  | Unreachable          \<comment> \<open>\<open>crispy::unreachable()\<close>\<close>
  | AssertionFailed      \<comment> \<open>\<open>assert\<close> / \<open>Require\<close> / \<open>Expects\<close> that does not hold\<close>
  | DivisionByZero       \<comment> \<open>\<open>/\<close> or \<open>%\<close> by zero\<close>
  | NullDereference      \<comment> \<open>access through a null pointer or an empty \<open>optional\<close>\<close>
  | Exception            \<comment> \<open>a C++ exception\<close>
  | NonTermination       \<comment> \<open>a loop that never ends on these arguments\<close>

type_synonym 'a result = "fault + 'a"

definition bind_result :: "'a result \<Rightarrow> ('a \<Rightarrow> 'b result) \<Rightarrow> 'b result" where
  "bind_result r f = (case r of Inl e \<Rightarrow> Inl e | Inr x \<Rightarrow> f x)"

lemma bind_result_simps [simp]:
  "bind_result (Inl e) f = Inl e"
  "bind_result (Inr x) f = f x"
  by (simp_all add: bind_result_def)

lemma bind_result_eq_Inr:
  "bind_result r f = Inr y \<longleftrightarrow> (\<exists>x. r = Inr x \<and> f x = Inr y)"
  by (cases r) simp_all

lemma bind_result_assoc:
  "bind_result (bind_result r f) g = bind_result r (\<lambda>x. bind_result (f x) g)"
  by (cases r) simp_all

lemma bind_result_cong [fundef_cong]:
  "r = r' \<Longrightarrow> (\<And>x. r' = Inr x \<Longrightarrow> f x = g x) \<Longrightarrow> bind_result r f = bind_result r' g"
  by (cases r') simp_all

text \<open>Running a fallible step over a list, stopping at the first fault.\<close>

fun fold_result :: "('a \<Rightarrow> 's \<Rightarrow> 's result) \<Rightarrow> 'a list \<Rightarrow> 's \<Rightarrow> 's result" where
  "fold_result f [] s = Inr s"
| "fold_result f (x # xs) s = bind_result (f x s) (fold_result f xs)"

lemma fold_result_append:
  "fold_result f (xs @ ys) s = bind_result (fold_result f xs s) (fold_result f ys)"
  by (induction xs arbitrary: s) (auto simp: bind_result_def split: sum.splits)

lemma fold_result_invariant:
  assumes "\<And>x s s'. x \<in> set xs \<Longrightarrow> P s \<Longrightarrow> f x s = Inr s' \<Longrightarrow> P s'"
    and "P s" and "fold_result f xs s = Inr s'"
  shows "P s'"
  using assms
proof (induction xs arbitrary: s)
  case Nil
  then show ?case by simp
next
  case (Cons x xs)
  from Cons.prems(3) obtain u where "f x s = Inr u" and u: "fold_result f xs u = Inr s'"
    by (auto simp: bind_result_eq_Inr)
  with Cons.prems(1,2) have "P u" by auto
  then show ?case using Cons.IH [OF _ _ u] Cons.prems(1) by auto
qed

text \<open>A result that satisfies a predicate, or fails with one of the given faults.\<close>

definition result_in :: "fault set \<Rightarrow> ('a \<Rightarrow> bool) \<Rightarrow> 'a result \<Rightarrow> bool" where
  "result_in F P r = (case r of Inl e \<Rightarrow> e \<in> F | Inr x \<Rightarrow> P x)"

lemma result_in_simps [simp]:
  "result_in F P (Inl e) \<longleftrightarrow> e \<in> F"
  "result_in F P (Inr x) \<longleftrightarrow> P x"
  by (simp_all add: result_in_def)

lemma result_in_bind:
  "result_in F P r \<Longrightarrow> (\<And>x. P x \<Longrightarrow> result_in F Q (f x)) \<Longrightarrow> result_in F Q (bind_result r f)"
  by (cases r) simp_all

lemma result_in_mono:
  "result_in F P r \<Longrightarrow> F \<subseteq> G \<Longrightarrow> (\<And>x. P x \<Longrightarrow> Q x) \<Longrightarrow> result_in G Q r"
  by (cases r) auto

subsection \<open>Byte strings\<close>

text \<open>The bytes of an ASCII literal.\<close>

definition bytes :: "string \<Rightarrow> bytes" where
  "bytes s = map of_char s"

lemma bytes_simps [simp]:
  "bytes [] = []"
  "bytes (c # cs) = of_char c # bytes cs"
  by (simp_all add: bytes_def)

lemma length_bytes [simp]: "length (bytes s) = length s"
  by (simp add: bytes_def)

definition is_digit :: "byte \<Rightarrow> bool" where
  "is_digit b \<longleftrightarrow> 48 \<le> b \<and> b \<le> 57"

text \<open>\<open>std::to_string\<close> of an unsigned number: its decimal digits.\<close>

fun decimal :: "nat \<Rightarrow> bytes" where
  "decimal n = (if n < 10 then [48 + n] else decimal (n div 10) @ [48 + n mod 10])"

declare decimal.simps [simp del]

lemma decimal_nonempty [simp]: "decimal n \<noteq> []"
  by (subst decimal.simps) simp

lemma decimal_digits: "b \<in> set (decimal n) \<Longrightarrow> is_digit b"
proof (induction n rule: decimal.induct)
  case (1 n)
  show ?case
  proof (cases "n < 10")
    case True
    with "1.prems" show ?thesis by (subst (asm) decimal.simps) (auto simp: is_digit_def)
  next
    case False
    with "1.prems" have "b \<in> set (decimal (n div 10)) \<or> b = 48 + n mod 10"
      by (subst (asm) decimal.simps) auto
    moreover have "n mod 10 < 10" by simp
    ultimately show ?thesis using False "1.IH" by (auto simp: is_digit_def)
  qed
qed

text \<open>Reading decimal digits back, most significant first, without a bound.\<close>

definition read_decimal :: "nat \<Rightarrow> bytes \<Rightarrow> nat" where
  "read_decimal acc ds = foldl (\<lambda>a d. a * 10 + (d - 48)) acc ds"

lemma read_decimal_simps [simp]:
  "read_decimal acc [] = acc"
  "read_decimal acc (d # ds) = read_decimal (acc * 10 + (d - 48)) ds"
  "read_decimal acc (xs @ ys) = read_decimal (read_decimal acc xs) ys"
  by (simp_all add: read_decimal_def)

lemma read_decimal_decimal [simp]: "read_decimal 0 (decimal n) = n"
proof (induction n rule: decimal.induct)
  case (1 n)
  show ?case
  proof (cases "n < 10")
    case True
    then show ?thesis by (subst decimal.simps) simp
  next
    case False
    with "1.IH" have "read_decimal 0 (decimal (n div 10)) = n div 10" by simp
    with False show ?thesis by (subst decimal.simps) simp
  qed
qed

end
