(* ===== verification/Crispy_Escape.thy ===== *)
theory Crispy_Escape
  imports Prelude
begin

text \<open>
  \<open>src/src/crispy/escape.h\<close>: escaping of byte strings for display (\<open>escape\<close>, \<open>escapeMarkdown\<close>) and
  the state machine that reads escaped text back (\<open>unescape\<close>), with \<open>strtoul\<close> of the C library as
  \<open>unescape\<close> calls it.
\<close>

subsection \<open>Escaping\<close>

datatype numeric_escape = Octal | Hex

definition hex_digit :: "nat \<Rightarrow> byte" where
  "hex_digit n = (if n < 10 then 48 + n else 87 + n)"

text \<open>\<open>{:02x}\<close> and \<open>{:03o}\<close> of a byte.\<close>

definition format_02x :: "byte \<Rightarrow> bytes" where
  "format_02x b = [hex_digit (b div 16), hex_digit (b mod 16)]"

definition format_03o :: "byte \<Rightarrow> bytes" where
  "format_03o b = [48 + b div 64, 48 + b div 8 mod 8, 48 + b mod 8]"

definition escape_byte :: "numeric_escape \<Rightarrow> byte \<Rightarrow> bytes" where
  "escape_byte numericEscape ch =
     (if ch = 0x5C then [0x5C, 0x5C]
      else if ch = 0x1B then [0x5C, 0x65]
      else if ch = 0x09 then [0x5C, 0x74]
      else if ch = 0x0D then [0x5C, 0x72]
      else if ch = 0x0A then [0x5C, 0x6E]
      else if ch = 0x22 then [0x5C, 0x22]
      else if 0x20 \<le> ch \<and> ch < 0x7E then [ch]
      else if numericEscape = Hex then 0x5C # 0x78 # format_02x ch
      else 0x5C # format_03o ch)"

fun escape :: "numeric_escape \<Rightarrow> bytes \<Rightarrow> bytes" where
  "escape numericEscape [] = []"
| "escape numericEscape (ch # s) = escape_byte numericEscape ch @ escape numericEscape s"

fun escapeMarkdown :: "bytes \<Rightarrow> bytes" where
  "escapeMarkdown [] = []"
| "escapeMarkdown (ch # s) =
     (if ch = 0x60 then [0x60, 0x60, 0x60, 0x20] else [ch]) @ escapeMarkdown s"

subsection \<open>Reading back\<close>

definition is_space :: "byte \<Rightarrow> bool" where
  "is_space b \<longleftrightarrow> b = 0x20 \<or> 0x09 \<le> b \<and> b \<le> 0x0D"

definition digit_value :: "byte \<Rightarrow> nat option" where
  "digit_value b =
     (if 48 \<le> b \<and> b \<le> 57 then Some (b - 48)
      else if 97 \<le> b \<and> b \<le> 122 then Some (b - 87)
      else if 65 \<le> b \<and> b \<le> 90 then Some (b - 55)
      else None)"

definition is_digit_of :: "nat \<Rightarrow> byte \<Rightarrow> bool" where
  "is_digit_of base b = (case digit_value b of Some v \<Rightarrow> v < base | None \<Rightarrow> False)"

fun digits_value :: "nat \<Rightarrow> nat \<Rightarrow> bytes \<Rightarrow> nat" where
  "digits_value base acc [] = acc"
| "digits_value base acc (b # bs) =
     (if is_digit_of base b then digits_value base (acc * base + the (digit_value b)) bs else acc)"

text \<open>
  \<open>strtoul\<close> on a buffer of at most two characters, where no overflow can occur: white space, a sign,
  the prefix \<open>0x\<close> if a digit follows, digits. A negative number is negated in the unsigned type.
\<close>

definition strtoul :: "bytes \<Rightarrow> nat \<Rightarrow> nat" where
  "strtoul s base =
     (let s1 = dropWhile is_space s;
          neg = (s1 \<noteq> [] \<and> hd s1 = 0x2D);
          s2 = (if s1 \<noteq> [] \<and> (hd s1 = 0x2D \<or> hd s1 = 0x2B) then tl s1 else s1);
          s3 = (case s2 of a # b # c # cs \<Rightarrow>
                  if base = 16 \<and> a = 48 \<and> (b = 0x78 \<or> b = 0x58) \<and> is_digit_of 16 c then c # cs else s2
                | _ \<Rightarrow> s2);
          v = digits_value base 0 s3
      in if neg then (2 ^ 64 - v) mod 2 ^ 64 else v)"

datatype state_type = St_Text | St_Escape | St_Octal1 | St_Octal2 | St_Hex1 | St_Hex2

record unescape_state =
  un_state :: state_type
  un_buf0 :: byte
  un_out :: bytes

definition escape_letter :: "byte \<Rightarrow> byte option" where
  "escape_letter ch =
     (if ch = 0x65 then Some 0x1B
      else if ch = 0x61 then Some 0x07
      else if ch = 0x62 then Some 0x08
      else if ch = 0x74 then Some 0x09
      else if ch = 0x6E then Some 0x0A
      else if ch = 0x76 then Some 0x0B
      else if ch = 0x66 then Some 0x0C
      else if ch = 0x72 then Some 0x0D
      else if ch = 0x5C then Some 0x5C
      else None)"

definition unescape_step :: "byte \<Rightarrow> unescape_state \<Rightarrow> unescape_state" where
  "unescape_step ch st =
     (case un_state st of
        St_Text \<Rightarrow> if ch = 0x5C then st\<lparr>un_state := St_Escape\<rparr> else st\<lparr>un_out := un_out st @ [ch]\<rparr>
      | St_Escape \<Rightarrow>
          if ch = 0x30 then st\<lparr>un_state := St_Octal1\<rparr>
          else if ch = 0x78 then st\<lparr>un_state := St_Hex1\<rparr>
          else (case escape_letter ch of
                  Some c \<Rightarrow> st\<lparr>un_state := St_Text, un_out := un_out st @ [c]\<rparr>
                | None \<Rightarrow> st\<lparr>un_state := St_Text, un_out := un_out st @ [0x5C, ch]\<rparr>)
      | St_Octal1 \<Rightarrow> st\<lparr>un_state := St_Octal2, un_buf0 := ch\<rparr>
      | St_Octal2 \<Rightarrow>
          st\<lparr>un_state := St_Text, un_out := un_out st @ [wrap8 (strtoul [un_buf0 st, ch] 8)]\<rparr>
      | St_Hex1 \<Rightarrow> st\<lparr>un_state := St_Hex2, un_buf0 := ch\<rparr>
      | St_Hex2 \<Rightarrow>
          st\<lparr>un_state := St_Text, un_out := un_out st @ [wrap8 (strtoul [un_buf0 st, ch] 16)]\<rparr>)"

definition unescape :: "bytes \<Rightarrow> bytes" where
  "unescape escapedText =
     un_out (fold unescape_step escapedText \<lparr>un_state = St_Text, un_buf0 = 0, un_out = []\<rparr>)"

subsection \<open>Round trips\<close>

text \<open>What one escaped byte comes back as, from the text state.\<close>

definition returns :: "bytes \<Rightarrow> bytes \<Rightarrow> bool" where
  "returns bs out \<longleftrightarrow> (\<forall>st. un_state st = St_Text \<longrightarrow>
     (let st' = fold unescape_step bs st in un_state st' = St_Text \<and> un_out st' = un_out st @ out))"

lemma returns_Nil: "returns [] []"
  by (simp add: returns_def)

lemma returns_append: "returns xs a \<Longrightarrow> returns ys b \<Longrightarrow> returns (xs @ ys) (a @ b)"
  by (simp add: returns_def Let_def)

lemma unescape_returns: "returns bs out \<Longrightarrow> unescape bs = out"
  by (simp add: returns_def unescape_def Let_def)

lemma hex_digit_value: "n < 16 \<Longrightarrow> digit_value (hex_digit n) = Some n"
  by (auto simp: digit_value_def hex_digit_def)

lemma hex_digit_plain: "n < 16 \<Longrightarrow> hex_digit n \<noteq> 0x2D \<and> hex_digit n \<noteq> 0x2B \<and> \<not> is_space (hex_digit n)"
  by (auto simp: hex_digit_def is_space_def)

lemma strtoul_hex: "b < 256 \<Longrightarrow> strtoul (format_02x b) 16 = b"
proof -
  assume b: "b < 256"
  then have d: "b div 16 < 16" "b mod 16 < 16" by auto
  note h = d [THEN hex_digit_plain] d [THEN hex_digit_value]
  show ?thesis using h b d by (simp add: strtoul_def format_02x_def is_digit_of_def)
qed

lemma octal_digit: "n < 8 \<Longrightarrow> digit_value (48 + n) = Some n \<and> 48 + n \<noteq> 0x2D \<and> 48 + n \<noteq> 0x2B \<and> \<not> is_space (48 + n)"
  by (auto simp: digit_value_def is_space_def)

lemma strtoul_octal: "a < 8 \<Longrightarrow> b < 8 \<Longrightarrow> strtoul [48 + a, 48 + b] 8 = a * 8 + b"
  using octal_digit [of a] octal_digit [of b] by (simp add: strtoul_def is_digit_of_def)

lemma returns_hex: "b < 256 \<Longrightarrow> returns (0x5C # 0x78 # format_02x b) [b]"
  using strtoul_hex [of b]
  by (simp add: returns_def unescape_step_def format_02x_def wrap8_def)

lemma returns_octal: "b < 64 \<Longrightarrow> returns (0x5C # format_03o b) [b]"
  using strtoul_octal [of "b div 8" "b mod 8"]
  by (simp add: returns_def unescape_step_def format_03o_def wrap8_def)

lemma returns_escape_hex:
  "b < 256 \<Longrightarrow> returns (escape_byte Hex b) (if b = 0x22 then [0x5C, 0x22] else [b])"
  using returns_hex [of b]
  by (simp add: escape_byte_def) (simp add: returns_def unescape_step_def escape_letter_def)

lemma returns_escape_octal:
  "b < 0x7E \<Longrightarrow> b \<noteq> 0x22 \<Longrightarrow> returns (escape_byte Octal b) [b]"
  using returns_octal [of b]
  by (simp add: escape_byte_def) (simp add: returns_def unescape_step_def escape_letter_def)

lemma returns_escape:
  "(\<And>b. b \<in> set s \<Longrightarrow> returns (escape_byte e b) (f b)) \<Longrightarrow> returns (escape e s) (concat (map f s))"
  by (induction s) (simp_all add: returns_Nil returns_append)

lemma hex_digit_printable: "n < 16 \<Longrightarrow> 0x20 \<le> hex_digit n \<and> hex_digit n < 0x7E"
  by (simp add: hex_digit_def)

lemma octal_digit_printable: "n < (8 :: nat) \<Longrightarrow> 0x20 \<le> 48 + n \<and> 48 + n < 0x7E"
  by simp

lemma escape_byte_printable:
  assumes "c \<in> set (escape_byte e b)" "b < 256"
  shows "0x20 \<le> c \<and> c < 0x7E"
proof -
  have d: "b div 16 < 16" "b mod 16 < 16" "b div 64 < 8" "b div 8 mod 8 < 8" "b mod 8 < 8"
    using assms(2) by auto
  note p = hex_digit_printable [OF d(1)] hex_digit_printable [OF d(2)] octal_digit_printable [OF d(3)]
    octal_digit_printable [OF d(4)] octal_digit_printable [OF d(5)]
  consider "c = b \<and> 0x20 \<le> b \<and> b < 0x7E" | "c \<in> {0x5C, 0x65, 0x74, 0x72, 0x6E, 0x22, 0x78}"
    | "c \<in> set (format_02x b)" | "c \<in> set (format_03o b)"
    using assms(1) by (auto simp: escape_byte_def split: if_splits)
  then show ?thesis
    using p by cases (auto simp only: format_02x_def format_03o_def list.set insert_iff empty_iff)
qed

subsection \<open>Properties\<close>

text \<open>
  C16. Reading back hexadecimally escaped text returns the original bytes, for every byte string, with
  one exception: an escaped double quote is not known to \<open>unescape\<close>, which keeps the backslash in
  front of it.
\<close>

theorem unescape_escape_hex:
  assumes "\<forall>b \<in> set s. b < 256"
  shows "unescape (escape Hex s) = concat (map (\<lambda>b. if b = 0x22 then [0x5C, 0x22] else [b]) s)"
  using assms by (intro unescape_returns returns_escape) (simp add: returns_escape_hex)

theorem unescape_escape_hex_witness:
  "unescape (escape Hex [0x1B, 0x5D, 0x38, 0xC3, 0xA4, 0x00, 0x5C]) = [0x1B, 0x5D, 0x38, 0xC3, 0xA4, 0x00, 0x5C]
   \<and> unescape (escape Hex [0x22]) = [0x5C, 0x22]"
  using unescape_escape_hex [of "[0x1B, 0x5D, 0x38, 0xC3, 0xA4, 0x00, 0x5C]"] unescape_escape_hex [of "[0x22]"]
  by simp

text \<open>
  Octal escapes are read back only as \<open>\0\<close> followed by two digits: the round trip holds for text
  without double quotes and without bytes from 0x7E on, and the byte 0x80 does not come back.
\<close>

theorem unescape_escape_octal:
  assumes "\<forall>b \<in> set s. b < 0x7E \<and> b \<noteq> 0x22"
  shows "unescape (escape Octal s) = s \<and> unescape (escape Octal (s @ [0x80])) \<noteq> s @ [0x80]"
proof -
  have r: "returns (escape Octal s) s"
    using returns_escape [of s Octal "\<lambda>b. [b]"] assms by (simp add: returns_escape_octal)
  have split: "escape Octal (s @ [0x80]) = escape Octal s @ escape_byte Octal 0x80"
    by (induction s) simp_all
  have "returns (escape_byte Octal 0x80) [0x5C, 0x32, 0x30, 0x30]"
    by (simp add: escape_byte_def format_03o_def returns_def unescape_step_def escape_letter_def)
  with r have "unescape (escape Octal (s @ [0x80])) = s @ [0x5C, 0x32, 0x30, 0x30]"
    unfolding split by (intro unescape_returns returns_append)
  with unescape_returns [OF r] show ?thesis by simp
qed

theorem unescape_escape_octal_witness:
  "unescape (escape Octal [0x1B, 0x01, 0x41]) = [0x1B, 0x01, 0x41]"
  using unescape_escape_octal [of "[0x1B, 0x01, 0x41]"] by simp

text \<open>
  Escaped text is printable ASCII, whatever bytes it was made from: no control character and no
  byte outside of ASCII is left.
\<close>

theorem escape_printable:
  assumes "\<forall>b \<in> set s. b < 256" and "c \<in> set (escape e s)"
  shows "0x20 \<le> c \<and> c < 0x7E"
  using assms
  by (induction s) (auto dest: escape_byte_printable)

theorem escape_printable_witness:
  "escape Hex [0x07, 0xFF] = [0x5C, 0x78, 0x30, 0x37, 0x5C, 0x78, 0x66, 0x66] \<and> (0x20 \<le> (0x66 :: nat) \<and> 0x66 < (0x7E :: nat))"
proof -
  have e: "escape Hex [0x07, 0xFF] = [0x5C, 0x78, 0x30, 0x37, 0x5C, 0x78, 0x66, 0x66]"
    by (simp add: escape_byte_def format_02x_def hex_digit_def)
  then show ?thesis using escape_printable [of "[0x07, 0xFF]" "0x66" Hex] by simp
qed

end
