(* ===== verification/VT_Color.thy ===== *)
theory VT_Color
  imports Complex_Main Crispy_Escape
begin

unbundle bit_operations_syntax

text \<open>
  Colours: \<open>src/vtbackend/Color.h\<close>, \<open>Color.cpp\<close> and the part of \<open>ColorPalette\<close> that maps a colour to
  what is drawn. The packed 32-bit representations are words, with the shifts and masks of the
  sources; texts are byte strings. Scaling and mixing of colours by a \<open>float\<close> are left out, and the
  \<open>double\<close> of \<open>distance\<close> is a real number.
\<close>

type_synonym u8 = "8 word"
type_synonym u32 = "32 word"

subsection \<open>RGB\<close>

record RGBColor =
  rgb_red :: u8
  rgb_green :: u8
  rgb_blue :: u8

definition rgb_of_value :: "u32 \<Rightarrow> RGBColor" where
  "rgb_of_value rgb =
    \<lparr>rgb_red = ucast (drop_bit 16 rgb AND 0xFF),
     rgb_green = ucast (drop_bit 8 rgb AND 0xFF),
     rgb_blue = ucast (rgb AND 0xFF)\<rparr>"

definition rgb_value :: "RGBColor \<Rightarrow> u32" where
  "rgb_value c =
    push_bit 16 (ucast (rgb_red c)) OR push_bit 8 (ucast (rgb_green c)) OR ucast (rgb_blue c)"

definition rgb_inverse :: "RGBColor \<Rightarrow> RGBColor" where
  "rgb_inverse c =
    \<lparr>rgb_red = 255 - rgb_red c, rgb_green = 255 - rgb_green c, rgb_blue = 255 - rgb_blue c\<rparr>"

definition clamp_add :: "u8 \<Rightarrow> u8 \<Rightarrow> u8" where
  "clamp_add a b = word_of_nat (min (unat a + unat b) 255)"

definition rgb_plus :: "RGBColor \<Rightarrow> RGBColor \<Rightarrow> RGBColor" where
  "rgb_plus a b =
    \<lparr>rgb_red = clamp_add (rgb_red a) (rgb_red b),
     rgb_green = clamp_add (rgb_green a) (rgb_green b),
     rgb_blue = clamp_add (rgb_blue a) (rgb_blue b)\<rparr>"

text \<open>The number under the root of \<open>distance\<close>, in the unsigned 32-bit arithmetic of the source.\<close>

definition distance_square :: "RGBColor \<Rightarrow> RGBColor \<Rightarrow> u32" where
  "distance_square e1 e2 =
    (let rmean = (ucast (rgb_red e1) + ucast (rgb_red e2)) div 2;
         r = ucast (rgb_red e1) - ucast (rgb_red e2);
         g = ucast (rgb_green e1) - ucast (rgb_green e2);
         b = ucast (rgb_blue e1) - ucast (rgb_blue e2)
     in drop_bit 8 ((512 + rmean) * r * r) + 4 * g * g + drop_bit 8 ((767 - rmean) * b * b))"

definition distance :: "RGBColor \<Rightarrow> RGBColor \<Rightarrow> real" where
  "distance e1 e2 = sqrt (real (unat (distance_square e1 e2)))"

record RGBColorPair =
  pair_foreground :: RGBColor
  pair_background :: RGBColor

definition isTooSimilar :: "real \<Rightarrow> RGBColorPair \<Rightarrow> bool" where
  "isTooSimilar threshold p \<longleftrightarrow> distance (pair_foreground p) (pair_background p) \<le> threshold"

definition distinct_colors :: "real \<Rightarrow> RGBColorPair \<Rightarrow> RGBColorPair" where
  "distinct_colors threshold p =
    (if isTooSimilar threshold p
     then \<lparr>pair_foreground = rgb_inverse (pair_foreground p), pair_background = pair_foreground p\<rparr>
     else p)"

definition constructDefaulted :: "RGBColorPair \<Rightarrow> RGBColor option \<Rightarrow> RGBColor option \<Rightarrow> RGBColorPair" where
  "constructDefaulted p fgOpt bgOpt =
    \<lparr>pair_foreground = (case fgOpt of Some c \<Rightarrow> c | None \<Rightarrow> pair_foreground p),
     pair_background = (case bgOpt of Some c \<Rightarrow> c | None \<Rightarrow> pair_background p)\<rparr>"

definition swapped :: "RGBColorPair \<Rightarrow> RGBColorPair" where
  "swapped p = \<lparr>pair_foreground = pair_background p, pair_background = pair_foreground p\<rparr>"

definition allForeground :: "RGBColorPair \<Rightarrow> RGBColorPair" where
  "allForeground p = \<lparr>pair_foreground = pair_foreground p, pair_background = pair_foreground p\<rparr>"

definition allBackground :: "RGBColorPair \<Rightarrow> RGBColorPair" where
  "allBackground p = \<lparr>pair_foreground = pair_background p, pair_background = pair_background p\<rparr>"

subsection \<open>RGBA\<close>

record RGBAColor =
  rgba_value :: u32

definition rgba_red :: "RGBAColor \<Rightarrow> u8" where
  "rgba_red c = ucast (drop_bit 24 (rgba_value c) AND 0xFF)"

definition rgba_green :: "RGBAColor \<Rightarrow> u8" where
  "rgba_green c = ucast (drop_bit 16 (rgba_value c) AND 0xFF)"

definition rgba_blue :: "RGBAColor \<Rightarrow> u8" where
  "rgba_blue c = ucast (drop_bit 8 (rgba_value c) AND 0xFF)"

definition rgba_alpha :: "RGBAColor \<Rightarrow> u8" where
  "rgba_alpha c = ucast (rgba_value c AND 0xFF)"

definition mk_rgba :: "u8 \<Rightarrow> u8 \<Rightarrow> u8 \<Rightarrow> u8 \<Rightarrow> RGBAColor" where
  "mk_rgba r g b a =
    \<lparr>rgba_value = push_bit 24 (ucast r) OR push_bit 16 (ucast g) OR push_bit 8 (ucast b) OR ucast a\<rparr>"

definition rgba_of_rgb :: "RGBColor \<Rightarrow> RGBAColor" where
  "rgba_of_rgb c = mk_rgba (rgb_red c) (rgb_green c) (rgb_blue c) 0xFF"

definition rgba_with_alpha :: "RGBColor \<Rightarrow> u8 \<Rightarrow> RGBAColor" where
  "rgba_with_alpha c alpha = mk_rgba (rgb_red c) (rgb_green c) (rgb_blue c) alpha"

definition rgba_rgb :: "RGBAColor \<Rightarrow> RGBColor" where
  "rgba_rgb c = rgb_of_value (drop_bit 8 (rgba_value c))"

subsection \<open>Terminal colours\<close>

datatype ColorType = UndefinedType | DefaultType | BrightType | IndexedType | RGBType

primrec color_type_code :: "ColorType \<Rightarrow> u32" where
  "color_type_code UndefinedType = 0"
| "color_type_code DefaultType = 1"
| "color_type_code BrightType = 2"
| "color_type_code IndexedType = 3"
| "color_type_code RGBType = 4"

record Color =
  color_content :: u32

definition mk_color :: "ColorType \<Rightarrow> u8 \<Rightarrow> Color" where
  "mk_color t v = \<lparr>color_content = push_bit 24 (color_type_code t) OR (ucast v AND 0xFF)\<rparr>"

definition color_of_bright :: "u8 \<Rightarrow> Color" where
  "color_of_bright v = \<lparr>color_content = (ucast v AND 0xFF) OR push_bit 24 (color_type_code BrightType)\<rparr>"

definition color_of_indexed :: "u8 \<Rightarrow> Color" where
  "color_of_indexed v = \<lparr>color_content = (ucast v AND 0xFF) OR push_bit 24 (color_type_code IndexedType)\<rparr>"

definition color_of_rgb :: "RGBColor \<Rightarrow> Color" where
  "color_of_rgb c = \<lparr>color_content = rgb_value c OR push_bit 24 (color_type_code RGBType)\<rparr>"

definition newColor :: Color where
  "newColor = \<lparr>color_content = 0\<rparr>"

definition UndefinedColor :: Color where
  "UndefinedColor = mk_color UndefinedType 0"

definition DefaultColor :: Color where
  "DefaultColor = mk_color DefaultType 0"

text \<open>The type byte as an enumerator; a byte that is none of them has no type.\<close>

definition color_type :: "Color \<Rightarrow> ColorType option" where
  "color_type c =
    (let t = drop_bit 24 (color_content c) AND 0xFF in
     if t = 0 then Some UndefinedType else if t = 1 then Some DefaultType
     else if t = 2 then Some BrightType else if t = 3 then Some IndexedType
     else if t = 4 then Some RGBType else None)"

definition color_index :: "Color \<Rightarrow> u8" where
  "color_index c = ucast (color_content c AND 0xFF)"

definition color_rgb :: "Color \<Rightarrow> RGBColor" where
  "color_rgb c = rgb_of_value (color_content c AND 0xFFFFFF)"

definition isUndefined :: "Color \<Rightarrow> bool" where
  "isUndefined c \<longleftrightarrow> color_type c = Some UndefinedType"

definition isDefaultColor :: "Color \<Rightarrow> bool" where
  "isDefaultColor c \<longleftrightarrow> color_type c = Some DefaultType"

definition isIndexedColor :: "Color \<Rightarrow> bool" where
  "isIndexedColor c \<longleftrightarrow> color_type c = Some IndexedType"

definition isBrightColor :: "Color \<Rightarrow> bool" where
  "isBrightColor c \<longleftrightarrow> color_type c = Some BrightType"

definition isRGBColor :: "Color \<Rightarrow> bool" where
  "isRGBColor c \<longleftrightarrow> color_type c = Some RGBType"

subsection \<open>Opacity\<close>

definition opacity_inc :: "u8 \<Rightarrow> u8" where
  "opacity_inc v = word_of_nat (min (unat v + 15) 0xFF)"

definition opacity_dec :: "u8 \<Rightarrow> u8" where
  "opacity_dec v = word_of_int (max (int (unat v) - 15) 0)"

subsection \<open>Texts\<close>

definition hex_upper :: "nat \<Rightarrow> byte" where
  "hex_upper n = (if n < 10 then 48 + n else 55 + n)"

definition format_02X :: "u8 \<Rightarrow> bytes" where
  "format_02X b = [hex_upper (unat b div 16), hex_upper (unat b mod 16)]"

definition to_string_rgb :: "RGBColor \<Rightarrow> bytes" where
  "to_string_rgb c =
    [39, 35] @ format_02X (rgb_red c) @ format_02X (rgb_green c) @ format_02X (rgb_blue c) @ [39]"

definition to_string_rgba :: "RGBAColor \<Rightarrow> bytes" where
  "to_string_rgba c =
    [39, 35] @ format_02X (rgba_red c) @ format_02X (rgba_green c) @ format_02X (rgba_blue c)
      @ format_02X (rgba_alpha c) @ [39]"

definition color_names :: "string list" where
  "color_names =
    [''black'', ''red'', ''green'', ''yellow'', ''blue'', ''magenta'', ''cyan'', ''white'', ''DEFAULT'']"

definition to_string_color :: "Color \<Rightarrow> bytes" where
  "to_string_color c =
    (case color_type c of
       Some IndexedType \<Rightarrow> decimal (unat (color_index c))
     | Some BrightType \<Rightarrow>
         (if unat (color_index c) < 9 then bytes (''bright-'' @ color_names ! unat (color_index c))
          else bytes ''?'')
     | Some DefaultType \<Rightarrow>
         (if unat (color_index c) < 9 then bytes (color_names ! unat (color_index c)) else bytes ''?'')
     | Some RGBType \<Rightarrow> to_string_rgb (color_rgb c)
     | Some UndefinedType \<Rightarrow> bytes ''?''
     | None \<Rightarrow> bytes ''?'')"

definition to_string_indexed :: "u8 \<Rightarrow> bytes" where
  "to_string_indexed c =
    (if c < 8 then bytes (color_names ! unat c)
     else if c = 9 then bytes ''DEFAULT''
     else bytes ''IndexedColor:'' @ decimal (unat c))"

definition to_string_bright :: "u8 \<Rightarrow> bytes" where
  "to_string_bright c =
    (if c = 2 then bytes ''bright-Green''
     else if c = 3 then bytes ''bright-Yellow''
     else if c < 8 then bytes (''bright-'' @ color_names ! unat c)
     else bytes ''BrightColor:'' @ decimal (unat c))"

text \<open>
  \<open>strtoul\<close> to base 16: the value, \<open>ULONG_MAX\<close> if it does not fit, and what is left of the string;
  without a digit, zero and the whole string.
\<close>

definition strtoul16 :: "bytes \<Rightarrow> nat \<times> bytes" where
  "strtoul16 s =
    (let s1 = dropWhile is_space s;
         neg = (s1 \<noteq> [] \<and> hd s1 = 0x2D);
         s2 = (if s1 \<noteq> [] \<and> (hd s1 = 0x2D \<or> hd s1 = 0x2B) then tl s1 else s1);
         s3 = (case s2 of
                 a # b # c # cs \<Rightarrow>
                   if a = 48 \<and> (b = 0x78 \<or> b = 0x58) \<and> is_digit_of 16 c then c # cs else s2
               | _ \<Rightarrow> s2);
         v = digits_value 16 0 s3
     in if s3 = [] \<or> \<not> is_digit_of 16 (hd s3) then (0, s)
        else (if v \<ge> 18446744073709551616 then 18446744073709551615
              else if neg then to_size_t (- int v) else v,
              dropWhile (is_digit_of 16) s3))"

text \<open>\<open>*eptr == '\\0'\<close>: the rest is empty, or a zero byte of the string follows.\<close>

definition at_nul :: "bytes \<Rightarrow> bool" where
  "at_nul s \<longleftrightarrow> s = [] \<or> hd s = 0"

definition rgb_assign :: "RGBColor \<Rightarrow> bytes \<Rightarrow> RGBColor" where
  "rgb_assign c hexCode =
    (let c1 = (if length hexCode = 7 \<and> hd hexCode = 35
               then (let (value, rest) = strtoul16 (tl hexCode) in
                     if at_nul rest then rgb_of_value (word_of_nat value) else c)
               else c)
     in if length hexCode \<ge> 3 \<and> hexCode ! 0 = 48 \<and> hexCode ! 1 = 0x78
        then (let (value, rest) = strtoul16 (drop 2 hexCode) in
              if at_nul rest then rgb_of_value (word_of_nat value) else c1)
        else c1)"

definition rgb_of_string :: "bytes \<Rightarrow> RGBColor" where
  "rgb_of_string hexCode = rgb_assign \<lparr>rgb_red = 0, rgb_green = 0, rgb_blue = 0\<rparr> hexCode"

definition rgba_assign :: "RGBAColor \<Rightarrow> bytes \<Rightarrow> RGBAColor" where
  "rgba_assign c hexCode =
    (if length hexCode = 9 \<and> hd hexCode = 35
     then (let (value, rest) = strtoul16 (tl hexCode) in
           if at_nul rest then \<lparr>rgba_value = word_of_nat value\<rparr> else c)
     else c)"

text \<open>
  \<open>crispy::to_integer\<close>, for an unsigned result type given by its modulus: no sign, no prefix, no
  space; the value wraps at each step.
\<close>

definition integer_digit :: "nat \<Rightarrow> byte \<Rightarrow> nat option" where
  "integer_digit base ch =
    (if base = 2 then if 48 \<le> ch \<and> ch \<le> 49 then Some (ch - 48) else None
     else if base = 8 then if 48 \<le> ch \<and> ch \<le> 55 then Some (ch - 48) else None
     else if base = 10 then if 48 \<le> ch \<and> ch \<le> 57 then Some (ch - 48) else None
     else if 48 \<le> ch \<and> ch \<le> 57 then Some (ch - 48)
     else if 97 \<le> ch \<and> ch \<le> 102 then Some (10 + ch - 97)
     else if 65 \<le> ch \<and> ch \<le> 70 then Some (10 + ch - 65)
     else None)"

fun to_integer_loop :: "nat \<Rightarrow> nat \<Rightarrow> nat \<Rightarrow> bytes \<Rightarrow> nat option" where
  "to_integer_loop base m value [] = Some value"
| "to_integer_loop base m value (ch # rest) =
    (case integer_digit base ch of
       None \<Rightarrow> None
     | Some d \<Rightarrow> to_integer_loop base m ((value * base mod m + d) mod m) rest)"

definition to_integer :: "nat \<Rightarrow> nat \<Rightarrow> bytes \<Rightarrow> nat option" where
  "to_integer base m txt = (if txt = [] then None else to_integer_loop base m 0 txt)"

text \<open>\<open>value()\<close> of an empty optional throws, which \<open>parseColor\<close> turns into \<open>nullopt\<close>.\<close>

definition parse_channels :: "bytes \<Rightarrow> bytes \<Rightarrow> bytes \<Rightarrow> (u8 \<Rightarrow> u8) \<Rightarrow> RGBColor option" where
  "parse_channels r g b f =
    (case (to_integer 16 256 r, to_integer 16 256 g, to_integer 16 256 b) of
       (Some r, Some g, Some b) \<Rightarrow>
         Some \<lparr>rgb_red = f (word_of_nat r), rgb_green = f (word_of_nat g), rgb_blue = f (word_of_nat b)\<rparr>
     | _ \<Rightarrow> None)"

definition substr :: "nat \<Rightarrow> nat \<Rightarrow> bytes \<Rightarrow> bytes" where
  "substr pos n s = take n (drop pos s)"

definition parseColor :: "bytes \<Rightarrow> RGBColor option" where
  "parseColor v =
    (if length v = 12 \<and> substr 0 4 v = bytes ''rgb:'' \<and> v ! 6 = 47 \<and> v ! 9 = 47
     then parse_channels (substr 4 2 v) (substr 7 2 v) (substr 10 2 v) (\<lambda>c. c)
     else if length v = 7 \<and> v ! 0 = 35
     then parse_channels (substr 1 2 v) (substr 3 2 v) (substr 5 2 v) (\<lambda>c. c)
     else if length v = 4 \<and> v ! 0 = 35
     then parse_channels (substr 1 1 v) (substr 2 1 v) (substr 3 1 v) (push_bit 4)
     else None)"

subsection \<open>Palette\<close>

datatype ColorTarget = Foreground | Background
datatype ColorMode = Dimmed | Normal | Bright

datatype CellRGBColor = CellRGB RGBColor | CellForegroundColor | CellBackgroundColor

record ColorPalette =
  useBrightColors :: bool
  palette :: "RGBColor list"
  defaultForeground :: RGBColor
  defaultBackground :: RGBColor
  defaultForegroundBright :: RGBColor
  defaultForegroundDimmed :: RGBColor
  cursorColor :: CellRGBColor
  mouseForeground :: RGBColor
  mouseBackground :: RGBColor

definition palette_at :: "nat \<Rightarrow> ColorPalette \<Rightarrow> RGBColor result" where
  "palette_at i p = (if i < length (palette p) then Inr (palette p ! i) else Inl OutOfBounds)"

definition brightColor :: "nat \<Rightarrow> ColorPalette \<Rightarrow> RGBColor result" where
  "brightColor index p = (if index < 8 then palette_at (index + 8) p else Inl AssertionFailed)"

definition dimColor :: "nat \<Rightarrow> ColorPalette \<Rightarrow> RGBColor result" where
  "dimColor index p = (if index < 8 then palette_at (256 + index) p else Inl AssertionFailed)"

definition normalColor :: "nat \<Rightarrow> ColorPalette \<Rightarrow> RGBColor result" where
  "normalColor index p = (if index < 8 then palette_at index p else Inl AssertionFailed)"

definition indexedColor :: "nat \<Rightarrow> ColorPalette \<Rightarrow> RGBColor result" where
  "indexedColor index p = (if index < 256 then palette_at index p else Inl AssertionFailed)"

definition apply_color :: "ColorPalette \<Rightarrow> Color \<Rightarrow> ColorTarget \<Rightarrow> ColorMode \<Rightarrow> RGBColor result" where
  "apply_color p c target mode =
    (case color_type c of
       Some RGBType \<Rightarrow> Inr (color_rgb c)
     | Some IndexedType \<Rightarrow>
         (let index = unat (color_index c) in
          if mode = Bright \<and> index < 8 then brightColor index p
          else if mode = Dimmed \<and> index < 8 then dimColor index p
          else indexedColor index p)
     | Some BrightType \<Rightarrow> brightColor (unat (color_index c)) p
     | Some _ \<Rightarrow>
         (if target = Foreground
          then Inr (case mode of Normal \<Rightarrow> defaultForeground p | Bright \<Rightarrow> defaultForegroundBright p
                    | Dimmed \<Rightarrow> defaultForegroundDimmed p)
          else Inr (defaultBackground p))
     | None \<Rightarrow> Inl Unreachable)"

definition cube_level :: "nat \<Rightarrow> u8" where
  "cube_level n = (if n \<noteq> 0 then word_of_nat (n * 40 + 55) else 0)"

definition cube_color :: "nat \<times> nat \<times> nat \<Rightarrow> RGBColor" where
  "cube_color = (\<lambda>(red, green, blue).
    \<lparr>rgb_red = cube_level red, rgb_green = cube_level green, rgb_blue = cube_level blue\<rparr>)"

definition gray_color :: "nat \<Rightarrow> RGBColor" where
  "gray_color gray = (let level = word_of_nat (gray * 10 + 8) in
    \<lparr>rgb_red = level, rgb_green = level, rgb_blue = level\<rparr>)"

text \<open>Assignments to consecutive entries of the array, from a given index on.\<close>

definition set_colors_from :: "nat \<Rightarrow> u32 list \<Rightarrow> RGBColor list \<Rightarrow> RGBColor list" where
  "set_colors_from start vs colors =
    fold (\<lambda>(i, v) colors. colors[i := rgb_of_value v]) (enumerate start vs) colors"

abbreviation set_colors :: "u32 list \<Rightarrow> RGBColor list \<Rightarrow> RGBColor list" where
  "set_colors \<equiv> set_colors_from 0"

definition set_cube :: "RGBColor list \<Rightarrow> RGBColor list" where
  "set_cube colors =
    fold (\<lambda>(red, green, blue) colors.
        colors[16 + red * 36 + green * 6 + blue := cube_color (red, green, blue)])
      (List.product [0..<6] (List.product [0..<6] [0..<6])) colors"

definition set_gray :: "RGBColor list \<Rightarrow> RGBColor list" where
  "set_gray colors = fold (\<lambda>gray colors. colors[232 + gray := gray_color gray]) [0..<24] colors"

definition defaultColorPalette :: "RGBColor list" where
  "defaultColorPalette =
    (let colors = replicate 264 \<lparr>rgb_red = 0, rgb_green = 0, rgb_blue = 0\<rparr>;
         colors = set_colors
           [0x000000, 0xc63939, 0x00a000, 0xa0a000, 0x4d79ff, 0xff66ff, 0x00a0a0, 0xc0c0c0,
            0x707070, 0xff0000, 0x00ff00, 0xffff00, 0x0000ff, 0xff00ff, 0x00ffff, 0xffffff] colors;
         colors = set_gray (set_cube colors)
     in set_colors_from 256
          [0x000000, 0xa00000, 0x008000, 0x808000, 0x000080, 0x800080, 0x008080, 0x808080] colors)"

definition defaultPalette :: ColorPalette where
  "defaultPalette =
    \<lparr>useBrightColors = False, palette = defaultColorPalette,
     defaultForeground = rgb_of_value 0xD0D0D0, defaultBackground = rgb_of_value 0x1a1716,
     defaultForegroundBright = rgb_of_value 0xFFFFFF, defaultForegroundDimmed = rgb_of_value 0x808080,
     cursorColor = CellForegroundColor,
     mouseForeground = rgb_of_value 0x800000, mouseBackground = rgb_of_value 0x808000\<rparr>"

text \<open>The named palettes, each as the assignments its function makes.\<close>

definition palette_contour :: "ColorPalette \<Rightarrow> ColorPalette" where
  "palette_contour p = p"

definition palette_monokai :: "ColorPalette \<Rightarrow> ColorPalette" where
  "palette_monokai p =
    p\<lparr>palette := set_colors
        [0x272822, 0xf92672, 0xa6e22e, 0xf4bf75, 0x66d9ef, 0xae81ff, 0xa1efe4, 0xf8f8f2,
         0x75715e, 0xf92672, 0xa6e22e, 0xf4bf75, 0x66d9ef, 0xae81ff, 0xa1efe4, 0xf8f8f2] (palette p),
      defaultForeground := rgb_of_value 0xf8f8f2, defaultBackground := rgb_of_value 0x272822,
      defaultForegroundBright := rgb_of_value 0xf8f8f2,
      defaultForegroundDimmed := rgb_of_value 0x75715e, mouseForeground := rgb_of_value 0xf8f8f2,
      mouseBackground := rgb_of_value 0x272822, cursorColor := CellRGB (rgb_of_value 0xf8f8f2)\<rparr>"

definition palette_one_light :: "ColorPalette \<Rightarrow> ColorPalette" where
  "palette_one_light p =
    p\<lparr>palette := set_colors
        [0x000000, 0xda3e39, 0x41933e, 0x855504, 0x315eee, 0x930092, 0x0e6fad, 0x8e8f96,
         0x2a2b32, 0xda3e39, 0x41933e, 0x855504, 0x315eee, 0x930092, 0x0e6fad, 0xfffefe] (palette p),
      defaultForeground := rgb_of_value 0x2a2b32, defaultBackground := rgb_of_value 0xf8f8f8,
      cursorColor := CellRGB (rgb_of_value 0x2a2b32)\<rparr>"

definition palette_one_dark :: "ColorPalette \<Rightarrow> ColorPalette" where
  "palette_one_dark p =
    p\<lparr>palette := set_colors
        [0x000000, 0xe06c75, 0x98c379, 0xe5c07b, 0x61afef, 0xc678dd, 0x56b6c2, 0xabb2bf,
         0x5c6370, 0xe06c75, 0x98c379, 0xd19a66, 0x61afef, 0xc678dd, 0x56b6c2, 0xfffefe] (palette p),
      defaultForeground := rgb_of_value 0x5c6370, defaultBackground := rgb_of_value 0x1e2127,
      defaultForegroundBright := rgb_of_value 0x5c6370,
      defaultForegroundDimmed := rgb_of_value 0x545862, mouseForeground := rgb_of_value 0xabb2bf,
      mouseBackground := rgb_of_value 0x282c34, cursorColor := CellRGB (rgb_of_value 0x5c6370)\<rparr>"

definition palette_gruvbox_light :: "ColorPalette \<Rightarrow> ColorPalette" where
  "palette_gruvbox_light p =
    p\<lparr>palette := set_colors
        [0xfbf1c7, 0xcc241d, 0x98971a, 0xd79921, 0x458588, 0xb16286, 0x689d6a, 0x7c6f64,
         0x928374, 0x9d0006, 0x79740e, 0xb57614, 0x076678, 0x8f3f71, 0x427b58, 0x3c3836] (palette p),
      defaultForeground := rgb_of_value 0x3c3836, defaultBackground := rgb_of_value 0xfbf1c7,
      cursorColor := CellRGB (rgb_of_value 0x3c3836)\<rparr>"

definition palette_gruvbox_dark :: "ColorPalette \<Rightarrow> ColorPalette" where
  "palette_gruvbox_dark p =
    p\<lparr>palette := set_colors
        [0x282828, 0xcc241d, 0x98971a, 0xd79921, 0x458588, 0xb16286, 0x689d6a, 0xa89984,
         0x928374, 0xfb4934, 0xb8bb26, 0xfabd2f, 0x83a598, 0xd3869b, 0x8ec07c, 0xebdbb2] (palette p),
      defaultForeground := rgb_of_value 0xebdbb2, defaultBackground := rgb_of_value 0x292929,
      cursorColor := CellRGB (rgb_of_value 0xebdbb2)\<rparr>"

definition palette_solarized_light :: "ColorPalette \<Rightarrow> ColorPalette" where
  "palette_solarized_light p =
    p\<lparr>palette := set_colors
        [0xeee8d5, 0xdc322f, 0x859900, 0xb58900, 0x268bd2, 0xd33682, 0x2aa198, 0x002b36,
         0x657b83, 0xcb4b16, 0x859900, 0xb58900, 0x6c71c4, 0xd33682, 0x2aa198, 0x073642] (palette p),
      defaultForeground := rgb_of_value 0x657b83, defaultBackground := rgb_of_value 0xfdf6e3,
      cursorColor := CellRGB (rgb_of_value 0x657b83)\<rparr>"

definition palette_solarized_dark :: "ColorPalette \<Rightarrow> ColorPalette" where
  "palette_solarized_dark p =
    p\<lparr>palette := set_colors
        [0x073642, 0xdc322f, 0x859900, 0xcf9a6b, 0x268bd2, 0xd33682, 0x2aa198, 0xeee8d5,
         0x657b83, 0xcb4b16, 0x859900, 0xcf9a6b, 0x6c71c4, 0xd33682, 0x2aa198, 0xfdf6e3] (palette p),
      defaultForeground := rgb_of_value 0x839496, defaultBackground := rgb_of_value 0x002b36,
      cursorColor := CellRGB (rgb_of_value 0x839496)\<rparr>"

definition palette_papercolor_light :: "ColorPalette \<Rightarrow> ColorPalette" where
  "palette_papercolor_light p =
    p\<lparr>palette := set_colors
        [0xeeeeee, 0xaf0000, 0x008700, 0x5f8700, 0x0087af, 0x878787, 0x005f87, 0x444444,
         0xbcbcbc, 0xd70000, 0xd70087, 0x8700af, 0xd75f00, 0xd75f00, 0x005faf, 0x005f87] (palette p),
      defaultForeground := rgb_of_value 0x444444, defaultBackground := rgb_of_value 0xeeeeee,
      cursorColor := CellRGB (rgb_of_value 0x444444)\<rparr>"

definition palette_papercolor_dark :: "ColorPalette \<Rightarrow> ColorPalette" where
  "palette_papercolor_dark p =
    p\<lparr>palette := set_colors
        [0x1C1C1C, 0xAF005F, 0x5FAF00, 0xD7AF5F, 0x5FAFD7, 0x808080, 0xD7875F, 0xD0D0D0,
         0x585858, 0x5FAF5F, 0xAFD700, 0xAF87D7, 0xFFAF00, 0xFF5FAF, 0x00AFAF, 0x5F8787] (palette p),
      defaultForeground := rgb_of_value 0xd0d0d0, defaultBackground := rgb_of_value 0x1c1c1c,
      cursorColor := CellRGB (rgb_of_value 0xd0d0d0)\<rparr>"

definition definedColorPalettes :: "(string \<times> (ColorPalette \<Rightarrow> ColorPalette)) list" where
  "definedColorPalettes =
    [(''contour'', palette_contour),
     (''monokai'', palette_monokai),
     (''one-light'', palette_one_light),
     (''one-dark'', palette_one_dark),
     (''gruvbox-light'', palette_gruvbox_light),
     (''gruvbox-dark'', palette_gruvbox_dark),
     (''solarized-light'', palette_solarized_light),
     (''solarized-dark'', palette_solarized_dark),
     (''papercolor-light'', palette_papercolor_light),
     (''papercolor-dark'', palette_papercolor_dark)]"

definition defaultColorPalettes :: "string \<Rightarrow> ColorPalette \<Rightarrow> bool \<times> ColorPalette" where
  "defaultColorPalettes colorPaletteName p =
    (case map_of definedColorPalettes colorPaletteName of
       Some assign \<Rightarrow> (True, assign p)
     | None \<Rightarrow> (False, p))"

subsection \<open>The packed representations\<close>


lemma byte_mask: "(0xFF :: u32) = mask 8"
  by (simp add: mask_eq_exp_minus_1)

lemma rgb_mask: "(0xFFFFFF :: u32) = mask 24"
  by (simp add: mask_eq_exp_minus_1)

lemma rgb_of_value_alt:
  "rgb_of_value v =
    \<lparr>rgb_red = ucast (drop_bit 16 v), rgb_green = ucast (drop_bit 8 v), rgb_blue = ucast v\<rparr>"
  unfolding rgb_of_value_def byte_mask
  by (auto intro!: bit_word_eqI simp: bit_simps)

lemma rgb_roundtrip [simp]: "rgb_of_value (rgb_value c) = c"
proof -
  have "ucast (drop_bit 16 (rgb_value c)) = rgb_red c"
    by (rule bit_word_eqI) (auto simp: rgb_value_def bit_simps dest: bit_imp_le_length)
  moreover have "ucast (drop_bit 8 (rgb_value c)) = rgb_green c"
    by (rule bit_word_eqI) (auto simp: rgb_value_def bit_simps dest: bit_imp_le_length)
  moreover have "ucast (rgb_value c) = rgb_blue c"
    by (rule bit_word_eqI) (auto simp: rgb_value_def bit_simps dest: bit_imp_le_length)
  ultimately show ?thesis by (simp add: rgb_of_value_alt)
qed

lemma rgb_value_bound: "bit (rgb_value c) n \<Longrightarrow> n < 24"
  by (auto simp: rgb_value_def bit_simps dest: bit_imp_le_length)

lemma type_code_bound: "bit (color_type_code t) n \<Longrightarrow> n < 3"
proof -
  assume "bit (color_type_code t) n"
  moreover have "color_type_code t AND mask 3 = color_type_code t"
    by (cases t) (simp_all add: mask_eq_exp_minus_1)
  ultimately show ?thesis by (metis bit_and_iff bit_mask_iff)
qed

lemma type_field:
  assumes "\<And>n. bit v n \<Longrightarrow> n < 24"
  shows "drop_bit 24 (v OR push_bit 24 (color_type_code t)) AND 0xFF = color_type_code t"
  unfolding byte_mask using assms
  by (intro bit_word_eqI) (auto simp: bit_simps dest: type_code_bound assms)

lemma color_type_packed:
  assumes "\<And>n. bit v n \<Longrightarrow> n < 24"
  shows "color_type \<lparr>color_content = v OR push_bit 24 (color_type_code t)\<rparr> = Some t"
  using type_field [of v t, OF assms] by (cases t) (simp_all add: color_type_def Let_def)

lemma index_bound: "bit (ucast (v :: u8) AND 0xFF :: u32) n \<Longrightarrow> n < 8"
  by (auto simp: byte_mask bit_simps)

lemma color_index_packed:
  "color_index \<lparr>color_content = (ucast v AND 0xFF) OR push_bit 24 w\<rparr> = v"
  unfolding color_index_def byte_mask
  by (rule bit_word_eqI) (auto simp: bit_simps dest: bit_imp_le_length)

lemma mk_color_commute:
  "mk_color t v = \<lparr>color_content = (ucast v AND 0xFF) OR push_bit 24 (color_type_code t)\<rparr>"
  by (simp add: mk_color_def or.commute)

lemma color_of_mk_color: "color_of_bright = mk_color BrightType" "color_of_indexed = mk_color IndexedType"
  by (simp_all add: fun_eq_iff mk_color_commute color_of_bright_def color_of_indexed_def)

lemma color_type_mk_color [simp]: "color_type (mk_color t v) = Some t"
  unfolding mk_color_commute by (rule color_type_packed) (auto dest: index_bound)

lemma color_index_mk_color [simp]: "color_index (mk_color t v) = v"
  unfolding mk_color_commute by (rule color_index_packed)

lemma color_type_of_rgb [simp]: "color_type (color_of_rgb c) = Some RGBType"
  unfolding color_of_rgb_def by (rule color_type_packed) (rule rgb_value_bound)

lemma color_rgb_of_rgb [simp]: "color_rgb (color_of_rgb c) = c"
proof -
  have "color_content (color_of_rgb c) AND 0xFFFFFF = rgb_value c"
    unfolding color_of_rgb_def rgb_mask
    by (rule bit_word_eqI)
      (auto simp: bit_simps dest: rgb_value_bound simp del: color_type_code.simps)
  then show ?thesis by (simp add: color_rgb_def)
qed

lemma rgba_fields:
  "rgba_red (mk_rgba r g b a) = r" "rgba_green (mk_rgba r g b a) = g"
  "rgba_blue (mk_rgba r g b a) = b" "rgba_alpha (mk_rgba r g b a) = a"
  unfolding rgba_red_def rgba_green_def rgba_blue_def rgba_alpha_def mk_rgba_def byte_mask
  by ((rule bit_word_eqI), auto simp: bit_simps dest: bit_imp_le_length)+

lemma rgba_rgb_with_alpha: "rgba_rgb (rgba_with_alpha c a) = c"
proof -
  have "ucast (drop_bit 24 (rgba_value (rgba_with_alpha c a))) = rgb_red c"
    by (rule bit_word_eqI) (auto simp: rgba_with_alpha_def mk_rgba_def bit_simps dest: bit_imp_le_length)
  moreover have "ucast (drop_bit 16 (rgba_value (rgba_with_alpha c a))) = rgb_green c"
    by (rule bit_word_eqI) (auto simp: rgba_with_alpha_def mk_rgba_def bit_simps dest: bit_imp_le_length)
  moreover have "ucast (drop_bit 8 (rgba_value (rgba_with_alpha c a))) = rgb_blue c"
    by (rule bit_word_eqI) (auto simp: rgba_with_alpha_def mk_rgba_def bit_simps dest: bit_imp_le_length)
  ultimately show ?thesis by (simp add: rgba_rgb_def rgb_of_value_alt)
qed

lemma newColor_undefined: "newColor = UndefinedColor"
  by (simp add: newColor_def UndefinedColor_def mk_color_def)

lemma color_type_newColor: "color_type newColor = Some UndefinedType"
  by (simp add: newColor_def color_type_def)

subsection \<open>Texts\<close>

lemma hex_upper_facts:
  assumes "n < 16"
  shows "digit_value (hex_upper n) = Some n" "is_digit_of 16 (hex_upper n)"
    "integer_digit 16 (hex_upper n) = Some n" "\<not> is_space (hex_upper n)"
    "hex_upper n \<noteq> 0x2D" "hex_upper n \<noteq> 0x2B" "hex_upper n \<noteq> 0x78" "hex_upper n \<noteq> 0x58"
  using assms
  by (auto simp: hex_upper_def digit_value_def is_digit_of_def integer_digit_def is_space_def)

lemma nibbles: "unat (v :: u8) div 16 < 16" "unat v mod 16 < 16" "unat v div 16 * 16 + unat v mod 16 = unat v"
proof -
  have "unat v < 256" using unsigned_less [of v, where ?'a = nat] by simp
  then show "unat v div 16 < 16" by (simp add: less_mult_imp_div_less)
qed simp_all

lemma to_integer_format: "to_integer 16 256 (format_02X v) = Some (unat v)"
proof -
  have "unat v < 256" using unsigned_less [of v, where ?'a = nat] by simp
  moreover have "(unat v div 16 * 16 mod 256 + unat v mod 16) mod 256 = unat v"
    using nibbles [of v] \<open>unat v < 256\<close> by simp
  ultimately show ?thesis
    using nibbles(1,2) [of v]
    by (simp add: to_integer_def format_02X_def hex_upper_facts)
qed

lemma strtoul16_hex:
  assumes "ds \<noteq> []" "\<forall>d \<in> set ds. d < 16" "length ds \<le> 8"
  shows "strtoul16 (map hex_upper ds) = (foldl (\<lambda>a d. a * 16 + d) 0 ds, [])"
proof -
  have digit: "is_digit_of 16 b" if "b \<in> set (map hex_upper ds)" for b
    using that assms(2) by (auto simp: hex_upper_facts)
  have digits: "digits_value 16 acc (map hex_upper es) = foldl (\<lambda>a d. a * 16 + d) acc es"
    if "\<forall>d \<in> set es. d < 16" for acc es
    using that by (induction es arbitrary: acc) (simp_all add: hex_upper_facts)
  have bound: "foldl (\<lambda>a d. a * 16 + d) acc es < (acc + 1) * 16 ^ length es"
    if "\<forall>d \<in> set es. d < 16" for acc :: nat and es
    using that
  proof (induction es arbitrary: acc)
    case (Cons e es)
    from Cons.IH [of "acc * 16 + e"] Cons.prems
    have "foldl (\<lambda>a d. a * 16 + d) acc (e # es) < (acc * 16 + e + 1) * 16 ^ length es" by simp
    also have "\<dots> \<le> ((acc + 1) * 16) * 16 ^ length es"
      using Cons.prems by (intro mult_right_mono) auto
    finally show ?case by (simp add: algebra_simps)
  qed simp
  have "foldl (\<lambda>a d. a * 16 + d) 0 ds < 16 ^ length ds" using bound [OF assms(2), of 0] by simp
  also have "\<dots> \<le> 16 ^ 8" using assms(3) by (intro power_increasing) auto
  finally have small: "foldl (\<lambda>a d. a * 16 + d) 0 ds < 18446744073709551616" by simp
  obtain e es where ds: "ds = e # es" using assms(1) by (cases ds) auto
  have e: "e < 16" using assms(2) ds by simp
  have no_prefix: "(case map hex_upper ds of
      a # b # c # cs \<Rightarrow>
        if a = 48 \<and> (b = 0x78 \<or> b = 0x58) \<and> is_digit_of 16 c then c # cs else map hex_upper ds
      | _ \<Rightarrow> map hex_upper ds) = map hex_upper ds"
    using assms(2) by (auto simp: hex_upper_facts split: list.split)
  have "dropWhile (is_digit_of 16) (map hex_upper ds) = []"
    using digit by (simp add: dropWhile_eq_Nil_conv)
  moreover have "dropWhile is_space (map hex_upper ds) = map hex_upper ds"
    using e by (simp add: ds hex_upper_facts)
  moreover have "hd (map hex_upper ds) \<noteq> 0x2D" "hd (map hex_upper ds) \<noteq> 0x2B"
      "is_digit_of 16 (hd (map hex_upper ds))" "map hex_upper ds \<noteq> []"
    using e by (simp_all add: ds hex_upper_facts)
  ultimately show ?thesis
    using small unfolding strtoul16_def by (simp add: Let_def no_prefix digits [OF assms(2)])
qed

definition rgb_digits :: "RGBColor \<Rightarrow> nat list" where
  "rgb_digits c =
    [unat (rgb_red c) div 16, unat (rgb_red c) mod 16, unat (rgb_green c) div 16,
     unat (rgb_green c) mod 16, unat (rgb_blue c) div 16, unat (rgb_blue c) mod 16]"

lemma rgb_digits_less: "\<forall>d \<in> set (rgb_digits c). d < 16"
  using nibbles by (simp add: rgb_digits_def)

lemma rgb_value_nat:
  "rgb_value c = word_of_nat (unat (rgb_red c) * 65536 + unat (rgb_green c) * 256 + unat (rgb_blue c))"
proof -
  let ?r = "push_bit 16 (ucast (rgb_red c)) :: u32" and ?g = "push_bit 8 (ucast (rgb_green c)) :: u32"
  have "rgb_value c = ?r + (?g + ucast (rgb_blue c))"
    unfolding rgb_value_def or.assoc
    by (subst disjunctive_add, force simp: bit_simps dest: bit_imp_le_length,
        subst disjunctive_add, force simp: bit_simps dest: bit_imp_le_length) simp
  then show ?thesis
    by (simp add: push_bit_eq_mult mult.commute)
qed

lemma rgb_digits_value:
  "rgb_of_value (word_of_nat (foldl (\<lambda>a d. a * 16 + d) 0 (rgb_digits c))) = c"
proof -
  have shift: "(x * 16 + unat v div 16) * 16 + unat v mod 16 = x * 256 + unat v" for x and v :: u8
    using nibbles(3) [of v] by (simp add: algebra_simps)
  have "foldl (\<lambda>a d. a * 16 + d) 0 (rgb_digits c)
      = unat (rgb_red c) * 65536 + unat (rgb_green c) * 256 + unat (rgb_blue c)"
    using nibbles(3) [of "rgb_red c"] by (simp add: rgb_digits_def shift)
  then show ?thesis by (metis rgb_roundtrip rgb_value_nat)
qed

lemma to_string_rgb_digits: "to_string_rgb c = 39 # 35 # map hex_upper (rgb_digits c) @ [39]"
  by (simp add: to_string_rgb_def format_02X_def rgb_digits_def)

subsection \<open>The palette\<close>

lemma length_fold_update [simp]:
  "length (fold (\<lambda>x cs. cs[f x := g x]) xs cs) = length cs"
  by (induction xs arbitrary: cs) simp_all

lemma nth_fold_update_other:
  "k \<notin> f ` set xs \<Longrightarrow> fold (\<lambda>x cs. cs[f x := g x]) xs cs ! k = cs ! k"
  by (induction xs arbitrary: cs) simp_all

lemma nth_fold_update:
  assumes "inj_on f (set xs)" "distinct xs" "x \<in> set xs" "f x < length cs"
  shows "fold (\<lambda>x cs. cs[f x := g x]) xs cs ! f x = g x"
  using assms
proof (induction xs arbitrary: cs)
  case (Cons y ys)
  show ?case
  proof (cases "x = y")
    case True
    have "f y \<notin> f ` set ys" using Cons.prems(1,2) by auto
    with True Cons.prems(4) show ?thesis by (simp add: nth_fold_update_other)
  next
    case False
    with Cons.IH [of "cs[f y := g y]"] Cons.prems show ?thesis by (simp add: inj_on_def)
  qed
qed simp

lemma length_set_colors_from [simp]: "length (set_colors_from n vs cs) = length cs"
proof -
  have "(\<lambda>(i, v) colors. colors[i := rgb_of_value v])
      = (\<lambda>p colors. colors[fst p := rgb_of_value (snd p)])"
    by (auto simp: fun_eq_iff)
  then show ?thesis by (simp add: set_colors_from_def)
qed

lemma nth_set_colors_from_other:
  assumes "k < n \<or> n + length vs \<le> k"
  shows "set_colors_from n vs cs ! k = cs ! k"
proof -
  have "(\<lambda>(i, v) colors. colors[i := rgb_of_value v])
      = (\<lambda>p colors. colors[fst p := rgb_of_value (snd p)])"
    by (auto simp: fun_eq_iff)
  moreover have "k \<notin> fst ` set (enumerate n vs)"
  proof
    assume "k \<in> fst ` set (enumerate n vs)"
    then obtain v where "(k, v) \<in> set (enumerate n vs)" by auto
    with assms show False by (simp add: in_set_enumerate_eq)
  qed
  ultimately show ?thesis by (simp add: set_colors_from_def nth_fold_update_other)
qed

text \<open>The six-by-six-by-six cube has its index function injective on the loop's triples.\<close>

definition cube_index :: "nat \<times> nat \<times> nat \<Rightarrow> nat" where
  "cube_index = (\<lambda>(red, green, blue). 16 + red * 36 + green * 6 + blue)"

lemma cube_index_inj: "inj_on cube_index (set (List.product [0..<6] (List.product [0..<6] [0..<6])))"
proof (rule inj_onI)
  fix x y
  assume x: "x \<in> set (List.product [0..<6] (List.product [0..<6] [0..<6]))"
    and y: "y \<in> set (List.product [0..<6] (List.product [0..<6] [0..<6]))"
    and eq: "cube_index x = cube_index y"
  obtain r g b where x': "x = (r, g, b)" by (cases x) auto
  obtain r' g' b' where y': "y = (r', g', b')" by (cases y) auto
  have less: "g < 6" "b < 6" "g' < 6" "b' < 6" using x y by (simp_all add: x' y')
  have digits: "u = u' \<and> d = d'" if "u * 6 + d = u' * 6 + d'" "d < 6" "d' < 6" for u u' d d' :: nat
    using that by presburger
  have "(r * 6 + g) * 6 + b = (r' * 6 + g') * 6 + b'"
    using eq by (simp add: x' y' cube_index_def)
  from digits [OF this] less digits [of r g r' g'] have "r = r' \<and> g = g' \<and> b = b'" by simp
  then show "x = y" by (simp add: x' y')
qed

lemma cube_index_range:
  "x \<in> set (List.product [0..<6] (List.product [0..<6] [0..<6])) \<Longrightarrow> 16 \<le> cube_index x \<and> cube_index x < 232"
  by (auto simp: cube_index_def)

lemma set_cube_alt:
  "set_cube cs = fold (\<lambda>x colors. colors[cube_index x := cube_color x])
    (List.product [0..<6] (List.product [0..<6] [0..<6])) cs"
  unfolding set_cube_def
  by (rule arg_cong [where f = "\<lambda>f. fold f (List.product [0..<6] (List.product [0..<6] [0..<6])) cs"])
    (auto simp: fun_eq_iff cube_index_def)

lemma length_set_cube [simp]: "length (set_cube cs) = length cs"
  by (simp add: set_cube_alt)

lemma length_set_gray [simp]: "length (set_gray cs) = length cs"
  by (simp add: set_gray_def)

lemma length_defaultColorPalette [simp]: "length defaultColorPalette = 264"
  by (simp add: defaultColorPalette_def Let_def)

lemma nth_set_cube:
  assumes "r < 6" "g < 6" "b < 6" "length cs = 264"
  shows "set_cube cs ! (16 + r * 36 + g * 6 + b) = cube_color (r, g, b)"
proof -
  let ?xs = "List.product [0..<6] (List.product [0..<6] [0..<6])"
  have x: "(r, g, b) \<in> set ?xs" using assms by simp
  have "distinct ?xs" by (intro distinct_product) simp_all
  from nth_fold_update [OF cube_index_inj this x, of cs cube_color] cube_index_range [OF x] assms(4)
  have "set_cube cs ! cube_index (r, g, b) = cube_color (r, g, b)"
    unfolding set_cube_alt by simp
  then show ?thesis by (simp add: cube_index_def)
qed

lemma nth_set_gray:
  assumes "n < 24" "length cs = 264"
  shows "set_gray cs ! (232 + n) = gray_color n"
  using nth_fold_update [of "\<lambda>gray. 232 + gray" "[0..<24]" n cs gray_color] assms
  by (simp add: set_gray_def del: upt_Suc)

lemma nth_set_gray_other: "k < 232 \<Longrightarrow> set_gray cs ! k = cs ! k"
  unfolding set_gray_def by (rule nth_fold_update_other) auto

lemma palette_cube:
  assumes "r < 6" "g < 6" "b < 6"
  shows "defaultColorPalette ! (16 + r * 36 + g * 6 + b)
    = \<lparr>rgb_red = cube_level r, rgb_green = cube_level g, rgb_blue = cube_level b\<rparr>"
proof -
  have "16 + r * 36 + g * 6 + b < 232" using assms by simp
  with assms show ?thesis
    unfolding defaultColorPalette_def Let_def
    by (simp add: nth_set_colors_from_other nth_set_gray_other nth_set_cube cube_color_def)
qed

lemma palette_gray:
  assumes "n < 24"
  shows "defaultColorPalette ! (232 + n) = gray_color n"
  using assms unfolding defaultColorPalette_def Let_def
  by (simp add: nth_set_colors_from_other nth_set_gray)

text \<open>Every palette a name selects keeps the shape of the array and its entries from 16 on.\<close>

definition palette_ok :: "ColorPalette \<Rightarrow> bool" where
  "palette_ok p \<longleftrightarrow> length (palette p) = 264"

lemma palette_ok_default: "palette_ok defaultPalette"
  by (simp add: palette_ok_def defaultPalette_def)

lemmas named_palettes = palette_contour_def palette_monokai_def palette_one_light_def
  palette_one_dark_def palette_gruvbox_light_def palette_gruvbox_dark_def
  palette_solarized_light_def palette_solarized_dark_def palette_papercolor_light_def
  palette_papercolor_dark_def

lemma named_palette_frame:
  assumes "assign \<in> snd ` set definedColorPalettes"
  shows "length (palette (assign p)) = length (palette p)"
    and "16 \<le> k \<Longrightarrow> palette (assign p) ! k = palette p ! k"
    and "useBrightColors (assign p) = useBrightColors p"
proof -
  show "length (palette (assign p)) = length (palette p)"
    using assms by (auto simp: definedColorPalettes_def named_palettes)
  show "useBrightColors (assign p) = useBrightColors p"
    using assms by (auto simp: definedColorPalettes_def named_palettes)
  assume "16 \<le> k"
  then show "palette (assign p) ! k = palette p ! k"
    using assms
    by (auto simp: definedColorPalettes_def named_palettes intro!: nth_set_colors_from_other)
qed

lemma defaultColorPalettes_frame:
  assumes "defaultColorPalettes name p = (found, p')"
  shows "length (palette p') = length (palette p)"
    and "16 \<le> k \<Longrightarrow> palette p' ! k = palette p ! k"
proof -
  have "p' = p \<or> (\<exists>assign \<in> snd ` set definedColorPalettes. p' = assign p)"
    using assms
    by (force simp: defaultColorPalettes_def split: option.splits dest: map_of_SomeD)
  then show "length (palette p') = length (palette p)"
    and "16 \<le> k \<Longrightarrow> palette p' ! k = palette p ! k"
    by (metis named_palette_frame(1), metis named_palette_frame(2))
qed

lemma apply_color_drawable:
  assumes "palette_ok p" "color_type c \<noteq> None" "color_type c = Some BrightType \<longrightarrow> color_index c < 8"
  shows "\<exists>rgb. apply_color p c target mode = Inr rgb"
proof -
  have "unat (color_index c) < 256" using unsigned_less [of "color_index c", where ?'a = nat] by simp
  moreover have "unat (color_index c) < 8" if "color_index c < 8"
    using that by (simp add: word_less_nat_alt)
  ultimately show ?thesis
    using assms
    by (auto simp: apply_color_def brightColor_def dimColor_def indexedColor_def palette_at_def
        palette_ok_def Let_def split: option.split ColorType.split)
qed

subsection \<open>Distance\<close>

lemma uint_of_small: "0 \<le> x \<Longrightarrow> x < 4294967296 \<Longrightarrow> uint (word_of_int x :: u32) = x"
  by (simp add: uint_word_of_int_eq take_bit_int_eq_self)

lemma byte_range: "0 \<le> uint (v :: u8)" "uint v < 256"
  using unsigned_less [of v, where ?'a = int] by simp_all

lemma square_range:
  fixes a b :: int
  assumes "0 \<le> a" "a < 256" "0 \<le> b" "b < 256"
  shows "0 \<le> (a - b) * (a - b)" "(a - b) * (a - b) \<le> 65025"
proof -
  have "\<bar>a - b\<bar> \<le> 255" using assms by linarith
  then have "\<bar>a - b\<bar> * \<bar>a - b\<bar> \<le> 255 * 255" by (intro mult_mono) auto
  then show "(a - b) * (a - b) \<le> 65025" by (simp add: abs_mult_self_eq)
qed simp

text \<open>The weighted sum of squares in the wrapping arithmetic is the one over the integers.\<close>

lemma distance_square_int:
  defines "d f e1 e2 \<equiv> uint (f e1 :: u8) - uint (f e2)"
  defines "rmean e1 e2 \<equiv> (uint (rgb_red e1) + uint (rgb_red e2)) div 2"
  shows "uint (distance_square e1 e2) =
    (512 + rmean e1 e2) * (d rgb_red e1 e2 * d rgb_red e1 e2) div 256
    + 4 * (d rgb_green e1 e2 * d rgb_green e1 e2)
    + (767 - rmean e1 e2) * (d rgb_blue e1 e2 * d rgb_blue e1 e2) div 256"
proof -
  let ?m = "rmean e1 e2" and ?r = "d rgb_red e1 e2" and ?g = "d rgb_green e1 e2" and ?b = "d rgb_blue e1 e2"
  have m: "0 \<le> ?m" "?m \<le> 255" using byte_range [of "rgb_red e1"] byte_range [of "rgb_red e2"]
    by (simp_all add: rmean_def)
  have sq: "0 \<le> ?r * ?r" "?r * ?r \<le> 65025" "0 \<le> ?g * ?g" "?g * ?g \<le> 65025"
      "0 \<le> ?b * ?b" "?b * ?b \<le> 65025"
    unfolding d_def by (rule square_range; rule byte_range)+
  have wm: "(ucast (rgb_red e1) + ucast (rgb_red e2)) div 2 = (word_of_int ?m :: u32)"
  proof -
    have "uint (ucast (rgb_red e1) + ucast (rgb_red e2) :: u32) = uint (rgb_red e1) + uint (rgb_red e2)"
      unfolding ucast_eq wi_hom_add using byte_range [of "rgb_red e1"] byte_range [of "rgb_red e2"]
      by (intro uint_of_small) linarith+
    then show ?thesis unfolding word_div_def rmean_def by simp
  qed
  have wd: "ucast (f e1) - ucast (f e2) = (word_of_int (d f e1 e2) :: u32)" for f :: "RGBColor \<Rightarrow> u8"
    unfolding ucast_eq wi_hom_sub d_def by (rule refl)
  have w1: "(512 + word_of_int ?m) * word_of_int ?r * word_of_int ?r
      = (word_of_int ((512 + ?m) * (?r * ?r)) :: u32)"
    by (simp add: mult.assoc)
  have w2: "(767 - word_of_int ?m) * word_of_int ?b * word_of_int ?b
      = (word_of_int ((767 - ?m) * (?b * ?b)) :: u32)"
    by (simp add: mult.assoc)
  have b1: "0 \<le> (512 + ?m) * (?r * ?r)" "(512 + ?m) * (?r * ?r) \<le> 767 * 65025"
    using m sq by (simp, intro mult_mono) simp_all
  have b2: "0 \<le> (767 - ?m) * (?b * ?b)" "(767 - ?m) * (?b * ?b) \<le> 767 * 65025"
    using m sq by (simp, intro mult_mono) simp_all
  have shift: "drop_bit 8 (word_of_int x :: u32) = word_of_int (x div 256)"
    if "0 \<le> x" "x \<le> 767 * 65025" for x
  proof -
    have "uint (drop_bit 8 (word_of_int x :: u32)) = x div 256"
      using that by (simp add: drop_bit_eq_div uint_div uint_of_small)
    then show ?thesis by (metis word_of_int_uint)
  qed
  have sum: "distance_square e1 e2 = word_of_int ((512 + ?m) * (?r * ?r) div 256 + 4 * (?g * ?g)
      + (767 - ?m) * (?b * ?b) div 256)"
    unfolding distance_square_def Let_def wm wd w1 w2 shift [OF b1] shift [OF b2]
    by (simp add: mult.assoc)
  have "0 \<le> (512 + ?m) * (?r * ?r) div 256" "(512 + ?m) * (?r * ?r) div 256 \<le> 194821"
      "0 \<le> (767 - ?m) * (?b * ?b) div 256" "(767 - ?m) * (?b * ?b) div 256 \<le> 194821"
    using b1 b2 by linarith+
  then show ?thesis unfolding sum using sq(3,4) by (intro uint_of_small) linarith+
qed

lemma distance_square_zero: "distance_square e1 e2 = 0 \<longleftrightarrow> e1 = e2"
proof
  assume zero: "distance_square e1 e2 = 0"
  let ?m = "(uint (rgb_red e1) + uint (rgb_red e2)) div 2"
  have m: "0 \<le> ?m" "?m \<le> 255" using byte_range [of "rgb_red e1"] byte_range [of "rgb_red e2"]
    by simp_all
  have pos: "x * (a * a) div 256 = 0 \<longleftrightarrow> a = 0" "0 \<le> x * (a * a) div 256" if "512 \<le> x" for x a :: int
  proof -
    have "x * (a * a) \<ge> 512" if "a \<noteq> 0"
    proof -
      have "a * a \<ge> 1" using that by (metis int_one_le_iff_zero_less not_square_less_zero not_le
            linorder_neqE_linordered_idom mult_eq_0_iff)
      then show ?thesis using \<open>512 \<le> x\<close> mult_mono [of 512 x 1 "a * a"] by simp
    qed
    then show "x * (a * a) div 256 = 0 \<longleftrightarrow> a = 0" by (cases "a = 0") (auto dest!: zdiv_mono1 [of 512 _ 256])
    show "0 \<le> x * (a * a) div 256" using that by (simp add: pos_imp_zdiv_nonneg_iff)
  qed
  from zero have "uint (distance_square e1 e2) = 0" by simp
  then have "uint (rgb_red e1) - uint (rgb_red e2) = 0 \<and> uint (rgb_green e1) - uint (rgb_green e2) = 0
      \<and> uint (rgb_blue e1) - uint (rgb_blue e2) = 0"
    unfolding distance_square_int
    using pos [of "512 + ?m" "uint (rgb_red e1) - uint (rgb_red e2)"]
      pos [of "767 - ?m" "uint (rgb_blue e1) - uint (rgb_blue e2)"] m
      zero_le_square [of "uint (rgb_green e1) - uint (rgb_green e2)"]
    by (smt (verit) mult_eq_0_iff)
  then show "e1 = e2" by (simp add: RGBColor.equality word_uint_eq_iff)
next
  assume "e1 = e2"
  then show "distance_square e1 e2 = 0" by (simp add: distance_square_def Let_def)
qed

lemma length_rgb_digits: "length (rgb_digits c) = 6"
  by (simp add: rgb_digits_def)

lemma isTooSimilar_iff:
  assumes "0 \<le> t" "t < 1"
  shows "isTooSimilar t p \<longleftrightarrow> pair_foreground p = pair_background p"
proof -
  let ?n = "unat (distance_square (pair_foreground p) (pair_background p))"
  have "sqrt (real ?n) \<le> t \<longleftrightarrow> ?n = 0"
  proof
    assume small: "sqrt (real ?n) \<le> t"
    show "?n = 0"
    proof (rule ccontr)
      assume "?n \<noteq> 0"
      then have "1 \<le> real ?n" by linarith
      then have "1 \<le> sqrt (real ?n)" by simp
      with small assms(2) show False by linarith
    qed
  qed (use assms in simp)
  then show ?thesis by (simp add: isTooSimilar_def distance_def unat_eq_zero distance_square_zero)
qed

subsection \<open>Properties\<close>

text \<open>
  The packed colours decode to what they were made from: type, index and channels of a
  \<open>Color\<close>, and the channels and alpha of an \<open>RGBAColor\<close>.
\<close>

theorem color_encoding_roundtrip:
  "color_type (color_of_rgb c) = Some RGBType \<and> color_rgb (color_of_rgb c) = c \<and>
   color_type (color_of_indexed i) = Some IndexedType \<and> color_index (color_of_indexed i) = i \<and>
   color_type (color_of_bright i) = Some BrightType \<and> color_index (color_of_bright i) = i \<and>
   isDefaultColor DefaultColor \<and> isUndefined newColor \<and>
   rgba_rgb (rgba_with_alpha c a) = c \<and> rgba_alpha (rgba_with_alpha c a) = a"
  by (simp add: color_of_mk_color color_type_newColor rgba_rgb_with_alpha isDefaultColor_def
      isUndefined_def DefaultColor_def)
    (simp add: rgba_with_alpha_def rgba_fields)

text \<open>
  The hexadecimal text of an RGB colour, without the quotes \<open>to_string\<close> puts around it, is
  read back by \<open>parseColor\<close> and by assignment from a string.
\<close>

theorem color_text_roundtrip:
  "let s = butlast (tl (to_string_rgb c)) in
   to_string_rgb c = [39] @ s @ [39] \<and> parseColor s = Some c \<and> rgb_assign old s = c \<and>
   parseColor (bytes ''rgb:'' @ format_02X (rgb_red c) @ [47] @ format_02X (rgb_green c) @ [47]
     @ format_02X (rgb_blue c)) = Some c"
proof -
  let ?s = "35 # map hex_upper (rgb_digits c)"
  have s: "butlast (tl (to_string_rgb c)) = ?s"
    by (simp add: to_string_rgb_digits butlast_append)
  have "strtoul16 (map hex_upper (rgb_digits c)) = (foldl (\<lambda>a d. a * 16 + d) 0 (rgb_digits c), [])"
    using rgb_digits_less by (intro strtoul16_hex) (simp_all add: rgb_digits_def)
  then have assign: "rgb_assign old ?s = c"
    using rgb_digits_value [of c] by (simp add: rgb_assign_def at_nul_def length_rgb_digits)
  have text_hash: "?s = 35 # format_02X (rgb_red c) @ format_02X (rgb_green c) @ format_02X (rgb_blue c)"
    by (simp add: format_02X_def rgb_digits_def)
  have channels: "parse_channels (format_02X (rgb_red c)) (format_02X (rgb_green c))
      (format_02X (rgb_blue c)) (\<lambda>c. c) = Some c"
    by (simp add: parse_channels_def to_integer_format)
  have two: "\<exists>a b. format_02X v = [a, b]" for v by (simp add: format_02X_def)
  obtain r1 r2 g1 g2 b1 b2 where rgb: "format_02X (rgb_red c) = [r1, r2]"
      "format_02X (rgb_green c) = [g1, g2]" "format_02X (rgb_blue c) = [b1, b2]"
    using two by metis
  have "parseColor ?s = Some c"
    unfolding text_hash using channels by (simp add: rgb parseColor_def substr_def)
  moreover have "parseColor (bytes ''rgb:'' @ format_02X (rgb_red c) @ [47] @ format_02X (rgb_green c)
      @ [47] @ format_02X (rgb_blue c)) = Some c"
    using channels by (simp add: rgb parseColor_def substr_def numeral_eq_Suc)
  ultimately show ?thesis
    using assign by (simp add: s Let_def to_string_rgb_digits)
qed

text \<open>
  C18. Under every built-in palette, applied to the default one, \<open>apply\<close> draws every RGB colour,
  every indexed colour, the default and the undefined colour, without an assertion and without an
  invalid index. Of the bright colours it draws the eight that exist; a bright colour of a higher
  index, which the constructor accepts too, runs into the assertion. The palettes keep the colour
  cube and the gray ramp at their indices.
\<close>

theorem palettes_draw_all_colors:
  assumes "defaultColorPalettes name defaultPalette = (found, p)"
  shows "(\<exists>rgb. apply_color p (color_of_rgb c) target mode = Inr rgb) \<and>
    (\<exists>rgb. apply_color p (color_of_indexed i) target mode = Inr rgb) \<and>
    (if i < 8 then \<exists>rgb. apply_color p (color_of_bright i) target mode = Inr rgb
     else apply_color p (color_of_bright i) target mode = Inl AssertionFailed) \<and>
    (\<exists>rgb. apply_color p DefaultColor target mode = Inr rgb) \<and>
    (\<exists>rgb. apply_color p UndefinedColor target mode = Inr rgb) \<and>
    (r < 6 \<and> g < 6 \<and> b < 6 \<longrightarrow>
      apply_color p (color_of_indexed (word_of_nat (16 + r * 36 + g * 6 + b))) target mode
      = Inr \<lparr>rgb_red = cube_level r, rgb_green = cube_level g, rgb_blue = cube_level b\<rparr>) \<and>
    (n < 24 \<longrightarrow>
      apply_color p (color_of_indexed (word_of_nat (232 + n))) target mode = Inr (gray_color n))"
proof -
  note frame = defaultColorPalettes_frame [OF assms]
  have ok: "palette_ok p" using frame(1) palette_ok_default by (simp add: palette_ok_def)
  have indexed: "apply_color p (color_of_indexed (word_of_nat k)) target mode
      = Inr (defaultColorPalette ! k)" if "16 \<le> k" "k < 256" for k
  proof -
    have "unat (word_of_nat k :: u8) = k" using that(2) by (simp add: unat_of_nat)
    with that ok frame(2) show ?thesis
      by (simp add: apply_color_def color_of_mk_color Let_def indexedColor_def palette_at_def
          palette_ok_def defaultPalette_def)
  qed
  have cube: "apply_color p (color_of_indexed (word_of_nat (16 + r * 36 + g * 6 + b))) target mode
      = Inr \<lparr>rgb_red = cube_level r, rgb_green = cube_level g, rgb_blue = cube_level b\<rparr>"
    if "r < 6" "g < 6" "b < 6"
    using that palette_cube [OF that] by (subst indexed) auto
  have gray: "apply_color p (color_of_indexed (word_of_nat (232 + n))) target mode = Inr (gray_color n)"
    if "n < 24"
    using that palette_gray [OF that] by (subst indexed) auto
  have rgb: "\<exists>rgb. apply_color p (color_of_rgb c) target mode = Inr rgb"
    and idx: "\<exists>rgb. apply_color p (color_of_indexed i) target mode = Inr rgb"
    and bright: "i < 8 \<Longrightarrow> \<exists>rgb. apply_color p (color_of_bright i) target mode = Inr rgb"
    and default: "\<exists>rgb. apply_color p DefaultColor target mode = Inr rgb"
    and undefined_color: "\<exists>rgb. apply_color p UndefinedColor target mode = Inr rgb"
    using ok by (auto intro!: apply_color_drawable simp: color_of_mk_color DefaultColor_def UndefinedColor_def)
  have beyond: "apply_color p (color_of_bright i) target mode = Inl AssertionFailed" if "\<not> i < 8"
    using that by (simp add: apply_color_def color_of_mk_color brightColor_def word_less_nat_alt)
  show ?thesis using rgb idx bright beyond default undefined_color cube gray by simp
qed

theorem palettes_draw_all_colors_witness:
  "\<exists>p. defaultColorPalettes ''monokai'' defaultPalette = (True, p) \<and>
    apply_color p (color_of_indexed 196) Foreground Normal
      = Inr \<lparr>rgb_red = 255, rgb_green = 0, rgb_blue = 0\<rparr>"
proof -
  have "defaultColorPalettes ''monokai'' defaultPalette = (True, palette_monokai defaultPalette)"
    by (simp add: defaultColorPalettes_def definedColorPalettes_def)
  from palettes_draw_all_colors [OF this, where r = 5 and g = 0 and b = 0 and target = Foreground
      and mode = Normal] this
  show ?thesis by (auto simp: cube_level_def)
qed

text \<open>
  With a threshold below one, as both default arguments are, two colours are too similar only
  if they are equal: \<open>distinct\<close> leaves every other pair as it is, and separates equal colours
  unless inverting a channel gives the same value, which no channel does.
\<close>

theorem distinct_colors_separates:
  assumes "0 \<le> t" "t < 1"
  shows "(isTooSimilar t p \<longleftrightarrow> pair_foreground p = pair_background p) \<and>
    \<not> isTooSimilar t (distinct_colors t p)"
proof -
  have odd: "255 - v \<noteq> v" for v :: u8
  proof
    assume "255 - v = v"
    then have "255 = v + v" by (metis diff_add_cancel)
    then have "odd (v + v)" by (metis numeral_eq_iff odd_numeral)
    then show False by simp
  qed
  have "rgb_inverse c \<noteq> c" for c
    using odd [of "rgb_red c"] by (metis RGBColor.select_convs(1) rgb_inverse_def)
  with isTooSimilar_iff [OF assms] show ?thesis by (simp add: distinct_colors_def)
qed

theorem distinct_colors_separates_witness:
  "distinct_colors (1 / 4) \<lparr>pair_foreground = rgb_of_value 0, pair_background = rgb_of_value 0\<rparr>
    = \<lparr>pair_foreground = rgb_inverse (rgb_of_value 0), pair_background = rgb_of_value 0\<rparr>"
  using distinct_colors_separates
    [of "1 / 4" "\<lparr>pair_foreground = rgb_of_value 0, pair_background = rgb_of_value 0\<rparr>"]
  by (simp add: distinct_colors_def)

end
