(* ===== verification/VT_Cell.thy ===== *)
theory VT_Cell
  imports VT_Color
begin

unbundle bit_operations_syntax

text \<open>
  The cells of the grid: \<open>crispy::flags\<close>, \<open>CellFlags.h\<close>, \<open>GraphicsAttributes.h\<close>, \<open>CellUtil.h\<close> and the
  two cell types \<open>SimpleCell\<close> and \<open>CompactCell\<close> of \<open>src/vtbackend/cell\<close>. A compact cell keeps what is
  rarely needed in a separate object, which it creates on demand; the abstraction \<open>cell_view\<close> is the
  simple cell it stands for, and the lemmas show for each operation that it does to the view what
  the simple cell's operation does, and under which condition.

  The image of a cell is its identity: the image and the offset of the fragment. Allocation does not
  fail. The width of a code point comes from libunicode and is a parameter.
\<close>

subsection \<open>Flags\<close>

datatype CellFlag =
    CF_Bold | CF_Faint | CF_Italic | CF_Underline
  | CF_Blinking | CF_Inverse | CF_Hidden | CF_CrossedOut
  | CF_DoublyUnderlined | CF_CurlyUnderlined | CF_DottedUnderline | CF_DashedUnderline
  | CF_Framed | CF_Encircled | CF_Overline | CF_RapidBlinking
  | CF_CharacterProtected | CF_WideCharContinuation

primrec cell_flag_bit :: "CellFlag \<Rightarrow> nat" where
  "cell_flag_bit CF_Bold = 0"
| "cell_flag_bit CF_Faint = 1"
| "cell_flag_bit CF_Italic = 2"
| "cell_flag_bit CF_Underline = 3"
| "cell_flag_bit CF_Blinking = 4"
| "cell_flag_bit CF_Inverse = 5"
| "cell_flag_bit CF_Hidden = 6"
| "cell_flag_bit CF_CrossedOut = 7"
| "cell_flag_bit CF_DoublyUnderlined = 8"
| "cell_flag_bit CF_CurlyUnderlined = 9"
| "cell_flag_bit CF_DottedUnderline = 10"
| "cell_flag_bit CF_DashedUnderline = 11"
| "cell_flag_bit CF_Framed = 12"
| "cell_flag_bit CF_Encircled = 13"
| "cell_flag_bit CF_Overline = 14"
| "cell_flag_bit CF_RapidBlinking = 15"
| "cell_flag_bit CF_CharacterProtected = 16"
| "cell_flag_bit CF_WideCharContinuation = 17"

type_synonym CellFlags = u32

definition flag :: "CellFlag \<Rightarrow> CellFlags" where
  "flag f = push_bit (cell_flag_bit f) 1"

definition flag_list :: "CellFlag list \<Rightarrow> CellFlags" where
  "flag_list fs = fold (\<lambda>f v. v OR flag f) fs 0"

definition flags_enable :: "CellFlags \<Rightarrow> CellFlags \<Rightarrow> CellFlags" where
  "flags_enable v f = v OR f"

definition flags_disable :: "CellFlags \<Rightarrow> CellFlags \<Rightarrow> CellFlags" where
  "flags_disable v f = v AND NOT f"

definition flags_contains :: "CellFlags \<Rightarrow> CellFlags \<Rightarrow> bool" where
  "flags_contains v f \<longleftrightarrow> v AND f = f"

definition flags_without :: "CellFlags \<Rightarrow> CellFlags \<Rightarrow> CellFlags" where
  "flags_without v f = v AND NOT f"

definition flags_any :: "CellFlags \<Rightarrow> bool" where
  "flags_any v \<longleftrightarrow> v \<noteq> 0"

text \<open>\<open>operator&=\<close> of \<open>crispy::flags\<close> is \<open>disable\<close>, not an intersection.\<close>

definition flags_and_assign :: "CellFlags \<Rightarrow> CellFlag \<Rightarrow> CellFlags" where
  "flags_and_assign v f = flags_disable v (flag f)"

text \<open>\<open>reduce\<close>: fold over the set bits, in ascending order.\<close>

definition flags_reduce :: "CellFlags \<Rightarrow> 'a \<Rightarrow> ('a \<Rightarrow> nat \<Rightarrow> 'a) \<Rightarrow> 'a" where
  "flags_reduce v init f =
    fold (\<lambda>i acc. if flags_contains v (push_bit i 1) then f acc i else acc) [0..<32] init"

primrec cell_flag_name :: "CellFlag \<Rightarrow> string" where
  "cell_flag_name CF_Bold = ''Bold''"
| "cell_flag_name CF_Faint = ''Faint''"
| "cell_flag_name CF_Italic = ''Italic''"
| "cell_flag_name CF_Underline = ''Underline''"
| "cell_flag_name CF_Blinking = ''Blinking''"
| "cell_flag_name CF_Inverse = ''Inverse''"
| "cell_flag_name CF_Hidden = ''Hidden''"
| "cell_flag_name CF_CrossedOut = ''CrossedOut''"
| "cell_flag_name CF_DoublyUnderlined = ''DoublyUnderlined''"
| "cell_flag_name CF_CurlyUnderlined = ''CurlyUnderlined''"
| "cell_flag_name CF_DottedUnderline = ''DottedUnderline''"
| "cell_flag_name CF_DashedUnderline = ''DashedUnderline''"
| "cell_flag_name CF_Framed = ''Framed''"
| "cell_flag_name CF_Encircled = ''Encircled''"
| "cell_flag_name CF_Overline = ''Overline''"
| "cell_flag_name CF_RapidBlinking = ''RapidBlinking''"
| "cell_flag_name CF_CharacterProtected = ''CharacterProtected''"
| "cell_flag_name CF_WideCharContinuation = ''WideCharContinuation''"

definition cell_flags_all :: "CellFlag list" where
  "cell_flags_all = [CF_Bold, CF_Faint, CF_Italic, CF_Underline, CF_Blinking,
    CF_Inverse, CF_Hidden, CF_CrossedOut, CF_DoublyUnderlined, CF_CurlyUnderlined,
    CF_DottedUnderline, CF_DashedUnderline, CF_Framed, CF_Encircled, CF_Overline,
    CF_RapidBlinking, CF_CharacterProtected, CF_WideCharContinuation]"

text \<open>
  \<open>std::format\<close> of a flag set: the names of the set bits, joined by bars. Bits without an
  enumerator format as the empty string and are skipped.
\<close>

definition format_flags :: "CellFlags \<Rightarrow> string" where
  "format_flags v =
    fold (\<lambda>f result. if flags_contains v (flag f)
        then (if result \<noteq> [] then result @ ''|'' else result) @ cell_flag_name f
        else result)
      cell_flags_all []"

subsection \<open>Graphics rendition\<close>

datatype GraphicsRendition =
    GR_Reset | GR_Bold | GR_Faint | GR_Italic
  | GR_Underline | GR_Blinking | GR_RapidBlinking | GR_Inverse
  | GR_Hidden | GR_CrossedOut | GR_DoublyUnderlined | GR_Normal
  | GR_NoItalic | GR_NoUnderline | GR_NoBlinking | GR_NoInverse
  | GR_NoHidden | GR_NoCrossedOut | GR_CurlyUnderlined | GR_DottedUnderline
  | GR_DashedUnderline | GR_Framed | GR_Overline | GR_NoFramed
  | GR_NoOverline

record GraphicsAttributes =
  ga_foregroundColor :: Color
  ga_backgroundColor :: Color
  ga_underlineColor :: Color
  ga_flags :: CellFlags

definition defaultAttributes :: GraphicsAttributes where
  "defaultAttributes =
    \<lparr>ga_foregroundColor = DefaultColor, ga_backgroundColor = DefaultColor,
     ga_underlineColor = DefaultColor, ga_flags = 0\<rparr>"

definition attributes_with :: "GraphicsAttributes \<Rightarrow> CellFlags \<Rightarrow> GraphicsAttributes" where
  "attributes_with a f = a\<lparr>ga_flags := ga_flags a OR f\<rparr>"

definition makeCellFlags :: "GraphicsRendition \<Rightarrow> CellFlags \<Rightarrow> CellFlags" where
  "makeCellFlags rendition flags =
    (case rendition of
       GR_Reset \<Rightarrow> 0
     | GR_Bold \<Rightarrow> flags_enable flags (flag CF_Bold)
     | GR_Faint \<Rightarrow> flags_enable flags (flag CF_Faint)
     | GR_Italic \<Rightarrow> flags_enable flags (flag CF_Italic)
     | GR_Underline \<Rightarrow> flags_enable (flags_without flags
         (flag_list [CF_DoublyUnderlined, CF_CurlyUnderlined, CF_DottedUnderline, CF_DashedUnderline])) (flag CF_Underline)
     | GR_Blinking \<Rightarrow> flags_enable (flags_disable flags (flag CF_RapidBlinking)) (flag CF_Blinking)
     | GR_RapidBlinking \<Rightarrow> flags_enable (flags_disable flags (flag CF_Blinking)) (flag CF_RapidBlinking)
     | GR_Inverse \<Rightarrow> flags_enable flags (flag CF_Inverse)
     | GR_Hidden \<Rightarrow> flags_enable flags (flag CF_Hidden)
     | GR_CrossedOut \<Rightarrow> flags_enable flags (flag CF_CrossedOut)
     | GR_DoublyUnderlined \<Rightarrow> flags_enable (flags_without flags
         (flag_list [CF_Underline, CF_CurlyUnderlined, CF_DottedUnderline, CF_DashedUnderline])) (flag CF_DoublyUnderlined)
     | GR_Normal \<Rightarrow> flags_without flags (flag_list [CF_Bold, CF_Faint])
     | GR_NoItalic \<Rightarrow> flags_disable flags (flag CF_Italic)
     | GR_NoUnderline \<Rightarrow> flags_without flags
         (flag_list [CF_Underline, CF_DoublyUnderlined, CF_CurlyUnderlined, CF_DottedUnderline, CF_DashedUnderline])
     | GR_NoBlinking \<Rightarrow> flags_without flags (flag_list [CF_Blinking, CF_RapidBlinking])
     | GR_NoInverse \<Rightarrow> flags_disable flags (flag CF_Inverse)
     | GR_NoHidden \<Rightarrow> flags_disable flags (flag CF_Hidden)
     | GR_NoCrossedOut \<Rightarrow> flags_disable flags (flag CF_CrossedOut)
     | GR_CurlyUnderlined \<Rightarrow> flags_enable (flags_without flags
         (flag_list [CF_Underline, CF_DoublyUnderlined, CF_DottedUnderline, CF_DashedUnderline])) (flag CF_CurlyUnderlined)
     | GR_DottedUnderline \<Rightarrow> flags_enable (flags_without flags
         (flag_list [CF_Underline, CF_DoublyUnderlined, CF_CurlyUnderlined, CF_DashedUnderline])) (flag CF_DottedUnderline)
     | GR_DashedUnderline \<Rightarrow> flags_enable (flags_without flags
         (flag_list [CF_Underline, CF_DoublyUnderlined, CF_CurlyUnderlined, CF_DottedUnderline])) (flag CF_DashedUnderline)
     | GR_Framed \<Rightarrow> flags_enable flags (flag CF_Framed)
     | GR_Overline \<Rightarrow> flags_enable flags (flag CF_Overline)
     | GR_NoFramed \<Rightarrow> flags_disable flags (flag CF_Framed)
     | GR_NoOverline \<Rightarrow> flags_disable flags (flag CF_Overline))"

subsection \<open>Colours of a cell\<close>

definition fg_mode :: "ColorPalette \<Rightarrow> CellFlags \<Rightarrow> ColorMode" where
  "fg_mode p flags =
    (if flags AND flag CF_Faint \<noteq> 0 then Dimmed
     else if flags AND flag CF_Bold \<noteq> 0 \<and> useBrightColors p then Bright
     else Normal)"

definition makeColors ::
  "ColorPalette \<Rightarrow> CellFlags \<Rightarrow> bool \<Rightarrow> Color \<Rightarrow> Color \<Rightarrow> bool \<Rightarrow> bool \<Rightarrow> RGBColorPair result" where
  "makeColors p flags reverseVideo fg bg blinkingState rapidBlinkState =
    (let (fgTarget, bgTarget) = (if reverseVideo then (Background, Foreground) else (Foreground, Background))
     in bind_result (apply_color p fg fgTarget (fg_mode p flags)) (\<lambda>f.
        bind_result (apply_color p bg bgTarget Normal) (\<lambda>b.
          let rgb = \<lparr>pair_foreground = f, pair_background = b\<rparr>;
              rgb = (if flags AND flag CF_Inverse \<noteq> 0 then swapped rgb else rgb);
              rgb = (if flags AND flag CF_Hidden \<noteq> 0 then allBackground rgb else rgb)
          in if flags AND flag CF_Blinking \<noteq> 0 \<and> \<not> blinkingState then Inr (allBackground rgb)
             else if flags AND flag CF_RapidBlinking \<noteq> 0 \<and> \<not> rapidBlinkState
             then Inr (allBackground rgb)
             else Inr rgb)))"

definition makeUnderlineColor :: "ColorPalette \<Rightarrow> RGBColor \<Rightarrow> Color \<Rightarrow> CellFlags \<Rightarrow> RGBColor result" where
  "makeUnderlineColor p defaultColor underlineColor flags =
    (if isDefaultColor underlineColor then Inr defaultColor
     else apply_color p underlineColor Foreground (fg_mode p flags))"

subsection \<open>Simple cells\<close>

type_synonym HyperlinkId = nat
type_synonym ImageFragment = "nat \<times> int \<times> int"

record SimpleCell =
  sc_codepoints :: "codepoint list"
  sc_graphicsAttributes :: GraphicsAttributes
  sc_width :: nat
  sc_hyperlink :: HyperlinkId
  sc_imageFragment :: "ImageFragment option"

definition newSimpleCell :: SimpleCell where
  "newSimpleCell =
    \<lparr>sc_codepoints = [], sc_graphicsAttributes = defaultAttributes, sc_width = 1, sc_hyperlink = 0,
     sc_imageFragment = None\<rparr>"

definition sc_make :: "GraphicsAttributes \<Rightarrow> HyperlinkId \<Rightarrow> SimpleCell" where
  "sc_make attributes hyperlink =
    newSimpleCell\<lparr>sc_graphicsAttributes := attributes, sc_hyperlink := hyperlink\<rparr>"

definition sc_reset :: "SimpleCell \<Rightarrow> SimpleCell" where
  "sc_reset c = newSimpleCell"

definition sc_reset_sgr :: "GraphicsAttributes \<Rightarrow> SimpleCell \<Rightarrow> SimpleCell" where
  "sc_reset_sgr sgr c = newSimpleCell\<lparr>sc_graphicsAttributes := sgr\<rparr>"

definition sc_reset_link :: "GraphicsAttributes \<Rightarrow> HyperlinkId \<Rightarrow> SimpleCell \<Rightarrow> SimpleCell" where
  "sc_reset_link sgr hyperlink c =
    newSimpleCell\<lparr>sc_graphicsAttributes := sgr, sc_hyperlink := hyperlink\<rparr>"

definition sc_write :: "GraphicsAttributes \<Rightarrow> codepoint \<Rightarrow> nat \<Rightarrow> SimpleCell \<Rightarrow> SimpleCell" where
  "sc_write sgr cp w c =
    c\<lparr>sc_graphicsAttributes := sgr, sc_codepoints := [cp], sc_width := w\<rparr>"

definition sc_write_link ::
  "GraphicsAttributes \<Rightarrow> codepoint \<Rightarrow> nat \<Rightarrow> HyperlinkId \<Rightarrow> SimpleCell \<Rightarrow> SimpleCell" where
  "sc_write_link sgr cp w hyperlink c =
    c\<lparr>sc_graphicsAttributes := sgr, sc_codepoints := [cp], sc_width := w, sc_hyperlink := hyperlink\<rparr>"

definition sc_writeTextOnly :: "codepoint \<Rightarrow> nat \<Rightarrow> SimpleCell \<Rightarrow> SimpleCell" where
  "sc_writeTextOnly cp w c = c\<lparr>sc_codepoints := [cp], sc_width := w\<rparr>"

definition sc_codepoint :: "SimpleCell \<Rightarrow> nat \<Rightarrow> codepoint" where
  "sc_codepoint c i = (if i < length (sc_codepoints c) then sc_codepoints c ! i else 0)"

definition sc_codepointCount :: "SimpleCell \<Rightarrow> nat" where
  "sc_codepointCount c = length (sc_codepoints c)"

definition sc_setWidth :: "nat \<Rightarrow> SimpleCell \<Rightarrow> SimpleCell" where
  "sc_setWidth w c = c\<lparr>sc_width := w\<rparr>"

definition sc_setCharacter :: "(codepoint \<Rightarrow> nat) \<Rightarrow> codepoint \<Rightarrow> SimpleCell \<Rightarrow> SimpleCell" where
  "sc_setCharacter uwidth cp c =
    (let c = c\<lparr>sc_codepoints := [], sc_imageFragment := None\<rparr> in
     if cp \<noteq> 0 then sc_setWidth (max (wrap8 (uwidth cp)) 1) (c\<lparr>sc_codepoints := [cp]\<rparr>)
     else sc_setWidth 1 c)"

text \<open>\<open>computeWidthChange\<close>: changes of the width are compiled out.\<close>

definition computeWidthChange :: "nat \<Rightarrow> codepoint \<Rightarrow> int" where
  "computeWidthChange w cp = 0"

definition sc_appendCharacter :: "codepoint \<Rightarrow> SimpleCell \<Rightarrow> int \<times> SimpleCell" where
  "sc_appendCharacter cp c =
    (let c = c\<lparr>sc_codepoints := sc_codepoints c @ [cp]\<rparr>;
         diff = computeWidthChange (sc_width c) cp
     in (diff, if diff \<noteq> 0 then c\<lparr>sc_width := nat ((int (sc_width c) + diff) mod 256)\<rparr> else c))"

definition sc_flags :: "SimpleCell \<Rightarrow> CellFlags" where
  "sc_flags c = ga_flags (sc_graphicsAttributes c)"

definition sc_isFlagEnabled :: "CellFlags \<Rightarrow> SimpleCell \<Rightarrow> bool" where
  "sc_isFlagEnabled testFlags c = flags_contains (sc_flags c) testFlags"

definition sc_resetFlags :: "CellFlags \<Rightarrow> SimpleCell \<Rightarrow> SimpleCell" where
  "sc_resetFlags flags c = c\<lparr>sc_graphicsAttributes := (sc_graphicsAttributes c)\<lparr>ga_flags := flags\<rparr>\<rparr>"

definition sc_setGraphicsRendition :: "GraphicsRendition \<Rightarrow> SimpleCell \<Rightarrow> SimpleCell" where
  "sc_setGraphicsRendition sgr c = sc_resetFlags (makeCellFlags sgr (sc_flags c)) c"

definition sc_setForegroundColor :: "Color \<Rightarrow> SimpleCell \<Rightarrow> SimpleCell" where
  "sc_setForegroundColor color c =
    c\<lparr>sc_graphicsAttributes := (sc_graphicsAttributes c)\<lparr>ga_foregroundColor := color\<rparr>\<rparr>"

definition sc_setBackgroundColor :: "Color \<Rightarrow> SimpleCell \<Rightarrow> SimpleCell" where
  "sc_setBackgroundColor color c =
    c\<lparr>sc_graphicsAttributes := (sc_graphicsAttributes c)\<lparr>ga_backgroundColor := color\<rparr>\<rparr>"

definition sc_setUnderlineColor :: "Color \<Rightarrow> SimpleCell \<Rightarrow> SimpleCell" where
  "sc_setUnderlineColor color c =
    c\<lparr>sc_graphicsAttributes := (sc_graphicsAttributes c)\<lparr>ga_underlineColor := color\<rparr>\<rparr>"

definition sc_setImageFragment :: "ImageFragment \<Rightarrow> SimpleCell \<Rightarrow> SimpleCell" where
  "sc_setImageFragment img c = c\<lparr>sc_imageFragment := Some img\<rparr>"

definition sc_setHyperlink :: "HyperlinkId \<Rightarrow> SimpleCell \<Rightarrow> SimpleCell" where
  "sc_setHyperlink hyperlink c = c\<lparr>sc_hyperlink := hyperlink\<rparr>"

definition sc_empty :: "SimpleCell \<Rightarrow> bool" where
  "sc_empty c \<longleftrightarrow> sc_codepointCount c = 0 \<and> sc_imageFragment c = None"

subsection \<open>Compact cells\<close>

record CellExtra =
  ex_codepoints :: "codepoint list"
  ex_underlineColor :: Color
  ex_hyperlink :: HyperlinkId
  ex_imageFragment :: "ImageFragment option"
  ex_flags :: CellFlags
  ex_width :: nat

definition newCellExtra :: CellExtra where
  "newCellExtra =
    \<lparr>ex_codepoints = [], ex_underlineColor = DefaultColor, ex_hyperlink = 0, ex_imageFragment = None,
     ex_flags = 0, ex_width = 1\<rparr>"

record CompactCell =
  cc_codepoint :: codepoint
  cc_foregroundColor :: Color
  cc_backgroundColor :: Color
  cc_extra :: "CellExtra option"

definition MaxCodepoints :: nat where
  "MaxCodepoints = 7"

text \<open>An assignment through \<open>extra()\<close>, which creates the object if there is none.\<close>

definition with_extra :: "(CellExtra \<Rightarrow> CellExtra) \<Rightarrow> CompactCell \<Rightarrow> CompactCell" where
  "with_extra f c = c\<lparr>cc_extra := Some (f (case cc_extra c of Some e \<Rightarrow> e | None \<Rightarrow> newCellExtra))\<rparr>"

text \<open>An assignment under \<open>if (_extra)\<close>.\<close>

definition if_extra :: "(CellExtra \<Rightarrow> CellExtra) \<Rightarrow> CompactCell \<Rightarrow> CompactCell" where
  "if_extra f c = c\<lparr>cc_extra := map_option f (cc_extra c)\<rparr>"

definition has_extra :: "CompactCell \<Rightarrow> bool" where
  "has_extra c \<longleftrightarrow> cc_extra c \<noteq> None"

definition cc_setWidth :: "nat \<Rightarrow> CompactCell \<Rightarrow> CompactCell result" where
  "cc_setWidth w c =
    (if w < MaxCodepoints
     then Inr (if w > 1 \<or> has_extra c then with_extra (\<lambda>e. e\<lparr>ex_width := w\<rparr>) c else c)
     else Inl AssertionFailed)"

definition cc_blank :: CompactCell where
  "cc_blank =
    \<lparr>cc_codepoint = 0, cc_foregroundColor = DefaultColor, cc_backgroundColor = DefaultColor,
     cc_extra = None\<rparr>"

definition newCompactCell :: "CompactCell result" where
  "newCompactCell = cc_setWidth 1 cc_blank"

definition cc_setHyperlink :: "HyperlinkId \<Rightarrow> CompactCell \<Rightarrow> CompactCell" where
  "cc_setHyperlink hyperlink c =
    (if hyperlink \<noteq> 0 then with_extra (\<lambda>e. e\<lparr>ex_hyperlink := hyperlink\<rparr>) c
     else if_extra (\<lambda>e. e\<lparr>ex_hyperlink := 0\<rparr>) c)"

definition cc_make :: "GraphicsAttributes \<Rightarrow> HyperlinkId \<Rightarrow> CompactCell result" where
  "cc_make attributes hyperlink =
    bind_result (cc_setWidth 1
        (cc_blank\<lparr>cc_foregroundColor := ga_foregroundColor attributes,
                  cc_backgroundColor := ga_backgroundColor attributes\<rparr>))
      (\<lambda>c. let c = cc_setHyperlink hyperlink c;
               c = (if ga_underlineColor attributes \<noteq> DefaultColor \<or> has_extra c
                    then with_extra (\<lambda>e. e\<lparr>ex_underlineColor := ga_underlineColor attributes\<rparr>) c else c)
           in Inr (if ga_flags attributes \<noteq> 0 \<or> has_extra c
                   then with_extra (\<lambda>e. e\<lparr>ex_flags := ga_flags attributes\<rparr>) c else c))"

definition cc_copy :: "CompactCell \<Rightarrow> CompactCell" where
  "cc_copy v =
    \<lparr>cc_codepoint = cc_codepoint v, cc_foregroundColor = cc_foregroundColor v,
     cc_backgroundColor = cc_backgroundColor v, cc_extra = cc_extra v\<rparr>"

text \<open>Copy assignment: the target's own extra data is replaced only if the source has some.\<close>

definition cc_assign :: "CompactCell \<Rightarrow> CompactCell \<Rightarrow> CompactCell" where
  "cc_assign c v =
    (let c = c\<lparr>cc_codepoint := cc_codepoint v, cc_foregroundColor := cc_foregroundColor v,
               cc_backgroundColor := cc_backgroundColor v\<rparr>
     in case cc_extra v of Some e \<Rightarrow> c\<lparr>cc_extra := Some e\<rparr> | None \<Rightarrow> c)"

definition cc_reset :: "CompactCell \<Rightarrow> CompactCell" where
  "cc_reset c =
    c\<lparr>cc_codepoint := 0, cc_foregroundColor := DefaultColor, cc_backgroundColor := DefaultColor,
      cc_extra := None\<rparr>"

definition cc_reset_sgr :: "GraphicsAttributes \<Rightarrow> CompactCell \<Rightarrow> CompactCell" where
  "cc_reset_sgr attributes c =
    (let c = c\<lparr>cc_codepoint := 0, cc_foregroundColor := ga_foregroundColor attributes,
               cc_backgroundColor := ga_backgroundColor attributes, cc_extra := None\<rparr>;
         c = (if ga_flags attributes \<noteq> 0
              then with_extra (\<lambda>e. e\<lparr>ex_flags := ga_flags attributes\<rparr>) c else c)
     in if ga_underlineColor attributes \<noteq> DefaultColor
        then with_extra (\<lambda>e. e\<lparr>ex_underlineColor := ga_underlineColor attributes\<rparr>) c else c)"

definition cc_reset_link :: "GraphicsAttributes \<Rightarrow> HyperlinkId \<Rightarrow> CompactCell \<Rightarrow> CompactCell" where
  "cc_reset_link attributes hyperlink c =
    (let c = c\<lparr>cc_codepoint := 0, cc_foregroundColor := ga_foregroundColor attributes,
               cc_backgroundColor := ga_backgroundColor attributes, cc_extra := None\<rparr>;
         c = (if ga_underlineColor attributes \<noteq> DefaultColor
              then with_extra (\<lambda>e. e\<lparr>ex_underlineColor := ga_underlineColor attributes\<rparr>) c else c);
         c = (if ga_flags attributes \<noteq> 0
              then with_extra (\<lambda>e. e\<lparr>ex_flags := ga_flags attributes\<rparr>) c else c)
     in if hyperlink \<noteq> 0 then with_extra (\<lambda>e. e\<lparr>ex_hyperlink := hyperlink\<rparr>) c else c)"

definition cc_write :: "GraphicsAttributes \<Rightarrow> codepoint \<Rightarrow> nat \<Rightarrow> CompactCell \<Rightarrow> CompactCell result" where
  "cc_write attributes ch w c =
    bind_result (cc_setWidth w c) (\<lambda>c.
      let c = if_extra (\<lambda>e. e\<lparr>ex_codepoints := [], ex_imageFragment := None\<rparr>) (c\<lparr>cc_codepoint := ch\<rparr>);
          c = c\<lparr>cc_foregroundColor := ga_foregroundColor attributes,
                cc_backgroundColor := ga_backgroundColor attributes\<rparr>;
          c = (if ga_flags attributes \<noteq> 0 \<or> has_extra c
               then with_extra (\<lambda>e. e\<lparr>ex_flags := ga_flags attributes\<rparr>) c else c)
      in Inr (if ga_underlineColor attributes \<noteq> DefaultColor
              then with_extra (\<lambda>e. e\<lparr>ex_underlineColor := ga_underlineColor attributes\<rparr>) c else c))"

definition cc_writeTextOnly :: "codepoint \<Rightarrow> nat \<Rightarrow> CompactCell \<Rightarrow> CompactCell result" where
  "cc_writeTextOnly ch w c =
    bind_result (cc_setWidth w c) (\<lambda>c.
      Inr (if_extra (\<lambda>e. e\<lparr>ex_codepoints := []\<rparr>) (c\<lparr>cc_codepoint := ch\<rparr>)))"

definition cc_write_link ::
  "GraphicsAttributes \<Rightarrow> codepoint \<Rightarrow> nat \<Rightarrow> HyperlinkId \<Rightarrow> CompactCell \<Rightarrow> CompactCell result" where
  "cc_write_link attributes ch w hyperlink c =
    bind_result (cc_writeTextOnly ch w c) (\<lambda>c.
      let c = if_extra (\<lambda>e. e\<lparr>ex_imageFragment := None\<rparr>) c;
          c = c\<lparr>cc_foregroundColor := ga_foregroundColor attributes,
                cc_backgroundColor := ga_backgroundColor attributes\<rparr>
      in Inr (if ga_flags attributes \<noteq> 0 \<or> has_extra c \<or> ga_underlineColor attributes \<noteq> DefaultColor
                  \<or> hyperlink \<noteq> 0
              then with_extra (\<lambda>e. e\<lparr>ex_underlineColor := ga_underlineColor attributes,
                     ex_hyperlink := hyperlink, ex_flags := ga_flags attributes\<rparr>) c
              else c))"

definition cc_width :: "CompactCell \<Rightarrow> nat" where
  "cc_width c = (case cc_extra c of None \<Rightarrow> 1 | Some e \<Rightarrow> ex_width e)"

definition cc_setCharacter :: "(codepoint \<Rightarrow> nat) \<Rightarrow> codepoint \<Rightarrow> CompactCell \<Rightarrow> CompactCell result" where
  "cc_setCharacter uwidth cp c =
    (let c = if_extra (\<lambda>e. e\<lparr>ex_codepoints := [], ex_imageFragment := None\<rparr>) (c\<lparr>cc_codepoint := cp\<rparr>)
     in cc_setWidth (if cp \<noteq> 0 then max (wrap8 (uwidth cp)) 1 else 1) c)"

definition cc_appendCharacter :: "codepoint \<Rightarrow> CompactCell \<Rightarrow> (int \<times> CompactCell) result" where
  "cc_appendCharacter cp c =
    (if cp = 0 then Inl AssertionFailed
     else
       let c = with_extra (\<lambda>e. e) c in
       if length (ex_codepoints (the (cc_extra c))) < MaxCodepoints - 1
       then let c = with_extra (\<lambda>e. e\<lparr>ex_codepoints := ex_codepoints e @ [cp]\<rparr>) c;
                diff = computeWidthChange (cc_width c) cp
            in if diff \<noteq> 0
               then bind_result (cc_setWidth (nat ((int (cc_width c) + diff) mod 256)) c) (\<lambda>c. Inr (diff, c))
               else Inr (0, c)
       else Inr (0, c))"

definition cc_codepointCount :: "CompactCell \<Rightarrow> nat" where
  "cc_codepointCount c =
    (if cc_codepoint c \<noteq> 0
     then (case cc_extra c of None \<Rightarrow> 1 | Some e \<Rightarrow> 1 + length (ex_codepoints e))
     else 0)"

definition cc_codepoint_at :: "CompactCell \<Rightarrow> nat \<Rightarrow> codepoint result" where
  "cc_codepoint_at c i =
    (if i = 0 then Inr (cc_codepoint c)
     else case cc_extra c of
        None \<Rightarrow> Inr 0
      | Some e \<Rightarrow> if i - 1 < length (ex_codepoints e) then Inr (ex_codepoints e ! (i - 1)) else Inl OutOfBounds)"

definition cc_flags :: "CompactCell \<Rightarrow> CellFlags" where
  "cc_flags c = (case cc_extra c of None \<Rightarrow> 0 | Some e \<Rightarrow> ex_flags e)"

definition cc_resetFlags_none :: "CompactCell \<Rightarrow> CompactCell" where
  "cc_resetFlags_none c = if_extra (\<lambda>e. e\<lparr>ex_flags := 0\<rparr>) c"

definition cc_resetFlags :: "CellFlags \<Rightarrow> CompactCell \<Rightarrow> CompactCell" where
  "cc_resetFlags flags c = with_extra (\<lambda>e. e\<lparr>ex_flags := flags\<rparr>) c"

definition cc_setGraphicsRendition :: "GraphicsRendition \<Rightarrow> CompactCell \<Rightarrow> CompactCell" where
  "cc_setGraphicsRendition sgr c = cc_resetFlags (makeCellFlags sgr (cc_flags c)) c"

definition cc_setForegroundColor :: "Color \<Rightarrow> CompactCell \<Rightarrow> CompactCell" where
  "cc_setForegroundColor color c = c\<lparr>cc_foregroundColor := color\<rparr>"

definition cc_setBackgroundColor :: "Color \<Rightarrow> CompactCell \<Rightarrow> CompactCell" where
  "cc_setBackgroundColor color c = c\<lparr>cc_backgroundColor := color\<rparr>"

definition cc_underlineColor :: "CompactCell \<Rightarrow> Color" where
  "cc_underlineColor c = (case cc_extra c of None \<Rightarrow> DefaultColor | Some e \<Rightarrow> ex_underlineColor e)"

definition cc_setUnderlineColor :: "Color \<Rightarrow> CompactCell \<Rightarrow> CompactCell" where
  "cc_setUnderlineColor color c =
    (if has_extra c then if_extra (\<lambda>e. e\<lparr>ex_underlineColor := color\<rparr>) c
     else if color \<noteq> DefaultColor then with_extra (\<lambda>e. e\<lparr>ex_underlineColor := color\<rparr>) c
     else c)"

definition cc_imageFragment :: "CompactCell \<Rightarrow> ImageFragment option" where
  "cc_imageFragment c = (case cc_extra c of None \<Rightarrow> None | Some e \<Rightarrow> ex_imageFragment e)"

definition cc_setImageFragment :: "ImageFragment \<Rightarrow> CompactCell \<Rightarrow> CompactCell" where
  "cc_setImageFragment img c = with_extra (\<lambda>e. e\<lparr>ex_imageFragment := Some img\<rparr>) c"

definition cc_hyperlink :: "CompactCell \<Rightarrow> HyperlinkId" where
  "cc_hyperlink c = (case cc_extra c of None \<Rightarrow> 0 | Some e \<Rightarrow> ex_hyperlink e)"

definition cc_empty :: "CompactCell \<Rightarrow> bool" where
  "cc_empty c \<longleftrightarrow> cc_codepointCount c = 0 \<and> cc_imageFragment c = None"

subsection \<open>Comparison with text\<close>

definition compareText :: "CompactCell \<Rightarrow> codepoint \<Rightarrow> bool" where
  "compareText c ch =
    (if cc_codepointCount c \<noteq> 1 then ch = 0 \<and> cc_codepointCount c = 0 else cc_codepoint c = ch)"

text \<open>
  \<open>beginsWith\<close> of \<open>CellUtil.h\<close>. Without case sensitivity it calls \<open>std::tolower\<close> on the code point,
  which is defined for values of an \<open>unsigned char\<close> only.
\<close>

definition tolower :: "codepoint \<Rightarrow> codepoint result" where
  "tolower ch =
    (if ch > 255 then Inl OutOfBounds else Inr (if 65 \<le> ch \<and> ch \<le> 90 then ch + 32 else ch))"

fun begins_loop :: "CompactCell \<Rightarrow> codepoint list \<Rightarrow> bool \<Rightarrow> nat list \<Rightarrow> bool result" where
  "begins_loop c txt isCaseSensitive [] = Inr True"
| "begins_loop c txt isCaseSensitive (i # is) =
    bind_result (cc_codepoint_at c i) (\<lambda>ch.
    bind_result (if isCaseSensitive then Inr ch else tolower ch) (\<lambda>ch.
      if ch = txt ! i then begins_loop c txt isCaseSensitive is else Inr False))"

definition beginsWith :: "codepoint list \<Rightarrow> CompactCell \<Rightarrow> bool \<Rightarrow> bool result" where
  "beginsWith txt c isCaseSensitive =
    (if txt = [] then Inl AssertionFailed
     else if cc_codepointCount c = 0 then Inr False
     else if length txt < cc_codepointCount c then Inr False
     else begins_loop c txt isCaseSensitive [0..<cc_codepointCount c])"

subsection \<open>The view of a compact cell\<close>

definition cell_codepoints :: "CompactCell \<Rightarrow> codepoint list" where
  "cell_codepoints c =
    (if cc_codepoint c = 0 then []
     else cc_codepoint c # (case cc_extra c of None \<Rightarrow> [] | Some e \<Rightarrow> ex_codepoints e))"

definition cell_view :: "CompactCell \<Rightarrow> SimpleCell" where
  "cell_view c =
    \<lparr>sc_codepoints = cell_codepoints c,
     sc_graphicsAttributes =
       \<lparr>ga_foregroundColor = cc_foregroundColor c, ga_backgroundColor = cc_backgroundColor c,
        ga_underlineColor = cc_underlineColor c, ga_flags = cc_flags c\<rparr>,
     sc_width = cc_width c, sc_hyperlink = cc_hyperlink c, sc_imageFragment = cc_imageFragment c\<rparr>"

definition cell_ok :: "CompactCell \<Rightarrow> bool" where
  "cell_ok c \<longleftrightarrow>
    (case cc_extra c of
       None \<Rightarrow> True
     | Some e \<Rightarrow> length (ex_codepoints e) < MaxCodepoints \<and> ex_width e < MaxCodepoints \<and>
         (cc_codepoint c = 0 \<longrightarrow> ex_codepoints e = []))"

text \<open>The operations of a cell, as they are called on both types.\<close>

datatype cell_op =
    ResetCell
  | ResetSgr GraphicsAttributes
  | ResetLink GraphicsAttributes HyperlinkId
  | WriteCell GraphicsAttributes codepoint nat
  | WriteLink GraphicsAttributes codepoint nat HyperlinkId
  | WriteText codepoint nat
  | SetCharacter codepoint
  | AppendCharacter codepoint
  | SetWidth nat
  | ResetFlags CellFlags
  | SetRendition GraphicsRendition
  | SetForeground Color
  | SetBackground Color
  | SetUnderline Color
  | SetImage ImageFragment
  | SetHyperlink HyperlinkId

primrec compact_step :: "(codepoint \<Rightarrow> nat) \<Rightarrow> cell_op \<Rightarrow> CompactCell \<Rightarrow> CompactCell result" where
  "compact_step u ResetCell c = Inr (cc_reset c)"
| "compact_step u (ResetSgr a) c = Inr (cc_reset_sgr a c)"
| "compact_step u (ResetLink a h) c = Inr (cc_reset_link a h c)"
| "compact_step u (WriteCell a ch w) c = cc_write a ch w c"
| "compact_step u (WriteLink a ch w h) c = cc_write_link a ch w h c"
| "compact_step u (WriteText ch w) c = cc_writeTextOnly ch w c"
| "compact_step u (SetCharacter ch) c = cc_setCharacter u ch c"
| "compact_step u (AppendCharacter ch) c = bind_result (cc_appendCharacter ch c) (\<lambda>r. Inr (snd r))"
| "compact_step u (SetWidth w) c = cc_setWidth w c"
| "compact_step u (ResetFlags f) c = Inr (cc_resetFlags f c)"
| "compact_step u (SetRendition g) c = Inr (cc_setGraphicsRendition g c)"
| "compact_step u (SetForeground k) c = Inr (cc_setForegroundColor k c)"
| "compact_step u (SetBackground k) c = Inr (cc_setBackgroundColor k c)"
| "compact_step u (SetUnderline k) c = Inr (cc_setUnderlineColor k c)"
| "compact_step u (SetImage i) c = Inr (cc_setImageFragment i c)"
| "compact_step u (SetHyperlink h) c = Inr (cc_setHyperlink h c)"

primrec simple_step :: "(codepoint \<Rightarrow> nat) \<Rightarrow> cell_op \<Rightarrow> SimpleCell \<Rightarrow> SimpleCell" where
  "simple_step u ResetCell c = sc_reset c"
| "simple_step u (ResetSgr a) c = sc_reset_sgr a c"
| "simple_step u (ResetLink a h) c = sc_reset_link a h c"
| "simple_step u (WriteCell a ch w) c = sc_write a ch w c"
| "simple_step u (WriteLink a ch w h) c = sc_write_link a ch w h c"
| "simple_step u (WriteText ch w) c = sc_writeTextOnly ch w c"
| "simple_step u (SetCharacter ch) c = sc_setCharacter u ch c"
| "simple_step u (AppendCharacter ch) c = snd (sc_appendCharacter ch c)"
| "simple_step u (SetWidth w) c = sc_setWidth w c"
| "simple_step u (ResetFlags f) c = sc_resetFlags f c"
| "simple_step u (SetRendition g) c = sc_setGraphicsRendition g c"
| "simple_step u (SetForeground k) c = sc_setForegroundColor k c"
| "simple_step u (SetBackground k) c = sc_setBackgroundColor k c"
| "simple_step u (SetUnderline k) c = sc_setUnderlineColor k c"
| "simple_step u (SetImage i) c = sc_setImageFragment i c"
| "simple_step u (SetHyperlink h) c = sc_setHyperlink h c"

text \<open>
  Where the two types agree: widths from one to six; text that is not the null character; no
  image in the way of a write, which only the compact cell removes; a write with the default
  underline colour only where no other colour is set; and combining characters only after a first
  one, up to seven in all.
\<close>

definition width_ok :: "nat \<Rightarrow> bool" where
  "width_ok w \<longleftrightarrow> 0 < w \<and> w < MaxCodepoints"

primrec cell_step_allowed :: "(codepoint \<Rightarrow> nat) \<Rightarrow> SimpleCell \<Rightarrow> cell_op \<Rightarrow> bool" where
  "cell_step_allowed u c ResetCell \<longleftrightarrow> True"
| "cell_step_allowed u c (ResetSgr a) \<longleftrightarrow> True"
| "cell_step_allowed u c (ResetLink a h) \<longleftrightarrow> True"
| "cell_step_allowed u c (WriteCell a ch w) \<longleftrightarrow> ch \<noteq> 0 \<and> width_ok w \<and> sc_imageFragment c = None \<and>
    (ga_underlineColor a = DefaultColor \<longrightarrow>
      ga_underlineColor (sc_graphicsAttributes c) = DefaultColor)"
| "cell_step_allowed u c (WriteLink a ch w h) \<longleftrightarrow> ch \<noteq> 0 \<and> width_ok w \<and> sc_imageFragment c = None"
| "cell_step_allowed u c (WriteText ch w) \<longleftrightarrow> ch \<noteq> 0 \<and> width_ok w"
| "cell_step_allowed u c (SetCharacter ch) \<longleftrightarrow> ch \<noteq> 0 \<longrightarrow> wrap8 (u ch) < MaxCodepoints"
| "cell_step_allowed u c (AppendCharacter ch) \<longleftrightarrow>
    ch \<noteq> 0 \<and> sc_codepoints c \<noteq> [] \<and> length (sc_codepoints c) < MaxCodepoints"
| "cell_step_allowed u c (SetWidth w) \<longleftrightarrow> width_ok w"
| "cell_step_allowed u c (ResetFlags f) \<longleftrightarrow> True"
| "cell_step_allowed u c (SetRendition g) \<longleftrightarrow> True"
| "cell_step_allowed u c (SetForeground k) \<longleftrightarrow> True"
| "cell_step_allowed u c (SetBackground k) \<longleftrightarrow> True"
| "cell_step_allowed u c (SetUnderline k) \<longleftrightarrow> True"
| "cell_step_allowed u c (SetImage i) \<longleftrightarrow> True"
| "cell_step_allowed u c (SetHyperlink h) \<longleftrightarrow> True"

text \<open>
  What the compact cell makes of an operation, in terms of the simple cell. It differs in three
  operations: a write removes the image; a write without hyperlink and with the default underline
  colour leaves the underline colour that was set; and combining characters are dropped once the
  cell holds seven code points.
\<close>

definition compact_effect :: "(codepoint \<Rightarrow> nat) \<Rightarrow> SimpleCell \<Rightarrow> cell_op \<Rightarrow> SimpleCell" where
  "compact_effect u c op = (case op of
     WriteCell a ch w \<Rightarrow> (sc_write
         (if ga_underlineColor a = DefaultColor
          then a\<lparr>ga_underlineColor := ga_underlineColor (sc_graphicsAttributes c)\<rparr> else a) ch w c)
       \<lparr>sc_imageFragment := None\<rparr>
   | WriteLink a ch w h \<Rightarrow> (sc_write_link a ch w h c)\<lparr>sc_imageFragment := None\<rparr>
   | AppendCharacter ch \<Rightarrow>
       if length (sc_codepoints c) < MaxCodepoints then snd (sc_appendCharacter ch c) else c
   | _ \<Rightarrow> simple_step u op c)"

text \<open>
  The arguments the compact cell can take: widths from one to six, text that is not the null
  character, and combining characters only after a first character.
\<close>

definition cell_step_bounded :: "(codepoint \<Rightarrow> nat) \<Rightarrow> SimpleCell \<Rightarrow> cell_op \<Rightarrow> bool" where
  "cell_step_bounded u c op \<longleftrightarrow> (case op of
     WriteCell a ch w \<Rightarrow> ch \<noteq> 0 \<and> width_ok w
   | WriteLink a ch w h \<Rightarrow> ch \<noteq> 0 \<and> width_ok w
   | WriteText ch w \<Rightarrow> ch \<noteq> 0 \<and> width_ok w
   | SetCharacter ch \<Rightarrow> ch \<noteq> 0 \<longrightarrow> wrap8 (u ch) < MaxCodepoints
   | AppendCharacter ch \<Rightarrow> ch \<noteq> 0 \<and> sc_codepoints c \<noteq> []
   | SetWidth w \<Rightarrow> width_ok w
   | _ \<Rightarrow> True)"

fun cell_ops_bounded :: "(codepoint \<Rightarrow> nat) \<Rightarrow> cell_op list \<Rightarrow> SimpleCell \<Rightarrow> bool" where
  "cell_ops_bounded u [] c \<longleftrightarrow> True"
| "cell_ops_bounded u (a # as) c \<longleftrightarrow> cell_step_bounded u c a \<and> cell_ops_bounded u as (compact_effect u c a)"

fun cell_ops_allowed :: "(codepoint \<Rightarrow> nat) \<Rightarrow> cell_op list \<Rightarrow> SimpleCell \<Rightarrow> bool" where
  "cell_ops_allowed u [] c \<longleftrightarrow> True"
| "cell_ops_allowed u (a # as) c \<longleftrightarrow> cell_step_allowed u c a \<and> cell_ops_allowed u as (simple_step u a c)"

lemmas view_simps = cell_view_def cell_codepoints_def cc_underlineColor_def cc_flags_def cc_width_def
  cc_hyperlink_def cc_imageFragment_def cell_ok_def with_extra_def if_extra_def has_extra_def
  newCellExtra_def MaxCodepoints_def

lemmas simple_cell_simps = sc_reset_def sc_reset_sgr_def sc_reset_link_def sc_write_def sc_write_link_def
  sc_writeTextOnly_def sc_setCharacter_def sc_appendCharacter_def sc_setWidth_def sc_resetFlags_def
  sc_setGraphicsRendition_def sc_setForegroundColor_def sc_setBackgroundColor_def
  sc_setUnderlineColor_def sc_setImageFragment_def sc_setHyperlink_def sc_flags_def newSimpleCell_def
  defaultAttributes_def

lemma compact_step_effect:
  assumes "cell_ok c" "cell_step_bounded u (cell_view c) a"
  shows "\<exists>c'. compact_step u a c = Inr c' \<and> cell_ok c' \<and> cell_view c' = compact_effect u (cell_view c) a"
proof (cases "cc_extra c")
  case None
  then show ?thesis
    using assms
    by (cases a)
      (simp_all add: view_simps simple_cell_simps cc_reset_def cc_reset_sgr_def cc_reset_link_def
        cc_write_def cc_write_link_def cc_writeTextOnly_def cc_setWidth_def cc_setCharacter_def
        cc_appendCharacter_def cc_resetFlags_def cc_setGraphicsRendition_def cc_setForegroundColor_def
        cc_setBackgroundColor_def cc_setUnderlineColor_def cc_setImageFragment_def cc_setHyperlink_def
        width_ok_def computeWidthChange_def compact_effect_def cell_step_bounded_def Let_def split: if_splits)
next
  case (Some e)
  then show ?thesis
    using assms
    by (cases a)
      (simp_all add: view_simps simple_cell_simps cc_reset_def cc_reset_sgr_def cc_reset_link_def
        cc_write_def cc_write_link_def cc_writeTextOnly_def cc_setWidth_def cc_setCharacter_def
        cc_appendCharacter_def cc_resetFlags_def cc_setGraphicsRendition_def cc_setForegroundColor_def
        cc_setBackgroundColor_def cc_setUnderlineColor_def cc_setImageFragment_def cc_setHyperlink_def
        width_ok_def computeWidthChange_def compact_effect_def cell_step_bounded_def Let_def split: if_splits)
qed

lemma compact_effect_simple:
  "cell_step_allowed u c a \<Longrightarrow> cell_step_bounded u c a \<and> compact_effect u c a = simple_step u a c"
  by (cases a) (auto simp: simple_cell_simps compact_effect_def cell_step_bounded_def)

lemma compact_effects_simple:
  "cell_ops_allowed u as c \<Longrightarrow>
    cell_ops_bounded u as c \<and> fold (\<lambda>a c. compact_effect u c a) as c = fold (simple_step u) as c"
  by (induction as arbitrary: c) (simp_all add: compact_effect_simple)

lemma compact_ops_effect:
  "cell_ok c \<Longrightarrow> cell_ops_bounded u as (cell_view c) \<Longrightarrow>
    \<exists>c'. fold_result (compact_step u) as c = Inr c' \<and> cell_ok c' \<and>
      cell_view c' = fold (\<lambda>a v. compact_effect u v a) as (cell_view c)"
proof (induction as arbitrary: c)
  case (Cons a as)
  with compact_step_effect [of c u a] obtain d where d: "compact_step u a c = Inr d" "cell_ok d"
      "cell_view d = compact_effect u (cell_view c) a"
    by auto
  with Cons.IH [of d] Cons.prems show ?case by simp
qed simp

lemma newCompactCell_view: "newCompactCell = Inr cc_blank" "cell_view cc_blank = newSimpleCell" "cell_ok cc_blank"
  by (simp_all add: newCompactCell_def cc_setWidth_def view_simps simple_cell_simps cc_blank_def)

lemma cc_make_view:
  "\<exists>c. cc_make attributes hyperlink = Inr c \<and> cell_ok c \<and> cell_view c = sc_make attributes hyperlink"
  by (simp add: cc_make_def cc_setWidth_def cc_setHyperlink_def cc_blank_def view_simps
      simple_cell_simps sc_make_def Let_def)

lemma cc_empty_view: "cell_ok c \<Longrightarrow> cc_empty c = sc_empty (cell_view c)"
  by (auto simp: cc_empty_def sc_empty_def sc_codepointCount_def cc_codepointCount_def view_simps
      split: option.splits)

lemma cc_codepointCount_view: "cc_codepointCount c = sc_codepointCount (cell_view c)"
  by (auto simp: cc_codepointCount_def sc_codepointCount_def view_simps split: option.splits)

lemma cc_codepoint_at_view:
  "i < cc_codepointCount c \<Longrightarrow> cc_codepoint_at c i = Inr (sc_codepoint (cell_view c) i)"
  by (auto simp: cc_codepointCount_def cc_codepoint_at_def sc_codepoint_def view_simps nth_Cons'
      split: option.splits if_splits)

subsection \<open>Flags\<close>

lemma cell_flag_bit_less: "cell_flag_bit f < 18"
  by (cases f) simp_all

lemma bit_flag: "bit (flag f) n \<longleftrightarrow> n = cell_flag_bit f"
  using cell_flag_bit_less [of f] by (auto simp: flag_def bit_simps)

lemma bit_flag_list: "bit (flag_list fs) n \<longleftrightarrow> n \<in> cell_flag_bit ` set fs"
proof -
  have "bit (fold (\<lambda>f v. v OR flag f) fs v) n \<longleftrightarrow> bit v n \<or> n \<in> cell_flag_bit ` set fs" for v
    by (induction fs arbitrary: v) (auto simp: bit_or_iff bit_flag)
  then show ?thesis by (simp add: flag_list_def)
qed

lemma bit_flags [simp]:
  "bit (flags_enable v (flag f)) n \<longleftrightarrow> bit v n \<or> n = cell_flag_bit f"
  "bit (flags_disable v (flag f)) n \<longleftrightarrow> bit v n \<and> n \<noteq> cell_flag_bit f"
  "bit (flags_without v (flag_list fs)) n \<longleftrightarrow> bit v n \<and> n \<notin> cell_flag_bit ` set fs"
proof -
  show "bit (flags_enable v (flag f)) n \<longleftrightarrow> bit v n \<or> n = cell_flag_bit f"
    by (simp add: flags_enable_def bit_or_iff bit_flag)
  show "bit (flags_disable v (flag f)) n \<longleftrightarrow> bit v n \<and> n \<noteq> cell_flag_bit f"
    by (auto simp: flags_disable_def bit_and_iff bit_not_iff bit_flag dest: bit_imp_le_length)
  show "bit (flags_without v (flag_list fs)) n \<longleftrightarrow> bit v n \<and> n \<notin> cell_flag_bit ` set fs"
    by (auto simp: flags_without_def bit_and_iff bit_not_iff bit_flag_list dest: bit_imp_le_length)
qed

definition has_flag :: "CellFlags \<Rightarrow> CellFlag \<Rightarrow> bool" where
  "has_flag v f \<longleftrightarrow> bit v (cell_flag_bit f)"

definition underline_flags :: "CellFlag list" where
  "underline_flags =
    [CF_Underline, CF_DoublyUnderlined, CF_CurlyUnderlined, CF_DottedUnderline, CF_DashedUnderline]"

text \<open>At most one underline style and at most one kind of blinking.\<close>

definition styles_exclusive :: "CellFlags \<Rightarrow> bool" where
  "styles_exclusive v \<longleftrightarrow>
    length (filter (has_flag v) underline_flags) \<le> 1 \<and>
    \<not> (has_flag v CF_Blinking \<and> has_flag v CF_RapidBlinking)"

lemma styles_exclusive_step: "styles_exclusive v \<Longrightarrow> styles_exclusive (makeCellFlags g v)"
  by (cases g) (simp_all add: styles_exclusive_def underline_flags_def has_flag_def makeCellFlags_def
      split: if_splits)

lemma styles_exclusive_fold: "styles_exclusive v \<Longrightarrow> styles_exclusive (fold makeCellFlags gs v)"
  by (induction gs arbitrary: v) (simp_all add: styles_exclusive_step)

subsection \<open>Properties\<close>

text \<open>
  C19. For every sequence of cell operations with widths from one to six, text that is not the null
  character and combining characters only after a first character, none of the compact cell's
  assertions fails, and its view follows \<open>compact_effect\<close>: the simple cell's operations, except that
  a write removes an image the cell shows (the simple cell keeps it), that a write without hyperlink
  whose underline colour is the default one keeps the underline colour that was set (the simple cell
  resets it), and that code points after the seventh are dropped. Where none of these three occurs
  the compact cell is the simple cell.
\<close>

theorem cell_ops_refine:
  assumes "cell_ok c" "cell_ops_bounded u as (cell_view c)"
  shows "\<exists>c'. fold_result (compact_step u) as c = Inr c' \<and> cell_ok c' \<and>
    cell_view c' = fold (\<lambda>a v. compact_effect u v a) as (cell_view c) \<and>
    cc_empty c' = sc_empty (cell_view c') \<and>
    (cell_ops_allowed u as (cell_view c) \<longrightarrow> cell_view c' = fold (simple_step u) as (cell_view c))"
  using compact_ops_effect [OF assms] compact_effects_simple cc_empty_view by metis

theorem cell_ops_refine_witness:
  "\<exists>c'. fold_result (compact_step (\<lambda>_. 1))
      [SetImage (3, 0, 0), WriteCell (defaultAttributes\<lparr>ga_flags := flag CF_Bold\<rparr>) 0x65 1, AppendCharacter 0x301,
       SetHyperlink 7] cc_blank = Inr c' \<and>
    sc_codepoints (cell_view c') = [0x65, 0x301] \<and> sc_hyperlink (cell_view c') = 7 \<and>
    sc_imageFragment (cell_view c') = None"
proof -
  let ?as = "[SetImage (3, 0, 0), WriteCell (defaultAttributes\<lparr>ga_flags := flag CF_Bold\<rparr>) 0x65 1, AppendCharacter 0x301,
    SetHyperlink 7]"
  have bounded: "cell_ops_bounded (\<lambda>_. 1) ?as (cell_view cc_blank)"
    by (simp add: newCompactCell_view simple_cell_simps width_ok_def MaxCodepoints_def compact_effect_def
        cell_step_bounded_def)
  have "fold (\<lambda>a v. compact_effect (\<lambda>_. 1) v a) ?as (cell_view cc_blank)
      = \<lparr>sc_codepoints = [0x65, 0x301],
         sc_graphicsAttributes = defaultAttributes\<lparr>ga_flags := flag CF_Bold\<rparr>, sc_width = 1,
         sc_hyperlink = 7, sc_imageFragment = None\<rparr>"
    by (simp add: newCompactCell_view simple_cell_simps computeWidthChange_def MaxCodepoints_def compact_effect_def)
  with cell_ops_refine [OF newCompactCell_view(3) bounded] show ?thesis by auto
qed

text \<open>
  Whatever renditions are applied to a fresh set of flags, at most one underline style and at
  most one kind of blinking is set.
\<close>

theorem rendition_styles_exclusive: "styles_exclusive (fold makeCellFlags gs 0)"
  by (rule styles_exclusive_fold) (simp add: styles_exclusive_def underline_flags_def has_flag_def)

text \<open>
  Copy assignment of compact cells copies the source only if the source has extra data or the
  target has none. Otherwise the target keeps its own: after assigning a plain cell, the combining
  characters, flags, width, hyperlink, underline colour and image of the old contents are still there.
\<close>

theorem compact_assign_keeps_extra:
  "(has_extra v \<or> \<not> has_extra c \<longrightarrow> cell_view (cc_assign c v) = cell_view v) \<and>
   (\<not> has_extra v \<and> has_extra c \<longrightarrow>
     cc_extra (cc_assign c v) = cc_extra c \<and> cc_flags (cc_assign c v) = cc_flags c \<and>
     cc_width (cc_assign c v) = cc_width c \<and> cc_hyperlink (cc_assign c v) = cc_hyperlink c \<and>
     cc_imageFragment (cc_assign c v) = cc_imageFragment c)"
  by (auto simp: cc_assign_def view_simps split: option.splits)

theorem compact_assign_keeps_extra_witness:
  "let accented = cc_blank\<lparr>cc_codepoint := 0x65,
         cc_extra := Some (newCellExtra\<lparr>ex_codepoints := [0x301], ex_hyperlink := 3\<rparr>)\<rparr>;
       plain = cc_blank\<lparr>cc_codepoint := 0x78\<rparr>
   in cell_codepoints plain = [0x78] \<and> cell_codepoints (cc_assign accented plain) = [0x78, 0x301] \<and>
      cc_hyperlink (cc_assign accented plain) = 3"
  using compact_assign_keeps_extra [of "cc_blank\<lparr>cc_codepoint := 0x78\<rparr>"
      "cc_blank\<lparr>cc_codepoint := 0x65,
         cc_extra := Some (newCellExtra\<lparr>ex_codepoints := [0x301], ex_hyperlink := 3\<rparr>)\<rparr>"]
  by (simp add: cc_assign_def view_simps cc_blank_def)

text \<open>
  Writing text with the default underline colour does not reset the underline colour of the cell:
  a colour the cell had before stays, while its flags are replaced.
\<close>

theorem compact_write_keeps_underline_color:
  assumes "cc_underlineColor c \<noteq> DefaultColor" "ga_underlineColor a = DefaultColor" "w < MaxCodepoints"
  shows "\<exists>c'. cc_write a ch w c = Inr c' \<and> cc_underlineColor c' = cc_underlineColor c \<and>
    cc_flags c' = ga_flags a \<and> sc_graphicsAttributes (sc_write a ch w (cell_view c)) = a"
proof -
  obtain e where "cc_extra c = Some e" using assms(1) by (cases "cc_extra c") (auto simp: cc_underlineColor_def)
  then show ?thesis
    using assms by (simp add: cc_write_def cc_setWidth_def view_simps sc_write_def Let_def)
qed

theorem compact_write_keeps_underline_color_witness:
  "\<exists>c'. cc_write defaultAttributes 0x61 1 (cc_setUnderlineColor (color_of_indexed 1) cc_blank) = Inr c' \<and>
    cc_underlineColor c' = color_of_indexed 1"
proof -
  have "color_type (color_of_indexed 1) \<noteq> color_type DefaultColor"
    by (simp add: color_of_mk_color DefaultColor_def)
  then have ne: "color_of_indexed 1 \<noteq> DefaultColor" by metis
  let ?c = "cc_setUnderlineColor (color_of_indexed 1) cc_blank"
  have ul: "cc_underlineColor ?c = color_of_indexed 1"
    using ne by (simp add: cc_setUnderlineColor_def view_simps cc_blank_def)
  have "cc_underlineColor ?c \<noteq> DefaultColor" using ul ne by simp
  from compact_write_keeps_underline_color [OF this, of defaultAttributes 1 "0x61"] ul show ?thesis
    by (auto simp: defaultAttributes_def MaxCodepoints_def)
qed

text \<open>
  Hidden text, and blinking text in its off phase, is drawn in its background colour, whether or
  not the cell is inverse; visible text in the colours \<open>apply\<close> gives, swapped if it is inverse.
\<close>

theorem makeColors_visibility:
  assumes "makeColors p flags reverseVideo fg bg blink rapid = Inr rgb"
  shows "(has_flag flags CF_Hidden \<or> (has_flag flags CF_Blinking \<and> \<not> blink)
      \<or> (has_flag flags CF_RapidBlinking \<and> \<not> rapid) \<longrightarrow> pair_foreground rgb = pair_background rgb) \<and>
    apply_color p (if has_flag flags CF_Inverse then fg else bg)
      (if has_flag flags CF_Inverse \<noteq> reverseVideo then Foreground else Background)
      (if has_flag flags CF_Inverse then fg_mode p flags else Normal) = Inr (pair_background rgb)"
proof -
  have test: "flags AND flag f \<noteq> 0 \<longleftrightarrow> has_flag flags f" for f
  proof -
    have "bit (flags AND flag f) n \<longleftrightarrow> n = cell_flag_bit f \<and> has_flag flags f" for n
      by (auto simp: bit_and_iff bit_flag has_flag_def)
    moreover have "v \<noteq> 0 \<longleftrightarrow> (\<exists>n. bit v n)" for v :: CellFlags
      using bit_word_eqI [of v 0] by auto
    ultimately show ?thesis by auto
  qed
  from assms obtain f b where f: "apply_color p fg (if reverseVideo then Background else Foreground)
        (fg_mode p flags) = Inr f"
      and b: "apply_color p bg (if reverseVideo then Foreground else Background) Normal = Inr b"
      and rgb: "rgb = (let rgb = \<lparr>pair_foreground = f, pair_background = b\<rparr>;
              rgb = (if has_flag flags CF_Inverse then swapped rgb else rgb);
              rgb = (if has_flag flags CF_Hidden then allBackground rgb else rgb)
          in if has_flag flags CF_Blinking \<and> \<not> blink then allBackground rgb
             else if has_flag flags CF_RapidBlinking \<and> \<not> rapid then allBackground rgb
             else rgb)"
    by (auto simp: makeColors_def test bind_result_eq_Inr Let_def split: prod.splits if_splits)
  show ?thesis
    unfolding rgb using f b
    by (cases reverseVideo; simp add: Let_def swapped_def allBackground_def)
qed

theorem makeColors_visibility_witness:
  "\<exists>rgb. makeColors defaultPalette (flag CF_Hidden) False (color_of_rgb (rgb_of_value 0x123456))
      DefaultColor True True = Inr rgb \<and> pair_foreground rgb = pair_background rgb"
proof -
  let ?p = "\<lparr>pair_foreground = rgb_of_value 0x123456, pair_background = defaultBackground defaultPalette\<rparr>"
  have no: "flag CF_Hidden AND flag f = 0" if "f \<noteq> CF_Hidden" for f
    using that by (cases f) (simp_all add: flag_def)
  have yes: "flag CF_Hidden AND flag CF_Hidden \<noteq> 0" by (simp add: flag_def)
  have made: "makeColors defaultPalette (flag CF_Hidden) False (color_of_rgb (rgb_of_value 0x123456))
      DefaultColor True True = Inr (allBackground ?p)"
    using yes by (simp add: makeColors_def no apply_color_def DefaultColor_def)
  have "has_flag (flag CF_Hidden) CF_Hidden" by (simp add: has_flag_def bit_flag)
  with makeColors_visibility [OF made] made show ?thesis by auto
qed

end
