(* ===== verification/VT_Line.thy ===== *)
theory VT_Line
  imports VT_Cell
begin

unbundle bit_operations_syntax

text \<open>
  Lines of the grid: \<open>src/vtbackend/Line.h\<close> and \<open>Line.cpp\<close>. A line is stored as a run of text with one
  set of attributes (trivial) or as a vector of cells (inflated), and is inflated on the first
  access to its cells. The cell type is a template parameter: here a record of the operations a line
  and the grid use (\<open>CellOps\<close>), with the two cell types as instances, and the locale
  \<open>cell_interface\<close> for what a line relies on. Libunicode's decoder, segmentation and widths are the
  record \<open>TextLib\<close>. Column counts are natural numbers.
\<close>

subsection \<open>What a line needs of its cells\<close>

record 'c CellOps =
  op_default :: "'c result"
  op_make :: "GraphicsAttributes \<Rightarrow> HyperlinkId \<Rightarrow> 'c result"
  op_clear :: "'c \<Rightarrow> 'c"
  op_reset :: "GraphicsAttributes \<Rightarrow> 'c \<Rightarrow> 'c"
  op_assign :: "'c \<Rightarrow> 'c \<Rightarrow> 'c"
  op_write :: "GraphicsAttributes \<Rightarrow> codepoint \<Rightarrow> nat \<Rightarrow> 'c \<Rightarrow> 'c result"
  op_append :: "codepoint \<Rightarrow> 'c \<Rightarrow> (int \<times> 'c) result"
  op_setHyperlink :: "HyperlinkId \<Rightarrow> 'c \<Rightarrow> 'c"
  op_empty :: "'c \<Rightarrow> bool"
  op_codepoints :: "'c \<Rightarrow> codepoint list"
  op_width :: "'c \<Rightarrow> nat"
  op_write_link :: "GraphicsAttributes \<Rightarrow> codepoint \<Rightarrow> nat \<Rightarrow> HyperlinkId \<Rightarrow> 'c \<Rightarrow> 'c result"
  op_reset_link :: "GraphicsAttributes \<Rightarrow> HyperlinkId \<Rightarrow> 'c \<Rightarrow> 'c"
  op_writeTextOnly :: "codepoint \<Rightarrow> nat \<Rightarrow> 'c \<Rightarrow> 'c result"
  op_flags :: "'c \<Rightarrow> CellFlags"

definition compact_ops :: "CompactCell CellOps" where
  "compact_ops =
    \<lparr>op_default = newCompactCell, op_make = cc_make, op_clear = cc_reset, op_reset = cc_reset_sgr, op_assign = cc_assign,
     op_write = cc_write, op_append = cc_appendCharacter, op_setHyperlink = cc_setHyperlink,
     op_empty = cc_empty, op_codepoints = cell_codepoints, op_width = cc_width, op_write_link = cc_write_link,
     op_reset_link = cc_reset_link, op_writeTextOnly = cc_writeTextOnly, op_flags = cc_flags\<rparr>"

definition simple_ops :: "SimpleCell CellOps" where
  "simple_ops =
    \<lparr>op_default = Inr newSimpleCell, op_make = (\<lambda>a h. Inr (sc_make a h)), op_clear = sc_reset, op_reset = sc_reset_sgr,
     op_assign = (\<lambda>c v. v), op_write = (\<lambda>a ch w c. Inr (sc_write a ch w c)),
     op_append = (\<lambda>ch c. Inr (sc_appendCharacter ch c)), op_setHyperlink = sc_setHyperlink,
     op_empty = sc_empty, op_codepoints = sc_codepoints, op_width = sc_width,
     op_write_link = (\<lambda>a ch w h c. Inr (sc_write_link a ch w h c)), op_reset_link = sc_reset_link,
     op_writeTextOnly = (\<lambda>ch w c. Inr (sc_writeTextOnly ch w c)), op_flags = sc_flags\<rparr>"

text \<open>The parts of libunicode behind \<open>inflate\<close>.\<close>

datatype utf8_result = Incomplete | Invalid | Success codepoint

record 'd TextLib =
  tl_init :: 'd
  tl_from_utf8 :: "'d \<Rightarrow> byte \<Rightarrow> 'd \<times> utf8_result"
  tl_breakable :: "codepoint \<Rightarrow> codepoint \<Rightarrow> bool"
  tl_width :: "codepoint \<Rightarrow> nat"
  tl_to_utf8 :: "codepoint \<Rightarrow> bytes"

subsection \<open>Storage\<close>

type_synonym LineFlags = u8

definition Wrappable :: LineFlags where
  "Wrappable = 1"

definition Wrapped :: LineFlags where
  "Wrapped = 2"

definition Marked :: LineFlags where
  "Marked = 4"

record TrivialLineBuffer =
  tb_displayWidth :: nat
  tb_textAttributes :: GraphicsAttributes
  tb_fillAttributes :: GraphicsAttributes
  tb_hyperlink :: HyperlinkId
  tb_usedColumns :: nat
  tb_text :: bytes

definition trivial_blank :: "nat \<Rightarrow> GraphicsAttributes \<Rightarrow> TrivialLineBuffer" where
  "trivial_blank w attributes =
    \<lparr>tb_displayWidth = w, tb_textAttributes = attributes, tb_fillAttributes = attributes,
     tb_hyperlink = 0, tb_usedColumns = 0, tb_text = []\<rparr>"

definition trivial_reset :: "GraphicsAttributes \<Rightarrow> TrivialLineBuffer \<Rightarrow> TrivialLineBuffer" where
  "trivial_reset attributes b =
    b\<lparr>tb_textAttributes := attributes, tb_fillAttributes := attributes, tb_hyperlink := 0,
      tb_usedColumns := 0, tb_text := []\<rparr>"

datatype 'c LineStorage = TrivialBuffer TrivialLineBuffer | InflatedBuffer "'c list"

record 'c Line =
  line_storage :: "'c LineStorage"
  line_flags :: LineFlags

text \<open>A default-constructed line: the first alternative of the variant, with no columns.\<close>

definition newLine :: "'c Line" where
  "newLine = \<lparr>line_storage = TrivialBuffer (trivial_blank 0 defaultAttributes), line_flags = 0\<rparr>"

definition blank_line :: "nat \<Rightarrow> GraphicsAttributes \<Rightarrow> LineFlags \<Rightarrow> 'c Line" where
  "blank_line w attributes flags =
    \<lparr>line_storage = TrivialBuffer (trivial_blank w attributes), line_flags = flags\<rparr>"

fun isTrivialBuffer :: "'c Line \<Rightarrow> bool" where
  "isTrivialBuffer l = (case line_storage l of TrivialBuffer _ \<Rightarrow> True | InflatedBuffer _ \<Rightarrow> False)"

definition line_size :: "'c Line \<Rightarrow> nat" where
  "line_size l = (case line_storage l of TrivialBuffer b \<Rightarrow> tb_displayWidth b | InflatedBuffer cs \<Rightarrow> length cs)"

subsection \<open>Flags\<close>

definition line_isFlagEnabled :: "LineFlags \<Rightarrow> 'c Line \<Rightarrow> bool" where
  "line_isFlagEnabled flags l \<longleftrightarrow> line_flags l AND flags \<noteq> 0"

definition setFlag :: "LineFlags \<Rightarrow> bool \<Rightarrow> 'c Line \<Rightarrow> 'c Line" where
  "setFlag flags enable l =
    l\<lparr>line_flags := (if enable then line_flags l OR flags else line_flags l AND NOT flags)\<rparr>"

abbreviation wrapped :: "'c Line \<Rightarrow> bool" where
  "wrapped \<equiv> line_isFlagEnabled Wrapped"

abbreviation wrappable :: "'c Line \<Rightarrow> bool" where
  "wrappable \<equiv> line_isFlagEnabled Wrappable"

abbreviation marked :: "'c Line \<Rightarrow> bool" where
  "marked \<equiv> line_isFlagEnabled Marked"

definition wrappableFlag :: "'c Line \<Rightarrow> LineFlags" where
  "wrappableFlag l = (if wrappable l then Wrappable else 0)"

definition wrappedFlag :: "'c Line \<Rightarrow> LineFlags" where
  "wrappedFlag l = (if marked l then Wrapped else 0)"

definition markedFlag :: "'c Line \<Rightarrow> LineFlags" where
  "markedFlag l = (if marked l then Marked else 0)"

definition inheritableFlags :: "'c Line \<Rightarrow> LineFlags" where
  "inheritableFlags l = line_flags l AND (Wrappable OR Marked)"

subsection \<open>Inflating\<close>

record ('c, 'd) inflate_state =
  inf_columns :: "'c list"
  inf_lastChar :: codepoint
  inf_decoder :: 'd
  inf_gapPending :: int

text \<open>Appending a number of equal new cells.\<close>

definition push_cells :: "nat \<Rightarrow> 'c result \<Rightarrow> 'c list \<Rightarrow> 'c list result" where
  "push_cells n c cols = (if n = 0 then Inr cols else bind_result c (\<lambda>c. Inr (cols @ replicate n c)))"

definition ReplacementCharacter :: codepoint where
  "ReplacementCharacter = 0xFFFD"

definition inflate_char ::
  "'c CellOps \<Rightarrow> ('d, 'm) TextLib_scheme \<Rightarrow> TrivialLineBuffer \<Rightarrow> codepoint \<Rightarrow> ('c, 'd) inflate_state
    \<Rightarrow> ('c, 'd) inflate_state result" where
  "inflate_char K T input nextChar s =
    (if tl_breakable T (inf_lastChar s) nextChar
     then
       bind_result (push_cells (nat (inf_gapPending s))
           (op_make K (attributes_with (tb_textAttributes input) (flag CF_WideCharContinuation))
             (tb_hyperlink input)) (inf_columns s)) (\<lambda>cols.
       bind_result (op_default K) (\<lambda>c.
       bind_result (op_write K (tb_textAttributes input) nextChar (wrap8 (tl_width T nextChar))
           (op_setHyperlink K (tb_hyperlink input) c)) (\<lambda>c.
         Inr (s\<lparr>inf_columns := cols @ [c], inf_gapPending := int (tl_width T nextChar) - 1,
                inf_lastChar := nextChar\<rparr>))))
     else if inf_columns s = [] then Inl OutOfBounds
     else
       bind_result (op_append K nextChar (last (inf_columns s))) (\<lambda>(extendedWidth, c).
         let cols = butlast (inf_columns s) @ [c];
             cellsAvailable = int (tb_displayWidth input) - int (length cols) + 1;
             n = min extendedWidth cellsAvailable
         in bind_result
              (if extendedWidth > 0
               then push_cells (nat (n - 1))
                      (bind_result (op_make K (tb_textAttributes input) 0)
                        (\<lambda>c. Inr (op_setHyperlink K (tb_hyperlink input) c))) cols
               else Inr cols) (\<lambda>cols.
              Inr (s\<lparr>inf_columns := cols, inf_lastChar := nextChar\<rparr>))))"

definition inflate_byte ::
  "'c CellOps \<Rightarrow> ('d, 'm) TextLib_scheme \<Rightarrow> TrivialLineBuffer \<Rightarrow> byte \<Rightarrow> ('c, 'd) inflate_state
    \<Rightarrow> ('c, 'd) inflate_state result" where
  "inflate_byte K T input ch s =
    (let (d, r) = tl_from_utf8 T (inf_decoder s) ch; s = s\<lparr>inf_decoder := d\<rparr> in
     case r of
       Incomplete \<Rightarrow> Inr s
     | Success cp \<Rightarrow> inflate_char K T input cp s
     | Invalid \<Rightarrow> inflate_char K T input ReplacementCharacter s)"

definition inflate ::
  "'c CellOps \<Rightarrow> ('d, 'm) TextLib_scheme \<Rightarrow> TrivialLineBuffer \<Rightarrow> 'c list result" where
  "inflate K T input =
    bind_result (fold_result (inflate_byte K T input) (tb_text input)
        \<lparr>inf_columns = [], inf_lastChar = 0, inf_decoder = tl_init T, inf_gapPending = 0\<rparr>) (\<lambda>s.
    bind_result (push_cells (nat (inf_gapPending s)) (op_make K (tb_textAttributes input) (tb_hyperlink input))
        (inf_columns s)) (\<lambda>cols.
      if length cols \<noteq> tb_usedColumns input \<or> tb_displayWidth input = 0 then Inl AssertionFailed
      else push_cells (tb_displayWidth input - length cols) (op_make K (tb_fillAttributes input) 0) cols))"

text \<open>\<open>inflatedBuffer()\<close>: the cells, and the line with them as its storage.\<close>

definition inflatedBuffer ::
  "'c CellOps \<Rightarrow> ('d, 'm) TextLib_scheme \<Rightarrow> 'c Line \<Rightarrow> ('c list \<times> 'c Line) result" where
  "inflatedBuffer K T l =
    (case line_storage l of
       InflatedBuffer cs \<Rightarrow> Inr (cs, l)
     | TrivialBuffer b \<Rightarrow> bind_result (inflate K T b) (\<lambda>cs. Inr (cs, l\<lparr>line_storage := InflatedBuffer cs\<rparr>)))"

subsection \<open>Operations\<close>

definition line_reset :: "LineFlags \<Rightarrow> GraphicsAttributes \<Rightarrow> 'c Line \<Rightarrow> 'c Line" where
  "line_reset flags attributes l =
    (case line_storage l of
       TrivialBuffer b \<Rightarrow> \<lparr>line_storage = TrivialBuffer (trivial_reset attributes b), line_flags = flags\<rparr>
     | InflatedBuffer cs \<Rightarrow>
         \<lparr>line_storage = TrivialBuffer (trivial_blank (length cs) attributes), line_flags = flags\<rparr>)"

definition line_reset_count :: "LineFlags \<Rightarrow> GraphicsAttributes \<Rightarrow> nat \<Rightarrow> 'c Line \<Rightarrow> 'c Line" where
  "line_reset_count flags attributes count l =
    \<lparr>line_storage = TrivialBuffer (trivial_blank count attributes), line_flags = flags\<rparr>"

fun map_result :: "('a \<Rightarrow> 'b result) \<Rightarrow> 'a list \<Rightarrow> 'b list result" where
  "map_result f [] = Inr []"
| "map_result f (x # xs) = bind_result (f x) (\<lambda>y. bind_result (map_result f xs) (\<lambda>ys. Inr (y # ys)))"

definition line_fill ::
  "'c CellOps \<Rightarrow> ('d, 'm) TextLib_scheme \<Rightarrow> LineFlags \<Rightarrow> GraphicsAttributes \<Rightarrow> codepoint \<Rightarrow> nat
    \<Rightarrow> 'c Line \<Rightarrow> 'c Line result" where
  "line_fill K T flags attributes cp w l =
    (if cp = 0 then Inr (line_reset flags attributes l)
     else bind_result (inflatedBuffer K T l) (\<lambda>(cs, l).
          bind_result (map_result (\<lambda>c. op_write K attributes cp w (op_clear K c)) cs) (\<lambda>cs.
            Inr (l\<lparr>line_storage := InflatedBuffer cs, line_flags := flags\<rparr>))))"

definition line_fill_ascii ::
  "'c CellOps \<Rightarrow> ('d, 'm) TextLib_scheme \<Rightarrow> nat \<Rightarrow> GraphicsAttributes \<Rightarrow> bytes \<Rightarrow> 'c Line \<Rightarrow> 'c Line result" where
  "line_fill_ascii K T start sgr ascii l =
    bind_result (inflatedBuffer K T l) (\<lambda>(cs, l).
      if start + length ascii > length cs then Inl AssertionFailed
      else
        bind_result (map_result (\<lambda>(c, ch). op_write K sgr (nat (schar ch mod 2 ^ 32)) 1 c)
            (zip (drop start cs) ascii)) (\<lambda>written.
          Inr (l\<lparr>line_storage := InflatedBuffer (take start cs @ written
            @ map (op_clear K) (drop (start + length ascii) cs))\<rparr>)))"

definition line_empty :: "'c CellOps \<Rightarrow> 'c Line \<Rightarrow> bool" where
  "line_empty K l =
    (case line_storage l of TrivialBuffer b \<Rightarrow> tb_text b = [] | InflatedBuffer cs \<Rightarrow> list_all (op_empty K) cs)"

definition line_resize :: "'c CellOps \<Rightarrow> nat \<Rightarrow> 'c Line \<Rightarrow> 'c Line result" where
  "line_resize K count l =
    (case line_storage l of
       TrivialBuffer b \<Rightarrow> Inr (l\<lparr>line_storage := TrivialBuffer (b\<lparr>tb_displayWidth := count\<rparr>)\<rparr>)
     | InflatedBuffer cs \<Rightarrow>
         bind_result (push_cells (count - length cs) (op_default K) (take count cs)) (\<lambda>cs.
           Inr (l\<lparr>line_storage := InflatedBuffer cs\<rparr>)))"

definition trim_blanks :: "'c CellOps \<Rightarrow> 'c list \<Rightarrow> 'c list" where
  "trim_blanks K cs = rev (dropWhile (op_empty K) (rev cs))"

definition trim_blank_right ::
  "'c CellOps \<Rightarrow> ('d, 'm) TextLib_scheme \<Rightarrow> 'c Line \<Rightarrow> 'c list result" where
  "trim_blank_right K T l = bind_result (inflatedBuffer K T l) (\<lambda>(cs, l). Inr (trim_blanks K cs))"

definition cell_toUtf8 :: "'c CellOps \<Rightarrow> ('d, 'm) TextLib_scheme \<Rightarrow> 'c \<Rightarrow> bytes" where
  "cell_toUtf8 K T c = concat (map (tl_to_utf8 T) (op_codepoints K c))"

definition line_toUtf8 :: "'c CellOps \<Rightarrow> ('d, 'm) TextLib_scheme \<Rightarrow> 'c Line \<Rightarrow> bytes" where
  "line_toUtf8 K T l =
    (case line_storage l of
       TrivialBuffer b \<Rightarrow> tb_text b @ replicate (tb_displayWidth b - tb_usedColumns b) 0x20
     | InflatedBuffer cs \<Rightarrow>
         concat (map (\<lambda>c. if op_codepoints K c = [] then [0x20] else cell_toUtf8 K T c) cs))"

definition cellEmptyAt :: "'c CellOps \<Rightarrow> nat \<Rightarrow> 'c Line \<Rightarrow> bool result" where
  "cellEmptyAt K column l =
    (case line_storage l of
       TrivialBuffer b \<Rightarrow>
         if column < tb_displayWidth b
         then Inr (column \<ge> length (tb_text b) \<or> tb_text b ! column = 0x20)
         else Inl AssertionFailed
     | InflatedBuffer cs \<Rightarrow>
         if column < length cs
         then Inr (op_empty K (cs ! column) \<or> op_codepoints K (cs ! column) = [0x20])
         else Inl Exception)"

definition cellWidthAt ::
  "'c CellOps \<Rightarrow> ('d, 'm) TextLib_scheme \<Rightarrow> nat \<Rightarrow> 'c Line \<Rightarrow> (nat \<times> 'c Line) result" where
  "cellWidthAt K T column l =
    bind_result (inflatedBuffer K T l) (\<lambda>(cs, l).
      if column < length cs then Inr (op_width K (cs ! column), l) else Inl Exception)"

text \<open>The columns \<open>reflow\<close> cuts off, and the line without them.\<close>

definition reflow_cells :: "'c CellOps \<Rightarrow> nat \<Rightarrow> 'c list \<Rightarrow> 'c Line \<Rightarrow> ('c list \<times> 'c Line) result" where
  "reflow_cells K newColumnCount cs l =
    (if newColumnCount = length cs then Inr ([], l)
     else if newColumnCount > length cs
     then bind_result (push_cells (newColumnCount - length cs) (op_default K) cs) (\<lambda>cs.
            Inr ([], l\<lparr>line_storage := InflatedBuffer cs\<rparr>))
     else Inr (if wrappable l then trim_blanks K (drop newColumnCount cs) else [],
               l\<lparr>line_storage := InflatedBuffer (take newColumnCount cs)\<rparr>))"

definition reflow ::
  "'c CellOps \<Rightarrow> ('d, 'm) TextLib_scheme \<Rightarrow> nat \<Rightarrow> 'c Line \<Rightarrow> ('c list \<times> 'c Line) result" where
  "reflow K T newColumnCount l =
    (case line_storage l of
       TrivialBuffer b \<Rightarrow>
         if newColumnCount > length (tb_text b)
         then Inr ([], l\<lparr>line_storage := TrivialBuffer (b\<lparr>tb_displayWidth := newColumnCount\<rparr>)\<rparr>)
         else if newColumnCount = length (tb_text b) then Inr ([], l)
         else bind_result (inflatedBuffer K T l) (\<lambda>(cs, l). reflow_cells K newColumnCount cs l)
     | InflatedBuffer cs \<Rightarrow> reflow_cells K newColumnCount cs l)"

subsection \<open>The interface of the cells\<close>

text \<open>The cell \<open>inflate\<close> makes of a character that takes one column.\<close>

definition text_cell :: "'c CellOps \<Rightarrow> GraphicsAttributes \<Rightarrow> HyperlinkId \<Rightarrow> codepoint \<Rightarrow> 'c result" where
  "text_cell K a h ch = bind_result (op_default K) (\<lambda>c. op_write K a ch 1 (op_setHyperlink K h c))"

locale cell_interface =
  fixes K :: "'c CellOps"
  assumes default_ok: "\<exists>c. op_default K = Inr c \<and> op_empty K c"
    and make_ok: "\<exists>c. op_make K a h = Inr c \<and> op_empty K c"
    and write_ok: "0 < ch \<Longrightarrow> 0 < w \<Longrightarrow> w < 7 \<Longrightarrow>
      \<exists>c'. op_write K a ch w c = Inr c' \<and> op_codepoints K c' = [ch] \<and> op_width K c' = w \<and>
        \<not> op_empty K c'"
    and empty_codepoints: "op_empty K c \<Longrightarrow> op_codepoints K c = []"
begin

lemma push_make: "\<exists>c. push_cells n (op_make K a h) cols = Inr (cols @ replicate n c) \<and> op_empty K c"
proof -
  obtain c where "op_make K a h = Inr c" "op_empty K c" using make_ok [of a h] by blast
  then show ?thesis by (intro exI [of _ c]) (simp add: push_cells_def)
qed

lemma push_default: "\<exists>c. push_cells n (op_default K) cols = Inr (cols @ replicate n c) \<and> op_empty K c"
proof -
  obtain c where "op_default K = Inr c" "op_empty K c" using default_ok by blast
  then show ?thesis by (intro exI [of _ c]) (simp add: push_cells_def)
qed

text \<open>
  A run of characters that are each decoded at once, break from one another and take one column
  gives one cell per character.
\<close>

lemma text_cell_ok:
  "0 < ch \<Longrightarrow> \<exists>c. text_cell K a h ch = Inr c \<and> op_codepoints K c = [ch] \<and> op_width K c = 1 \<and> \<not> op_empty K c"
  using default_ok write_ok [of ch 1] by (auto simp: text_cell_def)

lemma text_cells_codepoints:
  assumes "map (text_cell K a h) bs = map Inr cs" "\<forall>b \<in> set bs. 0 < b"
  shows "map (op_codepoints K) cs = map (\<lambda>b. [b]) bs"
proof -
  have len: "length bs = length cs" using assms(1) by (metis length_map)
  have "op_codepoints K (cs ! i) = [bs ! i]" if "i < length bs" for i
  proof -
    have "text_cell K a h (bs ! i) = Inr (cs ! i)" using assms(1) that len by (metis nth_map)
    then show ?thesis using text_cell_ok [of "bs ! i" a h] assms(2) that by auto
  qed
  then show ?thesis by (intro nth_equalityI) (simp_all add: len [symmetric])
qed

lemma inflate_run:
  assumes "\<forall>b \<in> set bs. 0 < b \<and> tl_from_utf8 T (tl_init T) b = (tl_init T, Success b) \<and> tl_width T b = 1"
    and "\<forall>a \<in> insert 0 (set (done @ bs)). \<forall>b \<in> set bs. tl_breakable T a b"
    and "inf_decoder s = tl_init T" "inf_gapPending s \<le> 0"
    and "inf_lastChar s = (if done = [] then 0 else last done)"
    and "map (text_cell K (tb_textAttributes input) (tb_hyperlink input)) done = map Inr (inf_columns s)"
  shows "\<exists>s'. fold_result (inflate_byte K T input) bs s = Inr s' \<and> inf_gapPending s' \<le> 0 \<and>
    map (text_cell K (tb_textAttributes input) (tb_hyperlink input)) (done @ bs) = map Inr (inf_columns s')"
  using assms
proof (induction bs arbitrary: "done" s)
  case (Cons b bs)
  let ?cell = "text_cell K (tb_textAttributes input) (tb_hyperlink input)"
  obtain c0 where c0: "op_default K = Inr c0" using default_ok by blast
  have b: "0 < b" "tl_from_utf8 T (tl_init T) b = (tl_init T, Success b)" "tl_width T b = 1"
    using Cons.prems(1) by simp_all
  obtain c where c: "?cell b = Inr c" using text_cell_ok [OF b(1)] by blast
  then have wr: "op_write K (tb_textAttributes input) b 1 (op_setHyperlink K (tb_hyperlink input) c0) = Inr c"
    using c0 by (simp add: text_cell_def)
  have "inf_lastChar s \<in> insert 0 (set (done @ b # bs))" using Cons.prems(5) by (auto split: if_splits)
  then have brk: "tl_breakable T (inf_lastChar s) b" using Cons.prems(2) by auto
  let ?s = "s\<lparr>inf_columns := inf_columns s @ [c], inf_gapPending := 0, inf_lastChar := b\<rparr>"
  have dec: "s\<lparr>inf_decoder := tl_init T\<rparr> = s" using Cons.prems(3) by simp
  have step: "inflate_byte K T input b s = Inr ?s"
    using Cons.prems(3,4) brk b c0 wr
    by (simp add: inflate_byte_def inflate_char_def push_cells_def wrap8_def dec)
  have "\<exists>s'. fold_result (inflate_byte K T input) bs ?s = Inr s' \<and> inf_gapPending s' \<le> 0 \<and>
      map ?cell ((done @ [b]) @ bs) = map Inr (inf_columns s')"
  proof (rule Cons.IH)
    show "\<forall>a \<in> insert 0 (set ((done @ [b]) @ bs)). \<forall>b \<in> set bs. tl_breakable T a b"
      using Cons.prems(2) by simp
  qed (use Cons.prems c in simp_all)
  with step show ?case by simp
qed simp

end

interpretation compact: cell_interface compact_ops
proof (unfold_locales, goal_cases)
  case 1
  then show ?case
    by (simp add: compact_ops_def newCompactCell_view(1) cc_empty_def cc_codepointCount_def view_simps cc_blank_def)
next
  case (2 a h)
  obtain c where c: "cc_make a h = Inr c" "cell_ok c" "cell_view c = sc_make a h" using cc_make_view by blast
  then have "cc_empty c" by (simp add: cc_empty_view sc_empty_def sc_codepointCount_def sc_make_def newSimpleCell_def)
  with c show ?case by (simp add: compact_ops_def)
next
  case (3 ch w a c)
  then show ?case
    by (cases "cc_extra c")
      (auto simp: compact_ops_def cc_write_def cc_setWidth_def cc_empty_def cc_codepointCount_def view_simps Let_def)
next
  case (4 c)
  then show ?case
    by (auto simp: compact_ops_def cc_empty_def cc_codepointCount_def cell_codepoints_def
        split: if_splits option.splits)
qed

interpretation simple: cell_interface simple_ops
  by unfold_locales
    (auto simp: simple_ops_def sc_empty_def sc_codepointCount_def sc_make_def sc_write_def newSimpleCell_def)

subsection \<open>Lengths and contents\<close>

lemma inflate_length:
  assumes "inflate K T b = Inr cs"
  shows "length cs = max (tb_usedColumns b) (tb_displayWidth b)"
  using assms
  by (auto simp: inflate_def bind_result_eq_Inr push_cells_def split: if_splits)

lemma inflatedBuffer_length:
  assumes "inflatedBuffer K T l = Inr (cs, l')" "\<And>b. line_storage l = TrivialBuffer b \<Longrightarrow> tb_usedColumns b \<le> tb_displayWidth b"
  shows "length cs = line_size l" "line_size l' = line_size l" "line_storage l' = InflatedBuffer cs"
    "line_flags l' = line_flags l"
  using assms inflate_length [of K T _ cs]
  by (auto simp: inflatedBuffer_def line_size_def bind_result_eq_Inr max_absorb2 split: LineStorage.splits)

lemma line_reset_blank: "line_reset flags attributes l = blank_line (line_size l) attributes flags"
  by (auto simp: line_reset_def blank_line_def line_size_def trivial_reset_def trivial_blank_def
      split: LineStorage.split)

lemma line_reset_count_blank: "line_reset_count flags attributes n l = blank_line n attributes flags"
  by (simp add: line_reset_count_def blank_line_def)

lemma line_size_blank [simp]: "line_size (blank_line w attributes flags) = w"
  by (simp add: line_size_def blank_line_def trivial_blank_def)

lemma line_flags_blank [simp]: "line_flags (blank_line w attributes flags) = flags"
  by (simp add: blank_line_def)

lemma trim_blanks_split:
  "\<exists>blanks. cs = trim_blanks K cs @ blanks \<and> list_all (op_empty K) blanks"
proof -
  let ?t = "takeWhile (op_empty K) (rev cs)" and ?d = "dropWhile (op_empty K) (rev cs)"
  have "rev cs = ?t @ ?d" by simp
  then have "cs = rev ?d @ rev ?t" by (metis rev_append rev_rev_ident)
  moreover have "list_all (op_empty K) (rev ?t)"
    by (auto simp: list_all_iff dest: set_takeWhileD)
  ultimately show ?thesis unfolding trim_blanks_def by blast
qed

text \<open>Cutting a wrappable line loses nothing but blank cells at its end.\<close>

lemma reflow_cells_split:
  assumes "reflow_cells K n cs l = Inr (rem, l')" "n < length cs" "wrappable l"
  shows "\<exists>kept blanks. line_storage l' = InflatedBuffer kept \<and> length kept = n \<and>
    cs = kept @ rem @ blanks \<and> list_all (op_empty K) blanks \<and> line_flags l' = line_flags l"
proof -
  obtain blanks where split: "drop n cs = trim_blanks K (drop n cs) @ blanks" "list_all (op_empty K) blanks"
    using trim_blanks_split by blast
  have "rem = trim_blanks K (drop n cs)" "line_storage l' = InflatedBuffer (take n cs)"
      "line_flags l' = line_flags l"
    using assms by (auto simp: reflow_cells_def)
  moreover have "cs = take n cs @ trim_blanks K (drop n cs) @ blanks"
    by (metis split(1) append_take_drop_id)
  ultimately show ?thesis using split(2) assms(2)
    by (intro exI [of _ "take n cs"] exI [of _ blanks]) simp
qed

subsection \<open>Text of one attribute\<close>

definition printable :: "byte \<Rightarrow> bool" where
  "printable b \<longleftrightarrow> 0x20 \<le> b \<and> b < 0x7F"

text \<open>
  What libunicode documents for printable US-ASCII: each byte is a complete character of width one,
  a grapheme cluster of its own, encoded by itself.
\<close>

definition ascii_lib :: "('d, 'm) TextLib_scheme \<Rightarrow> bool" where
  "ascii_lib T \<longleftrightarrow>
    (\<forall>b. printable b \<longrightarrow>
      tl_from_utf8 T (tl_init T) b = (tl_init T, Success b) \<and> tl_width T b = 1 \<and> tl_to_utf8 T b = [b] \<and>
      tl_breakable T 0 b \<and> (\<forall>a. printable a \<longrightarrow> tl_breakable T a b))"

context cell_interface
begin

lemma inflate_ascii_cells:
  assumes "ascii_lib T" "list_all printable (tb_text b)" "tb_usedColumns b = length (tb_text b)"
    and "length (tb_text b) \<le> tb_displayWidth b" "0 < tb_displayWidth b"
  shows "\<exists>cs blank. inflate K T b = Inr (cs @ replicate (tb_displayWidth b - length (tb_text b)) blank) \<and>
    map (text_cell K (tb_textAttributes b) (tb_hyperlink b)) (tb_text b) = map Inr cs \<and>
    op_make K (tb_fillAttributes b) 0 = Inr blank"
proof -
  let ?s = "\<lparr>inf_columns = [], inf_lastChar = 0, inf_decoder = tl_init T, inf_gapPending = 0\<rparr>"
  have pr: "printable c" if "c \<in> set (tb_text b)" for c using assms(2) that by (simp add: list_all_iff)
  have pos: "0 < c" if "c \<in> set (tb_text b)" for c using pr [OF that] by (simp add: printable_def)
  have "\<exists>s'. fold_result (inflate_byte K T b) (tb_text b) ?s = Inr s' \<and> inf_gapPending s' \<le> 0 \<and>
      map (text_cell K (tb_textAttributes b) (tb_hyperlink b)) ([] @ tb_text b) = map Inr (inf_columns s')"
    by (rule inflate_run)
      (use assms(1) pr pos in \<open>auto simp: ascii_lib_def\<close>)
  then obtain s' where s': "fold_result (inflate_byte K T b) (tb_text b) ?s = Inr s'" "inf_gapPending s' \<le> 0"
      "map (text_cell K (tb_textAttributes b) (tb_hyperlink b)) (tb_text b) = map Inr (inf_columns s')"
    by auto
  from s'(3) have len: "length (inf_columns s') = length (tb_text b)" by (metis length_map)
  obtain blank where blank: "op_make K (tb_fillAttributes b) 0 = Inr blank" using make_ok by blast
  have "inflate K T b = Inr (inf_columns s' @ replicate (tb_displayWidth b - length (tb_text b)) blank)"
    using s' len blank assms(3,5) by (simp add: inflate_def push_cells_def)
  with s'(3) blank show ?thesis by blast
qed

lemma inflate_ascii_lemma:
  assumes "ascii_lib T" "list_all printable (tb_text b)" "tb_usedColumns b = length (tb_text b)"
    and "length (tb_text b) \<le> tb_displayWidth b" "0 < tb_displayWidth b"
  shows "\<exists>cs blank. inflate K T b = Inr (cs @ replicate (tb_displayWidth b - length (tb_text b)) blank) \<and>
    map (op_codepoints K) cs = map (\<lambda>c. [c]) (tb_text b) \<and> op_empty K blank"
proof -
  from inflate_ascii_cells [OF assms] obtain cs blank where
    cs: "inflate K T b = Inr (cs @ replicate (tb_displayWidth b - length (tb_text b)) blank)"
      "map (text_cell K (tb_textAttributes b) (tb_hyperlink b)) (tb_text b) = map Inr cs"
      "op_make K (tb_fillAttributes b) 0 = Inr blank"
    by blast
  have "\<forall>c \<in> set (tb_text b). 0 < c" using assms(2) by (auto simp: list_all_iff printable_def)
  from text_cells_codepoints [OF cs(2) this] cs(1,3) make_ok [of "tb_fillAttributes b" 0] show ?thesis by auto
qed

text \<open>The inflated line and the run of text it came from are the same line to a reader.\<close>

lemma inflated_reads_same:
  assumes "ascii_lib T" "list_all printable (tb_text b)" "tb_usedColumns b = length (tb_text b)"
    and "length (tb_text b) \<le> tb_displayWidth b" "0 < tb_displayWidth b" "line_storage l = TrivialBuffer b"
  shows "\<exists>cs l'. inflatedBuffer K T l = Inr (cs, l') \<and> line_size l' = line_size l \<and>
    line_flags l' = line_flags l \<and> line_toUtf8 K T l' = line_toUtf8 K T l \<and>
    (\<forall>column < line_size l. cellEmptyAt K column l' = cellEmptyAt K column l)"
proof -
  let ?n = "tb_displayWidth b - length (tb_text b)"
  from inflate_ascii_lemma [OF assms(1-5)] obtain cs blank where
    cs: "inflate K T b = Inr (cs @ replicate ?n blank)"
      "map (op_codepoints K) cs = map (\<lambda>c. [c]) (tb_text b)" "op_empty K blank"
    by blast
  let ?l = "l\<lparr>line_storage := InflatedBuffer (cs @ replicate ?n blank)\<rparr>"
  have len: "length cs = length (tb_text b)" using cs(2) by (metis length_map)
  have nth: "op_codepoints K (cs ! i) = [tb_text b ! i]" if "i < length cs" for i
    using that len cs(2) by (metis nth_map)
  have utf8: "tl_to_utf8 T (tb_text b ! i) = [tb_text b ! i]" if "i < length cs" for i
    using assms(1,2) that len by (simp add: ascii_lib_def list_all_length)
  have "map (\<lambda>c. if op_codepoints K c = [] then [0x20] else cell_toUtf8 K T c) cs = map (\<lambda>c. [c]) (tb_text b)"
    by (rule nth_equalityI) (simp_all add: len [symmetric] nth utf8 cell_toUtf8_def)
  moreover have "concat (map (\<lambda>c. [c]) (tb_text b)) = tb_text b" by (simp add: concat_map_singleton)
  moreover have "concat (replicate ?n [0x20]) = replicate ?n (0x20 :: byte)"
    by (simp add: concat_replicate_single)
  ultimately have text_eq: "line_toUtf8 K T ?l = line_toUtf8 K T l"
    using assms(3,6) empty_codepoints [OF cs(3)] by (simp add: line_toUtf8_def)
  have "cellEmptyAt K column ?l = cellEmptyAt K column l" if "column < tb_displayWidth b" for column
    using that assms(4,6) cs(3) nth [of column] empty_codepoints [of "cs ! column"] len
    by (auto simp: cellEmptyAt_def nth_append)
  with text_eq cs(1) len assms(4,6) show ?thesis
    by (intro exI [of _ "cs @ replicate ?n blank"] exI [of _ ?l]) (simp add: inflatedBuffer_def line_size_def)
qed

end

subsection \<open>Properties\<close>

text \<open>
  C39. A line stored as a run of printable US-ASCII text and the same line after its cells were
  asked for are the same line: it inflates without a fault, and its width, its flags, its text and
  which of its cells count as empty stay as they were.
\<close>

theorem line_views_agree:
  assumes "ascii_lib T" "list_all printable (tb_text b)" "tb_usedColumns b = length (tb_text b)"
    and "length (tb_text b) \<le> tb_displayWidth b" "0 < tb_displayWidth b" "line_storage l = TrivialBuffer b"
  shows "\<exists>cs l'. inflatedBuffer compact_ops T l = Inr (cs, l') \<and> line_size l' = line_size l \<and>
    line_flags l' = line_flags l \<and> line_toUtf8 compact_ops T l' = line_toUtf8 compact_ops T l \<and>
    (\<forall>column < line_size l. cellEmptyAt compact_ops column l' = cellEmptyAt compact_ops column l)"
  using assms by (rule compact.inflated_reads_same)

definition byte_lib :: "unit TextLib" where
  "byte_lib =
    \<lparr>tl_init = (), tl_from_utf8 = (\<lambda>d b. (d, Success b)), tl_breakable = (\<lambda>a b. True),
     tl_width = (\<lambda>c. 1), tl_to_utf8 = (\<lambda>c. [c])\<rparr>"

lemma ascii_lib_byte_lib: "ascii_lib byte_lib"
  by (simp add: ascii_lib_def byte_lib_def)

theorem line_views_agree_witness:
  "\<exists>cs l'. inflatedBuffer compact_ops byte_lib
      \<lparr>line_storage = TrivialBuffer ((trivial_blank 5 defaultAttributes)\<lparr>tb_usedColumns := 2, tb_text := [0x61, 0x62]\<rparr>),
       line_flags = 1\<rparr> = Inr (cs, l') \<and>
    line_toUtf8 compact_ops byte_lib l' = [0x61, 0x62, 0x20, 0x20, 0x20]"
proof -
  let ?b = "(trivial_blank 5 defaultAttributes)\<lparr>tb_usedColumns := 2, tb_text := [0x61, 0x62]\<rparr>"
  let ?l = "\<lparr>line_storage = TrivialBuffer ?b, line_flags = 1\<rparr>"
  have "line_toUtf8 compact_ops byte_lib ?l = [0x61, 0x62, 0x20, 0x20, 0x20]"
    by (simp add: line_toUtf8_def trivial_blank_def numeral_eq_Suc)
  with line_views_agree [OF ascii_lib_byte_lib, of ?b ?l] show ?thesis
    by (auto simp: printable_def trivial_blank_def)
qed

text \<open>
  Reflowing a run of text to a column count that is exactly the length of the text leaves the
  line as it is, also when the line is wider than that: its width is then not the column count
  asked for, although reflowing to any greater count sets it.
\<close>

theorem reflow_equal_keeps_width:
  assumes "line_storage l = TrivialBuffer b" "length (tb_text b) < tb_displayWidth b"
  shows "(\<exists>l'. reflow K T (length (tb_text b)) l = Inr ([], l') \<and>
      line_size l' = tb_displayWidth b \<and> line_size l' \<noteq> length (tb_text b)) \<and>
    (\<exists>l'. reflow K T (Suc (length (tb_text b))) l = Inr ([], l') \<and>
      line_size l' = Suc (length (tb_text b)))"
  using assms by (simp add: reflow_def line_size_def)

theorem reflow_equal_keeps_width_witness:
  "\<exists>l'. reflow compact_ops byte_lib 2
      \<lparr>line_storage = TrivialBuffer ((trivial_blank 5 defaultAttributes)\<lparr>tb_usedColumns := 2, tb_text := [0x61, 0x62]\<rparr>),
       line_flags = 1\<rparr> = Inr ([], l') \<and> line_size l' = 5"
proof -
  let ?b = "(trivial_blank 5 defaultAttributes)\<lparr>tb_usedColumns := 2, tb_text := [0x61, 0x62]\<rparr>"
  show ?thesis
    using reflow_equal_keeps_width [of "\<lparr>line_storage = TrivialBuffer ?b, line_flags = 1\<rparr>" ?b compact_ops byte_lib]
    by (auto simp: trivial_blank_def numeral_2_eq_2)
qed

end
