(* ===== verification/Crispy_Ring.thy ===== *)
theory Crispy_Ring
  imports Prelude
begin

text \<open>
  The ring buffer of \<open>src/crispy/ring.h\<close>: a vector and the physical index of its logical first
  element. Every access goes through a modulo by the size, in \<open>size_t\<close> and \<open>long\<close> arithmetic, which
  is written out here: a division by zero on the empty ring, the overflow of the signed sum and the
  wrap-around of the unsigned one are values of the model.

  The abstraction is \<open>ring_list\<close>, the sequence the ring stands for. The lemmas show that reading,
  writing, rotating, \<open>rezero\<close> and \<open>resize\<close> act on it as the operations of a list do; \<open>push_back\<close> and
  \<open>pop_front\<close> work on the vector's physical order and do so only when the ring is not rotated. The
  locale \<open>cyclic_buffer\<close> is the interface the grid's loops over its lines rely on.
\<close>

subsection \<open>The operations\<close>

record 'a basic_ring =
  rg_storage :: "'a list"
  rg_zero :: nat

abbreviation ring_size :: "'a basic_ring \<Rightarrow> nat" where
  "ring_size r \<equiv> length (rg_storage r)"

definition mk_ring :: "'a list \<Rightarrow> 'a basic_ring" where
  "mk_ring xs = \<lparr>rg_storage = xs, rg_zero = 0\<rparr>"

definition ring_filled :: "nat \<Rightarrow> 'a \<Rightarrow> 'a basic_ring" where
  "ring_filled capacity v = mk_ring (replicate capacity v)"

text \<open>The physical index of \<open>operator[]\<close>: a signed sum, converted to \<open>size_t\<close>, modulo the size.\<close>

definition ring_index :: "'a basic_ring \<Rightarrow> int \<Rightarrow> nat result" where
  "ring_index r i =
    (let sum = int (rg_zero r + ring_size r) + i in
     if \<not> is_long sum then Inl SignedOverflow
     else if ring_size r = 0 then Inl DivisionByZero
     else Inr (to_size_t sum mod ring_size r))"

text \<open>The index of the const \<open>at\<close>: the same sum, taken in \<open>size_t\<close> throughout.\<close>

definition ring_index_at :: "'a basic_ring \<Rightarrow> int \<Rightarrow> nat result" where
  "ring_index_at r i =
    (if ring_size r = 0 then Inl DivisionByZero
     else Inr (to_size_t (int (rg_zero r + ring_size r) + i) mod ring_size r))"

definition ring_get :: "'a basic_ring \<Rightarrow> int \<Rightarrow> 'a result" where
  "ring_get r i = bind_result (ring_index r i) (\<lambda>k. Inr (rg_storage r ! k))"

definition ring_set :: "'a basic_ring \<Rightarrow> int \<Rightarrow> 'a \<Rightarrow> 'a basic_ring result" where
  "ring_set r i v =
    bind_result (ring_index r i) (\<lambda>k. Inr (r\<lparr>rg_storage := (rg_storage r)[k := v]\<rparr>))"

definition ring_at :: "'a basic_ring \<Rightarrow> int \<Rightarrow> 'a result" where
  "ring_at r i = bind_result (ring_index_at r i) (\<lambda>k. Inr (rg_storage r ! k))"

definition ring_rotate :: "'a basic_ring \<Rightarrow> int \<Rightarrow> 'a basic_ring result" where
  "ring_rotate r count =
    (let diff = int (rg_zero r + ring_size r) - count in
     if \<not> is_long diff then Inl SignedOverflow
     else if ring_size r = 0 then Inl DivisionByZero
     else Inr (r\<lparr>rg_zero := to_size_t diff mod ring_size r\<rparr>))"

definition rotate_left :: "'a basic_ring \<Rightarrow> nat \<Rightarrow> 'a basic_ring result" where
  "rotate_left r count =
    (if ring_size r = 0 then Inl DivisionByZero
     else Inr (r\<lparr>rg_zero := to_size_t (int (rg_zero r + ring_size r + count)) mod ring_size r\<rparr>))"

definition rotate_right :: "'a basic_ring \<Rightarrow> nat \<Rightarrow> 'a basic_ring result" where
  "rotate_right r count =
    (if ring_size r = 0 then Inl DivisionByZero
     else Inr (r\<lparr>rg_zero := to_size_t (int (rg_zero r + ring_size r) - int count) mod ring_size r\<rparr>))"

definition unrotate :: "'a basic_ring \<Rightarrow> 'a basic_ring" where
  "unrotate r = r\<lparr>rg_zero := 0\<rparr>"

definition ring_front :: "'a basic_ring \<Rightarrow> 'a result" where
  "ring_front r = ring_at r 0"

definition ring_back :: "'a basic_ring \<Rightarrow> 'a result" where
  "ring_back r = (if ring_size r = 0 then Inl Exception else ring_at r (int (ring_size r) - 1))"

text \<open>
  \<open>rezero\<close> runs \<open>std::rotate\<close> over the ring's iterators, so it reads and writes the elements through
  \<open>operator[]\<close> with the old \<open>_zero\<close>, and resets \<open>_zero\<close> afterwards.
\<close>

definition read_all :: "'a basic_ring \<Rightarrow> 'a list result" where
  "read_all r = fold_result (\<lambda>i xs. bind_result (ring_get r i) (\<lambda>x. Inr (xs @ [x])))
     (map int [0..<ring_size r]) []"

definition write_all :: "'a list \<Rightarrow> 'a basic_ring \<Rightarrow> 'a basic_ring result" where
  "write_all xs r = fold_result (\<lambda>(i, x) r. ring_set r (int i) x) (enumerate 0 xs) r"

definition std_rotate :: "nat \<Rightarrow> 'a basic_ring \<Rightarrow> 'a basic_ring result" where
  "std_rotate middle r =
    (if middle > ring_size r then Inl OutOfBounds
     else bind_result (read_all r) (\<lambda>xs. write_all (drop middle xs @ take middle xs) r))"

definition rezero :: "'a basic_ring \<Rightarrow> 'a basic_ring result" where
  "rezero r = bind_result (std_rotate (rg_zero r) r) (\<lambda>r. Inr (r\<lparr>rg_zero := 0\<rparr>))"

definition rezero_at :: "nat \<Rightarrow> 'a basic_ring \<Rightarrow> 'a basic_ring result" where
  "rezero_at current r = bind_result (std_rotate current r) (\<lambda>r. Inr (r\<lparr>rg_zero := 0\<rparr>))"

text \<open>\<open>std::vector::resize\<close>, with the value-initialised element as an argument.\<close>

definition vector_resize :: "'a \<Rightarrow> nat \<Rightarrow> 'a list \<Rightarrow> 'a list" where
  "vector_resize d n xs = take n xs @ replicate (n - length xs) d"

definition ring_resize :: "'a \<Rightarrow> 'a basic_ring \<Rightarrow> nat \<Rightarrow> 'a basic_ring result" where
  "ring_resize d r newSize =
    bind_result (rezero r) (\<lambda>r. Inr (r\<lparr>rg_storage := vector_resize d newSize (rg_storage r)\<rparr>))"

definition ring_clear :: "'a basic_ring \<Rightarrow> 'a basic_ring" where
  "ring_clear r = r\<lparr>rg_storage := [], rg_zero := 0\<rparr>"

definition push_back :: "'a basic_ring \<Rightarrow> 'a \<Rightarrow> 'a basic_ring" where
  "push_back r v = r\<lparr>rg_storage := rg_storage r @ [v]\<rparr>"

definition pop_front :: "'a basic_ring \<Rightarrow> 'a basic_ring result" where
  "pop_front r = (case rg_storage r of [] \<Rightarrow> Inl OutOfBounds | x # xs \<Rightarrow> Inr (r\<lparr>rg_storage := xs\<rparr>))"

subsection \<open>Iterators\<close>

text \<open>An iterator is its position; it is compared, moved and dereferenced through that alone.\<close>

record ring_iterator =
  it_current :: int

definition ring_begin :: "'a basic_ring \<Rightarrow> ring_iterator" where
  "ring_begin r = \<lparr>it_current = 0\<rparr>"

definition ring_end :: "'a basic_ring \<Rightarrow> ring_iterator" where
  "ring_end r = \<lparr>it_current = int (ring_size r)\<rparr>"

definition it_next :: "ring_iterator \<Rightarrow> ring_iterator" where
  "it_next it = it\<lparr>it_current := it_current it + 1\<rparr>"

definition it_prev :: "ring_iterator \<Rightarrow> ring_iterator" where
  "it_prev it = it\<lparr>it_current := it_current it - 1\<rparr>"

definition it_plus :: "ring_iterator \<Rightarrow> int \<Rightarrow> ring_iterator" where
  "it_plus it n = it\<lparr>it_current := it_current it + n\<rparr>"

definition it_diff :: "ring_iterator \<Rightarrow> ring_iterator \<Rightarrow> int" where
  "it_diff a b = it_current a - it_current b"

definition it_deref :: "'a basic_ring \<Rightarrow> ring_iterator \<Rightarrow> 'a result" where
  "it_deref r it = ring_get r (it_current it)"

definition rit_deref :: "'a basic_ring \<Rightarrow> ring_iterator \<Rightarrow> 'a result" where
  "rit_deref r it = ring_get r (int (ring_size r) - it_current it - 1)"

subsection \<open>The sequence a ring stands for\<close>

definition ring_ok :: "'a basic_ring \<Rightarrow> bool" where
  "ring_ok r \<longleftrightarrow> rg_zero r < max 1 (ring_size r) \<and> ring_size r < 2305843009213693952"

definition ring_list :: "'a basic_ring \<Rightarrow> 'a list" where
  "ring_list r = rotate (rg_zero r) (rg_storage r)"

lemma length_ring_list [simp]: "length (ring_list r) = ring_size r"
  by (simp add: ring_list_def)

lemma ring_list_mk_ring [simp]: "ring_list (mk_ring xs) = xs"
  by (simp add: ring_list_def mk_ring_def)

lemma ring_ok_mk_ring [simp]: "ring_ok (mk_ring xs) \<longleftrightarrow> length xs < 2305843009213693952"
  by (auto simp: ring_ok_def mk_ring_def)

lemma ring_size_mk_ring [simp]: "ring_size (mk_ring xs) = length xs"
  by (simp add: mk_ring_def)

text \<open>Modular arithmetic behind the index computations.\<close>

lemma to_size_t_mod:
  fixes a :: int
  assumes "0 \<le> a" "a < 18446744073709551616" "0 < n"
  shows "to_size_t a mod n = nat (a mod int n)"
  using assms by (simp add: to_size_t_nonneg nat_mod_distrib)

lemma index_shift:
  assumes "0 < n"
  shows "nat ((int (z + n) + i) mod int n) = (z + nat (i mod int n)) mod n"
proof -
  have "(int (z + n) + i) mod int n = (int z + i) mod int n"
    using mod_add_self1 [of "int n" "int z + i"] by (simp add: algebra_simps)
  also have "\<dots> = (int z + i mod int n) mod int n" by (simp add: mod_simps)
  also have "\<dots> = int ((z + nat (i mod int n)) mod n)"
    using assms by (simp add: of_nat_mod)
  finally show ?thesis by simp
qed

text \<open>A position of the logical sequence, counted from the front or, if negative, from the back.\<close>

definition position :: "nat \<Rightarrow> int \<Rightarrow> nat" where
  "position n i = nat (i mod int n)"

lemma position_less [simp]: "0 < n \<Longrightarrow> position n i < n"
  by (simp add: position_def nat_less_iff)

lemma position_of_nat [simp]: "k < n \<Longrightarrow> position n (int k) = k"
  by (simp add: position_def)

lemma position_nonneg: "0 \<le> i \<Longrightarrow> i < int n \<Longrightarrow> position n i = nat i"
  by (simp add: position_def)

lemma position_negative: "i < 0 \<Longrightarrow> - int n \<le> i \<Longrightarrow> position n i = nat (int n + i)"
  using mod_add_self1 [of "int n" i] mod_pos_pos_trivial [of "int n + i" "int n"]
  by (simp add: position_def)

text \<open>The range of logical indices for which the computations do not wrap.\<close>

definition in_reach :: "'a basic_ring \<Rightarrow> int \<Rightarrow> bool" where
  "in_reach r i \<longleftrightarrow> 0 < ring_size r \<and> - int (ring_size r) \<le> i \<and> i < 2305843009213693952"

lemma ring_index_ok:
  assumes "ring_ok r" "in_reach r i"
  shows "ring_index r i = Inr ((rg_zero r + position (ring_size r) i) mod ring_size r)"
proof -
  let ?s = "int (rg_zero r + ring_size r) + i"
  from assms have "0 \<le> ?s" "?s < 9223372036854775808" "0 < ring_size r"
    by (auto simp: ring_ok_def in_reach_def)
  then show ?thesis
    unfolding ring_index_def Let_def position_def
    by (simp add: is_long_def to_size_t_mod index_shift [symmetric])
qed

lemma ring_index_at_eq:
  assumes "ring_ok r" "in_reach r i"
  shows "ring_index_at r i = ring_index r i"
  using assms by (auto simp: ring_index_at_def ring_index_def is_long_def ring_ok_def in_reach_def Let_def)

lemma ring_get_refines [step_simps]:
  assumes "ring_ok r" "in_reach r i"
  shows "ring_get r i = Inr (ring_list r ! position (ring_size r) i)"
  using assms by (simp add: ring_get_def ring_index_ok ring_list_def in_reach_def nth_rotate)

lemma ring_at_refines [step_simps]:
  assumes "ring_ok r" "in_reach r i"
  shows "ring_at r i = Inr (ring_list r ! position (ring_size r) i)"
  using assms
  by (simp add: ring_at_def ring_index_at_eq ring_index_ok ring_list_def in_reach_def nth_rotate)

lemma mod_add_left_eq_iff:
  fixes m j k n :: nat
  assumes "j < n" "k < n"
  shows "(m + j) mod n = (m + k) mod n \<longleftrightarrow> j = k"
proof -
  have aux: "False" if "j < k" "k < n" "(m + k) mod n = (m + j) mod n" for j k
  proof -
    from that have "n dvd (m + k) - (m + j)" by (subst mod_eq_dvd_iff_nat [symmetric]) auto
    with that show False by (auto dest: dvd_imp_le)
  qed
  show ?thesis using aux [of j k] aux [of k j] assms by (metis nat_neq_iff)
qed

lemma rotate_update:
  assumes "k < length xs"
  shows "rotate m (xs[(m + k) mod length xs := v]) = (rotate m xs)[k := v]"
proof (rule nth_equalityI)
  fix j assume "j < length (rotate m (xs[(m + k) mod length xs := v]))"
  then have j: "j < length xs" by simp
  have "(m + k) mod length xs < length xs" using assms by (intro mod_less_divisor) auto
  with j assms mod_add_left_eq_iff [OF j assms, of m] show "rotate m (xs[(m + k) mod length xs := v]) ! j = (rotate m xs)[k := v] ! j"
    by (auto simp: nth_rotate nth_list_update)
qed simp

lemma ring_set_refines:
  assumes "ring_ok r" "in_reach r i"
  obtains r' where "ring_set r i v = Inr r'" and "ring_ok r'"
    and "ring_list r' = (ring_list r)[position (ring_size r) i := v]"
    and "ring_size r' = ring_size r" and "rg_zero r' = rg_zero r"
proof
  let ?k = "(rg_zero r + position (ring_size r) i) mod ring_size r"
  let ?r = "r\<lparr>rg_storage := (rg_storage r)[?k := v]\<rparr>"
  show "ring_set r i v = Inr ?r" by (simp add: ring_set_def ring_index_ok assms)
  show "ring_ok ?r" using assms(1) by (simp add: ring_ok_def)
  show "ring_list ?r = (ring_list r)[position (ring_size r) i := v]"
    using assms(2) by (simp add: ring_list_def rotate_update in_reach_def)
qed simp_all

subsection \<open>Rotation\<close>

lemma rotate_mod_eq: "rotate (m mod length xs) xs = rotate m xs"
  by (simp add: rotate_conv_mod [symmetric])

lemma rotate_left_refines:
  assumes "ring_ok r" "0 < ring_size r" "count < 9223372036854775808"
  obtains r' where "rotate_left r count = Inr r'" and "ring_ok r'"
    and "ring_list r' = rotate count (ring_list r)" and "ring_size r' = ring_size r"
proof
  let ?r = "r\<lparr>rg_zero := (rg_zero r + ring_size r + count) mod ring_size r\<rparr>"
  have "rg_zero r + ring_size r + count < 18446744073709551616"
    using assms by (auto simp: ring_ok_def)
  then show "rotate_left r count = Inr ?r"
    using assms(2) by (simp add: rotate_left_def del: of_nat_add)
  show "ring_ok ?r" using assms by (simp add: ring_ok_def)
  have "rotate (rg_zero r + ring_size r + count) (rg_storage r)
      = rotate (rg_zero r + count) (rg_storage r)"
    by (metis add.assoc add.commute mod_add_self2 rotate_mod_eq)
  then show "ring_list ?r = rotate count (ring_list r)"
    by (simp add: ring_list_def rotate_mod_eq rotate_rotate add.commute)
qed simp

lemma rotate_right_refines:
  assumes "ring_ok r" "0 < ring_size r" "count \<le> ring_size r"
  obtains r' where "rotate_right r count = Inr r'" and "ring_ok r'"
    and "ring_list r' = rotate (ring_size r - count) (ring_list r)" and "ring_size r' = ring_size r"
proof
  let ?r = "r\<lparr>rg_zero := (rg_zero r + (ring_size r - count)) mod ring_size r\<rparr>"
  have "to_size_t (int (rg_zero r + ring_size r) - int count) = rg_zero r + (ring_size r - count)"
    using assms by (simp add: to_size_t_nonneg ring_ok_def)
  then show "rotate_right r count = Inr ?r"
    using assms(2) by (simp add: rotate_right_def)
  show "ring_ok ?r" using assms by (simp add: ring_ok_def)
  show "ring_list ?r = rotate (ring_size r - count) (ring_list r)"
    by (simp add: ring_list_def rotate_mod_eq rotate_rotate add.commute)
qed simp

lemma ring_rotate_eq:
  assumes "ring_ok r" "0 < ring_size r" "- 2147483648 \<le> count"
    and "count \<le> int (ring_size r)"
  shows "ring_rotate r count =
    (if count \<ge> 0 then rotate_right r (nat count) else rotate_left r (nat (- count)))"
  using assms
  by (auto simp: ring_rotate_def rotate_right_def rotate_left_def Let_def is_long_def ring_ok_def
      algebra_simps)

subsection \<open>Rebuilding the ring\<close>

lemma read_all_refines:
  assumes "ring_ok r"
  shows "read_all r = Inr (ring_list r)"
proof -
  have "fold_result (\<lambda>i xs. bind_result (ring_get r i) (\<lambda>x. Inr (xs @ [x])))
      (map int [0..<n]) [] = Inr (take n (ring_list r))" if "n \<le> ring_size r" for n
    using that
  proof (induction n)
    case (Suc n)
    then have "in_reach r (int n)" using assms by (auto simp: in_reach_def ring_ok_def)
    with Suc assms show ?case
      by (simp add: fold_result_append ring_get_refines take_Suc_conv_app_nth)
  qed simp
  from this [of "ring_size r"] show ?thesis by (simp add: read_all_def)
qed

lemma write_all_refines:
  assumes "ring_ok r" "length xs = ring_size r"
  obtains r' where "write_all xs r = Inr r'" and "ring_ok r'" and "ring_list r' = xs"
    and "ring_size r' = ring_size r" and "rg_zero r' = rg_zero r"
proof -
  have "\<exists>r'. fold_result (\<lambda>(i, x) r. ring_set r (int i) x) (enumerate 0 (take n xs)) r = Inr r' \<and>
      ring_ok r' \<and> ring_list r' = take n xs @ drop n (ring_list r) \<and>
      ring_size r' = ring_size r \<and> rg_zero r' = rg_zero r" if "n \<le> length xs" for n
    using that
  proof (induction n)
    case (Suc n)
    then obtain q where q: "fold_result (\<lambda>(i, x) r. ring_set r (int i) x) (enumerate 0 (take n xs)) r
        = Inr q" "ring_ok q" "ring_list q = take n xs @ drop n (ring_list r)"
        "ring_size q = ring_size r" "rg_zero q = rg_zero r"
      by auto
    have "in_reach q (int n)" using q assms Suc.prems by (auto simp: in_reach_def ring_ok_def)
    from ring_set_refines [OF q(2) this] obtain q' where q': "ring_set q (int n) (xs ! n) = Inr q'"
        "ring_ok q'" "ring_list q' = (ring_list q)[position (ring_size q) (int n) := xs ! n]"
        "ring_size q' = ring_size q" "rg_zero q' = rg_zero q"
      by metis
    have "(take n xs @ drop n (ring_list r))[n := xs ! n] = take (Suc n) xs @ drop (Suc n) (ring_list r)"
      using Suc.prems assms(2)
      by (simp add: take_Suc_conv_app_nth list_update_append Cons_nth_drop_Suc [symmetric])
    with q q' Suc.prems assms(2) show ?case
      by (simp add: take_Suc_conv_app_nth enumerate_append_eq fold_result_append)
  qed (use assms in simp)
  from this [of "length xs"] that assms(2) show thesis by (auto simp: write_all_def)
qed

lemma std_rotate_refines:
  assumes "ring_ok r" "m \<le> ring_size r"
  obtains r' where "std_rotate m r = Inr r'" and "ring_ok r'"
    and "ring_list r' = drop m (ring_list r) @ take m (ring_list r)"
    and "ring_size r' = ring_size r" and "rg_zero r' = rg_zero r"
proof -
  from write_all_refines [OF assms(1), of "drop m (ring_list r) @ take m (ring_list r)"] assms(2)
  show thesis by (metis (no_types, lifting) add.commute append_take_drop_id bind_result_simps(2)
      leD length_append length_ring_list read_all_refines assms(1) std_rotate_def that)
qed

lemma rotate_eq_imp_eq:
  assumes "rotate m xs = rotate m ys"
  shows "xs = ys"
proof -
  from assms have "length xs = length ys" by (metis length_rotate)
  moreover have "rotate (length xs - m mod length xs) (rotate m xs) = xs" if "xs \<noteq> []" for xs :: "'a list"
  proof -
    have "rotate (length xs - m mod length xs) (rotate m xs)
        = rotate (length xs - m mod length xs + m mod length xs) xs"
      by (subst rotate_conv_mod [of m]) (simp add: rotate_rotate)
    also have "\<dots> = rotate (length xs) xs"
      using that by (simp add: mod_le_divisor)
    finally show ?thesis by simp
  qed
  ultimately show ?thesis using assms by (metis length_0_conv)
qed

lemma rezero_at_refines:
  assumes "ring_ok r" "m \<le> ring_size r"
  obtains r' where "rezero_at m r = Inr r'" and "ring_ok r'"
    and "ring_list r' = rotate m (rg_storage r)"
    and "ring_size r' = ring_size r" and "rg_zero r' = 0"
proof -
  from std_rotate_refines [OF assms] obtain q where q: "std_rotate m r = Inr q" "ring_ok q"
      "ring_list q = drop m (ring_list r) @ take m (ring_list r)"
      "ring_size q = ring_size r" "rg_zero q = rg_zero r"
    by metis
  have "drop m (ring_list r) @ take m (ring_list r) = rotate m (ring_list r)"
  proof (cases "m < ring_size r")
    case True
    then show ?thesis by (simp add: rotate_drop_take)
  next
    case False
    with assms(2) have "m = length (ring_list r)" by simp
    then show ?thesis by simp
  qed
  with q have "rotate (rg_zero r) (rg_storage q) = rotate (rg_zero r) (rotate m (rg_storage r))"
    by (simp add: ring_list_def rotate_rotate add.commute)
  then have "rg_storage q = rotate m (rg_storage r)" by (rule rotate_eq_imp_eq)
  with q that [of "q\<lparr>rg_zero := 0\<rparr>"] show thesis
    by (auto simp: rezero_at_def ring_ok_def ring_list_def)
qed

lemma rezero_eq: "rezero r = rezero_at (rg_zero r) r"
  by (simp add: rezero_def rezero_at_def)

lemma rezero_refines:
  assumes "ring_ok r"
  obtains r' where "rezero r = Inr r'" and "ring_ok r'" and "ring_list r' = ring_list r"
    and "ring_size r' = ring_size r" and "rg_zero r' = 0"
proof -
  have "rg_zero r \<le> ring_size r" using assms by (auto simp: ring_ok_def split: if_splits)
  from rezero_at_refines [OF assms this] that show thesis
    by (auto simp: rezero_eq ring_list_def)
qed

lemma length_vector_resize [simp]: "length (vector_resize d n xs) = n"
  by (simp add: vector_resize_def)

lemma vector_resize_same [simp]: "n = length xs \<Longrightarrow> vector_resize d n xs = xs"
  by (simp add: vector_resize_def)

lemma ring_resize_refines:
  assumes "ring_ok r" "n < 2305843009213693952"
  obtains r' where "ring_resize d r n = Inr r'" and "ring_ok r'"
    and "ring_list r' = vector_resize d n (ring_list r)" and "ring_size r' = n" and "rg_zero r' = 0"
proof -
  from rezero_refines [OF assms(1)] obtain q where q: "rezero r = Inr q" "ring_ok q"
      "ring_list q = ring_list r" "rg_zero q = 0"
    by metis
  with that [of "q\<lparr>rg_storage := vector_resize d n (rg_storage q)\<rparr>"] assms(2) show thesis
    by (auto simp: ring_resize_def ring_ok_def ring_list_def)
qed

lemma push_back_unrotated:
  "rg_zero r = 0 \<Longrightarrow> ring_list (push_back r v) = ring_list r @ [v]"
  by (simp add: push_back_def ring_list_def)

lemma ring_ok_push_back:
  "ring_ok r \<Longrightarrow> ring_size r < 2305843009213693951 \<Longrightarrow> ring_ok (push_back r v)"
  by (auto simp: push_back_def ring_ok_def)

lemma ring_size_push_back [simp]: "ring_size (push_back r v) = Suc (ring_size r)"
  by (simp add: push_back_def)

lemma rg_zero_push_back [simp]: "rg_zero (push_back r v) = rg_zero r"
  by (simp add: push_back_def)

lemma pop_front_unrotated:
  "rg_zero r = 0 \<Longrightarrow> rg_storage r \<noteq> [] \<Longrightarrow>
    \<exists>r'. pop_front r = Inr r' \<and> ring_list r' = tl (ring_list r) \<and> rg_zero r' = 0"
  by (auto simp: pop_front_def ring_list_def split: list.split)

subsection \<open>The interface of the ring's clients\<close>

text \<open>
  A buffer with cyclic access, as the grid uses it: reading and writing at an offset from the
  logical front, where a negative offset counts from the back.
\<close>

locale cyclic_buffer =
  fixes get :: "'b \<Rightarrow> int \<Rightarrow> 'a result"
    and put :: "'b \<Rightarrow> int \<Rightarrow> 'a \<Rightarrow> 'b result"
    and contents :: "'b \<Rightarrow> 'a list"
    and ok :: "'b \<Rightarrow> bool"
  assumes get_ok: "ok b \<Longrightarrow> contents b \<noteq> [] \<Longrightarrow> - int (length (contents b)) \<le> i \<Longrightarrow>
      i < int (length (contents b)) \<Longrightarrow>
      get b i = Inr (contents b ! position (length (contents b)) i)"
    and put_ok: "ok b \<Longrightarrow> contents b \<noteq> [] \<Longrightarrow> - int (length (contents b)) \<le> i \<Longrightarrow>
      i < int (length (contents b)) \<Longrightarrow>
      \<exists>b'. put b i v = Inr b' \<and> ok b' \<and>
        contents b' = (contents b)[position (length (contents b)) i := v]"
begin

text \<open>A loop that overwrites the elements at the given offsets, one after the other.\<close>

lemma put_each:
  assumes "ok b" "contents b \<noteq> []"
    and "\<forall>i \<in> set is. - int (length (contents b)) \<le> i \<and> i < int (length (contents b))"
  shows "\<exists>b'. fold_result (\<lambda>i b. bind_result (get b i) (\<lambda>x. put b i (f x))) is b = Inr b' \<and> ok b' \<and>
    contents b' = fold (\<lambda>i xs. xs[position (length xs) i := f (xs ! position (length xs) i)]) is (contents b)"
  using assms
proof (induction "is" arbitrary: b)
  case (Cons i "is")
  let ?k = "position (length (contents b)) i"
  from Cons.prems put_ok [of b i "f (contents b ! ?k)"] obtain c where
    c: "put b i (f (contents b ! ?k)) = Inr c" "ok c" "contents c = (contents b)[?k := f (contents b ! ?k)]"
    by auto
  have "contents c \<noteq> []" using c(3) Cons.prems(2) by simp
  with Cons.IH [of c] c Cons.prems show ?case by (simp add: get_ok)
qed simp

text \<open>A loop that copies elements, each from the offset its source function gives.\<close>

lemma copy_each:
  assumes "ok b" "contents b \<noteq> []"
    and "\<forall>i \<in> set is. - int (length (contents b)) \<le> i \<and> i < int (length (contents b))"
    and "\<forall>i \<in> set is. - int (length (contents b)) \<le> src i \<and> src i < int (length (contents b))"
  shows "\<exists>b'. fold_result (\<lambda>i b. bind_result (get b (src i)) (put b i)) is b = Inr b' \<and> ok b' \<and>
    contents b' = fold (\<lambda>i xs. xs[position (length xs) i := xs ! position (length xs) (src i)]) is (contents b)"
  using assms
proof (induction "is" arbitrary: b)
  case (Cons i "is")
  let ?n = "length (contents b)"
  from Cons.prems put_ok [of b i "contents b ! position ?n (src i)"] obtain c where
    c: "put b i (contents b ! position ?n (src i)) = Inr c" "ok c"
      "contents c = (contents b)[position ?n i := contents b ! position ?n (src i)]"
    by auto
  have "contents c \<noteq> []" using c(3) Cons.prems(2) by simp
  with Cons.IH [of c] c Cons.prems show ?case by (simp add: get_ok)
qed simp

end

interpretation ring_buffer: cyclic_buffer ring_get ring_set ring_list ring_ok
proof (unfold_locales, goal_cases)
  case (1 b i)
  then have "in_reach b i" by (auto simp: in_reach_def ring_ok_def ring_list_def)
  with 1 show ?case by (simp add: ring_get_refines)
next
  case (2 b i v)
  then have "in_reach b i" by (auto simp: in_reach_def ring_ok_def ring_list_def)
  with 2 show ?case by (metis ring_set_refines length_ring_list)
qed

lemma iteration_order:
  assumes "ring_ok r" "k < ring_size r"
  shows "it_deref r (it_plus (ring_begin r) (int k)) = Inr (ring_list r ! k)"
    and "rit_deref r (it_plus (ring_begin r) (int k)) = Inr (rev (ring_list r) ! k)"
proof -
  have reach: "in_reach r (int k)" "in_reach r (int (ring_size r - 1 - k))"
    using assms by (auto simp: in_reach_def ring_ok_def)
  have from_end: "int (ring_size r) - int k - 1 = int (ring_size r - 1 - k)" using assms(2) by simp
  show "it_deref r (it_plus (ring_begin r) (int k)) = Inr (ring_list r ! k)"
    using assms reach by (simp add: it_deref_def it_plus_def ring_begin_def ring_get_refines)
  have "ring_get r (int (ring_size r - 1 - k)) = Inr (ring_list r ! (ring_size r - 1 - k))"
    using assms ring_get_refines [OF assms(1) reach(2)] by (simp del: of_nat_diff)
  then show "rit_deref r (it_plus (ring_begin r) (int k)) = Inr (rev (ring_list r) ! k)"
    using assms(2) by (simp add: rit_deref_def it_plus_def ring_begin_def from_end rev_nth del: of_nat_diff)
qed

subsection \<open>Sequences of operations\<close>

datatype 'a ring_op = Write int 'a | RotateLeft nat | RotateRight nat | Rezero | Resize nat

primrec ring_step :: "'a \<Rightarrow> 'a ring_op \<Rightarrow> 'a basic_ring \<Rightarrow> 'a basic_ring result" where
  "ring_step d (Write i v) r = ring_set r i v"
| "ring_step d (RotateLeft n) r = rotate_left r n"
| "ring_step d (RotateRight n) r = rotate_right r n"
| "ring_step d Rezero r = rezero r"
| "ring_step d (Resize n) r = ring_resize d r n"

text \<open>What the operations are meant to do to the sequence, and the arguments they accept.\<close>

primrec list_step :: "'a \<Rightarrow> 'a ring_op \<Rightarrow> 'a list \<Rightarrow> 'a list" where
  "list_step d (Write i v) xs = xs[position (length xs) i := v]"
| "list_step d (RotateLeft n) xs = rotate n xs"
| "list_step d (RotateRight n) xs = rotate (length xs - n) xs"
| "list_step d Rezero xs = xs"
| "list_step d (Resize n) xs = vector_resize d n xs"

primrec step_allowed :: "'a list \<Rightarrow> 'a ring_op \<Rightarrow> bool" where
  "step_allowed xs (Write i v) \<longleftrightarrow> xs \<noteq> [] \<and> - int (length xs) \<le> i \<and> i < int (length xs)"
| "step_allowed xs (RotateLeft n) \<longleftrightarrow> xs \<noteq> [] \<and> n < 9223372036854775808"
| "step_allowed xs (RotateRight n) \<longleftrightarrow> xs \<noteq> [] \<and> n \<le> length xs"
| "step_allowed xs Rezero \<longleftrightarrow> True"
| "step_allowed xs (Resize n) \<longleftrightarrow> n < 2305843009213693952"

fun ops_allowed :: "'a \<Rightarrow> 'a ring_op list \<Rightarrow> 'a list \<Rightarrow> bool" where
  "ops_allowed d [] xs \<longleftrightarrow> True"
| "ops_allowed d (a # as) xs \<longleftrightarrow> step_allowed xs a \<and> ops_allowed d as (list_step d a xs)"

lemma ring_step_refines:
  assumes "ring_ok r" "step_allowed (ring_list r) a"
  shows "\<exists>r'. ring_step d a r = Inr r' \<and> ring_ok r' \<and> ring_list r' = list_step d a (ring_list r)"
proof (cases a)
  case (Write i v)
  with assms ring_buffer.put_ok [of r i v] show ?thesis by auto
next
  case (RotateLeft n)
  with assms have "0 < ring_size r" by (auto simp: ring_list_def)
  with RotateLeft assms rotate_left_refines [of r n] show ?thesis by auto
next
  case (RotateRight n)
  with assms have "0 < ring_size r" by (auto simp: ring_list_def)
  with RotateRight assms rotate_right_refines [of r n] show ?thesis by auto
next
  case Rezero
  with assms rezero_refines [of r] show ?thesis by auto
next
  case (Resize n)
  with assms ring_resize_refines [of r n d] show ?thesis by auto
qed

lemma ring_ops_refine_lemma:
  "ring_ok r \<Longrightarrow> ops_allowed d as (ring_list r) \<Longrightarrow>
    \<exists>r'. fold_result (ring_step d) as r = Inr r' \<and> ring_ok r' \<and>
      ring_list r' = fold (list_step d) as (ring_list r)"
proof (induction as arbitrary: r)
  case (Cons a as)
  with ring_step_refines [of r a d] obtain q where q: "ring_step d a r = Inr q" "ring_ok q"
      "ring_list q = list_step d a (ring_list r)"
    by auto
  with Cons.IH [of q] Cons.prems show ?case by simp
qed simp

subsection \<open>Properties\<close>

text \<open>
  Reading and writing a ring are reading and writing the list it stands for, at every offset
  from minus the size on, negative offsets counting from the back: after a write, every offset
  reads the updated list, through \<open>operator[]\<close> and through \<open>at\<close>.
\<close>

theorem ring_access_refines:
  assumes "ring_ok r" "in_reach r i"
  shows "\<exists>r'. ring_set r i v = Inr r' \<and> ring_ok r' \<and>
    ring_list r' = (ring_list r)[position (ring_size r) i := v] \<and>
    (\<forall>j. in_reach r j \<longrightarrow>
      ring_get r' j = Inr ((ring_list r)[position (ring_size r) i := v] ! position (ring_size r) j) \<and>
      ring_at r' j = ring_get r' j)"
proof -
  from ring_set_refines [OF assms] obtain r' where r': "ring_set r i v = Inr r'" "ring_ok r'"
      "ring_list r' = (ring_list r)[position (ring_size r) i := v]" "ring_size r' = ring_size r"
    by metis
  moreover have "in_reach r' j" if "in_reach r j" for j
    using that r'(4) by (simp add: in_reach_def)
  ultimately show ?thesis by (auto simp: ring_get_refines ring_at_refines)
qed

theorem ring_access_refines_witness:
  "\<exists>r'. ring_set \<lparr>rg_storage = [1, 2, 3 :: nat], rg_zero = 2\<rparr> (- 1) 9 = Inr r' \<and>
    ring_list r' = [3, 1, 9] \<and> ring_get r' (- 3) = Inr 3"
proof -
  let ?r = "\<lparr>rg_storage = [1, 2, 3 :: nat], rg_zero = 2\<rparr>"
  have ok: "ring_ok ?r" by (simp add: ring_ok_def)
  have reach: "in_reach ?r (- 1)" "in_reach ?r (- 3)" by (simp_all add: in_reach_def)
  have "ring_list ?r = [3, 1, 2]" "position (ring_size ?r) (- 1) = 2" "position (ring_size ?r) (- 3) = 0"
    by (simp_all add: ring_list_def position_def numeral_eq_Suc)
  with ring_access_refines [OF ok reach(1), of 9] reach(2) show ?thesis
    by (auto simp: numeral_eq_Suc)
qed

text \<open>
  C17. Any sequence of writes, rotations, \<open>rezero\<close> and \<open>resize\<close> calls with arguments in range runs
  without a fault, and the ring stands for what the same operations make of the list.
\<close>

theorem ring_ops_refine:
  assumes "ring_ok r" "ops_allowed d as (ring_list r)"
  shows "\<exists>r'. fold_result (ring_step d) as r = Inr r' \<and> ring_ok r' \<and>
    ring_list r' = fold (list_step d) as (ring_list r)"
  using assms by (rule ring_ops_refine_lemma)

theorem ring_ops_refine_witness:
  "\<exists>r'. fold_result (ring_step 0) [RotateRight 1, Write 0 7, Resize 4, RotateLeft 2]
      (mk_ring [1, 2, 3 :: nat]) = Inr r' \<and> ring_list r' = [2, 0, 7, 1]"
proof -
  let ?as = "[RotateRight 1, Write 0 7, Resize 4, RotateLeft 2] :: nat ring_op list"
  have ok: "ring_ok (mk_ring [1, 2, 3 :: nat])" by simp
  have allowed: "ops_allowed 0 ?as (ring_list (mk_ring [1, 2, 3 :: nat]))"
    by (simp add: position_def vector_resize_def)
  have "fold (list_step 0) ?as (ring_list (mk_ring [1, 2, 3 :: nat])) = [2, 0, 7, 1]"
    by (simp add: position_def vector_resize_def numeral_eq_Suc)
  with ring_ops_refine [OF ok allowed] show ?thesis by metis
qed

text \<open>
  On a rotated ring \<open>push_back\<close> does not append: it puts the element at the end of the vector,
  which is the middle of the sequence, between the part before and the part after the wrap.
\<close>

theorem push_back_rotated:
  assumes "ring_ok r" "rg_zero r \<noteq> 0"
  shows "\<exists>xs ys. ring_list r = xs @ ys \<and> ys \<noteq> [] \<and> ring_list (push_back r v) = xs @ [v] @ ys"
proof -
  have z: "rg_zero r < ring_size r" using assms by (auto simp: ring_ok_def split: if_splits)
  let ?s = "rg_storage r"
  have "ring_list r = drop (rg_zero r) ?s @ take (rg_zero r) ?s"
    using z by (simp add: ring_list_def rotate_drop_take)
  moreover have "ring_list (push_back r v) = drop (rg_zero r) ?s @ [v] @ take (rg_zero r) ?s"
    using z by (simp add: ring_list_def push_back_def rotate_drop_take)
  moreover have "take (rg_zero r) ?s \<noteq> []" using z assms(2) by auto
  ultimately show ?thesis by blast
qed

theorem push_back_rotated_witness:
  "ring_list (push_back \<lparr>rg_storage = [1, 2, 3 :: nat], rg_zero = 1\<rparr> 4) = [2, 3, 4, 1] \<and>
   (\<exists>xs ys. ring_list \<lparr>rg_storage = [1, 2, 3 :: nat], rg_zero = 1\<rparr> = xs @ ys \<and> ys \<noteq> [] \<and>
    ring_list (push_back \<lparr>rg_storage = [1, 2, 3], rg_zero = 1\<rparr> 4) = xs @ [4] @ ys)"
  using push_back_rotated [of "\<lparr>rg_storage = [1, 2, 3 :: nat], rg_zero = 1\<rparr>" 4]
  by (simp add: ring_ok_def ring_list_def push_back_def)

end
