(* ===== verification/VT_Grid.thy ===== *)
theory VT_Grid
  imports VT_Line Crispy_Ring
begin

unbundle bit_operations_syntax

text \<open>
  The grid: \<open>src/vtbackend/Grid.h\<close> and \<open>Grid.cpp\<close>. The main page and the scrollback history share one
  ring of lines: the page is at the logical offsets from 0 on, the history at the negative ones,
  and between the two are the lines not in use. Scrolling the page rotates the ring. Line counts are
  natural numbers, offsets are integers, and \<open>Require\<close>, \<open>Ensures\<close> and the debug build's
  \<open>verifyState\<close> are faults of the model when they do not hold; log output is left out.

  This theory holds the definitions; \<open>VT_GridScroll\<close> and \<open>VT_GridResize\<close> hold what they do to the
  history and the page.
\<close>

subsection \<open>State\<close>

record PageSize =
  ps_lines :: nat
  ps_columns :: nat

record CellLocation =
  cl_line :: int
  cl_column :: int

definition cl_plus :: "CellLocation \<Rightarrow> CellLocation \<Rightarrow> CellLocation" where
  "cl_plus a b = \<lparr>cl_line = cl_line a + cl_line b, cl_column = cl_column a + cl_column b\<rparr>"

datatype MaxHistoryLineCount = HistoryLimit nat | Infinite

record Margin =
  mg_top :: int
  mg_bottom :: int
  mg_left :: int
  mg_right :: int

definition vertical_length :: "Margin \<Rightarrow> int" where
  "vertical_length m = mg_bottom m - mg_top m + 1"

definition horizontal_length :: "Margin \<Rightarrow> int" where
  "horizontal_length m = mg_right m - mg_left m + 1"

record 'c Grid =
  gr_pageSize :: PageSize
  gr_reflowOnResize :: bool
  gr_historyLimit :: MaxHistoryLineCount
  gr_lines :: "'c Line basic_ring"
  gr_linesUsed :: nat

abbreviation page_lines :: "'c Grid \<Rightarrow> nat" where
  "page_lines g \<equiv> ps_lines (gr_pageSize g)"

abbreviation page_columns :: "'c Grid \<Rightarrow> nat" where
  "page_columns g \<equiv> ps_columns (gr_pageSize g)"

abbreviation ring_lines :: "'c Grid \<Rightarrow> nat" where
  "ring_lines g \<equiv> ring_size (gr_lines g)"

definition set_page_lines :: "nat \<Rightarrow> 'c Grid \<Rightarrow> 'c Grid" where
  "set_page_lines n g = g\<lparr>gr_pageSize := (gr_pageSize g)\<lparr>ps_lines := n\<rparr>\<rparr>"

definition set_page_columns :: "nat \<Rightarrow> 'c Grid \<Rightarrow> 'c Grid" where
  "set_page_columns n g = g\<lparr>gr_pageSize := (gr_pageSize g)\<lparr>ps_columns := n\<rparr>\<rparr>"

definition maxHistoryLineCount :: "'c Grid \<Rightarrow> int" where
  "maxHistoryLineCount g =
    (case gr_historyLimit g of
       HistoryLimit n \<Rightarrow> int n
     | Infinite \<Rightarrow> int (ring_lines g) - int (page_lines g))"

definition totalLineCount :: "'c Grid \<Rightarrow> int" where
  "totalLineCount g = maxHistoryLineCount g + int (page_lines g)"

definition historyLineCount :: "'c Grid \<Rightarrow> int" where
  "historyLineCount g = int (gr_linesUsed g) - int (page_lines g)"

definition defaultLineFlags :: "'c Grid \<Rightarrow> LineFlags" where
  "defaultLineFlags g = (if gr_reflowOnResize g then Wrappable else 0)"

definition verifyState :: "'c Grid \<Rightarrow> bool" where
  "verifyState g \<longleftrightarrow>
    int (ring_lines g) \<ge> totalLineCount g \<and> ring_lines g \<ge> gr_linesUsed g \<and> gr_linesUsed g \<ge> page_lines g"

definition require :: "bool \<Rightarrow> 'a \<Rightarrow> 'a result" where
  "require p x = (if p then Inr x else Inl AssertionFailed)"

abbreviation verified :: "'c Grid \<Rightarrow> 'c Grid result" where
  "verified g \<equiv> require (verifyState g) g"

subsection \<open>Construction and history\<close>

definition push_backs :: "nat \<Rightarrow> 'a \<Rightarrow> 'a basic_ring \<Rightarrow> 'a basic_ring" where
  "push_backs n v r = ((\<lambda>r. push_back r v) ^^ n) r"

definition createLines :: "PageSize \<Rightarrow> nat \<Rightarrow> bool \<Rightarrow> GraphicsAttributes \<Rightarrow> 'c Line basic_ring" where
  "createLines pageSize maxHistory reflowOnResize initialSGR =
    push_backs (ps_lines pageSize + maxHistory)
      (blank_line (ps_columns pageSize) initialSGR (if reflowOnResize then Wrappable else 0)) (mk_ring [])"

definition newGrid :: "PageSize \<Rightarrow> bool \<Rightarrow> MaxHistoryLineCount \<Rightarrow> 'c Grid result" where
  "newGrid pageSize reflowOnResize limit =
    verified \<lparr>gr_pageSize = pageSize, gr_reflowOnResize = reflowOnResize, gr_historyLimit = limit,
      gr_lines = createLines pageSize (case limit of HistoryLimit n \<Rightarrow> n | Infinite \<Rightarrow> 0)
        reflowOnResize defaultAttributes,
      gr_linesUsed = ps_lines pageSize\<rparr>"

definition setMaxHistoryLineCount :: "MaxHistoryLineCount \<Rightarrow> 'c Grid \<Rightarrow> 'c Grid result" where
  "setMaxHistoryLineCount limit g =
    bind_result (verified g) (\<lambda>g.
    bind_result (rezero (gr_lines g)) (\<lambda>r.
      let g = g\<lparr>gr_lines := r, gr_historyLimit := limit\<rparr> in
    bind_result (ring_resize newLine (gr_lines g) (nat (int (page_lines g) + maxHistoryLineCount g))) (\<lambda>r.
      let g = g\<lparr>gr_lines := r\<rparr>;
          g = g\<lparr>gr_linesUsed := nat (min (int (gr_linesUsed g)) (int (page_lines g) + maxHistoryLineCount g))\<rparr>
      in verified g)))"

definition clearHistory :: "'c Grid \<Rightarrow> 'c Grid result" where
  "clearHistory g = verified (g\<lparr>gr_linesUsed := page_lines g\<rparr>)"

subsection \<open>Access\<close>

definition lineAt :: "'c Grid \<Rightarrow> int \<Rightarrow> 'c Line result" where
  "lineAt g line = ring_get (gr_lines g) line"

text \<open>
  \<open>useCellAt\<close> and \<open>at\<close>, used for the row they give access to: the cells of the line, which is
  inflated in place.
\<close>

definition useCellAt ::
  "'c CellOps \<Rightarrow> ('d, 'm) TextLib_scheme \<Rightarrow> int \<Rightarrow> int \<Rightarrow> 'c Grid \<Rightarrow> ('c list \<times> 'c Grid) result" where
  "useCellAt K T line column g =
    bind_result (lineAt g line) (\<lambda>l.
      if column < 0 \<or> column > int (line_size l) then Inl AssertionFailed
      else
        bind_result (inflatedBuffer K T l) (\<lambda>(cs, l).
        bind_result (ring_set (gr_lines g) line l) (\<lambda>r.
          Inr (cs, g\<lparr>gr_lines := r\<rparr>))))"

text \<open>Storing the cells of an inflated line.\<close>

definition put_cells :: "int \<Rightarrow> 'c list \<Rightarrow> 'c Grid \<Rightarrow> 'c Grid result" where
  "put_cells line cs g =
    bind_result (lineAt g line) (\<lambda>l.
    bind_result (ring_set (gr_lines g) line (l\<lparr>line_storage := InflatedBuffer cs\<rparr>)) (\<lambda>r.
      Inr (g\<lparr>gr_lines := r\<rparr>)))"

text \<open>
  \<open>pageAtScrollOffset\<close> makes a span from the address of its first line: the model gives the
  physical index of that line, and an access to the span's \<open>i\<close>-th line is to the vector's element
  that many places further on.
\<close>

definition pageAtScrollOffset :: "'c Grid \<Rightarrow> int \<Rightarrow> nat result" where
  "pageAtScrollOffset g scrollOffset =
    bind_result (require (scrollOffset \<le> historyLineCount g) ()) (\<lambda>_.
      ring_index (gr_lines g) (- scrollOffset))"

definition isLineWrapped :: "'c Grid \<Rightarrow> int \<Rightarrow> bool result" where
  "isLineWrapped g line =
    (if line \<ge> - historyLineCount g \<and> line < int (page_lines g)
     then bind_result (lineAt g line) (\<lambda>l. Inr (wrapped l)) else Inr False)"

subsection \<open>Scrolling the page\<close>

definition reset_lines ::
  "LineFlags \<Rightarrow> GraphicsAttributes \<Rightarrow> int list \<Rightarrow> 'c Line basic_ring \<Rightarrow> 'c Line basic_ring result" where
  "reset_lines flags attr ys r =
    fold_result (\<lambda>y r. bind_result (ring_get r y) (\<lambda>l. ring_set r y (line_reset flags attr l))) ys r"

definition fill_lines :: "'c Line \<Rightarrow> int list \<Rightarrow> 'c Line basic_ring \<Rightarrow> 'c Line basic_ring result" where
  "fill_lines l ys r = fold_result (\<lambda>y r. ring_set r y l) ys r"

text \<open>Taking unused lines into use below the page, and rotating the oldest lines to the bottom.\<close>

definition append_lines :: "nat \<Rightarrow> GraphicsAttributes \<Rightarrow> 'c Grid \<Rightarrow> 'c Grid result" where
  "append_lines a attr g =
    bind_result (fill_lines (blank_line (page_columns g) attr (defaultLineFlags g))
        [int (page_lines g)..int (page_lines g) + int a - 1] (gr_lines g)) (\<lambda>r.
    bind_result (rotate_left r a) (\<lambda>r.
      Inr (g\<lparr>gr_linesUsed := gr_linesUsed g + a, gr_lines := r\<rparr>)))"

definition rotate_lines :: "nat \<Rightarrow> nat \<Rightarrow> GraphicsAttributes \<Rightarrow> 'c Grid \<Rightarrow> 'c Grid result" where
  "rotate_lines d n attr g =
    bind_result (rotate_left (gr_lines g) d) (\<lambda>r.
    bind_result (reset_lines (defaultLineFlags g) attr [int (page_lines g) - int n..int (page_lines g) - 1] r) (\<lambda>r.
      Inr (g\<lparr>gr_lines := r\<rparr>)))"

definition scrollUp_step :: "nat \<Rightarrow> GraphicsAttributes \<Rightarrow> 'c Grid \<Rightarrow> (nat \<times> 'c Grid) result" where
  "scrollUp_step n attr g =
    (if gr_linesUsed g = ring_lines g
     then bind_result (rotate_lines n n attr g) (\<lambda>g. Inr (n, g))
     else
       bind_result (require (gr_linesUsed g < ring_lines g) (min n (ring_lines g - gr_linesUsed g)))
         (\<lambda>linesAppendCount.
       bind_result (if linesAppendCount \<noteq> 0 then append_lines linesAppendCount attr g else Inr g) (\<lambda>g.
       bind_result (if linesAppendCount < n then rotate_lines (n - linesAppendCount) n attr g else Inr g) (\<lambda>g.
         Inr (linesAppendCount, g)))))"

text \<open>
  With an unlimited history the ring grows first, and the function calls itself; the ring then has
  the lines that were missing, so that the call goes on with the step above.
\<close>

definition scrollUp_page :: "nat \<Rightarrow> GraphicsAttributes \<Rightarrow> 'c Grid \<Rightarrow> (nat \<times> 'c Grid) result" where
  "scrollUp_page n attr g =
    bind_result (verified g) (\<lambda>g.
      let linesAvailable = ring_lines g - gr_linesUsed g in
      if gr_historyLimit g = Infinite \<and> linesAvailable < n
      then
        bind_result (verified (g\<lparr>gr_lines := push_backs (n - linesAvailable)
            (blank_line (page_columns g) defaultAttributes (defaultLineFlags g)) (gr_lines g)\<rparr>))
          (scrollUp_step n attr)
      else scrollUp_step n attr g)"

subsection \<open>Scrolling in a margin\<close>

definition fullHorizontal :: "'c Grid \<Rightarrow> Margin \<Rightarrow> bool" where
  "fullHorizontal g m \<longleftrightarrow> mg_left m = 0 \<and> mg_right m = int (page_columns g) - 1"

definition fullVertical :: "'c Grid \<Rightarrow> Margin \<Rightarrow> bool" where
  "fullVertical g m \<longleftrightarrow> mg_top m = 0 \<and> mg_bottom m = int (page_lines g) - 1"

text \<open>A line whose contents were moved away.\<close>

definition moved_from :: "'c Line \<Rightarrow> 'c Line" where
  "moved_from l =
    (case line_storage l of
       TrivialBuffer b \<Rightarrow> l
     | InflatedBuffer cs \<Rightarrow> l\<lparr>line_storage := InflatedBuffer []\<rparr>)"

definition move_line :: "int \<Rightarrow> int \<Rightarrow> 'c Line basic_ring \<Rightarrow> 'c Line basic_ring result" where
  "move_line target source r =
    bind_result (ring_get r source) (\<lambda>l.
    bind_result (ring_set r source (moved_from l)) (\<lambda>r.
      ring_set r target l))"

text \<open>
  Copying and changing cells of a row, in loops over pointers: a negative number of cells runs out
  of the row as too large a number does.
\<close>

definition copy_row ::
  "'c CellOps \<Rightarrow> ('d, 'm) TextLib_scheme \<Rightarrow> int \<Rightarrow> int \<Rightarrow> int \<Rightarrow> int \<Rightarrow> 'c Grid \<Rightarrow> 'c Grid result" where
  "copy_row K T target source left n g =
    bind_result (useCellAt K T target left g) (\<lambda>(_, g).
    bind_result (useCellAt K T source left g) (\<lambda>(ss, g).
    bind_result (useCellAt K T target left g) (\<lambda>(ts, g).
      if n < 0 \<or> int (length ss) < left + n \<or> int (length ts) < left + n then Inl OutOfBounds
      else put_cells target
             (take (nat left) ts
              @ map (\<lambda>(t, s). op_assign K t s) (zip (take (nat n) (drop (nat left) ts)) (take (nat n) (drop (nat left) ss)))
              @ drop (nat (left + n)) ts) g)))"

definition change_row ::
  "'c CellOps \<Rightarrow> ('d, 'm) TextLib_scheme \<Rightarrow> ('c \<Rightarrow> 'c result) \<Rightarrow> int \<Rightarrow> int \<Rightarrow> int \<Rightarrow> 'c Grid \<Rightarrow> 'c Grid result" where
  "change_row K T f line left n g =
    bind_result (useCellAt K T line left g) (\<lambda>(cs, g).
      if n < 0 \<or> int (length cs) < left + n then Inl OutOfBounds
      else
        bind_result (map_result f (take (nat n) (drop (nat left) cs))) (\<lambda>changed.
          put_cells line (take (nat left) cs @ changed @ drop (nat (left + n)) cs) g))"

definition scrollUp ::
  "'c CellOps \<Rightarrow> ('d, 'm) TextLib_scheme \<Rightarrow> nat \<Rightarrow> GraphicsAttributes \<Rightarrow> Margin \<Rightarrow> 'c Grid \<Rightarrow> (nat \<times> 'c Grid) result" where
  "scrollUp K T n attr m g =
    bind_result (verified g) (\<lambda>g.
    bind_result (require (0 \<le> mg_left m \<and> mg_right m < int (page_columns g)
        \<and> 0 \<le> mg_top m \<and> mg_bottom m < int (page_lines g)) g) (\<lambda>g.
      let n2 = min (int n) (vertical_length m); bottom = [mg_bottom m - n2 + 1..mg_bottom m] in
      if fullHorizontal g m \<and> fullVertical g m then scrollUp_page n attr g
      else
        bind_result
          (if fullHorizontal g m
           then
             bind_result
               (if n2 \<noteq> 0 \<and> n2 < vertical_length m
                then fold_result (\<lambda>y. move_line y (y + n2)) [mg_top m..mg_bottom m - n2] (gr_lines g)
                else Inr (gr_lines g)) (\<lambda>r.
             bind_result (fold_result (\<lambda>y r. bind_result (ring_get r y) (\<lambda>l.
                 ring_set r y (line_reset_count (defaultLineFlags g) attr (page_columns g) l))) bottom r) (\<lambda>r.
               Inr (g\<lparr>gr_lines := r\<rparr>)))
           else
             bind_result (fold_result (\<lambda>y. copy_row K T y (y + n2) (mg_left m) (horizontal_length m))
                 [mg_top m..mg_bottom m - n2] g) (\<lambda>g.
               fold_result (\<lambda>y. change_row K T (\<lambda>c. Inr (op_reset K attr c)) y (mg_left m) (horizontal_length m))
                 bottom g)) (\<lambda>g.
        bind_result (verified g) (\<lambda>g. Inr (0, g)))))"

text \<open>\<open>std::rotate\<close> over the ring's iterators from offset \<open>a\<close> to \<open>c\<close>, \<open>b\<close> becoming the first.\<close>

definition rotate_range :: "nat \<Rightarrow> nat \<Rightarrow> nat \<Rightarrow> 'a basic_ring \<Rightarrow> 'a basic_ring result" where
  "rotate_range a b c r =
    (if b < a \<or> c < b then Inl OutOfBounds
     else
       bind_result (map_result (\<lambda>i. ring_get r (int i)) [a..<c]) (\<lambda>xs.
         fold_result (\<lambda>(i, x) r. ring_set r (int i) x) (enumerate a (drop (b - a) xs @ take (b - a) xs)) r))"

definition scrollDown ::
  "'c CellOps \<Rightarrow> ('d, 'm) TextLib_scheme \<Rightarrow> nat \<Rightarrow> GraphicsAttributes \<Rightarrow> Margin \<Rightarrow> 'c Grid \<Rightarrow> 'c Grid result" where
  "scrollDown K T vN attr m g =
    bind_result (verified g) (\<lambda>g.
      let n = min (int vN) (vertical_length m) in
      if fullHorizontal g m \<and> fullVertical g m
      then
        bind_result (rotate_right (gr_lines g) (nat n)) (\<lambda>r.
        let g = g\<lparr>gr_lines := r\<rparr> in
        bind_result (pageAtScrollOffset g 0) (\<lambda>start.
        if start + nat n > ring_lines g then Inl OutOfBounds
        else
          let s = rg_storage r in
          Inr (g\<lparr>gr_lines := r\<lparr>rg_storage := take start s
            @ map (line_reset (defaultLineFlags g) attr) (take (nat n) (drop start s))
            @ drop (start + nat n) s\<rparr>\<rparr>)))
      else if fullHorizontal g m
      then
        bind_result (rotate_range (nat (mg_top m)) (nat (mg_bottom m + 1 - n)) (nat (mg_bottom m + 1))
            (gr_lines g)) (\<lambda>r.
        bind_result (reset_lines (defaultLineFlags g) attr [mg_top m..mg_top m + n - 1] r) (\<lambda>r.
          Inr (g\<lparr>gr_lines := r\<rparr>)))
      else
        bind_result (fold_result (\<lambda>y. copy_row K T y (y - n) (mg_left m) (horizontal_length m))
            (rev [mg_bottom m - n..mg_bottom m]) g) (\<lambda>g.
          fold_result (\<lambda>y. change_row K T
              (\<lambda>c. bind_result (op_make K attr 0) (\<lambda>v. Inr (op_assign K c v))) y (mg_left m) (horizontal_length m))
            [mg_top m..mg_top m + n - 1] g))"

definition scrollLeft_row ::
  "'c CellOps \<Rightarrow> ('d, 'm) TextLib_scheme \<Rightarrow> GraphicsAttributes \<Rightarrow> Margin \<Rightarrow> int \<Rightarrow> 'c Grid \<Rightarrow> 'c Grid result" where
  "scrollLeft_row K T attr m y g =
    bind_result (lineAt g y) (\<lambda>l.
    bind_result (inflatedBuffer K T l) (\<lambda>(cs, l).
      if mg_left m < 0 \<or> mg_right m < mg_left m \<or> int (length cs) \<le> mg_right m then Inl OutOfBounds
      else
        let a = nat (mg_left m); c = nat (mg_right m);
            rotated = take a cs @ rotate1 (take (c + 1 - a) (drop a cs)) @ drop (c + 1) cs
        in bind_result (op_make K attr 0) (\<lambda>v.
           bind_result (ring_set (gr_lines g) y
               (l\<lparr>line_storage := InflatedBuffer (rotated[c := op_assign K (rotated ! c) v])\<rparr>)) (\<lambda>r.
             Inr (g\<lparr>gr_lines := r\<rparr>)))))"

definition scrollLeft ::
  "'c CellOps \<Rightarrow> ('d, 'm) TextLib_scheme \<Rightarrow> GraphicsAttributes \<Rightarrow> Margin \<Rightarrow> 'c Grid \<Rightarrow> 'c Grid result" where
  "scrollLeft K T attr m g = fold_result (scrollLeft_row K T attr m) [mg_top m..mg_bottom m] g"

definition grid_reset :: "'c Grid \<Rightarrow> 'c Grid result" where
  "grid_reset g =
    bind_result (rotate_right (gr_lines g) (rg_zero (gr_lines g))) (\<lambda>r.
    bind_result (reset_lines (defaultLineFlags g) defaultAttributes [0..int (page_lines g) - 1] r) (\<lambda>r.
      verified (g\<lparr>gr_linesUsed := page_lines g, gr_lines := r\<rparr>)))"

definition setReflowOnResize :: "bool \<Rightarrow> 'c Grid \<Rightarrow> 'c Grid" where
  "setReflowOnResize enabled g = g\<lparr>gr_reflowOnResize := enabled\<rparr>"

text \<open>
  \<open>setLineText\<close>, over the code points libunicode converts the text to and the cell's
  \<open>setCharacter\<close>.
\<close>

definition setLineText ::
  "'c CellOps \<Rightarrow> ('d, 'm) TextLib_scheme \<Rightarrow> (codepoint \<Rightarrow> 'c \<Rightarrow> 'c result) \<Rightarrow> int \<Rightarrow> codepoint list
    \<Rightarrow> 'c Grid \<Rightarrow> 'c Grid result" where
  "setLineText K T setCharacter line cps g =
    fold_result (\<lambda>(i, ch) g.
        bind_result (useCellAt K T line (int i) g) (\<lambda>(cs, g).
          if i < length cs
          then bind_result (setCharacter ch (cs ! i)) (\<lambda>c. put_cells line (cs[i := c]) g)
          else Inl OutOfBounds))
      (enumerate 0 cps) g"

definition appendNewLines :: "nat \<Rightarrow> GraphicsAttributes \<Rightarrow> 'c Grid \<Rightarrow> 'c Grid result" where
  "appendNewLines count attr g =
    bind_result (ring_back (gr_lines g)) (\<lambda>back.
      if historyLineCount g = maxHistoryLineCount g
      then
        bind_result (fold_result (\<lambda>_ r.
            bind_result (ring_front r) (\<lambda>l.
            bind_result (pop_front r) (\<lambda>r.
              Inr (push_back r (line_reset (defaultLineFlags g) attr l)))))
          [0..<count] (gr_lines g)) (\<lambda>r. Inr (g\<lparr>gr_lines := r\<rparr>))
      else
        Inr (g\<lparr>gr_lines := push_backs (min count (page_lines g))
          (blank_line (page_columns g) attr (wrappableFlag back)) (gr_lines g)\<rparr>))"

subsection \<open>Resizing the number of lines\<close>

definition takeHistory :: "nat \<Rightarrow> CellLocation \<Rightarrow> 'c Grid \<Rightarrow> (int \<times> 'c Grid) result" where
  "takeHistory newHeight cursor g =
    (if cl_line cursor + 1 = int (page_lines g)
     then
       let linesToTake = min (int newHeight - int (page_lines g)) (historyLineCount g) in
       bind_result (require (linesToTake \<ge> 0) ()) (\<lambda>_.
       bind_result (rotate_right (gr_lines g) (nat linesToTake)) (\<lambda>r.
         Inr (linesToTake, set_page_lines (page_lines g + nat linesToTake) (g\<lparr>gr_lines := r\<rparr>))))
     else Inr (0, g))"

definition extendLines :: "nat \<Rightarrow> 'c Grid \<Rightarrow> 'c Grid result" where
  "extendLines newHeight g =
    bind_result (ring_back (gr_lines g)) (\<lambda>l.
      let totalLinesToExtend = newHeight - page_lines g;
          newTotalLineCount = maxHistoryLineCount g + int newHeight;
          linesToFill = nat (max 0 (newTotalLineCount - int (ring_lines g)));
          g = g\<lparr>gr_lines := push_backs linesToFill
            (blank_line (page_columns g) defaultAttributes (wrappableFlag l)) (gr_lines g)\<rparr>;
          g = set_page_lines (page_lines g + totalLinesToExtend) g;
          g = g\<lparr>gr_linesUsed := min (gr_linesUsed g + totalLinesToExtend) (ring_lines g)\<rparr>
      in
      bind_result (require (page_lines g = newHeight \<and>
          int (ring_lines g) \<ge> maxHistoryLineCount g + int (page_lines g)) g) (\<lambda>g. verified g))"

definition growLines :: "nat \<Rightarrow> CellLocation \<Rightarrow> 'c Grid \<Rightarrow> (CellLocation \<times> 'c Grid) result" where
  "growLines newHeight cursor g =
    bind_result (require (newHeight > page_lines g) g) (\<lambda>g.
    bind_result (takeHistory newHeight cursor g) (\<lambda>(cursorMove, g).
    bind_result (extendLines newHeight g) (\<lambda>g.
      Inr (\<lparr>cl_line = cursorMove, cl_column = 0\<rparr>, g))))"

text \<open>Shrinking first cuts off lines below the cursor, then pushes lines up into the history.\<close>

definition cutoffLines :: "int \<Rightarrow> CellLocation \<Rightarrow> 'c Grid \<Rightarrow> 'c Grid result" where
  "cutoffLines cutoffCount cursor g =
    (if cutoffCount \<noteq> 0
     then
       let g = set_page_lines (nat (int (page_lines g) - cutoffCount)) g;
           g = g\<lparr>gr_linesUsed := nat (int (gr_linesUsed g) - cutoffCount)\<rparr>
       in bind_result (require (cl_line cursor < int (page_lines g)) g) (\<lambda>g. verified g)
     else Inr g)"

definition pushUpLines :: "int \<Rightarrow> CellLocation \<Rightarrow> 'c Grid \<Rightarrow> (CellLocation \<times> 'c Grid) result" where
  "pushUpLines numLinesToPushUp cursor g =
    (if numLinesToPushUp \<noteq> 0
     then
       bind_result (require (cl_line cursor + 1 = int (page_lines g)) g) (\<lambda>g.
       bind_result (rotate_left (gr_lines g) (nat numLinesToPushUp)) (\<lambda>r.
       bind_result (verified (set_page_lines (nat (int (page_lines g) - numLinesToPushUp)) (g\<lparr>gr_lines := r\<rparr>)))
         (\<lambda>g. Inr (\<lparr>cl_line = - numLinesToPushUp, cl_column = 0\<rparr>, g))))
     else
       bind_result (verified g) (\<lambda>g. Inr (\<lparr>cl_line = 0, cl_column = 0\<rparr>, g)))"

definition shrinkLines :: "nat \<Rightarrow> CellLocation \<Rightarrow> 'c Grid \<Rightarrow> (CellLocation \<times> 'c Grid) result" where
  "shrinkLines newHeight cursor g =
    bind_result (require (newHeight < page_lines g) g) (\<lambda>g.
      let numLinesToShrink = int (page_lines g) - int newHeight;
          cutoffCount = min numLinesToShrink (int (page_lines g) - (cl_line cursor + 1));
          numLinesToPushUp = numLinesToShrink - cutoffCount
      in
      bind_result (cutoffLines cutoffCount cursor g) (\<lambda>g.
      bind_result (require (newHeight \<le> page_lines g) g) (\<lambda>g.
        pushUpLines numLinesToPushUp cursor g)))"

subsection \<open>Resizing the number of columns\<close>

text \<open>
  The loop of \<open>addNewWrappedLines\<close> takes \<open>newColumnCount\<close> cells at a time off the front of the buffer;
  with no columns it takes nothing and never ends.
\<close>

function wrap_lines ::
  "nat \<Rightarrow> LineFlags \<Rightarrow> bool \<Rightarrow> nat \<Rightarrow> 'c list \<Rightarrow> 'c Line basic_ring
    \<Rightarrow> (nat \<times> 'c list \<times> 'c Line basic_ring) result" where
  "wrap_lines newColumnCount baseFlags initialNoWrap i buffer target =
    (if newColumnCount = 0 then Inl NonTermination
     else if length buffer \<ge> newColumnCount
     then wrap_lines newColumnCount baseFlags initialNoWrap (Suc i) (drop newColumnCount buffer)
       (push_back target
         \<lparr>line_storage = InflatedBuffer (take newColumnCount buffer),
          line_flags = baseFlags OR (if i = 0 \<and> initialNoWrap then 0 else Wrapped)\<rparr>)
     else Inr (i, buffer, target))"
  by pat_completeness auto
termination
  by (relation "measure (\<lambda>(n, f, w, i, buffer, r). length buffer)") auto

declare wrap_lines.simps [simp del]

definition addNewWrappedLines ::
  "'c CellOps \<Rightarrow> nat \<Rightarrow> 'c list \<Rightarrow> LineFlags \<Rightarrow> bool \<Rightarrow> 'c Line basic_ring \<Rightarrow> (nat \<times> 'c Line basic_ring) result" where
  "addNewWrappedLines K newColumnCount buffer baseFlags initialNoWrap target =
    bind_result (wrap_lines newColumnCount baseFlags initialNoWrap 0 buffer target) (\<lambda>(i, buffer, target).
      if buffer \<noteq> []
      then
        bind_result (push_cells (newColumnCount - length buffer) (op_default K) buffer) (\<lambda>cs.
          Inr (Suc i, push_back target
            \<lparr>line_storage = InflatedBuffer cs,
             line_flags = baseFlags OR (if i = 0 \<and> initialNoWrap then 0 else Wrapped)\<rparr>))
      else Inr (i, target))"

text \<open>A loop over all lines of the ring.\<close>

definition each_line :: "('c Line \<Rightarrow> 'c Line result) \<Rightarrow> 'c Line basic_ring \<Rightarrow> 'c Line basic_ring result" where
  "each_line f r =
    fold_result (\<lambda>y r. bind_result (ring_get r y) (\<lambda>l. bind_result (f l) (ring_set r y)))
      (map int [0..<ring_size r]) r"

record 'c grow_state =
  gs_lines :: "'c Line basic_ring"
  gs_buffer :: "'c list"
  gs_flags :: LineFlags

definition flushLogicalLine :: "'c CellOps \<Rightarrow> nat \<Rightarrow> 'c grow_state \<Rightarrow> 'c grow_state result" where
  "flushLogicalLine K newColumnCount s =
    (if gs_buffer s \<noteq> []
     then bind_result (addNewWrappedLines K newColumnCount (gs_buffer s) (gs_flags s) True (gs_lines s))
       (\<lambda>(_, r). Inr (s\<lparr>gs_lines := r, gs_buffer := []\<rparr>))
     else Inr s)"

definition grow_line ::
  "'c CellOps \<Rightarrow> ('d, 'm) TextLib_scheme \<Rightarrow> nat \<Rightarrow> nat \<Rightarrow> 'c Line \<Rightarrow> 'c grow_state \<Rightarrow> 'c grow_state result" where
  "grow_line K T columns newColumnCount l s =
    bind_result (require (line_size l \<ge> columns) s) (\<lambda>s.
      if wrapped l
      then bind_result (trim_blank_right K T l) (\<lambda>cs. Inr (s\<lparr>gs_buffer := gs_buffer s @ cs\<rparr>))
      else
        bind_result (flushLogicalLine K newColumnCount s) (\<lambda>s.
          case line_storage l of
            TrivialBuffer b \<Rightarrow>
              Inr (s\<lparr>gs_lines := push_back (gs_lines s)
                (l\<lparr>line_storage := TrivialBuffer (b\<lparr>tb_displayWidth := newColumnCount\<rparr>)\<rparr>)\<rparr>)
          | InflatedBuffer cs \<Rightarrow>
              Inr (s\<lparr>gs_buffer := gs_buffer s @ cs, gs_flags := line_flags l AND NOT Wrapped\<rparr>)))"

definition growColumns ::
  "'c CellOps \<Rightarrow> ('d, 'm) TextLib_scheme \<Rightarrow> nat \<Rightarrow> bool \<Rightarrow> 'c Grid \<Rightarrow> (CellLocation \<times> 'c Grid) result" where
  "growColumns K T newColumnCount wrapPending g =
    (if \<not> gr_reflowOnResize g
     then
       bind_result (each_line (\<lambda>l. if line_size l < newColumnCount then line_resize K newColumnCount l else Inr l)
           (gr_lines g)) (\<lambda>r.
       bind_result (verified (set_page_columns newColumnCount (g\<lparr>gr_lines := r\<rparr>))) (\<lambda>g.
         Inr (\<lparr>cl_line = 0, cl_column = (if wrapPending then 1 else 0)\<rparr>, g)))
     else
       bind_result (require (newColumnCount > page_columns g) g) (\<lambda>g.
       bind_result (fold_result (\<lambda>i s. bind_result (lineAt g i) (\<lambda>l.
           grow_line K T (page_columns g) newColumnCount l s))
           [- historyLineCount g..int (page_lines g) - 1]
           \<lparr>gs_lines = mk_ring [], gs_buffer = [], gs_flags = 0\<rparr>) (\<lambda>s.
       bind_result (flushLogicalLine K newColumnCount s) (\<lambda>s.
         let fill = blank_line newColumnCount defaultAttributes (defaultLineFlags g);
             cy = page_lines g - ring_size (gs_lines s);
             r = push_backs cy fill (gs_lines s);
             used = ring_size r;
             r = push_backs (nat (totalLineCount g) - ring_size r) fill r;
             g = set_page_columns newColumnCount (g\<lparr>gr_linesUsed := used, gr_lines := r\<rparr>)
         in
         bind_result (rotate_left (gr_lines g) (gr_linesUsed g - page_lines g)) (\<lambda>r.
         bind_result (verified (g\<lparr>gr_lines := r\<rparr>)) (\<lambda>g.
           Inr (\<lparr>cl_line = - int cy, cl_column = (if wrapPending then 1 else 0)\<rparr>, g)))))))"

record 'c shrink_state =
  ss_lines :: "'c Line basic_ring"
  ss_wrapped :: "'c list"
  ss_flags :: LineFlags
  ss_written :: nat

definition shrink_line ::
  "'c CellOps \<Rightarrow> ('d, 'm) TextLib_scheme \<Rightarrow> nat \<Rightarrow> 'c Line \<Rightarrow> 'c shrink_state \<Rightarrow> 'c shrink_state result" where
  "shrink_line K T newColumnCount l s =
    bind_result
      (if ss_wrapped s \<noteq> []
       then
         if wrapped l \<and> inheritableFlags l = ss_flags s
         then bind_result (inflatedBuffer K T l) (\<lambda>(cs, l).
           Inr (l\<lparr>line_storage := InflatedBuffer (ss_wrapped s @ cs)\<rparr>, s))
         else
           bind_result (addNewWrappedLines K newColumnCount (ss_wrapped s) (ss_flags s) False (ss_lines s))
             (\<lambda>(n, r). Inr (l, s\<lparr>ss_lines := r, ss_written := ss_written s + n, ss_flags := inheritableFlags l\<rparr>))
       else
         let l = setFlag Wrappable True l in Inr (l, s\<lparr>ss_flags := inheritableFlags l\<rparr>)) (\<lambda>(l, s).
    bind_result (reflow K T newColumnCount l) (\<lambda>(cs, l).
    bind_result (require (line_size l \<ge> newColumnCount) l) (\<lambda>l.
      Inr (s\<lparr>ss_wrapped := cs, ss_lines := push_back (ss_lines s) l, ss_written := Suc (ss_written s)\<rparr>))))"

definition shrinkColumns ::
  "'c CellOps \<Rightarrow> ('d, 'm) TextLib_scheme \<Rightarrow> nat \<Rightarrow> CellLocation \<Rightarrow> 'c Grid \<Rightarrow> (CellLocation \<times> 'c Grid) result" where
  "shrinkColumns K T newColumnCount cursor g =
    (if \<not> gr_reflowOnResize g
     then
       bind_result (each_line (\<lambda>l. if newColumnCount < line_size l then line_resize K newColumnCount l else Inr l)
           (gr_lines g)) (\<lambda>r.
       bind_result (verified (set_page_columns newColumnCount (g\<lparr>gr_lines := r\<rparr>))) (\<lambda>g.
         Inr (cursor\<lparr>cl_column := cl_column cursor + min (cl_column cursor) (int newColumnCount)\<rparr>, g)))
     else
       bind_result (ring_front (gr_lines g)) (\<lambda>front.
       bind_result (fold_result (\<lambda>i s. bind_result (lineAt g i) (\<lambda>l. shrink_line K T newColumnCount l s))
           [- historyLineCount g..int (page_lines g) - 1]
           \<lparr>ss_lines = mk_ring [], ss_wrapped = [], ss_flags = inheritableFlags front, ss_written = 0\<rparr>) (\<lambda>s.
       bind_result (addNewWrappedLines K newColumnCount (ss_wrapped s) (ss_flags s) False (ss_lines s)) (\<lambda>(n, r).
         let written = ss_written s + n in
         bind_result (require (written = ring_size r \<and> written \<ge> page_lines g) r) (\<lambda>r.
         bind_result (rotate_left (push_backs (nat (totalLineCount g) - ring_size r)
             (blank_line newColumnCount defaultAttributes 0) r) (written - page_lines g)) (\<lambda>r.
         bind_result (verified (set_page_columns newColumnCount (g\<lparr>gr_linesUsed := written, gr_lines := r\<rparr>))) (\<lambda>g.
           Inr (cursor, g))))))))"

definition grid_resize ::
  "'c CellOps \<Rightarrow> ('d, 'm) TextLib_scheme \<Rightarrow> PageSize \<Rightarrow> CellLocation \<Rightarrow> bool \<Rightarrow> 'c Grid
    \<Rightarrow> (CellLocation \<times> 'c Grid) result" where
  "grid_resize K T newSize cursor wrapPending g =
    (if gr_pageSize g = newSize then Inr (cursor, g)
     else
       bind_result
         (if ps_columns newSize > page_columns g
          then bind_result (growColumns K T (ps_columns newSize) wrapPending g) (\<lambda>(move, g).
            Inr (cl_plus cursor move, g))
          else if ps_columns newSize < page_columns g
          then shrinkColumns K T (ps_columns newSize) cursor g
          else Inr (cursor, g)) (\<lambda>(cursor, g).
       bind_result
         (if ps_lines newSize > page_lines g
          then bind_result (growLines (ps_lines newSize) cursor g) (\<lambda>(move, g). Inr (cl_plus cursor move, g))
          else if ps_lines newSize < page_lines g
          then bind_result (shrinkLines (ps_lines newSize) cursor g) (\<lambda>(move, g). Inr (cl_plus cursor move, g))
          else Inr (cursor, g)) (\<lambda>(cursor, g).
       bind_result (require (gr_pageSize g = newSize) g) (\<lambda>g.
       bind_result (verified g) (\<lambda>g. Inr (cursor, g))))))"

end
