(* ===== verification/VT_Charset.thy ===== *)
theory VT_Charset
  imports Prelude
begin

text \<open>
  The character sets of \<open>src/vtbackend/Charset.h\<close> and \<open>Charset.cpp\<close>: the tables that give the
  graphic characters of a set, and the mapping of the designated sets \<open>G0\<close> to \<open>G3\<close> with locking and
  single shifts. A \<open>CharsetMap\<close> is the list of its 127 code points. The mapping holds pointers to
  static tables, one for each \<open>CharsetId\<close>; the model keeps the identifier in place of the pointer.
\<close>

subsection \<open>The tables\<close>

type_synonym CharsetMap = "nat list"

datatype CharsetId =
  Special | British | Dutch | Finnish | French | FrenchCanadian | German | NorwegianDanish | Spanish
| Swedish | Swiss | USASCII

datatype CharsetTable = G0 | G1 | G2 | G3

definition usasciiCharset :: CharsetMap where
  "usasciiCharset = [0..<127]"

text \<open>The assignments to single entries of the copy.\<close>

definition with_entries :: "(nat \<times> nat) list \<Rightarrow> CharsetMap" where
  "with_entries es = fold (\<lambda>(k, v) cs. cs[k := v]) es usasciiCharset"

definition createBritishCharset :: CharsetMap where
  "createBritishCharset = with_entries
    [(0x23, 0x00A3)]"

definition createGermanCharset :: CharsetMap where
  "createGermanCharset = with_entries
    [(0x40, 0x00A7), (0x5B, 0x00C4), (0x5C, 0x00D6), (0x5D, 0x00DC), (0x7B, 0x00E4),
     (0x7C, 0x00F6), (0x7D, 0x00FC), (0x7E, 0x00DF)]"

definition createSpecialCharset :: CharsetMap where
  "createSpecialCharset = with_entries
    [(0x60, 0x25C6), (0x61, 0x2592), (0x62, 0x2409), (0x63, 0x240C), (0x64, 0x240D),
     (0x65, 0x240A), (0x66, 0x00B0), (0x67, 0x00B1), (0x68, 0x2424), (0x69, 0x240B),
     (0x6A, 0x2518), (0x6B, 0x2510), (0x6C, 0x250C), (0x6D, 0x2514), (0x6E, 0x253C),
     (0x6F, 0x23BA), (0x70, 0x23BB), (0x71, 0x2500), (0x72, 0x23BC), (0x73, 0x23BD),
     (0x74, 0x251C), (0x75, 0x2524), (0x76, 0x2534), (0x77, 0x252C), (0x78, 0x2502),
     (0x79, 0x2264), (0x7A, 0x2265), (0x7B, 0x03C0), (0x7C, 0x2260), (0x7D, 0x00A3), (0x7E, 0x00B7)]"

definition createDutchCharset :: CharsetMap where
  "createDutchCharset = with_entries
    [(0x23, 0x00A3), (0x40, 0x00BE), (0x5C, 0x00BD), (0x5D, 0x007C), (0x7B, 0x00A8),
     (0x7C, 0x0066), (0x7D, 0x00BC), (0x7E, 0x00B4)]"

definition createFinnishCharset :: CharsetMap where
  "createFinnishCharset = with_entries
    [(0x5B, 0x00C4), (0x5C, 0x00D6), (0x5D, 0x00C5), (0x5E, 0x00DC), (0x60, 0x00E9),
     (0x7B, 0x00E4), (0x7C, 0x00F6), (0x7D, 0x00E5), (0x7E, 0x00FC)]"

definition createFrenchCharset :: CharsetMap where
  "createFrenchCharset = with_entries
    [(0x23, 0x00A3), (0x40, 0x00E0), (0x5B, 0x00B0), (0x5C, 0x00E7), (0x5D, 0x00A7),
     (0x7B, 0x00E9), (0x7C, 0x00F9), (0x7D, 0x00E8), (0x7E, 0x00A8)]"

definition createFrenchCanadianCharset :: CharsetMap where
  "createFrenchCanadianCharset = with_entries
    [(0x40, 0x00E0), (0x5B, 0x00E2), (0x5C, 0x00E7), (0x5D, 0x00EA), (0x5E, 0x00EE),
     (0x60, 0x00F4), (0x7B, 0x00E9), (0x7C, 0x00F9), (0x7D, 0x00E8), (0x7E, 0x00FB)]"

definition createNorwegianDanishCharset :: CharsetMap where
  "createNorwegianDanishCharset = with_entries
    [(0x40, 0x00C4), (0x5B, 0x00C6), (0x5C, 0x00D8), (0x5D, 0x00C5), (0x5E, 0x00DC),
     (0x60, 0x00E4), (0x7B, 0x00E6), (0x7C, 0x00F8), (0x7D, 0x00E5), (0x7E, 0x00FC)]"

definition createSpanishCharset :: CharsetMap where
  "createSpanishCharset = with_entries
    [(0x23, 0x00A3), (0x40, 0x00A7), (0x5B, 0x00A1), (0x5C, 0x00D1), (0x5D, 0x00BF),
     (0x7B, 0x00B0), (0x7C, 0x00F1), (0x7D, 0x00E7)]"

definition createSwedishCharset :: CharsetMap where
  "createSwedishCharset = with_entries
    [(0x40, 0x00C9), (0x5B, 0x00C4), (0x5C, 0x00D6), (0x5D, 0x00C5), (0x5E, 0x00DC),
     (0x60, 0x00E9), (0x7B, 0x00E4), (0x7C, 0x00F6), (0x7D, 0x00E5), (0x7E, 0x00FC)]"

definition createSwissCharset :: CharsetMap where
  "createSwissCharset = with_entries
    [(0x23, 0x00F9), (0x40, 0x00E0), (0x5B, 0x00E9), (0x5C, 0x00E7), (0x5D, 0x00EA),
     (0x5E, 0x00EE), (0x5F, 0x00E8), (0x60, 0x00F4), (0x7B, 0x00E4), (0x7C, 0x00F6),
     (0x7D, 0x00FC), (0x7E, 0x00FB)]"

fun charsetMap :: "CharsetId \<Rightarrow> CharsetMap" where
  "charsetMap British = createBritishCharset"
| "charsetMap Dutch = createDutchCharset"
| "charsetMap Finnish = createFinnishCharset"
| "charsetMap French = createFrenchCharset"
| "charsetMap FrenchCanadian = createFrenchCanadianCharset"
| "charsetMap German = createGermanCharset"
| "charsetMap NorwegianDanish = createNorwegianDanishCharset"
| "charsetMap Spanish = createSpanishCharset"
| "charsetMap Special = createSpecialCharset"
| "charsetMap Swedish = createSwedishCharset"
| "charsetMap Swiss = createSwissCharset"
| "charsetMap USASCII = usasciiCharset"

subsection \<open>The mapping\<close>

record CharsetMapping =
  tableForNextGraphic :: CharsetTable
  selectedTable :: CharsetTable
  tables :: "CharsetTable \<Rightarrow> CharsetId"

definition newCharsetMapping :: CharsetMapping where
  "newCharsetMapping = \<lparr>tableForNextGraphic = G0, selectedTable = G0, tables = (\<lambda>_. USASCII)\<rparr>"

definition map_table :: "CharsetMapping \<Rightarrow> CharsetTable \<Rightarrow> nat \<Rightarrow> nat result" where
  "map_table m table code =
    (let cs = charsetMap (tables m table) in if code < length cs then Inr (cs ! code) else Inl OutOfBounds)"

definition map_charset :: "nat \<Rightarrow> CharsetMapping \<Rightarrow> (nat \<times> CharsetMapping) result" where
  "map_charset code m =
    (if code < 127
     then bind_result (map_table m (tableForNextGraphic m) code) (\<lambda>result.
       Inr (result, m\<lparr>tableForNextGraphic := selectedTable m\<rparr>))
     else if code \<noteq> 127 then Inr (code, m)
     else Inr (0x20, m))"

definition singleShift :: "CharsetTable \<Rightarrow> CharsetMapping \<Rightarrow> CharsetMapping" where
  "singleShift table m = m\<lparr>tableForNextGraphic := table\<rparr>"

definition lockingShift :: "CharsetTable \<Rightarrow> CharsetMapping \<Rightarrow> CharsetMapping" where
  "lockingShift table m = m\<lparr>selectedTable := table, tableForNextGraphic := table\<rparr>"

definition isSelected :: "CharsetId \<Rightarrow> CharsetMapping \<Rightarrow> bool" where
  "isSelected charset m \<longleftrightarrow> tables m (tableForNextGraphic m) = charset"

definition select_charset :: "CharsetTable \<Rightarrow> CharsetId \<Rightarrow> CharsetMapping \<Rightarrow> CharsetMapping" where
  "select_charset table charset m = m\<lparr>tables := (tables m)(table := charset)\<rparr>"

subsection \<open>Properties\<close>

lemmas charset_defs =
  createBritishCharset_def createDutchCharset_def createFinnishCharset_def createFrenchCharset_def
  createFrenchCanadianCharset_def createGermanCharset_def createNorwegianDanishCharset_def
  createSpanishCharset_def createSpecialCharset_def createSwedishCharset_def createSwissCharset_def

text \<open>Tables are complete, and their entries are graphic characters.\<close>

definition graphic_table :: "CharsetMap \<Rightarrow> bool" where
  "graphic_table cs \<longleftrightarrow> length cs = 127 \<and> (\<forall>k < 127. 0x20 \<le> k \<longrightarrow> 0x20 \<le> cs ! k \<and> cs ! k \<noteq> 0x7F)"

lemma graphic_usascii: "graphic_table usasciiCharset"
  by (simp add: graphic_table_def usasciiCharset_def)

lemma graphic_update: "graphic_table cs \<Longrightarrow> 0x20 \<le> v \<Longrightarrow> v \<noteq> 0x7F \<Longrightarrow> graphic_table (cs[k := v])"
  by (cases "k < length cs") (auto simp: graphic_table_def nth_list_update list_update_beyond)

lemma graphic_entries:
  assumes "list_all (\<lambda>(k, v). 0x20 \<le> v \<and> v \<noteq> 0x7F) es"
  shows "graphic_table (with_entries es)"
proof -
  have "graphic_table (fold (\<lambda>(k, v) cs. cs[k := v]) es cs)" if "graphic_table cs" for cs
    using that assms by (induction es arbitrary: cs) (auto intro: graphic_update)
  with graphic_usascii show ?thesis by (simp add: with_entries_def)
qed

lemma graphic_charsetMap: "graphic_table (charsetMap charset)"
  by (cases charset) (simp_all add: charset_defs graphic_entries graphic_usascii)

text \<open>
  C33. Mapping a character never leaves its table and never faults, whatever sets are designated and
  shifted; a graphic character is mapped to a graphic character, never to a control code. The set
  used is the one shifted in, and after the character the locked one is in use again: a single shift
  holds for one character below 127 only.
\<close>

theorem map_charset_graphic:
  assumes "0x20 \<le> code"
  shows "\<exists>ch m'. map_charset code m = Inr (ch, m') \<and> 0x20 \<le> ch \<and> ch \<noteq> 0x7F \<and>
    (code < 127 \<longrightarrow> ch = charsetMap (tables m (tableForNextGraphic m)) ! code \<and>
      m' = m\<lparr>tableForNextGraphic := selectedTable m\<rparr>) \<and> (127 \<le> code \<longrightarrow> m' = m)"
  using assms graphic_charsetMap [of "tables m (tableForNextGraphic m)"]
  by (auto simp: map_charset_def map_table_def Let_def graphic_table_def)

theorem map_charset_graphic_witness:
  "\<exists>m'. map_charset 0x71 (singleShift G2 (select_charset G2 Special newCharsetMapping)) = Inr (0x2500, m') \<and>
    map_charset 0x71 m' = Inr (0x71, m')"
proof -
  let ?m = "singleShift G2 (select_charset G2 Special newCharsetMapping)"
  have "charsetMap Special ! 0x71 = 0x2500"
    by (simp add: createSpecialCharset_def with_entries_def usasciiCharset_def nth_list_update)
  moreover have "charsetMap USASCII ! 0x71 = 0x71" by (simp add: usasciiCharset_def)
  ultimately show ?thesis
    using map_charset_graphic [of "0x71" ?m] map_charset_graphic [of "0x71" "?m\<lparr>tableForNextGraphic := G0\<rparr>"]
    by (auto simp: singleShift_def select_charset_def newCharsetMapping_def)
qed

end
