(* ===== verification/VT_Screen.thy ===== *)
theory VT_Screen
  imports VT_Grid VT_Charset
begin

unbundle bit_operations_syntax

text \<open>
  The screen: the operations of \<open>src/vtbackend/Screen.cpp\<close> on the grid, the cursor, the margins and the
  tab stops, with the parts of the terminal's state they use. The screen keeps a pointer to the line
  the cursor is in (\<open>_currentLine\<close>); the model keeps the physical index in the vector the pointer
  refers to, so that an operation that forgets to update it goes on with the old line, as the code
  does. Parameters of control sequences are below \<open>2 ^ 16\<close>, so that offsets are integers without
  bound. What only concerns drawing is left out: marking regions dirty, the viewport, the jump
  history, the smooth scrolling and the log.
\<close>

subsection \<open>State\<close>

record Cursor =
  cu_position :: CellLocation
  cu_autoWrap :: bool
  cu_originMode :: bool
  cu_wrapPending :: bool
  cu_graphicsRendition :: GraphicsAttributes
  cu_charsets :: CharsetMapping
  cu_hyperlink :: HyperlinkId

definition newCursor :: Cursor where
  "newCursor =
    \<lparr>cu_position = \<lparr>cl_line = 0, cl_column = 0\<rparr>, cu_autoWrap = True, cu_originMode = False, cu_wrapPending = False,
     cu_graphicsRendition = defaultAttributes, cu_charsets = newCharsetMapping, cu_hyperlink = 0\<rparr>"

text \<open>
  The fields of the screen, and of the terminal: the tab stops, the modes \<open>DECLRMM\<close> and \<open>LNM\<close>, the
  fast pipe, the character printed last, and the page size in the settings.
\<close>

record 'c Screen =
  scr_grid :: "'c Grid"
  scr_margin :: Margin
  scr_cursor :: Cursor
  scr_savedCursor :: Cursor
  scr_savedGraphicsRenditions :: GraphicsAttributes
  scr_lastCursorPosition :: CellLocation
  scr_currentLine :: nat
  tm_tabs :: "int list"
  tm_leftRightMargin :: bool
  tm_automaticNewLine :: bool
  tm_stdoutFastPipe :: bool
  tm_precedingGraphicCharacter :: codepoint
  tm_pageSize :: PageSize

abbreviation cursor_line :: "'c Screen \<Rightarrow> int" where
  "cursor_line s \<equiv> cl_line (cu_position (scr_cursor s))"

abbreviation cursor_column :: "'c Screen \<Rightarrow> int" where
  "cursor_column s \<equiv> cl_column (cu_position (scr_cursor s))"

abbreviation screen_lines :: "'c Screen \<Rightarrow> nat" where
  "screen_lines s \<equiv> page_lines (scr_grid s)"

abbreviation screen_columns :: "'c Screen \<Rightarrow> nat" where
  "screen_columns s \<equiv> page_columns (scr_grid s)"

abbreviation rendition :: "'c Screen \<Rightarrow> GraphicsAttributes" where
  "rendition s \<equiv> cu_graphicsRendition (scr_cursor s)"

definition set_position :: "int \<Rightarrow> int \<Rightarrow> 'c Screen \<Rightarrow> 'c Screen" where
  "set_position line column s =
    s\<lparr>scr_cursor := (scr_cursor s)\<lparr>cu_position := \<lparr>cl_line = line, cl_column = column\<rparr>\<rparr>\<rparr>"

definition set_wrapPending :: "bool \<Rightarrow> 'c Screen \<Rightarrow> 'c Screen" where
  "set_wrapPending b s = s\<lparr>scr_cursor := (scr_cursor s)\<lparr>cu_wrapPending := b\<rparr>\<rparr>"

definition set_grid :: "'c Grid \<Rightarrow> 'c Screen \<Rightarrow> 'c Screen" where
  "set_grid g s = s\<lparr>scr_grid := g\<rparr>"

subsection \<open>Coordinates\<close>

definition std_clamp :: "int \<Rightarrow> int \<Rightarrow> int \<Rightarrow> int" where
  "std_clamp v lo hi = (if v < lo then lo else if hi < v then hi else v)"

definition clampedLine :: "'c Screen \<Rightarrow> int \<Rightarrow> int" where
  "clampedLine s line = std_clamp line 0 (int (screen_lines s) - 1)"

definition clampedColumn :: "'c Screen \<Rightarrow> int \<Rightarrow> int" where
  "clampedColumn s column = std_clamp column 0 (int (screen_columns s) - 1)"

definition clampToScreen :: "'c Screen \<Rightarrow> CellLocation \<Rightarrow> CellLocation" where
  "clampToScreen s p = \<lparr>cl_line = clampedLine s (cl_line p), cl_column = clampedColumn s (cl_column p)\<rparr>"

definition clampToOrigin :: "'c Screen \<Rightarrow> CellLocation \<Rightarrow> CellLocation" where
  "clampToOrigin s p =
    \<lparr>cl_line = std_clamp (cl_line p) 0 (mg_bottom (scr_margin s)),
     cl_column = std_clamp (cl_column p) 0 (mg_right (scr_margin s))\<rparr>"

definition clampCoordinate :: "'c Screen \<Rightarrow> CellLocation \<Rightarrow> CellLocation" where
  "clampCoordinate s p = (if cu_originMode (scr_cursor s) then clampToOrigin s p else clampToScreen s p)"

definition origin :: "'c Screen \<Rightarrow> CellLocation" where
  "origin s =
    (if cu_originMode (scr_cursor s) then \<lparr>cl_line = mg_top (scr_margin s), cl_column = mg_left (scr_margin s)\<rparr>
     else \<lparr>cl_line = 0, cl_column = 0\<rparr>)"

definition logicalCursorPosition :: "'c Screen \<Rightarrow> CellLocation" where
  "logicalCursorPosition s =
    (if \<not> cu_originMode (scr_cursor s) then cu_position (scr_cursor s)
     else \<lparr>cl_line = cursor_line s - mg_top (scr_margin s), cl_column = cursor_column s - mg_left (scr_margin s)\<rparr>)"

definition isFullHorizontalMargins :: "'c Screen \<Rightarrow> bool" where
  "isFullHorizontalMargins s \<longleftrightarrow> mg_right (scr_margin s) + 1 = int (screen_columns s)"

definition vertical_contains :: "Margin \<Rightarrow> int \<Rightarrow> bool" where
  "vertical_contains m v \<longleftrightarrow> mg_top m \<le> v \<and> v \<le> mg_bottom m"

definition horizontal_contains :: "Margin \<Rightarrow> int \<Rightarrow> bool" where
  "horizontal_contains m v \<longleftrightarrow> mg_left m \<le> v \<and> v \<le> mg_right m"

definition isCursorInsideMargins :: "'c Screen \<Rightarrow> bool" where
  "isCursorInsideMargins s \<longleftrightarrow> vertical_contains (scr_margin s) (cursor_line s) \<and>
    (\<not> tm_leftRightMargin s \<or> horizontal_contains (scr_margin s) (cursor_column s))"

subsection \<open>Access to lines\<close>

definition updateCursorIterator :: "'c Screen \<Rightarrow> 'c Screen result" where
  "updateCursorIterator s =
    bind_result (ring_index (gr_lines (scr_grid s)) (cursor_line s)) (\<lambda>i. Inr (s\<lparr>scr_currentLine := i\<rparr>))"

definition currentLine :: "'c Screen \<Rightarrow> 'c Line result" where
  "currentLine s =
    (if scr_currentLine s < ring_lines (scr_grid s) then Inr (rg_storage (gr_lines (scr_grid s)) ! scr_currentLine s)
     else Inl OutOfBounds)"

definition set_lines :: "'c Line basic_ring \<Rightarrow> 'c Screen \<Rightarrow> 'c Screen" where
  "set_lines r s = s\<lparr>scr_grid := (scr_grid s)\<lparr>gr_lines := r\<rparr>\<rparr>"

text \<open>Changing the line of the pointer, and the line at an offset.\<close>

definition on_current :: "('c Line \<Rightarrow> 'c Line result) \<Rightarrow> 'c Screen \<Rightarrow> 'c Screen result" where
  "on_current f s =
    bind_result (currentLine s) (\<lambda>l.
    bind_result (f l) (\<lambda>l.
      let r = gr_lines (scr_grid s) in
      Inr (set_lines (r\<lparr>rg_storage := (rg_storage r)[scr_currentLine s := l]\<rparr>) s)))"

definition on_line :: "int \<Rightarrow> ('c Line \<Rightarrow> 'c Line result) \<Rightarrow> 'c Screen \<Rightarrow> 'c Screen result" where
  "on_line y f s =
    bind_result (lineAt (scr_grid s) y) (\<lambda>l.
    bind_result (f l) (\<lambda>l.
    bind_result (ring_set (gr_lines (scr_grid s)) y l) (\<lambda>r. Inr (set_lines r s))))"

text \<open>
  \<open>Line::useCellAt\<close> for a change of the cell: the column behind the last one passes the check, but
  is not a cell. \<open>Line::useRange\<close> is a span, whose bounds are checked.
\<close>

definition change_cell ::
  "'c CellOps \<Rightarrow> ('d, 'm) TextLib_scheme \<Rightarrow> int \<Rightarrow> ('c \<Rightarrow> 'c result) \<Rightarrow> 'c Line \<Rightarrow> 'c Line result" where
  "change_cell K T column f l =
    (if column < 0 \<or> column > int (line_size l) then Inl AssertionFailed
     else
       bind_result (inflatedBuffer K T l) (\<lambda>(cs, l).
         if int (length cs) \<le> column then Inl OutOfBounds
         else bind_result (f (cs ! nat column)) (\<lambda>c.
           Inr (l\<lparr>line_storage := InflatedBuffer (cs[nat column := c])\<rparr>))))"

definition change_range ::
  "'c CellOps \<Rightarrow> ('d, 'm) TextLib_scheme \<Rightarrow> int \<Rightarrow> int \<Rightarrow> ('c \<Rightarrow> 'c result) \<Rightarrow> 'c Line \<Rightarrow> 'c Line result" where
  "change_range K T start count f l =
    bind_result (inflatedBuffer K T l) (\<lambda>(cs, l).
      if start < 0 \<or> count < 0 \<or> int (length cs) < start + count then Inl AssertionFailed
      else
        bind_result (map_result f (take (nat count) (drop (nat start) cs))) (\<lambda>changed.
          Inr (l\<lparr>line_storage := InflatedBuffer (take (nat start) cs @ changed @ drop (nat (start + count)) cs)\<rparr>)))"

text \<open>\<open>std::rotate\<close> of the cells from \<open>left\<close> up to \<open>right\<close>, the one at \<open>middle\<close> becoming the first.\<close>

definition rotate_cells ::
  "'c CellOps \<Rightarrow> ('d, 'm) TextLib_scheme \<Rightarrow> int \<Rightarrow> int \<Rightarrow> int \<Rightarrow> 'c Line \<Rightarrow> 'c Line result" where
  "rotate_cells K T left middle right l =
    bind_result (inflatedBuffer K T l) (\<lambda>(cs, l).
      if left < 0 \<or> middle < left \<or> right < middle \<or> int (length cs) < right then Inl OutOfBounds
      else
        Inr (l\<lparr>line_storage := InflatedBuffer
          (take (nat left) cs @ drop (nat middle) (take (nat right) cs)
           @ drop (nat left) (take (nat middle) cs) @ drop (nat right) cs)\<rparr>))"

definition is_protected :: "'c CellOps \<Rightarrow> 'c \<Rightarrow> bool" where
  "is_protected K c \<longleftrightarrow> op_flags K c AND flag CF_CharacterProtected \<noteq> 0"

definition screen_verifyState :: "'c Screen \<Rightarrow> 'c Screen result" where
  "screen_verifyState s =
    bind_result (require (cursor_column s < int (screen_columns s) \<and> cursor_line s < int (screen_lines s)) ()) (\<lambda>_.
    bind_result (require (cu_position (scr_cursor s) = clampToScreen s (cu_position (scr_cursor s))) ()) (\<lambda>_.
      require (verifyState (scr_grid s)) s))"

subsection \<open>Construction, reset and resizing\<close>

definition newScreen :: "PageSize \<Rightarrow> bool \<Rightarrow> MaxHistoryLineCount \<Rightarrow> 'c Screen result" where
  "newScreen pageSize reflowOnResize limit =
    bind_result (newGrid pageSize reflowOnResize limit) (\<lambda>g.
      updateCursorIterator
        \<lparr>scr_grid = g,
         scr_margin = \<lparr>mg_top = 0, mg_bottom = int (ps_lines pageSize) - 1, mg_left = 0,
           mg_right = int (ps_columns pageSize) - 1\<rparr>,
         scr_cursor = newCursor, scr_savedCursor = newCursor, scr_savedGraphicsRenditions = defaultAttributes,
         scr_lastCursorPosition = \<lparr>cl_line = 0, cl_column = 0\<rparr>, scr_currentLine = 0, tm_tabs = [],
         tm_leftRightMargin = False, tm_automaticNewLine = False, tm_stdoutFastPipe = False,
         tm_precedingGraphicCharacter = 0, tm_pageSize = pageSize\<rparr>)"

definition hardReset :: "'c Screen \<Rightarrow> 'c Screen result" where
  "hardReset s =
    bind_result (grid_reset (scr_grid s)) (\<lambda>g.
      updateCursorIterator (set_grid g s\<lparr>scr_cursor := newCursor,
        scr_lastCursorPosition := \<lparr>cl_line = 0, cl_column = 0\<rparr>\<rparr>))"

definition applyPageSizeToMainDisplay ::
  "'c CellOps \<Rightarrow> ('d, 'm) TextLib_scheme \<Rightarrow> PageSize \<Rightarrow> 'c Screen \<Rightarrow> 'c Screen result" where
  "applyPageSizeToMainDisplay K T pageSize s =
    bind_result (grid_resize K T pageSize (cu_position (scr_cursor s)) (cu_wrapPending (scr_cursor s)) (scr_grid s))
      (\<lambda>(p, g).
      let s = set_grid g s;
          p = clampCoordinate s p;
          s = s\<lparr>scr_margin := \<lparr>mg_top = 0, mg_bottom = int (ps_lines pageSize) - 1, mg_left = 0,
            mg_right = int (ps_columns pageSize) - 1\<rparr>\<rparr>;
          s = (if cursor_column s < int (ps_columns pageSize) then set_wrapPending False s else s);
          s = set_position (cl_line p) (cl_column p) s\<lparr>scr_lastCursorPosition := p\<rparr>
      in bind_result (updateCursorIterator s) screen_verifyState)"

subsection \<open>Scrolling and moving the cursor\<close>

definition scr_scrollUp ::
  "'c CellOps \<Rightarrow> ('d, 'm) TextLib_scheme \<Rightarrow> nat \<Rightarrow> GraphicsAttributes \<Rightarrow> Margin \<Rightarrow> 'c Screen \<Rightarrow> 'c Screen result" where
  "scr_scrollUp K T n sgr m s =
    bind_result (scrollUp K T n sgr m (scr_grid s)) (\<lambda>(_, g). updateCursorIterator (set_grid g s))"

definition scr_scrollDown ::
  "'c CellOps \<Rightarrow> ('d, 'm) TextLib_scheme \<Rightarrow> nat \<Rightarrow> Margin \<Rightarrow> 'c Screen \<Rightarrow> 'c Screen result" where
  "scr_scrollDown K T n m s =
    bind_result (scrollDown K T n (rendition s) m (scr_grid s)) (\<lambda>g. updateCursorIterator (set_grid g s))"

definition moveCursorTo :: "int \<Rightarrow> int \<Rightarrow> 'c Screen \<Rightarrow> 'c Screen result" where
  "moveCursorTo line column s =
    (let o' = origin s;
         p = clampToScreen s \<lparr>cl_line = line + cl_line o', cl_column = column + cl_column o'\<rparr>
     in updateCursorIterator (set_position (cl_line p) (cl_column p) (set_wrapPending False s)))"

definition linefeed_to ::
  "'c CellOps \<Rightarrow> ('d, 'm) TextLib_scheme \<Rightarrow> int \<Rightarrow> 'c Screen \<Rightarrow> 'c Screen result" where
  "linefeed_to K T newColumn s =
    (let s = set_position (cursor_line s) newColumn (set_wrapPending False s) in
     if cursor_line s = mg_bottom (scr_margin s)
     then scr_scrollUp K T 1 (rendition s) (scr_margin s) s
     else updateCursorIterator (set_position (cursor_line s + 1) (cursor_column s) s))"

definition linefeed :: "'c CellOps \<Rightarrow> ('d, 'm) TextLib_scheme \<Rightarrow> 'c Screen \<Rightarrow> 'c Screen result" where
  "linefeed K T s =
    linefeed_to K T
      (if tm_stdoutFastPipe s \<or> tm_automaticNewLine s then mg_left (scr_margin s) else cursor_column s) s"

definition setCurrentColumn :: "int \<Rightarrow> 'c Screen \<Rightarrow> 'c Screen" where
  "setCurrentColumn n s =
    (let col = (if cu_originMode (scr_cursor s) then mg_left (scr_margin s) + n else n) in
     set_position (cursor_line s) (min col (int (screen_columns s) - 1)) (set_wrapPending False s))"

definition backspace :: "'c Screen \<Rightarrow> 'c Screen" where
  "backspace s = (if cursor_column s \<noteq> 0 then set_position (cursor_line s) (cursor_column s - 1) s else s)"

definition moveCursorVertically :: "int \<Rightarrow> 'c Screen \<Rightarrow> 'c Screen result" where
  "moveCursorVertically line s =
    (let m = scr_margin s;
         y = (if vertical_contains m (cursor_line s) then std_clamp line (mg_top m) (mg_bottom m) else clampedLine s line)
     in updateCursorIterator (set_position y (cursor_column s) (set_wrapPending False s)))"

definition moveCursorUp :: "int \<Rightarrow> 'c Screen \<Rightarrow> 'c Screen result" where
  "moveCursorUp n s = moveCursorVertically (cursor_line s - n) s"

definition moveCursorDown :: "int \<Rightarrow> 'c Screen \<Rightarrow> 'c Screen result" where
  "moveCursorDown n s = moveCursorVertically (cursor_line s + n) s"

definition moveCursorForward :: "int \<Rightarrow> 'c Screen \<Rightarrow> 'c Screen" where
  "moveCursorForward n s =
    (let m = scr_margin s;
         x = (if horizontal_contains m (cursor_column s) then std_clamp (cursor_column s + n) (mg_left m) (mg_right m)
              else clampedColumn s (cursor_column s + n))
     in set_wrapPending False (set_position (cursor_line s) x s))"

definition moveCursorBackward :: "int \<Rightarrow> 'c Screen \<Rightarrow> 'c Screen" where
  "moveCursorBackward n s =
    (let m = scr_margin s;
         x = (if horizontal_contains m (cursor_column s) then std_clamp (cursor_column s - n) (mg_left m) (mg_right m)
              else clampedColumn s (cursor_column s + n))
     in set_wrapPending False (set_position (cursor_line s) x s))"

definition moveCursorToNextLine :: "int \<Rightarrow> 'c Screen \<Rightarrow> 'c Screen result" where
  "moveCursorToNextLine n s = moveCursorTo (cl_line (logicalCursorPosition s) + n) 0 s"

definition moveCursorToPrevLine :: "int \<Rightarrow> 'c Screen \<Rightarrow> 'c Screen result" where
  "moveCursorToPrevLine n s =
    (let y = cl_line (logicalCursorPosition s) in moveCursorTo (y - min n y) 0 s)"

definition moveCursorToLine :: "int \<Rightarrow> 'c Screen \<Rightarrow> 'c Screen result" where
  "moveCursorToLine n s = moveCursorTo n (cursor_column s) s"

definition index :: "'c CellOps \<Rightarrow> ('d, 'm) TextLib_scheme \<Rightarrow> 'c Screen \<Rightarrow> 'c Screen result" where
  "index K T s =
    (if cursor_line s = mg_bottom (scr_margin s) then scr_scrollUp K T 1 (rendition s) (scr_margin s) s
     else moveCursorDown 1 s)"

definition reverseIndex :: "'c CellOps \<Rightarrow> ('d, 'm) TextLib_scheme \<Rightarrow> 'c Screen \<Rightarrow> 'c Screen result" where
  "reverseIndex K T s =
    (if cursor_line s = mg_top (scr_margin s) then scr_scrollDown K T 1 (scr_margin s) s else moveCursorUp 1 s)"

definition backIndex :: "'c Screen \<Rightarrow> 'c Screen" where
  "backIndex s = (if cursor_column s = mg_left (scr_margin s) then s else moveCursorForward 1 s)"

definition forwardIndex :: "'c CellOps \<Rightarrow> ('d, 'm) TextLib_scheme \<Rightarrow> 'c Screen \<Rightarrow> 'c Screen result" where
  "forwardIndex K T s =
    (if cursor_column s = mg_right (scr_margin s)
     then bind_result (scrollLeft K T defaultAttributes (scr_margin s) (scr_grid s)) (\<lambda>g. Inr (set_grid g s))
     else Inr (moveCursorForward 1 s))"

definition saveCursor :: "'c Screen \<Rightarrow> 'c Screen" where
  "saveCursor s = s\<lparr>scr_savedCursor := scr_cursor s\<rparr>"

definition restoreCursor :: "'c Screen \<Rightarrow> 'c Screen result" where
  "restoreCursor s =
    (let s = s\<lparr>scr_cursor := scr_savedCursor s\<rparr>;
         p = clampCoordinate s (cu_position (scr_cursor s))
     in bind_result (updateCursorIterator (set_position (cl_line p) (cl_column p) s)) screen_verifyState)"

definition saveGraphicsRendition :: "'c Screen \<Rightarrow> 'c Screen" where
  "saveGraphicsRendition s = s\<lparr>scr_savedGraphicsRenditions := rendition s\<rparr>"

definition restoreGraphicsRendition :: "'c Screen \<Rightarrow> 'c Screen" where
  "restoreGraphicsRendition s =
    s\<lparr>scr_cursor := (scr_cursor s)\<lparr>cu_graphicsRendition := scr_savedGraphicsRenditions s\<rparr>\<rparr>"

subsection \<open>Margins\<close>

definition setTopBottomMargin :: "int option \<Rightarrow> int option \<Rightarrow> 'c Screen \<Rightarrow> 'c Screen" where
  "setTopBottomMargin topLine bottomLine s =
    (let defaultBottom = int (screen_lines s) - 1;
         sanitizedTop = max 0 (case topLine of Some t \<Rightarrow> t | None \<Rightarrow> 0);
         sanitizedBottom = min defaultBottom (case bottomLine of Some b \<Rightarrow> b | None \<Rightarrow> defaultBottom)
     in if sanitizedTop < sanitizedBottom
        then s\<lparr>scr_margin := (scr_margin s)\<lparr>mg_top := sanitizedTop, mg_bottom := sanitizedBottom\<rparr>\<rparr> else s)"

definition setLeftRightMargin :: "int option \<Rightarrow> int option \<Rightarrow> 'c Screen \<Rightarrow> 'c Screen" where
  "setLeftRightMargin left right s =
    (let defaultRight = int (screen_columns s) - 1;
         sanitizedRight = min (case right of Some r \<Rightarrow> r | None \<Rightarrow> defaultRight) defaultRight;
         sanitizedLeft = max (case left of Some l \<Rightarrow> l | None \<Rightarrow> 0) 0
     in if sanitizedLeft < sanitizedRight
        then s\<lparr>scr_margin := (scr_margin s)\<lparr>mg_left := sanitizedLeft, mg_right := sanitizedRight\<rparr>\<rparr> else s)"

definition setMode_LeftRightMargin :: "bool \<Rightarrow> 'c Screen \<Rightarrow> 'c Screen" where
  "setMode_LeftRightMargin enable s =
    (let s = (if enable then s
              else s\<lparr>scr_margin := (scr_margin s)\<lparr>mg_left := 0, mg_right := int (ps_columns (tm_pageSize s)) - 1\<rparr>\<rparr>)
     in s\<lparr>tm_leftRightMargin := enable\<rparr>)"

subsection \<open>Writing text\<close>

definition crlf :: "'c CellOps \<Rightarrow> ('d, 'm) TextLib_scheme \<Rightarrow> 'c Screen \<Rightarrow> 'c Screen result" where
  "crlf K T s = linefeed_to K T (mg_left (scr_margin s)) s"

definition crlfIfWrapPending :: "'c CellOps \<Rightarrow> ('d, 'm) TextLib_scheme \<Rightarrow> 'c Screen \<Rightarrow> 'c Screen result" where
  "crlfIfWrapPending K T s =
    (if cu_wrapPending (scr_cursor s) \<and> cu_autoWrap (scr_cursor s)
     then
       bind_result (currentLine s) (\<lambda>l.
       bind_result (crlf K T s) (\<lambda>s.
         if wrappable l then on_current (\<lambda>l. Inr (setFlag (Wrappable OR Wrapped) True l)) s else Inr s))
     else Inr s)"

definition clearAndAdvance ::
  "'c CellOps \<Rightarrow> ('d, 'm) TextLib_scheme \<Rightarrow> int \<Rightarrow> int \<Rightarrow> 'c Screen \<Rightarrow> 'c Screen result" where
  "clearAndAdvance K T oldWidth newWidth s =
    (let cellsAvailable =
           (if tm_leftRightMargin s \<and> isCursorInsideMargins s then mg_right (scr_margin s) - cursor_column s - 1
            else int (screen_columns s) - cursor_column s - 1);
         sgr = (if newWidth > 1 then attributes_with (rendition s) (flag CF_WideCharContinuation) else rendition s)
     in
     bind_result (fold_result (\<lambda>i. on_current (change_cell K T (cursor_column s + i)
         (\<lambda>c. Inr (op_reset_link K sgr (cu_hyperlink (scr_cursor s)) c))))
         [1..min (max oldWidth newWidth) cellsAvailable - 1] s) (\<lambda>s.
       if newWidth = min newWidth cellsAvailable
       then Inr (set_position (cursor_line s) (cursor_column s + newWidth) s)
       else if cu_autoWrap (scr_cursor s) then Inr (set_wrapPending True s)
       else Inr s))"

text \<open>Writing a character into a line: the line, and the widths of the cell before and after.\<close>

definition write_cell ::
  "'c CellOps \<Rightarrow> ('d, 'm) TextLib_scheme \<Rightarrow> GraphicsAttributes \<Rightarrow> HyperlinkId \<Rightarrow> codepoint \<Rightarrow> int \<Rightarrow> 'c Line
    \<Rightarrow> ('c Line \<times> int \<times> int) result" where
  "write_cell K T sgr link cp x l =
    (if x < 0 \<or> x > int (line_size l) then Inl AssertionFailed
     else
       bind_result (inflatedBuffer K T l) (\<lambda>(cs, l).
         if int (length cs) \<le> x then Inl OutOfBounds
         else
           let cell = cs ! nat x;
               cs = (if op_flags K cell AND flag CF_WideCharContinuation \<noteq> 0 \<and> x > 0
                     then cs[nat (x - 1) := op_reset K sgr (cs ! nat (x - 1))] else cs)
           in bind_result (op_write_link K sgr cp (wrap8 (tl_width T cp)) link cell) (\<lambda>cell'.
             Inr (l\<lparr>line_storage := InflatedBuffer (cs[nat x := cell'])\<rparr>, int (op_width K cell), int (op_width K cell')))))"

definition writeCharToCurrentAndAdvance ::
  "'c CellOps \<Rightarrow> ('d, 'm) TextLib_scheme \<Rightarrow> codepoint \<Rightarrow> 'c Screen \<Rightarrow> 'c Screen result" where
  "writeCharToCurrentAndAdvance K T cp s =
    bind_result (currentLine s) (\<lambda>l.
    bind_result (write_cell K T (rendition s) (cu_hyperlink (scr_cursor s)) cp (cursor_column s) l) (\<lambda>(l, oldWidth, newWidth).
    bind_result (on_current (\<lambda>_. Inr l) s) (\<lambda>s.
      clearAndAdvance K T oldWidth newWidth (s\<lparr>scr_lastCursorPosition := cu_position (scr_cursor s)\<rparr>))))"

text \<open>The character joins the cell that was written last if there is no break between the two.\<close>

definition append_to_cell ::
  "'c CellOps \<Rightarrow> ('d, 'm) TextLib_scheme \<Rightarrow> codepoint \<Rightarrow> int \<Rightarrow> 'c Line \<Rightarrow> ('c Line \<times> int) result" where
  "append_to_cell K T cp x l =
    (if x < 0 \<or> x > int (line_size l) then Inl AssertionFailed
     else
       bind_result (inflatedBuffer K T l) (\<lambda>(cs, l).
         if int (length cs) \<le> x then Inl OutOfBounds
         else bind_result (op_append K cp (cs ! nat x)) (\<lambda>(w, c).
           Inr (l\<lparr>line_storage := InflatedBuffer (cs[nat x := c])\<rparr>, w))))"

definition writeTextInternal ::
  "'c CellOps \<Rightarrow> ('d, 'm) TextLib_scheme \<Rightarrow> codepoint \<Rightarrow> 'c Screen \<Rightarrow> 'c Screen result" where
  "writeTextInternal K T sourceCodepoint s =
    bind_result (crlfIfWrapPending K T s) (\<lambda>s.
    bind_result (map_charset sourceCodepoint (cu_charsets (scr_cursor s))) (\<lambda>(cp, m).
      let s = s\<lparr>scr_cursor := (scr_cursor s)\<lparr>cu_charsets := m\<rparr>\<rparr> in
      if tl_breakable T (tm_precedingGraphicCharacter s) cp
      then writeCharToCurrentAndAdvance K T cp s
      else
        let p = scr_lastCursorPosition s in
        bind_result (lineAt (scr_grid s) (cl_line p)) (\<lambda>l.
        bind_result (append_to_cell K T cp (cl_column p) l) (\<lambda>(l, extendedWidth).
        bind_result (on_line (cl_line p) (\<lambda>_. Inr l) s) (\<lambda>s.
          clearAndAdvance K T 0 extendedWidth s)))))"

text \<open>
  \<open>Parser::printUtf8Byte\<close> with the screen as its listener: the decoder's state is passed along, and
  the hint for the next character is set after the callback.
\<close>

definition print_char ::
  "'c CellOps \<Rightarrow> ('d, 'm) TextLib_scheme \<Rightarrow> codepoint \<Rightarrow> 'c Screen \<Rightarrow> 'c Screen result" where
  "print_char K T cp s =
    bind_result (writeTextInternal K T cp s) (\<lambda>s. Inr (s\<lparr>tm_precedingGraphicCharacter := cp\<rparr>))"

definition print_byte ::
  "'c CellOps \<Rightarrow> ('d, 'm) TextLib_scheme \<Rightarrow> byte \<Rightarrow> 'd \<times> 'c Screen \<Rightarrow> ('d \<times> 'c Screen) result" where
  "print_byte K T ch st =
    (let (d, r) = tl_from_utf8 T (fst st) ch in
     case r of
       Incomplete \<Rightarrow> Inr (d, snd st)
     | Success cp \<Rightarrow> bind_result (print_char K T cp (snd st)) (\<lambda>s. Inr (d, s))
     | Invalid \<Rightarrow> bind_result (print_char K T ReplacementCharacter (snd st)) (\<lambda>s. Inr (d, s)))"

definition advanceCursorAfterWrite :: "nat \<Rightarrow> 'c Screen \<Rightarrow> 'c Screen result" where
  "advanceCursorAfterWrite n s =
    (if cursor_column s + int n > mg_right (scr_margin s) + 1 then Inl AssertionFailed
     else if cursor_column s + int n < int (screen_columns s)
     then Inr (set_position (cursor_line s) (cursor_column s + int n) s)
     else Inr (set_wrapPending True (set_position (cursor_line s) (cursor_column s + int n - 1) s)))"

text \<open>
  The fast path for a run of text, which puts the text itself into a line that is empty, or extends
  the line's text if the run follows it in the input buffer (\<open>contiguous\<close>, a comparison of
  addresses).
\<close>

definition emplaceCharsIntoCurrentLine ::
  "'c CellOps \<Rightarrow> ('d, 'm) TextLib_scheme \<Rightarrow> bytes \<Rightarrow> nat \<Rightarrow> 'd \<times> 'c Screen \<Rightarrow> ('d \<times> 'c Screen) result" where
  "emplaceCharsIntoCurrentLine K T chars cellCount st =
    (let s = snd st in
     if int cellCount > mg_right (scr_margin s) + 1 - cursor_column s then Inl AssertionFailed
     else
       bind_result (currentLine s) (\<lambda>l.
         case line_storage l of
           TrivialBuffer b \<Rightarrow>
             if line_empty K l
             then
               bind_result (on_current (\<lambda>l. Inr (l\<lparr>line_storage := TrivialBuffer
                   \<lparr>tb_displayWidth = tb_displayWidth b, tb_textAttributes = rendition s,
                    tb_fillAttributes = tb_fillAttributes b, tb_hyperlink = cu_hyperlink (scr_cursor s),
                    tb_usedColumns = cellCount, tb_text = chars\<rparr>\<rparr>)) s) (\<lambda>s.
               bind_result (advanceCursorAfterWrite cellCount s) (\<lambda>s. Inr (fst st, s)))
             else fold_result (print_byte K T) chars st
         | InflatedBuffer cs \<Rightarrow> fold_result (print_byte K T) chars st))"

definition tryEmplaceChars ::
  "'c CellOps \<Rightarrow> ('d, 'm) TextLib_scheme \<Rightarrow> bool \<Rightarrow> bytes \<Rightarrow> nat \<Rightarrow> 'd \<times> 'c Screen \<Rightarrow> (bytes \<times> 'd \<times> 'c Screen) result" where
  "tryEmplaceChars K T contiguous chars cellCount st =
    (if \<not> isFullHorizontalMargins (snd st) then Inr (chars, st)
     else if \<not> isSelected USASCII (cu_charsets (scr_cursor (snd st))) then Inr (chars, st)
     else
       bind_result (crlfIfWrapPending K T (snd st)) (\<lambda>s.
         let columnsAvailable = int (screen_columns s) - cursor_column s in
         if int cellCount > columnsAvailable then Inl AssertionFailed
         else if cursor_column s = 0
         then
           bind_result (currentLine s) (\<lambda>l.
             if line_empty K l
             then bind_result (emplaceCharsIntoCurrentLine K T chars cellCount (fst st, s)) (\<lambda>st. Inr ([], st))
             else Inr (chars, fst st, s))
         else
           bind_result (currentLine s) (\<lambda>l.
             case line_storage l of
               TrivialBuffer b \<Rightarrow>
                 if contiguous
                 then
                   bind_result (on_current (\<lambda>l. Inr (l\<lparr>line_storage := TrivialBuffer
                       (b\<lparr>tb_text := tb_text b @ chars, tb_usedColumns := tb_usedColumns b + cellCount\<rparr>)\<rparr>)) s) (\<lambda>s.
                   bind_result (advanceCursorAfterWrite cellCount s) (\<lambda>s. Inr ([], fst st, s)))
                 else Inr (chars, fst st, s)
             | InflatedBuffer cs \<Rightarrow> Inr (chars, fst st, s))))"

definition writeText ::
  "'c CellOps \<Rightarrow> ('d, 'm) TextLib_scheme \<Rightarrow> bool \<Rightarrow> bytes \<Rightarrow> nat \<Rightarrow> 'd \<times> 'c Screen \<Rightarrow> ('d \<times> 'c Screen) result" where
  "writeText K T contiguous txt cellCount st =
    (if int cellCount > int (screen_columns (snd st)) - cursor_column (snd st) then Inl AssertionFailed
     else
       bind_result (tryEmplaceChars K T contiguous txt cellCount st) (\<lambda>(rest, st).
         fold_result (print_byte K T) rest st))"

subsection \<open>Tab stops\<close>

definition TabWidth :: int where
  "TabWidth = 8"

definition clearTabUnderCursor :: "'c Screen \<Rightarrow> 'c Screen" where
  "clearTabUnderCursor s =
    (let ts = (if tm_tabs s = []
               then map (\<lambda>c. c - 1) (filter (\<lambda>c. c mod TabWidth = 0) [TabWidth..int (screen_columns s) - 1])
               else tm_tabs s)
     in s\<lparr>tm_tabs := remove1 (cursor_column s) ts\<rparr>)"

definition setTabUnderCursor :: "'c Screen \<Rightarrow> 'c Screen" where
  "setTabUnderCursor s = s\<lparr>tm_tabs := sort (tm_tabs s @ [cursor_column s])\<rparr>"

datatype HorizontalTabClear = AllTabs | UnderCursor

primrec horizontalTabClear :: "HorizontalTabClear \<Rightarrow> 'c Screen \<Rightarrow> 'c Screen" where
  "horizontalTabClear AllTabs s = s\<lparr>tm_tabs := []\<rparr>"
| "horizontalTabClear UnderCursor s = clearTabUnderCursor s"

definition moveCursorToNextTab :: "'c Screen \<Rightarrow> 'c Screen" where
  "moveCursorToNextTab s =
    (let x = cl_column (logicalCursorPosition s) in
     if tm_tabs s \<noteq> []
     then case find (\<lambda>t. \<not> cursor_column s \<ge> t) (tm_tabs s) of
         Some t \<Rightarrow> moveCursorForward (t - x) s
       | None \<Rightarrow>
           if cursor_column s < mg_right (scr_margin s) then moveCursorForward (mg_right (scr_margin s) - x) s else s
     else if cursor_column s < mg_right (scr_margin s)
     then moveCursorForward (min (TabWidth - cursor_column s mod TabWidth) (int (screen_columns s) - x)) s
     else s)"

primrec cursorForwardTab :: "nat \<Rightarrow> 'c Screen \<Rightarrow> 'c Screen" where
  "cursorForwardTab 0 s = s"
| "cursorForwardTab (Suc n) s = cursorForwardTab n (moveCursorToNextTab s)"

text \<open>The loop over the tab stops to the left, which ends when there is none.\<close>

primrec backward_tabs :: "nat \<Rightarrow> 'c Screen \<Rightarrow> 'c Screen" where
  "backward_tabs 0 s = s"
| "backward_tabs (Suc n) s =
    (case find (\<lambda>t. t < cl_column (logicalCursorPosition s)) (rev (tm_tabs s)) of
       Some t \<Rightarrow> backward_tabs n (setCurrentColumn t s)
     | None \<Rightarrow> setCurrentColumn (mg_left (scr_margin s)) s)"

definition cursorBackwardTab :: "nat \<Rightarrow> 'c Screen \<Rightarrow> 'c Screen" where
  "cursorBackwardTab count s =
    (if count = 0 then s
     else if tm_tabs s \<noteq> [] then backward_tabs count s
     else if cursor_column s < TabWidth then setCurrentColumn 0 s
     else
       let m = (cursor_column s + 1) mod TabWidth;
           n = (if m \<noteq> 0 then (int count - 1) * TabWidth + m else int count * TabWidth + m)
       in moveCursorBackward (n - 1) s)"

subsection \<open>Erasing\<close>

text \<open>A loop over the cells of a row, from a pointer to its first cell.\<close>

definition on_row ::
  "'c CellOps \<Rightarrow> ('d, 'm) TextLib_scheme \<Rightarrow> ('c \<Rightarrow> 'c result) \<Rightarrow> int \<Rightarrow> int \<Rightarrow> int \<Rightarrow> 'c Screen \<Rightarrow> 'c Screen result" where
  "on_row K T f line left n s =
    bind_result (change_row K T f line left n (scr_grid s)) (\<lambda>g. Inr (set_grid g s))"

definition reset_rows :: "int list \<Rightarrow> 'c Screen \<Rightarrow> 'c Screen result" where
  "reset_rows ys s =
    bind_result (reset_lines (defaultLineFlags (scr_grid s)) (rendition s) ys (gr_lines (scr_grid s))) (\<lambda>r.
      Inr (set_lines r s))"

definition clearToEndOfLine :: "'c CellOps \<Rightarrow> ('d, 'm) TextLib_scheme \<Rightarrow> 'c Screen \<Rightarrow> 'c Screen result" where
  "clearToEndOfLine K T s =
    (if isFullHorizontalMargins s \<and> cursor_column s = 0
     then on_current (\<lambda>l. Inr (line_reset (line_flags l) (rendition s) l)) s
     else on_row K T (\<lambda>c. Inr (op_reset K (rendition s) c)) (cursor_line s) (cursor_column s)
       (int (screen_columns s) - cursor_column s) s)"

definition clearToBeginOfLine :: "'c CellOps \<Rightarrow> ('d, 'm) TextLib_scheme \<Rightarrow> 'c Screen \<Rightarrow> 'c Screen result" where
  "clearToBeginOfLine K T s =
    on_row K T (\<lambda>c. Inr (op_reset K (rendition s) c)) (cursor_line s) 0 (cursor_column s + 1) s"

definition clearLine :: "'c Screen \<Rightarrow> 'c Screen result" where
  "clearLine s = on_current (\<lambda>l. Inr (line_reset (defaultLineFlags (scr_grid s)) (rendition s) l)) s"

definition clearToEndOfScreen :: "'c CellOps \<Rightarrow> ('d, 'm) TextLib_scheme \<Rightarrow> 'c Screen \<Rightarrow> 'c Screen result" where
  "clearToEndOfScreen K T s =
    bind_result (clearToEndOfLine K T s) (\<lambda>s. reset_rows [cursor_line s + 1..int (screen_lines s) - 1] s)"

definition clearToBeginOfScreen :: "'c CellOps \<Rightarrow> ('d, 'm) TextLib_scheme \<Rightarrow> 'c Screen \<Rightarrow> 'c Screen result" where
  "clearToBeginOfScreen K T s =
    bind_result (clearToBeginOfLine K T s) (\<lambda>s. reset_rows [0..cursor_line s - 1] s)"

definition clearScreen :: "'c CellOps \<Rightarrow> ('d, 'm) TextLib_scheme \<Rightarrow> 'c Screen \<Rightarrow> 'c Screen result" where
  "clearScreen K T s = scr_scrollUp K T (screen_lines s) (rendition s) (scr_margin s) s"

definition eraseCharacters ::
  "'c CellOps \<Rightarrow> ('d, 'm) TextLib_scheme \<Rightarrow> int \<Rightarrow> 'c Screen \<Rightarrow> 'c Screen result" where
  "eraseCharacters K T n s =
    fold_result (\<lambda>i. on_current (change_cell K T (cursor_column s + i) (\<lambda>c. Inr (op_reset K (rendition s) c))))
      [0..std_clamp n 1 (int (screen_columns s) - cursor_column s) - 1] s"

definition selectiveErase ::
  "'c CellOps \<Rightarrow> ('d, 'm) TextLib_scheme \<Rightarrow> int \<Rightarrow> int \<Rightarrow> int \<Rightarrow> 'c Screen \<Rightarrow> 'c Screen result" where
  "selectiveErase K T line start stop s =
    on_row K T (\<lambda>c. Inr (if is_protected K c then c else op_reset K (rendition s) c)) line start (stop - start) s"

text \<open>The cells are read through an accessor that inflates the line.\<close>

definition containsProtectedCharacters ::
  "'c CellOps \<Rightarrow> ('d, 'm) TextLib_scheme \<Rightarrow> int \<Rightarrow> int \<Rightarrow> int \<Rightarrow> 'c Screen \<Rightarrow> (bool \<times> 'c Screen) result" where
  "containsProtectedCharacters K T line start stop s =
    bind_result (useCellAt K T line start (scr_grid s)) (\<lambda>(cs, g).
      if stop < start \<or> int (length cs) < stop then Inl OutOfBounds
      else Inr (list_ex (is_protected K) (take (nat (stop - start)) (drop (nat start) cs)), set_grid g s))"

definition selectiveEraseLine ::
  "'c CellOps \<Rightarrow> ('d, 'm) TextLib_scheme \<Rightarrow> int \<Rightarrow> 'c Screen \<Rightarrow> 'c Screen result" where
  "selectiveEraseLine K T line s =
    bind_result (containsProtectedCharacters K T line 0 (int (screen_columns s)) s) (\<lambda>(p, s).
      if p then selectiveErase K T line 0 (int (screen_columns s)) s else clearLine s)"

definition selectiveEraseToEndOfLine ::
  "'c CellOps \<Rightarrow> ('d, 'm) TextLib_scheme \<Rightarrow> 'c Screen \<Rightarrow> 'c Screen result" where
  "selectiveEraseToEndOfLine K T s =
    (if isFullHorizontalMargins s \<and> cursor_column s = 0 then selectiveEraseLine K T (cursor_line s) s
     else selectiveErase K T (cursor_line s) (cursor_column s) (int (screen_columns s)) s)"

definition selectiveEraseToBeginOfLine ::
  "'c CellOps \<Rightarrow> ('d, 'm) TextLib_scheme \<Rightarrow> 'c Screen \<Rightarrow> 'c Screen result" where
  "selectiveEraseToBeginOfLine K T s =
    (if isFullHorizontalMargins s \<and> cursor_column s = int (screen_columns s) then selectiveEraseLine K T (cursor_line s) s
     else selectiveErase K T (cursor_line s) 0 (cursor_column s + 1) s)"

definition selectiveEraseToEndOfScreen ::
  "'c CellOps \<Rightarrow> ('d, 'm) TextLib_scheme \<Rightarrow> 'c Screen \<Rightarrow> 'c Screen result" where
  "selectiveEraseToEndOfScreen K T s =
    bind_result (selectiveEraseToEndOfLine K T s) (\<lambda>s.
      fold_result (selectiveEraseLine K T) [cursor_line s + 1..int (screen_lines s) - 1] s)"

definition selectiveEraseToBeginOfScreen ::
  "'c CellOps \<Rightarrow> ('d, 'm) TextLib_scheme \<Rightarrow> 'c Screen \<Rightarrow> 'c Screen result" where
  "selectiveEraseToBeginOfScreen K T s =
    bind_result (selectiveEraseToBeginOfLine K T s) (\<lambda>s. fold_result (selectiveEraseLine K T) [0..cursor_line s - 1] s)"

definition selectiveEraseScreen ::
  "'c CellOps \<Rightarrow> ('d, 'm) TextLib_scheme \<Rightarrow> 'c Screen \<Rightarrow> 'c Screen result" where
  "selectiveEraseScreen K T s = fold_result (selectiveEraseLine K T) [0..int (screen_lines s) - 1] s"

record Rect =
  rc_top :: int
  rc_left :: int
  rc_bottom :: int
  rc_right :: int

definition applyOriginMode :: "'c Screen \<Rightarrow> Rect \<Rightarrow> Rect" where
  "applyOriginMode s area =
    (if \<not> cu_originMode (scr_cursor s) then area
     else
       \<lparr>rc_top = rc_top area + mg_top (scr_margin s), rc_left = rc_top area + mg_left (scr_margin s),
        rc_bottom = rc_bottom area + mg_top (scr_margin s), rc_right = rc_right area + mg_left (scr_margin s)\<rparr>)"

definition clampTo :: "PageSize \<Rightarrow> Rect \<Rightarrow> Rect" where
  "clampTo sz area =
    area\<lparr>rc_bottom := min (rc_bottom area) (int (ps_lines sz)), rc_right := min (rc_right area) (int (ps_columns sz))\<rparr>"

text \<open>A change of the cells of a rectangle, line by line.\<close>

definition on_rect ::
  "'c CellOps \<Rightarrow> ('d, 'm) TextLib_scheme \<Rightarrow> ('c \<Rightarrow> 'c result) \<Rightarrow> Rect \<Rightarrow> 'c Screen \<Rightarrow> 'c Screen result" where
  "on_rect K T f area s =
    fold_result (\<lambda>y. on_line y (change_range K T (rc_left area) (rc_right area - rc_left area + 1) f))
      [rc_top area..rc_bottom area] s"

definition selectiveEraseArea ::
  "'c CellOps \<Rightarrow> ('d, 'm) TextLib_scheme \<Rightarrow> Rect \<Rightarrow> 'c Screen \<Rightarrow> 'c Screen result" where
  "selectiveEraseArea K T area s =
    (let area = clampTo (tm_pageSize s) (applyOriginMode s area) in
     if rc_right area > int (screen_columns s) \<or> rc_bottom area > int (screen_lines s) then Inl AssertionFailed
     else if rc_top area > rc_bottom area \<or> rc_left area > rc_right area then Inr s
     else on_rect K T (\<lambda>c. if is_protected K c then Inr c
       else bind_result (op_writeTextOnly K 0x20 1 c) (\<lambda>c. Inr (op_setHyperlink K 0 c))) area s)"

subsection \<open>Inserting, deleting, copying and filling\<close>

definition insertChars ::
  "'c CellOps \<Rightarrow> ('d, 'm) TextLib_scheme \<Rightarrow> int \<Rightarrow> int \<Rightarrow> 'c Screen \<Rightarrow> 'c Screen result" where
  "insertChars K T line columnsToInsert s =
    (let right = mg_right (scr_margin s);
         n = min columnsToInsert (right - cl_column (logicalCursorPosition s) + 1)
     in
     bind_result (on_line line (rotate_cells K T (cursor_column s) (right - n + 1) (right + 1)) s) (\<lambda>s.
       on_line line (change_range K T (cursor_column s) n (op_write K (rendition s) 0x20 1)) s))"

definition insertCharacters ::
  "'c CellOps \<Rightarrow> ('d, 'm) TextLib_scheme \<Rightarrow> int \<Rightarrow> 'c Screen \<Rightarrow> 'c Screen result" where
  "insertCharacters K T n s = (if isCursorInsideMargins s then insertChars K T (cursor_line s) n s else Inr s)"

definition insertLines ::
  "'c CellOps \<Rightarrow> ('d, 'm) TextLib_scheme \<Rightarrow> nat \<Rightarrow> 'c Screen \<Rightarrow> 'c Screen result" where
  "insertLines K T n s =
    (if isCursorInsideMargins s
     then bind_result (scr_scrollDown K T n ((scr_margin s)\<lparr>mg_top := cursor_line s\<rparr>) s) updateCursorIterator
     else Inr s)"

definition insertColumns ::
  "'c CellOps \<Rightarrow> ('d, 'm) TextLib_scheme \<Rightarrow> int \<Rightarrow> 'c Screen \<Rightarrow> 'c Screen result" where
  "insertColumns K T n s =
    (if isCursorInsideMargins s
     then fold_result (\<lambda>y. insertChars K T y n) [mg_top (scr_margin s)..mg_bottom (scr_margin s)] s else Inr s)"

definition deleteChars ::
  "'c CellOps \<Rightarrow> ('d, 'm) TextLib_scheme \<Rightarrow> int \<Rightarrow> int \<Rightarrow> int \<Rightarrow> 'c Screen \<Rightarrow> 'c Screen result" where
  "deleteChars K T line column columnsToDelete s =
    (let right = mg_right (scr_margin s) + 1;
         n = min columnsToDelete (right - column)
     in
     bind_result (on_line line (rotate_cells K T column (column + n) right) s) (\<lambda>s.
       on_line line (change_range K T (right - n) n (op_write K (rendition s) 0x20 1)) s))"

definition deleteCharacters ::
  "'c CellOps \<Rightarrow> ('d, 'm) TextLib_scheme \<Rightarrow> int \<Rightarrow> 'c Screen \<Rightarrow> 'c Screen result" where
  "deleteCharacters K T n s =
    (if isCursorInsideMargins s \<and> n \<noteq> 0 then deleteChars K T (cursor_line s) (cursor_column s) n s else Inr s)"

definition deleteLines ::
  "'c CellOps \<Rightarrow> ('d, 'm) TextLib_scheme \<Rightarrow> nat \<Rightarrow> 'c Screen \<Rightarrow> 'c Screen result" where
  "deleteLines K T n s =
    (if isCursorInsideMargins s
     then scr_scrollUp K T n (rendition s) ((scr_margin s)\<lparr>mg_top := cursor_line s\<rparr>) s else Inr s)"

definition deleteColumns ::
  "'c CellOps \<Rightarrow> ('d, 'm) TextLib_scheme \<Rightarrow> int \<Rightarrow> 'c Screen \<Rightarrow> 'c Screen result" where
  "deleteColumns K T n s =
    (if isCursorInsideMargins s
     then fold_result (\<lambda>y. deleteChars K T y (cursor_column s) n) [mg_top (scr_margin s)..mg_bottom (scr_margin s)] s
     else Inr s)"

text \<open>Copying one cell: both lines are inflated, and the target is assigned to.\<close>

definition copy_cell ::
  "'c CellOps \<Rightarrow> ('d, 'm) TextLib_scheme \<Rightarrow> int \<times> int \<Rightarrow> int \<times> int \<Rightarrow> 'c Screen \<Rightarrow> 'c Screen result" where
  "copy_cell K T source target s =
    bind_result (useCellAt K T (fst source) (snd source) (scr_grid s)) (\<lambda>(cs, g).
      if int (length cs) \<le> snd source then Inl OutOfBounds
      else on_line (fst target) (change_cell K T (snd target) (\<lambda>c. Inr (op_assign K c (cs ! nat (snd source)))))
        (set_grid g s))"

definition copyArea ::
  "'c CellOps \<Rightarrow> ('d, 'm) TextLib_scheme \<Rightarrow> Rect \<Rightarrow> CellLocation \<Rightarrow> 'c Screen \<Rightarrow> 'c Screen result" where
  "copyArea K T area target s =
    (if rc_bottom area < rc_top area \<or> rc_right area < rc_left area then Inr s
     else if rc_top area = cl_line target \<and> rc_left area = cl_column target then Inr s
     else
       let xs = [0..rc_right area - rc_left area];
           xs = (if cl_column target > rc_left area then rev xs else xs);
           ys = [0..rc_bottom area - rc_top area];
           ys = (if cl_line target > rc_top area then rev ys else ys)
       in fold_result (\<lambda>y. fold_result (\<lambda>x. copy_cell K T (rc_top area + y, rc_left area + x)
            (cl_line target + y, cl_column target + x)) xs) ys s)"

definition eraseArea ::
  "'c CellOps \<Rightarrow> ('d, 'm) TextLib_scheme \<Rightarrow> Rect \<Rightarrow> 'c Screen \<Rightarrow> 'c Screen result" where
  "eraseArea K T area s =
    (if rc_right area > int (screen_columns s) \<or> rc_bottom area > int (screen_lines s) then Inl AssertionFailed
     else if rc_top area > rc_bottom area \<or> rc_left area > rc_right area then Inr s
     else on_rect K T (op_write K (rendition s) 0x20 1) area s)"

definition fillArea ::
  "'c CellOps \<Rightarrow> ('d, 'm) TextLib_scheme \<Rightarrow> codepoint \<Rightarrow> Rect \<Rightarrow> 'c Screen \<Rightarrow> 'c Screen result" where
  "fillArea K T ch area s =
    (if \<not> (32 \<le> ch \<and> ch \<le> 126) \<and> \<not> (160 \<le> ch \<and> ch \<le> 255) then Inr s
     else on_rect K T (op_write K (rendition s) ch (wrap8 (tl_width T ch))) area s)"

text \<open>The page is filled through the span of the main page, which is contiguous in the vector.\<close>

definition screenAlignmentPattern ::
  "'c CellOps \<Rightarrow> ('d, 'm) TextLib_scheme \<Rightarrow> 'c Screen \<Rightarrow> 'c Screen result" where
  "screenAlignmentPattern K T s =
    bind_result (moveCursorTo 0 0 (s\<lparr>scr_margin := \<lparr>mg_top = 0, mg_bottom = int (screen_lines s) - 1, mg_left = 0,
      mg_right = int (screen_columns s) - 1\<rparr>\<rparr>)) (\<lambda>s.
    bind_result (pageAtScrollOffset (scr_grid s) 0) (\<lambda>start.
      let r = gr_lines (scr_grid s); xs = rg_storage r; n = screen_lines s in
      if start + n > ring_lines (scr_grid s) then Inl OutOfBounds
      else
        bind_result (map_result (line_fill K T (defaultLineFlags (scr_grid s)) defaultAttributes 0x45 1)
            (take n (drop start xs))) (\<lambda>ls.
          Inr (set_lines (r\<lparr>rg_storage := take start xs @ ls @ drop (start + n) xs\<rparr>) s))))"

definition setMark :: "'c Screen \<Rightarrow> 'c Screen result" where
  "setMark s = on_current (\<lambda>l. Inr (setFlag Marked True l)) s"

definition designateCharset :: "CharsetTable \<Rightarrow> CharsetId \<Rightarrow> 'c Screen \<Rightarrow> 'c Screen" where
  "designateCharset table charset s =
    s\<lparr>scr_cursor := (scr_cursor s)\<lparr>cu_charsets := select_charset table charset (cu_charsets (scr_cursor s))\<rparr>\<rparr>"

definition singleShiftSelect :: "CharsetTable \<Rightarrow> 'c Screen \<Rightarrow> 'c Screen" where
  "singleShiftSelect table s =
    s\<lparr>scr_cursor := (scr_cursor s)\<lparr>cu_charsets := singleShift table (cu_charsets (scr_cursor s))\<rparr>\<rparr>"

definition lockingShiftSelect :: "CharsetTable \<Rightarrow> 'c Screen \<Rightarrow> 'c Screen" where
  "lockingShiftSelect table s =
    s\<lparr>scr_cursor := (scr_cursor s)\<lparr>cu_charsets := lockingShift table (cu_charsets (scr_cursor s))\<rparr>\<rparr>"

subsection \<open>Control codes\<close>

definition executeControlCode ::
  "'c CellOps \<Rightarrow> ('d, 'm) TextLib_scheme \<Rightarrow> byte \<Rightarrow> 'c Screen \<Rightarrow> 'c Screen result" where
  "executeControlCode K T controlCode s =
    (if controlCode = 0x08 then Inr (backspace s)
     else if controlCode = 0x09 then Inr (moveCursorToNextTab s)
     else if controlCode = 0x0A then linefeed K T s
     else if controlCode = 0x0B \<or> controlCode = 0x0C then index K T s
     else if controlCode = 0x0E then Inr (lockingShiftSelect G1 s)
     else if controlCode = 0x0F then Inr (lockingShiftSelect G0 s)
     else if controlCode = 0x0D then Inr (setCurrentColumn 0 s)
     else if controlCode = 0x37 then Inr (saveCursor s)
     else if controlCode = 0x38 then restoreCursor s
     else Inr s)"

end
