(* ===== verification/VT_GridScroll.thy ===== *)
theory VT_GridScroll
  imports VT_Grid
begin

unbundle bit_operations_syntax

text \<open>
  Scrolling the grid. The abstraction is \<open>grid_view\<close>, the history followed by the page; the invariant
  is \<open>grid_ok\<close>. Scrolling up appends blank lines to the view and drops the oldest ones that no
  longer fit; scrolling inside a vertical margin moves the lines between its ends. The loops over
  lines are lemmas of the locale \<open>cyclic_buffer\<close>, used through its interpretation on the ring.
\<close>

subsection \<open>Loops over ranges of lines\<close>

lemma upto_nat: "[c..c + int k - 1] = map (\<lambda>i. c + int i) [0..<k]"
proof (induction k)
  case (Suc k)
  have "[c..c + int k] = [c..c + int k - 1] @ [c + int k]" by (rule upto_rec2) simp
  with Suc show ?case by simp
qed simp

lemma fold_update_range:
  "a + k \<le> length xs \<Longrightarrow>
    fold (\<lambda>i xs. xs[a + i := v]) [0..<k] xs = take a xs @ replicate k v @ drop (a + k) xs"
proof (induction k)
  case (Suc k)
  then have "drop (a + k) xs = xs ! (a + k) # drop (Suc (a + k)) xs" by (simp add: Cons_nth_drop_Suc)
  moreover have "replicate k v @ [v] = replicate (Suc k) v" by (simp add: replicate_append_same)
  ultimately show ?case using Suc
    by (simp add: list_update_append replicate_append_same)
qed simp

lemma position_shift:
  assumes "0 < n" "position n c + i < n"
  shows "position n (c + int i) = position n c + i"
proof -
  have "(c + int i) mod int n = (c mod int n + int i) mod int n" by (simp add: mod_simps)
  also have "\<dots> = c mod int n + int i"
    using assms by (intro mod_pos_pos_trivial) (auto simp: position_def)
  finally show ?thesis using assms(1) by (simp add: position_def nat_add_distrib)
qed

lemma rotate_put:
  assumes "xs \<noteq> []"
  shows "rotate m (xs[position (length xs) y := v])
    = (rotate m xs)[position (length xs) (y - int m) := v]"
proof -
  let ?n = "length xs" and ?k = "position (length xs) (y - int m)"
  have "int ((m + ?k) mod ?n) = (int m + (y - int m) mod int ?n) mod int ?n"
    using assms by (simp add: position_def of_nat_mod)
  also have "\<dots> = y mod int ?n" by (simp add: mod_simps)
  finally have "(m + ?k) mod ?n = position ?n y" by (simp add: position_def)
  with rotate_update [of ?k xs m v] assms show ?thesis by simp
qed

context cyclic_buffer
begin

text \<open>A loop that puts one value at the given offsets.\<close>

lemma fill_each:
  assumes "ok b" "contents b \<noteq> []"
    and "\<forall>i \<in> set is. - int (length (contents b)) \<le> i \<and> i < int (length (contents b))"
  shows "\<exists>b'. fold_result (\<lambda>i b. put b i v) is b = Inr b' \<and> ok b' \<and>
    contents b' = fold (\<lambda>i xs. xs[position (length xs) i := v]) is (contents b)"
  using assms
proof (induction "is" arbitrary: b)
  case (Cons i "is")
  with put_ok [of b i v] obtain c where
    c: "put b i v = Inr c" "ok c" "contents c = (contents b)[position (length (contents b)) i := v]"
    by auto
  have "contents c \<noteq> []" using c(3) Cons.prems(2) by simp
  with Cons.IH [of c] c Cons.prems show ?case by simp
qed simp

text \<open>A loop that changes the elements at the given offsets, where the change always gives \<open>v\<close>.\<close>

lemma change_each_fill:
  assumes "ok b" "contents b \<noteq> []"
    and "\<forall>i \<in> set is. - int (length (contents b)) \<le> i \<and> i < int (length (contents b))"
    and "\<forall>x \<in> set (contents b). f x = v" "f v = v"
  shows "fold_result (\<lambda>i b. bind_result (get b i) (\<lambda>x. put b i (f x))) is b
    = fold_result (\<lambda>i b. put b i v) is b"
  using assms
proof (induction "is" arbitrary: b)
  case (Cons i "is")
  let ?k = "position (length (contents b)) i"
  have k: "?k < length (contents b)" using Cons.prems(2) by simp
  from Cons.prems put_ok [of b i v] obtain c where
    c: "put b i v = Inr c" "ok c" "contents c = (contents b)[?k := v]"
    by auto
  have "contents c \<noteq> []" using c(3) Cons.prems(2) by simp
  moreover have "\<forall>x \<in> set (contents c). f x = v"
    using c(3) Cons.prems(4,5) set_update_subset_insert [of "contents b" ?k v] by auto
  moreover have "f (contents b ! ?k) = v" using Cons.prems(4) k by simp
  ultimately show ?case using Cons.IH [of c] c Cons.prems by (simp add: get_ok)
qed simp

text \<open>The same over a range of offsets, seen from any rotation of the buffer.\<close>

lemma fill_range:
  fixes b :: 'b and c :: int and k m :: nat
  assumes "ok b" "contents b \<noteq> []"
    and "- int (length (contents b)) \<le> c" "c + int k \<le> int (length (contents b))"
    and "position (length (contents b)) (c - int m) = a" "a + k \<le> length (contents b)"
  shows "\<exists>b'. fold_result (\<lambda>i b. put b i v) [c..c + int k - 1] b = Inr b' \<and> ok b' \<and>
    length (contents b') = length (contents b) \<and>
    rotate m (contents b') = take a (rotate m (contents b)) @ replicate k v @ drop (a + k) (rotate m (contents b))"
proof -
  let ?upd = "\<lambda>i xs. xs[position (length xs) i := v]"
  have range: "\<forall>i \<in> set [c..c + int k - 1]. - int (length (contents b)) \<le> i \<and> i < int (length (contents b))"
    using assms(3,4) by auto
  from fill_each [OF assms(1,2) range, of v] obtain b' where
    b': "fold_result (\<lambda>i b. put b i v) [c..c + int k - 1] b = Inr b'" "ok b'"
      "contents b' = fold ?upd [c..c + int k - 1] (contents b)"
    by blast
  have len: "length (fold ?upd is xs) = length xs" for "is" and xs :: "'a list"
    by (induction "is" arbitrary: xs) auto
  have rot: "rotate m (fold ?upd is xs) = fold ?upd (map (\<lambda>i. i - int m) is) (rotate m xs)"
    if "xs \<noteq> []" for "is" and xs :: "'a list"
    using that by (induction "is" arbitrary: xs) (auto simp: rotate_put)
  have idx: "fold ?upd (map (\<lambda>i. c - int m + int i) [0..<j]) xs = fold (\<lambda>i xs. xs[a + i := v]) [0..<j] xs"
    if "j \<le> k" "length xs = length (contents b)" for j and xs :: "'a list"
    using that
  proof (induction j)
    case (Suc j)
    have l: "length (fold (\<lambda>i xs. xs[a + i := v]) [0..<j] xs) = length (contents b)"
      using Suc len [of "map (\<lambda>i. c - int m + int i) [0..<j]" xs] by simp
    have "position (length (contents b)) (c - int m + int j) = a + j"
      using position_shift [of "length (contents b)" "c - int m" j] assms(2,5,6) Suc.prems by simp
    with Suc l show ?case by simp
  qed simp
  have "map (\<lambda>i. i - int m) [c..c + int k - 1] = map (\<lambda>i. c - int m + int i) [0..<k]"
    unfolding upto_nat map_map by (rule map_cong) auto
  then have "rotate m (contents b') = fold ?upd (map (\<lambda>i. c - int m + int i) [0..<k]) (rotate m (contents b))"
    by (simp only: b'(3) rot [OF assms(2)])
  also have "\<dots> = fold (\<lambda>i xs. xs[a + i := v]) [0..<k] (rotate m (contents b))"
    using idx [of k "rotate m (contents b)"] by simp
  also have "\<dots> = take a (rotate m (contents b)) @ replicate k v @ drop (a + k) (rotate m (contents b))"
    using assms(6) by (simp add: fold_update_range)
  finally show ?thesis using b' len by auto
qed

end

subsection \<open>The history and the page\<close>

text \<open>
  The ring from the oldest line of the history on: the history, the page, and the lines not in
  use. The view is the part in use.
\<close>

abbreviation history_lines :: "'c Grid \<Rightarrow> nat" where
  "history_lines g \<equiv> gr_linesUsed g - page_lines g"

definition grid_window :: "'c Grid \<Rightarrow> 'c Line list" where
  "grid_window g = rotate (ring_lines g - history_lines g) (ring_list (gr_lines g))"

definition grid_view :: "'c Grid \<Rightarrow> 'c Line list" where
  "grid_view g = take (gr_linesUsed g) (grid_window g)"

definition grid_page :: "'c Grid \<Rightarrow> 'c Line list" where
  "grid_page g = drop (history_lines g) (grid_view g)"

definition grid_history :: "'c Grid \<Rightarrow> 'c Line list" where
  "grid_history g = take (history_lines g) (grid_view g)"

text \<open>The invariant: a sound ring, the state \<open>verifyState\<close> asks for, and lines as wide as the page.\<close>

definition line_fits :: "nat \<Rightarrow> 'c Line \<Rightarrow> bool" where
  "line_fits w l \<longleftrightarrow> line_size l = w \<and>
    (case line_storage l of TrivialBuffer b \<Rightarrow> tb_usedColumns b \<le> w | InflatedBuffer cs \<Rightarrow> True)"

lemma line_fits_blank [simp]: "line_fits w (blank_line w attr flags)"
  by (simp add: line_fits_def) (simp add: blank_line_def trivial_blank_def)

definition grid_ok :: "'c Grid \<Rightarrow> bool" where
  "grid_ok g \<longleftrightarrow> ring_ok (gr_lines g) \<and> ring_lines g < 2147483648 \<and> verifyState g \<and>
    0 < page_lines g \<and> 0 < page_columns g \<and>
    list_all (line_fits (page_columns g)) (rg_storage (gr_lines g))"

lemma grid_okD:
  assumes "grid_ok g"
  shows "ring_ok (gr_lines g)" "ring_lines g < 2147483648" "verifyState g" "0 < page_lines g"
    "0 < page_columns g" "page_lines g \<le> gr_linesUsed g" "gr_linesUsed g \<le> ring_lines g" "0 < ring_lines g"
    "\<And>l. l \<in> set (ring_list (gr_lines g)) \<Longrightarrow> line_fits (page_columns g) l"
    "ring_list (gr_lines g) \<noteq> []" "verified g = Inr g"
  using assms by (auto simp: grid_ok_def verifyState_def list_all_iff ring_list_def require_def)

lemma length_grid_window [simp]: "length (grid_window g) = ring_lines g"
  by (simp add: grid_window_def)

lemma length_grid_view: "grid_ok g \<Longrightarrow> length (grid_view g) = gr_linesUsed g"
  by (simp add: grid_view_def grid_okD)

lemma length_grid_page: "grid_ok g \<Longrightarrow> length (grid_page g) = page_lines g"
  by (simp add: grid_page_def length_grid_view grid_okD)

text \<open>Reading a line of the page or of the history reads the view.\<close>

lemma lineAt_view:
  assumes "grid_ok g" "- int (history_lines g) \<le> y" "y < int (page_lines g)"
  shows "lineAt g y = Inr (grid_view g ! nat (int (history_lines g) + y))"
proof -
  note ok = grid_okD [OF assms(1)]
  let ?n = "ring_lines g" and ?h = "history_lines g" and ?xs = "ring_list (gr_lines g)"
  let ?k = "nat (int ?h + y)"
  have k: "?k < gr_linesUsed g" using assms ok by linarith
  have reach: "in_reach (gr_lines g) y" using assms ok by (auto simp: in_reach_def)
  have "int ((?n - ?h + ?k) mod ?n) = (int ?n - int ?h + (int ?h + y)) mod int ?n"
    using assms ok by (simp add: of_nat_mod)
  also have "\<dots> = y mod int ?n" by simp
  finally have "(?n - ?h + ?k) mod ?n = position ?n y" by (simp add: position_def)
  then have "grid_view g ! ?k = ?xs ! position ?n y"
    using k ok by (simp add: grid_view_def grid_window_def nth_rotate)
  with ring_get_refines [OF ok(1) reach] show ?thesis by (simp add: lineAt_def)
qed

text \<open>
  Rotating the ring to the left and taking so many more lines into use leaves the window; rotating
  it without that rotates the window.
\<close>

lemma window_rotate:
  assumes "grid_ok g" "n \<le> ring_lines g"
  obtains r where "rotate_left (gr_lines g) n = Inr r" and "ring_ok r" and "ring_size r = ring_lines g"
    and "\<And>m. rotate m (ring_list r) = rotate (m + n) (ring_list (gr_lines g))"
proof -
  note ok = grid_okD [OF assms(1)]
  have "n < 9223372036854775808" using assms(2) ok(2) by simp
  from rotate_left_refines [OF ok(1,8) this] obtain r where "rotate_left (gr_lines g) n = Inr r" "ring_ok r"
      "ring_list r = rotate n (ring_list (gr_lines g))" "ring_size r = ring_lines g"
    by metis
  with that show thesis by (simp add: rotate_rotate)
qed

lemma fill_lines_window:
  assumes "ring_ok r" "0 < ring_size r" "m \<le> ring_size r"
    and "- int (ring_size r) \<le> c" "c + int k \<le> int (ring_size r)"
    and "0 \<le> c - int m + int (ring_size r)" "c - int m + int k \<le> 0"
  shows "\<exists>r'. fill_lines v [c..c + int k - 1] r = Inr r' \<and> ring_ok r' \<and> ring_size r' = ring_size r \<and>
    rotate m (ring_list r') =
      take (nat (c - int m + int (ring_size r))) (rotate m (ring_list r)) @ replicate k v @
      drop (nat (c - int m + int (ring_size r)) + k) (rotate m (ring_list r))"
proof (cases "k = 0")
  case True
  then show ?thesis using assms(1) by (simp add: fill_lines_def)
next
  case False
  have "position (ring_size r) (c - int m) = nat (c - int m + int (ring_size r))"
    using False assms(6,7) by (subst position_negative) (auto simp: add.commute)
  moreover have "nat (c - int m + int (ring_size r)) + k \<le> ring_size r"
    using assms(6,7) by linarith
  moreover have "ring_list r \<noteq> []" using assms(2) by (auto simp: ring_list_def)
  ultimately show ?thesis
    using ring_buffer.fill_range [of r c k m "nat (c - int m + int (ring_size r))" v] assms(1,4,5)
    by (auto simp: fill_lines_def)
qed

text \<open>Resetting lines of the page's width fills them with blank lines.\<close>

lemma reset_lines_fill:
  assumes "ring_ok r" "0 < ring_size r" "\<And>l. l \<in> set (ring_list r) \<Longrightarrow> line_fits w l"
    and "\<forall>y \<in> set ys. - int (ring_size r) \<le> y \<and> y < int (ring_size r)"
  shows "reset_lines flags attr ys r = fill_lines (blank_line w attr flags) ys r"
proof -
  have "ring_list r \<noteq> []" using assms(2) by (auto simp: ring_list_def)
  then show ?thesis
    unfolding reset_lines_def fill_lines_def
    using assms by (intro ring_buffer.change_each_fill) (auto simp: line_reset_blank line_fits_def)
qed

lemma take_rotate:
  assumes "d \<le> n" "n \<le> length xs"
  shows "take (length xs - n) (rotate d xs) = take (length xs - n) (drop d xs)"
proof (cases "d < length xs")
  case True
  then show ?thesis using assms by (simp add: rotate_drop_take)
qed (use assms in simp)

lemma grid_ok_lines:
  assumes "grid_ok g" "ring_ok r" "ring_size r = ring_lines g"
    and "\<And>l. l \<in> set (ring_list r) \<Longrightarrow> line_fits (page_columns g) l"
    and "page_lines g \<le> u" "u \<le> ring_lines g"
  shows "grid_ok (g\<lparr>gr_linesUsed := u, gr_lines := r\<rparr>)"
  using assms
  by (cases "gr_historyLimit g")
    (simp_all add: grid_ok_def verifyState_def totalLineCount_def maxHistoryLineCount_def list_all_iff ring_list_def)

lemma grid_ok_ring:
  assumes "grid_ok g" "ring_ok r" "ring_size r = ring_lines g"
    and "set (ring_list r) \<subseteq> insert l (set (ring_list (gr_lines g)))" "line_fits (page_columns g) l"
    and "page_lines g \<le> u" "u \<le> ring_lines g"
  shows "grid_ok (g\<lparr>gr_linesUsed := u, gr_lines := r\<rparr>)"
  using assms grid_okD(9) [OF assms(1)] by (intro grid_ok_lines) auto

text \<open>The invariant and the parts of the state that scrolling never changes.\<close>

definition keeps :: "'c Grid \<Rightarrow> 'c Grid \<Rightarrow> bool" where
  "keeps g g' \<longleftrightarrow> grid_ok g' \<and> gr_pageSize g' = gr_pageSize g \<and> gr_historyLimit g' = gr_historyLimit g \<and>
    ring_lines g' = ring_lines g"

lemma keeps_refl: "grid_ok g \<Longrightarrow> keeps g g"
  by (simp add: keeps_def)

lemma keeps_trans: "keeps g g' \<Longrightarrow> keeps g' g'' \<Longrightarrow> keeps g g''"
  by (simp add: keeps_def)

definition blank_row :: "GraphicsAttributes \<Rightarrow> 'c Grid \<Rightarrow> 'c Line" where
  "blank_row attr g = blank_line (page_columns g) attr (defaultLineFlags g)"

lemma line_fits_blank_row [simp]: "line_fits (page_columns g) (blank_row attr g)"
  by (simp add: blank_row_def)

lemma append_lines_view:
  assumes "grid_ok g" "a \<le> ring_lines g - gr_linesUsed g"
  obtains g' where "append_lines a attr g = Inr g'" and "grid_ok g'"
    and "grid_view g' = grid_view g @ replicate a (blank_row attr g)"
    and "gr_linesUsed g' = gr_linesUsed g + a" and "ring_lines g' = ring_lines g"
    and "gr_pageSize g' = gr_pageSize g" and "blank_row attr g' = blank_row attr g"
proof -
  note ok = grid_okD [OF assms(1)]
  let ?n = "ring_lines g" and ?h = "history_lines g" and ?p = "page_lines g" and ?u = "gr_linesUsed g"
  let ?b = "blank_row attr g" and ?m = "ring_lines g - history_lines g"
  have m: "int ?p - int ?m + int ?n = int ?u" using ok by simp
  have "\<exists>r. fill_lines ?b [int ?p..int ?p + int a - 1] (gr_lines g) = Inr r \<and> ring_ok r \<and> ring_size r = ?n \<and>
      rotate ?m (ring_list r) = take (nat (int ?p - int ?m + int ?n)) (grid_window g) @ replicate a ?b @
        drop (nat (int ?p - int ?m + int ?n) + a) (grid_window g)"
    unfolding grid_window_def
    by (rule fill_lines_window) (use ok assms(2) m in linarith | use ok in simp)+
  then obtain r where r: "fill_lines ?b [int ?p..int ?p + int a - 1] (gr_lines g) = Inr r" "ring_ok r"
      "ring_size r = ?n"
      "rotate ?m (ring_list r) = take ?u (grid_window g) @ replicate a ?b @ drop (?u + a) (grid_window g)"
    unfolding m by auto
  have "a < 9223372036854775808" "0 < ring_size r" using assms(2) ok(2,8) r(3) by auto
  from rotate_left_refines [OF r(2) this(2,1)] obtain r' where
    r': "rotate_left r a = Inr r'" "ring_ok r'" "ring_list r' = rotate a (ring_list r)" "ring_size r' = ring_size r"
    by metis
  let ?g = "g\<lparr>gr_linesUsed := ?u + a, gr_lines := r'\<rparr>"
  have eq: "?n - (?u + a - ?p) + a = ?m" using assms(2) ok(6,7) by linarith
  have win: "grid_window ?g = rotate ?m (ring_list r)"
    unfolding grid_window_def using r'(3,4) r(3) eq by (simp add: rotate_rotate)
  have view: "grid_view ?g = grid_view g @ replicate a ?b"
    unfolding grid_view_def win r(4) using ok assms(2) by simp
  have "set (ring_list r') = set (rotate ?m (ring_list r))" using r'(3) by simp
  also have "\<dots> \<subseteq> insert ?b (set (ring_list (gr_lines g)))"
    unfolding r(4) grid_window_def by (auto dest!: in_set_takeD in_set_dropD)
  finally have "grid_ok ?g"
    using r' r(3) assms ok by (intro grid_ok_ring) auto
  moreover have "append_lines a attr g = Inr ?g"
    using r(1) r'(1) by (simp add: append_lines_def blank_row_def)
  ultimately show thesis
    using that [of ?g] r(3) r'(4) view by (simp add: blank_row_def defaultLineFlags_def)
qed

lemma rotate_lines_view:
  assumes "grid_ok g" "gr_linesUsed g = ring_lines g" "d \<le> n" "n \<le> ring_lines g"
  obtains g' where "rotate_lines d n attr g = Inr g'" and "grid_ok g'"
    and "grid_view g' = take (ring_lines g - n) (drop d (grid_view g)) @ replicate n (blank_row attr g)"
    and "gr_linesUsed g' = gr_linesUsed g" and "ring_lines g' = ring_lines g"
    and "gr_pageSize g' = gr_pageSize g"
proof -
  note ok = grid_okD [OF assms(1)]
  let ?n = "ring_lines g" and ?p = "page_lines g" and ?b = "blank_row attr g"
  from window_rotate [OF assms(1), of d] assms(3,4) obtain r where
    r: "rotate_left (gr_lines g) d = Inr r" "ring_ok r" "ring_size r = ?n"
      "\<And>m. rotate m (ring_list r) = rotate (m + d) (ring_list (gr_lines g))"
    by (metis le_trans)
  have sets: "set (ring_list r) = set (ring_list (gr_lines g))" by (metis r(4) set_rotate)
  have m: "?n - history_lines g = ?p" using ok assms(2) by simp
  have "reset_lines (defaultLineFlags g) attr [int ?p - int n..int ?p - 1] r
      = fill_lines ?b [int ?p - int n..int ?p - 1] r"
    unfolding blank_row_def
    by (rule reset_lines_fill) (use r(2,3) ok(6-9) sets assms(4) in auto)
  moreover have "\<exists>r'. fill_lines ?b [int ?p - int n..int ?p - int n + int n - 1] r = Inr r' \<and> ring_ok r' \<and>
      ring_size r' = ring_size r \<and>
      rotate ?p (ring_list r') = take (nat (int ?p - int n - int ?p + int (ring_size r))) (rotate ?p (ring_list r)) @
        replicate n ?b @ drop (nat (int ?p - int n - int ?p + int (ring_size r)) + n) (rotate ?p (ring_list r))"
    by (rule fill_lines_window) (use r(2,3) ok(6-8) assms(4) in auto)
  moreover have "nat (int ?p - int n - int ?p + int (ring_size r)) = ?n - n" using r(3) assms(4) by simp
  moreover have "rotate ?p (ring_list r) = rotate d (grid_window g)"
    by (simp add: r(4) grid_window_def m rotate_rotate add.commute)
  ultimately obtain r' where
    r': "reset_lines (defaultLineFlags g) attr [int ?p - int n..int ?p - 1] r = Inr r'" "ring_ok r'"
      "ring_size r' = ?n"
      "rotate ?p (ring_list r') = take (?n - n) (rotate d (grid_window g)) @ replicate n ?b"
    using r(3) assms(4) by auto
  let ?g = "g\<lparr>gr_lines := r'\<rparr>"
  have view: "grid_view ?g = take (?n - n) (rotate d (grid_view g)) @ replicate n ?b"
    using r'(3,4) assms(2,4) ok(6) m by (simp add: grid_view_def grid_window_def)
  have "set (ring_list r') = set (rotate ?p (ring_list r'))" by simp
  also have "\<dots> \<subseteq> insert ?b (set (ring_list (gr_lines g)))"
    unfolding r'(4) grid_window_def by (auto dest!: in_set_takeD)
  finally have "grid_ok (g\<lparr>gr_linesUsed := gr_linesUsed g, gr_lines := r'\<rparr>)"
    using r' assms(1) ok by (intro grid_ok_ring) auto
  moreover have "rotate_lines d n attr g = Inr ?g"
    using r(1) r'(1) by (simp add: rotate_lines_def)
  moreover have "take (?n - n) (rotate d (grid_view g)) = take (?n - n) (drop d (grid_view g))"
    using take_rotate [of d n "grid_view g"] length_grid_view [OF assms(1)] assms(2-4) by simp
  ultimately show thesis
    using that [of ?g] r'(3) view by simp
qed

lemma scrollUp_step_view:
  assumes "grid_ok g" "n \<le> ring_lines g"
  shows "\<exists>g'. scrollUp_step n attr g =
      Inr (if gr_linesUsed g = ring_lines g then n else min n (ring_lines g - gr_linesUsed g), g') \<and>
    grid_ok g' \<and> gr_linesUsed g' = min (gr_linesUsed g + n) (ring_lines g) \<and>
    grid_view g' = drop (gr_linesUsed g + n - ring_lines g) (grid_view g @ replicate n (blank_row attr g)) \<and>
    gr_pageSize g' = gr_pageSize g"
proof -
  note ok = grid_okD [OF assms(1)]
  let ?N = "ring_lines g" and ?u = "gr_linesUsed g"
  define a where "a = min n (?N - ?u)"
  have len: "length (grid_view g) = ?u" using assms(1) by (rule length_grid_view)
  show ?thesis
  proof (cases "?u = ?N")
    case True
    from rotate_lines_view [OF assms(1) True order_refl assms(2), of attr] obtain g' where
      "rotate_lines n n attr g = Inr g'" "grid_ok g'"
      "grid_view g' = take (?N - n) (drop n (grid_view g)) @ replicate n (blank_row attr g)"
      "gr_linesUsed g' = ?u" "ring_lines g' = ?N" "gr_pageSize g' = gr_pageSize g"
      by metis
    with True assms(2) len show ?thesis by (simp add: scrollUp_step_def)
  next
    case False
    then have lt: "?u < ?N" using ok(7) by simp
    have "a \<le> ?N - ?u" by (simp add: a_def)
    from append_lines_view [OF assms(1) this, of attr] obtain g1 where
      g1: "append_lines a attr g = Inr g1" "grid_ok g1"
        "grid_view g1 = grid_view g @ replicate a (blank_row attr g)" "gr_linesUsed g1 = ?u + a"
        "ring_lines g1 = ?N" "gr_pageSize g1 = gr_pageSize g" "blank_row attr g1 = blank_row attr g"
      by metis
    show ?thesis
    proof (cases "a < n")
      case False
      then have "a = n" by (simp add: a_def)
      with g1 assms(1) lt a_def len show ?thesis by (auto simp: scrollUp_step_def require_def)
    next
      case True
      then have a: "a = ?N - ?u" "a \<noteq> 0" "gr_linesUsed g1 = ring_lines g1" "n \<le> ring_lines g1"
        using lt g1(4,5) assms(2) by (auto simp: a_def)
      from rotate_lines_view [OF g1(2) a(3) diff_le_self a(4), of a attr] obtain g2 where
        g2: "rotate_lines (n - a) n attr g1 = Inr g2" "grid_ok g2"
          "grid_view g2 = take (ring_lines g1 - n) (drop (n - a) (grid_view g1)) @ replicate n (blank_row attr g1)"
          "gr_linesUsed g2 = gr_linesUsed g1" "ring_lines g2 = ring_lines g1" "gr_pageSize g2 = gr_pageSize g1"
        by metis
      have d: "n - a \<le> ?u" "?N - n = ?u - (n - a)" "?u + n - ?N = n - a" "min n (?N - ?u) = a"
        using a assms(2) lt True by auto
      have "grid_view g2 = drop (?u + n - ?N) (grid_view g @ replicate n (blank_row attr g))"
        using g1 g2(3) d len by simp
      moreover have "scrollUp_step n attr g = Inr (a, g2)"
        using lt g1(1) g2(1) True a(2) d(4) by (simp add: scrollUp_step_def require_def)
      moreover have "min (?u + n) ?N = ?N" using a(1) lt True by simp
      ultimately show ?thesis using g1(5,6) g2(2,4-6) d(4) a(3) lt by auto
    qed
  qed
qed

lemma view_split_verified:
  assumes "verifyState g"
  shows "grid_history g = drop (ring_lines g - history_lines g) (ring_list (gr_lines g))"
    and "grid_page g = take (page_lines g) (ring_list (gr_lines g))"
proof -
  have ok: "page_lines g \<le> gr_linesUsed g" "gr_linesUsed g \<le> ring_lines g"
    using assms by (simp_all add: verifyState_def)
  let ?m = "ring_lines g - history_lines g" and ?xs = "ring_list (gr_lines g)"
  have "rotate ?m ?xs = drop ?m ?xs @ take ?m ?xs"
  proof (cases "?m < ring_lines g")
    case True
    then show ?thesis by (simp add: rotate_drop_take)
  next
    case False
    then have "?m = length ?xs" by simp
    then show ?thesis by simp
  qed
  moreover have "page_lines g \<le> ?m" using ok by linarith
  ultimately have "grid_view g = drop ?m ?xs @ take (page_lines g) ?xs"
    using ok by (simp add: grid_view_def grid_window_def min_def)
  moreover have "length (drop ?m ?xs) = history_lines g" using ok by simp
  ultimately show "grid_history g = drop ?m ?xs" "grid_page g = take (page_lines g) ?xs"
    by (simp_all add: grid_history_def grid_page_def)
qed

lemmas view_split = view_split_verified [OF grid_okD(3)]

lemma history_page: "grid_ok g \<Longrightarrow> grid_view g = grid_history g @ grid_page g"
  by (simp add: grid_history_def grid_page_def)

lemma push_backs_simps [simp]:
  "rg_storage (push_backs n v r) = rg_storage r @ replicate n v" "rg_zero (push_backs n v r) = rg_zero r"
proof -
  have "rg_storage (push_backs n v r) = rg_storage r @ replicate n v \<and> rg_zero (push_backs n v r) = rg_zero r"
    by (induction n) (auto simp: push_backs_def push_back_def replicate_append_same)
  then show "rg_storage (push_backs n v r) = rg_storage r @ replicate n v" "rg_zero (push_backs n v r) = rg_zero r"
    by simp_all
qed

lemma newGrid_ok:
  assumes "0 < ps_lines ps" "0 < ps_columns ps"
    and "ps_lines ps + (case limit of HistoryLimit n \<Rightarrow> n | Infinite \<Rightarrow> 0) < 2147483648"
  shows "\<exists>g :: 'c Grid. newGrid ps rf limit = Inr g \<and> grid_ok g \<and> rg_zero (gr_lines g) = 0 \<and>
    gr_historyLimit g = limit \<and> gr_pageSize g = ps \<and> grid_history g = [] \<and>
    grid_page g = replicate (ps_lines ps) (blank_row defaultAttributes g)"
proof -
  let ?h = "case limit of HistoryLimit n \<Rightarrow> n | Infinite \<Rightarrow> 0"
  define g :: "'c Grid" where "g = \<lparr>gr_pageSize = ps, gr_reflowOnResize = rf, gr_historyLimit = limit,
      gr_lines = createLines ps ?h rf defaultAttributes, gr_linesUsed = ps_lines ps\<rparr>"
  have st: "rg_storage (gr_lines g) = replicate (ps_lines ps + ?h) (blank_row defaultAttributes g)"
      "rg_zero (gr_lines g) = 0"
    by (simp_all add: g_def createLines_def mk_ring_def blank_row_def defaultLineFlags_def)
  have ok: "grid_ok g"
    using assms st
    by (auto simp: grid_ok_def ring_ok_def verifyState_def totalLineCount_def maxHistoryLineCount_def
        list_all_iff g_def blank_row_def split: MaxHistoryLineCount.splits)
  have "newGrid ps rf limit = Inr g"
    using grid_okD(11) [OF ok] by (simp add: newGrid_def g_def)
  moreover have "grid_history g = []" by (simp add: grid_history_def g_def)
  moreover have "grid_page g = replicate (ps_lines ps) (blank_row defaultAttributes g)"
    using view_split(2) [OF ok] st by (simp add: ring_list_def g_def)
  ultimately show ?thesis using ok st by (intro exI [of _ g]) (simp add: g_def)
qed

lemma push_backs_0 [simp]: "push_backs 0 v r = r"
  by (simp add: push_backs_def)

subsection \<open>Growing an unlimited history\<close>

text \<open>
  \<open>emplace_back\<close> puts a line after the page only if the vector is in the order of the view, which
  is so as long as nothing but scrolling up moves the ring.
\<close>

definition in_order :: "'c Grid \<Rightarrow> bool" where
  "in_order g \<longleftrightarrow> rg_zero (gr_lines g) = history_lines g"

lemma in_order_window:
  assumes "in_order g" "history_lines g \<le> ring_lines g"
  shows "grid_window g = rg_storage (gr_lines g)"
  using assms by (simp add: grid_window_def in_order_def ring_list_def rotate_rotate)

lemma extend_ring_ok:
  assumes "grid_ok g" "ring_lines g + k < 2147483648" "gr_historyLimit g = Infinite"
    and "line_fits (page_columns g) l"
  shows "grid_ok (g\<lparr>gr_lines := push_backs k l (gr_lines g)\<rparr>)"
  using assms grid_okD [OF assms(1)]
  by (auto simp: grid_ok_def ring_ok_def verifyState_def totalLineCount_def maxHistoryLineCount_def list_all_iff)

lemma extend_ring:
  assumes "grid_ok g" "in_order g" "ring_lines g + k < 2147483648" "gr_historyLimit g = Infinite"
    and "line_fits (page_columns g) l"
  shows "grid_ok (g\<lparr>gr_lines := push_backs k l (gr_lines g)\<rparr>)"
    and "grid_view (g\<lparr>gr_lines := push_backs k l (gr_lines g)\<rparr>) = grid_view g"
    and "in_order (g\<lparr>gr_lines := push_backs k l (gr_lines g)\<rparr>)"
proof -
  note ok = grid_okD [OF assms(1)]
  let ?g = "g\<lparr>gr_lines := push_backs k l (gr_lines g)\<rparr>"
  show "grid_ok ?g" by (rule extend_ring_ok [OF assms(1,3-5)])
  show order: "in_order ?g" using assms(2) by (simp add: in_order_def)
  have "grid_window ?g = grid_window g @ replicate k l"
    using in_order_window [OF order] in_order_window [OF assms(2)] ok by simp
  then show "grid_view ?g = grid_view g" using ok by (simp add: grid_view_def)
qed

lemma ring_set_zero: "ring_set r i v = Inr r' \<Longrightarrow> rg_zero r' = rg_zero r \<and> ring_size r' = ring_size r"
  by (auto simp: ring_set_def bind_result_eq_Inr)

lemma append_lines_order:
  assumes "append_lines a attr g = Inr g'" "grid_ok g" "in_order g" "a \<le> ring_lines g - gr_linesUsed g"
  shows "in_order g'"
proof -
  note ok = grid_okD [OF assms(2)]
  from assms(1) obtain r r' where r: "fill_lines (blank_line (page_columns g) attr (defaultLineFlags g))
        [int (page_lines g)..int (page_lines g) + int a - 1] (gr_lines g) = Inr r" "rotate_left r a = Inr r'"
      "g' = g\<lparr>gr_linesUsed := gr_linesUsed g + a, gr_lines := r'\<rparr>"
    by (auto simp: append_lines_def bind_result_eq_Inr)
  have "rg_zero r = rg_zero (gr_lines g) \<and> ring_size r = ring_lines g"
    using r(1) unfolding fill_lines_def
    by (rule fold_result_invariant [where P = "\<lambda>r. rg_zero r = rg_zero (gr_lines g) \<and> ring_size r = ring_lines g", rotated 2])
      (auto dest: ring_set_zero)
  moreover have "to_size_t (int (rg_zero (gr_lines g) + ring_lines g + a)) = rg_zero (gr_lines g) + ring_lines g + a"
    using ok assms(4) by (intro to_size_t_of_nat) (auto simp: ring_ok_def)
  ultimately have "rg_zero r' = (rg_zero (gr_lines g) + ring_lines g + a) mod ring_lines g"
    using r(2) ok(8) by (auto simp: rotate_left_def simp del: of_nat_add)
  also have "rg_zero (gr_lines g) + ring_lines g + a = history_lines g + a + ring_lines g"
    using assms(3) by (simp add: in_order_def)
  also have "\<dots> mod ring_lines g = (history_lines g + a) mod ring_lines g" by (rule mod_add_self2)
  also have "\<dots> = history_lines g + a" using ok assms(4) by simp
  finally show ?thesis using ok by (simp add: in_order_def r(3))
qed

lemma scrollUp_step_order:
  assumes "grid_ok g" "in_order g" "n \<le> ring_lines g - gr_linesUsed g" "0 < n"
    and "scrollUp_step n attr g = Inr (k, g')"
  shows "in_order g'"
  using assms append_lines_order [of n attr g g']
  by (auto simp: scrollUp_step_def require_def bind_result_eq_Inr min_def split: if_splits)

lemma scrollUp_unlimited_lemma:
  assumes "grid_ok g" "in_order g" "gr_historyLimit g = Infinite"
    and "ring_lines g + n < 2147483648" "0 < n"
  shows "\<exists>g'. scrollUp_page n attr g = Inr (n, g') \<and> grid_ok g' \<and> in_order g' \<and>
    gr_pageSize g' = gr_pageSize g \<and> grid_view g' = grid_view g @ replicate n (blank_row attr g)"
proof -
  note ok = grid_okD [OF assms(1)]
  let ?k = "n - (ring_lines g - gr_linesUsed g)"
  define q where "q = g\<lparr>gr_lines := push_backs ?k (blank_row defaultAttributes g) (gr_lines g)\<rparr>"
  have "ring_lines g + ?k < 2147483648" using assms(4) by simp
  from extend_ring [OF assms(1,2) this assms(3) line_fits_blank_row]
  have q: "grid_ok q" "grid_view q = grid_view g" "in_order q" by (simp_all add: q_def)
  have q': "gr_linesUsed q = gr_linesUsed g" "gr_pageSize q = gr_pageSize g" "blank_row attr q = blank_row attr g"
      "ring_lines q = ring_lines g + ?k" "gr_linesUsed g < ring_lines q" "n \<le> ring_lines q - gr_linesUsed q"
    using ok(7) assms(5) by (auto simp: q_def blank_row_def defaultLineFlags_def)
  have n: "n \<le> ring_lines q" using q'(6) by simp
  have "(if gr_linesUsed q = ring_lines q then n else min n (ring_lines q - gr_linesUsed q)) = n"
      "gr_linesUsed q + n - ring_lines q = 0"
    using q'(6) assms(5) by auto
  with scrollUp_step_view [OF q(1) n, of attr] q'(2,3)
  obtain g' where g': "scrollUp_step n attr q = Inr (n, g')" "grid_ok g'"
      "grid_view g' = grid_view g @ replicate n (blank_row attr g)" "gr_pageSize g' = gr_pageSize g"
    using q(2) by auto
  have "scrollUp_page n attr g = scrollUp_step n attr q"
    using grid_okD(11) [OF q(1)] ok(11) assms(3)
    by (simp add: scrollUp_page_def Let_def q_def blank_row_def)
  with g' scrollUp_step_order [OF q(1,3) q'(6) assms(5) g'(1)] show ?thesis by simp
qed

lemma scrollUp_limited_lemma:
  assumes "grid_ok g" "gr_historyLimit g = HistoryLimit m" "n \<le> ring_lines g"
  shows "\<exists>k g'. scrollUp_page n attr g = Inr (k, g') \<and> grid_ok g' \<and> gr_pageSize g' = gr_pageSize g \<and>
    gr_linesUsed g' = min (gr_linesUsed g + n) (ring_lines g) \<and>
    grid_view g' = drop (gr_linesUsed g + n - ring_lines g) (grid_view g @ replicate n (blank_row attr g))"
  using scrollUp_step_view [OF assms(1,3), of attr] grid_okD(11) [OF assms(1)] assms(2)
  by (auto simp: scrollUp_page_def)

subsection \<open>Scrolling in a vertical margin\<close>

lemma ring_get_list: "ring_ok r \<Longrightarrow> k < ring_size r \<Longrightarrow> ring_get r (int k) = Inr (ring_list r ! k)"
  by (subst ring_get_refines) (auto simp: in_reach_def ring_ok_def)

lemma ring_set_list:
  assumes "ring_ok r" "k < ring_size r"
  obtains r' where "ring_set r (int k) v = Inr r'" and "ring_ok r'" and "ring_size r' = ring_size r"
    and "ring_list r' = (ring_list r)[k := v]"
proof -
  have "in_reach r (int k)" using assms by (auto simp: in_reach_def ring_ok_def)
  from ring_set_refines [OF assms(1) this, of v] that assms(2) show thesis by (metis position_of_nat)
qed

text \<open>Filling and resetting a range of lines of the page.\<close>

lemma fill_page:
  assumes "ring_ok r" "0 < ring_size r" "a + k \<le> ring_size r"
  obtains r' where "fill_lines v [int a..int a + int k - 1] r = Inr r'" and "ring_ok r'"
    and "ring_size r' = ring_size r"
    and "ring_list r' = take a (ring_list r) @ replicate k v @ drop (a + k) (ring_list r)"
proof (cases "k = 0")
  case True
  then show thesis using that [of r] assms by (simp add: fill_lines_def)
next
  case False
  have "ring_list r \<noteq> []" using assms(2) by (auto simp: ring_list_def)
  then show thesis
    using that ring_buffer.fill_range [of r "int a" k 0 a v] assms False
    by (auto simp: fill_lines_def)
qed

lemma reset_page:
  fixes v :: "'c Line"
  assumes "ring_ok r" "0 < ring_size r" "a + k \<le> ring_size r"
    and "\<And>l. l \<in> set (ring_list r) \<Longrightarrow> f l = v" "f v = v"
  obtains r' where "fold_result (\<lambda>y r. bind_result (ring_get r y) (\<lambda>l. ring_set r y (f l)))
      [int a..int a + int k - 1] r = Inr r'" and "ring_ok r'" and "ring_size r' = ring_size r"
    and "ring_list r' = take a (ring_list r) @ replicate k v @ drop (a + k) (ring_list r)"
proof -
  have "ring_list r \<noteq> []" using assms(2) by (auto simp: ring_list_def)
  then have "fold_result (\<lambda>y r. bind_result (ring_get r y) (\<lambda>l. ring_set r y (f l))) [int a..int a + int k - 1] r
      = fill_lines v [int a..int a + int k - 1] r"
    unfolding fill_lines_def using assms by (intro ring_buffer.change_each_fill) auto
  with fill_page [OF assms(1-3), of v] that show thesis by metis
qed

text \<open>Moving lines up by \<open>n\<close> leaves \<open>n\<close> moved-from lines behind the ones that moved.\<close>

lemma move_lines:
  assumes "ring_ok r" "0 < n" "a + n + k \<le> ring_size r"
  shows "\<exists>r' xs. fold_result (\<lambda>y. move_line y (y + int n)) [int a..int a + int k - 1] r = Inr r' \<and>
    ring_ok r' \<and> ring_size r' = ring_size r \<and> length xs = n \<and>
    ring_list r' = take a (ring_list r) @ take k (drop (a + n) (ring_list r)) @ xs @ drop (a + n + k) (ring_list r)"
  using assms(3)
proof (induction k)
  case 0
  let ?xs = "ring_list r"
  have "?xs = take a ?xs @ take n (drop a ?xs) @ drop (a + n) ?xs"
    by (metis append_take_drop_id drop_drop add.commute)
  moreover have "length (take n (drop a ?xs)) = n" using 0 by simp
  ultimately show ?case using assms(1) by force
next
  case (Suc k)
  let ?L = "ring_list r"
  from Suc obtain q xs where q: "fold_result (\<lambda>y. move_line y (y + int n)) [int a..int a + int k - 1] r = Inr q"
      "ring_ok q" "ring_size q = ring_size r" "length xs = n"
      "ring_list q = take a ?L @ take k (drop (a + n) ?L) @ xs @ drop (a + n + k) ?L"
    by auto
  obtain x ys where x: "xs = x # ys" using q(4) assms(2) by (cases xs) auto
  let ?l = "?L ! (a + n + k)" and ?s = "a + k + n" and ?t = "a + k"
  have lens: "length (take a ?L) = a" "length (take k (drop (a + n) ?L)) = k" using Suc.prems by auto
  have d: "drop (a + n + k) ?L = ?l # drop (a + n + Suc k) ?L" using Suc.prems by (simp add: Cons_nth_drop_Suc)
  have src: "ring_list q ! ?s = ?l"
    unfolding q(5) d using lens q(4) by (simp add: nth_append)
  have bounds: "?s < ring_size q" "?t < ring_size q" using Suc.prems q(3) assms(2) by simp_all
  obtain q1 where q1: "ring_set q (int ?s) (moved_from ?l) = Inr q1" "ring_ok q1" "ring_size q1 = ring_size q"
      "ring_list q1 = (ring_list q)[?s := moved_from ?l]"
    by (rule ring_set_list [OF q(2) bounds(1)])
  have "?t < ring_size q1" using bounds(2) q1(3) by simp
  then obtain q2 where q2: "ring_set q1 (int ?t) ?l = Inr q2" "ring_ok q2" "ring_size q2 = ring_size q1"
      "ring_list q2 = (ring_list q1)[?t := ?l]"
    by (rule ring_set_list [OF q1(2)])
  have "move_line (int a + int k) (int a + int k + int n) q = Inr q2"
    using ring_get_list [OF q(2) bounds(1)] q1(1) q2(1) src by (simp add: move_line_def)
  moreover have "[int a..int a + int k] = [int a..int a + int k - 1] @ [int a + int k]"
    by (rule upto_rec2) simp
  ultimately have "fold_result (\<lambda>y. move_line y (y + int n)) [int a..int a + int (Suc k) - 1] r = Inr q2"
    using q(1) by (simp add: fold_result_append)
  moreover have "ring_list q2 = take a ?L @ take (Suc k) (drop (a + n) ?L) @ (ys @ [moved_from ?l]) @ drop (a + n + Suc k) ?L"
  proof -
    have "take (Suc k) (drop (a + n) ?L) = take k (drop (a + n) ?L) @ [?l]"
      using Suc.prems by (simp add: take_Suc_conv_app_nth)
    moreover have "length ys = n - 1" using q(4) x by simp
    ultimately show ?thesis
      unfolding q2(4) q1(4) q(5) d x using lens assms(2)
      by (cases n) (simp_all add: list_update_append)
  qed
  ultimately show ?case using q2(2,3) q1(3) q(3,4) x by force
qed

text \<open>A change of the lines from \<open>a\<close> to below \<open>b\<close> of the page leaves the rest.\<close>

lemma page_change:
  assumes "grid_ok g" "ring_ok r" "ring_size r = ring_lines g"
    and "ring_list r = take a (ring_list (gr_lines g)) @ mid @ drop b (ring_list (gr_lines g))"
    and "a \<le> b" "b \<le> page_lines g" "length mid = b - a" "\<And>l. l \<in> set mid \<Longrightarrow> line_fits (page_columns g) l"
  shows "grid_ok (g\<lparr>gr_lines := r\<rparr>)" "grid_history (g\<lparr>gr_lines := r\<rparr>) = grid_history g"
    "grid_page (g\<lparr>gr_lines := r\<rparr>) = take a (grid_page g) @ mid @ drop b (grid_page g)"
proof -
  note ok = grid_okD [OF assms(1)]
  let ?g = "g\<lparr>gr_lines := r\<rparr>" and ?L = "ring_list (gr_lines g)"
  have "line_fits (page_columns g) l" if "l \<in> set (ring_list r)" for l
    using that assms(4,8) ok(9) by (auto dest: in_set_takeD in_set_dropD)
  then have "grid_ok (g\<lparr>gr_linesUsed := gr_linesUsed g, gr_lines := r\<rparr>)"
    using assms(1-3) ok(6,7) by (intro grid_ok_lines) auto
  then show g': "grid_ok ?g" by simp
  have le: "b \<le> ring_lines g - history_lines g" "b \<le> ring_lines g" using assms(6) ok(6,7) by linarith+
  have "drop (ring_lines g - history_lines g) (ring_list r) = drop (ring_lines g - history_lines g) ?L"
  proof -
    have "ring_lines g - (history_lines g + b) + b = ring_lines g - history_lines g" using le(1) by linarith
    with assms(4,5,7) le show ?thesis by simp
  qed
  then show "grid_history ?g = grid_history g"
    using view_split(1) [OF assms(1)] view_split(1) [OF g'] assms(3) by simp
  have "take (page_lines g) (ring_list r) = take a ?L @ mid @ take (page_lines g - b) (drop b ?L)"
    using assms(4-7) le by simp
  then show "grid_page ?g = take a (grid_page g) @ mid @ drop b (grid_page g)"
    using view_split(2) [OF assms(1)] view_split(2) [OF g'] assms(5,6) by (simp add: drop_take min_def)
qed

lemma scroll_region_up:
  assumes "ring_ok r" "t + k + c \<le> ring_size r" "0 < ring_size r"
  obtains r1 r2 where
    "(if k \<noteq> 0 \<and> c \<noteq> 0 then fold_result (\<lambda>y. move_line y (y + int k)) [int t..int t + int c - 1] r else Inr r) = Inr r1"
    and "fold_result (\<lambda>y r. bind_result (ring_get r y) (\<lambda>l. ring_set r y (line_reset_count flags attr w l)))
      [int (t + c)..int (t + c) + int k - 1] r1 = Inr r2"
    and "ring_ok r2" and "ring_size r2 = ring_size r"
    and "ring_list r2 = take t (ring_list r) @ (take c (drop (t + k) (ring_list r))
      @ replicate k (blank_line w attr flags)) @ drop (t + k + c) (ring_list r)"
proof -
  let ?L = "ring_list r"
  have "\<exists>r1. (if k \<noteq> 0 \<and> c \<noteq> 0 then fold_result (\<lambda>y. move_line y (y + int k)) [int t..int t + int c - 1] r else Inr r) = Inr r1 \<and>
      ring_ok r1 \<and> ring_size r1 = ring_size r \<and>
      take (t + c) (ring_list r1) = take t ?L @ take c (drop (t + k) ?L) \<and>
      drop (t + k + c) (ring_list r1) = drop (t + k + c) ?L"
  proof (cases "k \<noteq> 0 \<and> c \<noteq> 0")
    case True
    with move_lines [OF assms(1) _ assms(2)] obtain r1 xs where
      "fold_result (\<lambda>y. move_line y (y + int k)) [int t..int t + int c - 1] r = Inr r1" "ring_ok r1"
      "ring_size r1 = ring_size r" "length xs = k"
      "ring_list r1 = take t ?L @ take c (drop (t + k) ?L) @ xs @ drop (t + k + c) ?L"
      by blast
    with True assms(2) show ?thesis by simp
  next
    case False
    with assms(1) show ?thesis by (auto simp: take_add)
  qed
  then obtain r1 where r1:
    "(if k \<noteq> 0 \<and> c \<noteq> 0 then fold_result (\<lambda>y. move_line y (y + int k)) [int t..int t + int c - 1] r else Inr r) = Inr r1"
    "ring_ok r1" "ring_size r1 = ring_size r" "take (t + c) (ring_list r1) = take t ?L @ take c (drop (t + k) ?L)"
    "drop (t + k + c) (ring_list r1) = drop (t + k + c) ?L"
    by blast
  have len: "0 < ring_size r1" "(t + c) + k \<le> ring_size r1" using r1(3) assms(2,3) by simp_all
  from reset_page [OF r1(2) len, of "line_reset_count flags attr w" "blank_line w attr flags"] obtain r2 where
    r2: "fold_result (\<lambda>y r. bind_result (ring_get r y) (\<lambda>l. ring_set r y (line_reset_count flags attr w l)))
        [int (t + c)..int (t + c) + int k - 1] r1 = Inr r2" "ring_ok r2" "ring_size r2 = ring_size r1"
      "ring_list r2 = take (t + c) (ring_list r1) @ replicate k (blank_line w attr flags) @ drop (t + c + k) (ring_list r1)"
    by (auto simp: line_reset_count_blank)
  have "ring_list r2 = take t ?L @ (take c (drop (t + k) ?L) @ replicate k (blank_line w attr flags)) @ drop (t + k + c) ?L"
    unfolding r2(4) r1(4) using r1(5) by (simp add: add_ac)
  moreover have "ring_size r2 = ring_size r" using r2(3) r1(3) by simp
  ultimately show thesis by (intro that [OF r1(1) r2(1,2)])
qed

lemma scrollUp_margin_lemma:
  assumes "grid_ok g" "fullHorizontal g m" "\<not> fullVertical g m"
    and "mg_top m = int t" "mg_bottom m = int b" "t \<le> b" "b < page_lines g"
  shows "\<exists>g'. scrollUp K T n attr m g = Inr (0, g') \<and> keeps g g' \<and> grid_history g' = grid_history g \<and>
    grid_page g' = take t (grid_page g)
      @ drop n (take (Suc b - t) (drop t (grid_page g)))
      @ replicate (min n (Suc b - t)) (blank_row attr g) @ drop (Suc b) (grid_page g)"
proof -
  note ok = grid_okD [OF assms(1)]
  define k where "k = min n (Suc b - t)"
  define c where "c = Suc b - t - k"
  have kc: "t + k + c = Suc b" "int b - int k + 1 = int (t + c)" "int b = int (t + c) + int k - 1"
      "int b - int k = int t + int c - 1"
    using assms(6) by (auto simp: k_def c_def)
  have n2: "min (int n) (vertical_length m) = int k" "int k < vertical_length m \<longleftrightarrow> c \<noteq> 0"
    using assms(4-6) by (auto simp: vertical_length_def k_def c_def)
  have le: "t + k + c \<le> ring_lines g" using kc(1) assms(7) ok(6,7) by simp
  from scroll_region_up [OF ok(1) le ok(8), of "defaultLineFlags g" attr "page_columns g"] obtain r1 r2 where
    r: "(if k \<noteq> 0 \<and> c \<noteq> 0 then fold_result (\<lambda>y. move_line y (y + int k)) [int t..int t + int c - 1] (gr_lines g)
        else Inr (gr_lines g)) = Inr r1"
      "fold_result (\<lambda>y r. bind_result (ring_get r y) (\<lambda>l. ring_set r y
          (line_reset_count (defaultLineFlags g) attr (page_columns g) l))) [int (t + c)..int (t + c) + int k - 1] r1 = Inr r2"
      "ring_ok r2" "ring_size r2 = ring_lines g"
      "ring_list r2 = take t (ring_list (gr_lines g)) @ (take c (drop (t + k) (ring_list (gr_lines g)))
        @ replicate k (blank_row attr g)) @ drop (Suc b) (ring_list (gr_lines g))"
    unfolding blank_row_def kc(1) by blast
  let ?mid = "take c (drop (t + k) (ring_list (gr_lines g))) @ replicate k (blank_row attr g)"
  have mid: "length ?mid = Suc b - t" "\<And>l. l \<in> set ?mid \<Longrightarrow> line_fits (page_columns g) l"
    using kc(1) le ok(9) by (auto dest!: in_set_takeD in_set_dropD)
  have bounds: "t \<le> Suc b" "Suc b \<le> page_lines g" using assms(6,7) by simp_all
  note page = page_change [OF assms(1) r(3,4,5) bounds mid]
  have ranges: "[mg_bottom m - int k + 1..mg_bottom m] = [int (t + c)..int (t + c) + int k - 1]"
      "[mg_top m..mg_bottom m - int k] = [int t..int t + int c - 1]"
    by (simp only: assms(5) kc(2) kc(3) [symmetric]) (simp only: assms(4,5) kc(4))
  have req: "require (0 \<le> mg_left m \<and> mg_right m < int (page_columns g) \<and> 0 \<le> mg_top m \<and>
      mg_bottom m < int (page_lines g)) g = Inr g"
    using assms(2,4,5,7) by (simp add: require_def fullHorizontal_def)
  have moves: "(if int k \<noteq> 0 \<and> c \<noteq> 0
      then fold_result (\<lambda>y. move_line y (y + int k)) [int t..int t + int c - 1] (gr_lines g)
      else Inr (gr_lines g)) = Inr r1"
    using r(1) by simp
  have "scrollUp K T n attr m g = Inr (0, g\<lparr>gr_lines := r2\<rparr>)"
    using assms(2,3) grid_okD(11) [OF page(1)]
    by (simp only: scrollUp_def Let_def ok(11) bind_result_simps req n2 ranges moves r(2) simp_thms if_False if_True)
  moreover have "take c (drop (t + k) (ring_list (gr_lines g))) = drop n (take (Suc b - t) (drop t (grid_page g)))"
  proof (cases "n \<le> Suc b - t")
    case True
    then have "drop n (take (Suc b - t) (drop t (grid_page g))) = take c (drop (t + k) (grid_page g))"
      by (simp add: k_def c_def drop_take add.commute)
    also have "\<dots> = take c (drop (t + k) (ring_list (gr_lines g)))"
      using view_split(2) [OF assms(1)] kc(1) bounds(2) by (simp add: drop_take min_def)
    finally show ?thesis ..
  qed (simp add: k_def c_def)
  ultimately show ?thesis using page r(4) by (auto simp: k_def keeps_def)
qed

lemma map_result_Inr: "(\<And>x. x \<in> set xs \<Longrightarrow> f x = Inr (h x)) \<Longrightarrow> map_result f xs = Inr (map h xs)"
  by (induction xs) auto

lemma map_nth_range: "b \<le> length xs \<Longrightarrow> map ((!) xs) [a..<b] = take (b - a) (drop a xs)"
  by (rule nth_equalityI) auto

lemma write_range:
  assumes "ring_ok r" "a + length ys \<le> ring_size r"
  shows "\<exists>r'. fold_result (\<lambda>(i, x) r. ring_set r (int i) x) (enumerate a ys) r = Inr r' \<and> ring_ok r' \<and>
    ring_size r' = ring_size r \<and> ring_list r' = take a (ring_list r) @ ys @ drop (a + length ys) (ring_list r)"
  using assms(2)
proof (induction ys rule: rev_induct)
  case Nil
  then show ?case using assms(1) by simp
next
  case (snoc y ys)
  let ?L = "ring_list r"
  from snoc obtain q where q: "fold_result (\<lambda>(i, x) r. ring_set r (int i) x) (enumerate a ys) r = Inr q" "ring_ok q"
      "ring_size q = ring_size r" "ring_list q = take a ?L @ ys @ drop (a + length ys) ?L"
    by auto
  have less: "a + length ys < ring_size q" using snoc.prems q(3) by simp
  obtain q' where q': "ring_set q (int (a + length ys)) y = Inr q'" "ring_ok q'" "ring_size q' = ring_size q"
      "ring_list q' = (ring_list q)[a + length ys := y]"
    by (rule ring_set_list [OF q(2) less])
  have "drop (a + length ys) ?L = ?L ! (a + length ys) # drop (Suc (a + length ys)) ?L"
    using snoc.prems by (simp add: Cons_nth_drop_Suc)
  then have "ring_list q' = take a ?L @ (ys @ [y]) @ drop (a + length (ys @ [y])) ?L"
    unfolding q'(4) q(4) using snoc.prems by (simp add: list_update_append)
  with q q' show ?case by (simp add: enumerate_append_eq fold_result_append)
qed

lemma rotate_range_refines:
  assumes "ring_ok r" "a \<le> b" "b \<le> c" "c \<le> ring_size r"
  obtains r' where "rotate_range a b c r = Inr r'" and "ring_ok r'" and "ring_size r' = ring_size r"
    and "ring_list r' = take a (ring_list r) @ (drop (b - a) (take (c - a) (drop a (ring_list r)))
      @ take (b - a) (take (c - a) (drop a (ring_list r)))) @ drop c (ring_list r)"
proof -
  let ?L = "ring_list r" and ?s = "take (c - a) (drop a (ring_list r))"
  have "map_result (\<lambda>i. ring_get r (int i)) [a..<c] = Inr (map ((!) ?L) [a..<c])"
    by (rule map_result_Inr) (use assms in \<open>auto intro: ring_get_list\<close>)
  then have s: "map_result (\<lambda>i. ring_get r (int i)) [a..<c] = Inr ?s"
    using assms(4) by (simp add: map_nth_range)
  have "length (drop (b - a) ?s @ take (b - a) ?s) = c - a" using assms by simp
  with write_range [OF assms(1), of a "drop (b - a) ?s @ take (b - a) ?s"] assms obtain r' where
    "fold_result (\<lambda>(i, x) r. ring_set r (int i) x) (enumerate a (drop (b - a) ?s @ take (b - a) ?s)) r = Inr r'"
    "ring_ok r'" "ring_size r' = ring_size r"
    "ring_list r' = take a ?L @ (drop (b - a) ?s @ take (b - a) ?s) @ drop c ?L"
    by auto
  with that s assms(2,3) show thesis by (simp add: rotate_range_def)
qed

lemma reset_lines_page:
  assumes "ring_ok r" "0 < ring_size r" "a + k \<le> ring_size r"
    and "\<And>l. l \<in> set (ring_list r) \<Longrightarrow> line_fits w l"
  obtains r' where "reset_lines flags attr [int a..int a + int k - 1] r = Inr r'" and "ring_ok r'"
    and "ring_size r' = ring_size r"
    and "ring_list r' = take a (ring_list r) @ replicate k (blank_line w attr flags) @ drop (a + k) (ring_list r)"
proof -
  have "reset_lines flags attr [int a..int a + int k - 1] r
      = fill_lines (blank_line w attr flags) [int a..int a + int k - 1] r"
    using assms by (intro reset_lines_fill) auto
  with fill_page [OF assms(1-3)] that show thesis by metis
qed

lemma drop_middle:
  assumes "length xs = a" "length ys = k"
  shows "take a (xs @ ys @ zs) @ us @ drop (a + k) (xs @ ys @ zs) = xs @ us @ zs"
  using assms by simp

lemma scrollDown_margin_lemma:
  assumes "grid_ok g" "fullHorizontal g m" "\<not> fullVertical g m"
    and "mg_top m = int t" "mg_bottom m = int b" "t \<le> b" "b < page_lines g"
  shows "\<exists>g'. scrollDown K T n attr m g = Inr g' \<and> keeps g g' \<and> grid_history g' = grid_history g \<and>
    grid_page g' = take t (grid_page g) @ replicate (min n (Suc b - t)) (blank_row attr g)
      @ take (Suc b - t - n) (drop t (grid_page g)) @ drop (Suc b) (grid_page g)"
proof -
  note ok = grid_okD [OF assms(1)]
  let ?L = "ring_list (gr_lines g)"
  define k where "k = min n (Suc b - t)"
  have n2: "min (int n) (vertical_length m) = int k" using assms(4-6) by (auto simp: vertical_length_def k_def)
  have nats: "nat (mg_top m) = t" "nat (mg_bottom m + 1 - int k) = Suc b - k" "nat (mg_bottom m + 1) = Suc b"
    using assms(4,5) by (auto simp: k_def)
  have le: "t \<le> Suc b - k" "Suc b - k \<le> Suc b" "Suc b \<le> ring_lines g" "Suc b - k - t = Suc b - t - k"
      "t + k \<le> Suc b"
    using assms(6,7) ok(6,7) by (auto simp: k_def)
  from rotate_range_refines [OF ok(1) le(1-3)] obtain r1 where
    r1: "rotate_range t (Suc b - k) (Suc b) (gr_lines g) = Inr r1" "ring_ok r1" "ring_size r1 = ring_lines g"
      "ring_list r1 = take t ?L @ (drop (Suc b - t - k) (take (Suc b - t) (drop t ?L))
        @ take (Suc b - t - k) (take (Suc b - t) (drop t ?L))) @ drop (Suc b) ?L"
    unfolding le(4) by blast
  have fits: "line_fits (page_columns g) l" if "l \<in> set (ring_list r1)" for l
    using that ok(9) unfolding r1(4) by (auto dest!: in_set_takeD in_set_dropD)
  have "0 < ring_size r1" "t + k \<le> ring_size r1" using ok(8) r1(3) le by simp_all
  from reset_lines_page [OF r1(2) this fits, of "defaultLineFlags g" attr] obtain r2 where
    r2: "reset_lines (defaultLineFlags g) attr [int t..int t + int k - 1] r1 = Inr r2" "ring_ok r2"
      "ring_size r2 = ring_lines g"
      "ring_list r2 = take t (ring_list r1) @ replicate k (blank_row attr g) @ drop (t + k) (ring_list r1)"
    unfolding blank_row_def r1(3) by blast
  let ?mid = "replicate k (blank_row attr g) @ take (Suc b - t - k) (drop t ?L)"
  have "length (take (Suc b - t) (drop t ?L)) = Suc b - t" "length (take t ?L) = t" using le by simp_all
  then have lens: "length (take t ?L) = t" "length (drop (Suc b - t - k) (take (Suc b - t) (drop t ?L))) = k"
    using le(5) by simp_all
  have list: "ring_list r2 = take t ?L @ ?mid @ drop (Suc b) ?L"
    unfolding r2(4) r1(4) append_assoc drop_middle [OF lens] by simp
  have mid: "length ?mid = Suc b - t" "\<And>l. l \<in> set ?mid \<Longrightarrow> line_fits (page_columns g) l"
    using le ok(9) by (auto dest!: in_set_takeD in_set_dropD)
  have bounds: "t \<le> Suc b" "Suc b \<le> page_lines g" using assms(6,7) by simp_all
  note page = page_change [OF assms(1) r2(2,3) list bounds mid]
  have "[mg_top m..mg_top m + int k - 1] = [int t..int t + int k - 1]" using assms(4) by simp
  then have "scrollDown K T n attr m g = Inr (g\<lparr>gr_lines := r2\<rparr>)"
    using assms(2,3)
    by (simp only: scrollDown_def Let_def ok(11) bind_result_simps n2 nats r1(1) r2(1) simp_thms if_False if_True)
  moreover have "take (Suc b - t - k) (drop t ?L) = take (Suc b - t - n) (drop t (grid_page g))"
    using view_split(2) [OF assms(1)] bounds(2) by (simp add: k_def drop_take min_def)
  ultimately show ?thesis using page r2(3) by (auto simp: k_def keeps_def)
qed

subsection \<open>Scrolling down the page\<close>

text \<open>
  The span over the page starts at the physical place of its first line and runs past the end of
  the vector when the page wraps around.
\<close>

lemma ring_index_0: "ring_ok r \<Longrightarrow> 0 < ring_size r \<Longrightarrow> ring_index r 0 = Inr (rg_zero r)"
  by (subst ring_index_ok) (auto simp: in_reach_def ring_ok_def position_def)

lemma rotate_right_zero:
  assumes "ring_ok r" "0 < ring_size r" "k \<le> ring_size r" "rotate_right r k = Inr r'"
  shows "rg_zero r' = (if k \<le> rg_zero r then rg_zero r - k else rg_zero r + ring_size r - k)"
    "rg_storage r' = rg_storage r"
proof -
  have "to_size_t (int (rg_zero r + ring_size r) - int k) = rg_zero r + ring_size r - k"
    using assms(1-3) by (simp add: to_size_t_nonneg ring_ok_def nat_diff_distrib nat_add_distrib)
  then have r': "r' = r\<lparr>rg_zero := (rg_zero r + ring_size r - k) mod ring_size r\<rparr>"
    using assms(2,4) by (simp add: rotate_right_def)
  have "(rg_zero r + ring_size r - k) mod ring_size r = rg_zero r - k" if "k \<le> rg_zero r"
  proof -
    have "rg_zero r + ring_size r - k = rg_zero r - k + ring_size r" using that by simp
    then show ?thesis using assms(1,2) by (auto simp: ring_ok_def)
  qed
  moreover have "rg_zero r + ring_size r - k < ring_size r" if "rg_zero r < k" using that assms(3) by simp
  ultimately show "rg_zero r' = (if k \<le> rg_zero r then rg_zero r - k else rg_zero r + ring_size r - k)"
    using r' by auto
  show "rg_storage r' = rg_storage r" using r' by simp
qed

lemma reset_span:
  assumes "ring_ok r" "rg_zero r + k \<le> ring_size r"
  shows "ring_list (r\<lparr>rg_storage := take (rg_zero r) (rg_storage r)
      @ map f (take k (drop (rg_zero r) (rg_storage r))) @ drop (rg_zero r + k) (rg_storage r)\<rparr>)
    = map f (take k (ring_list r)) @ drop k (ring_list r)"
proof (cases "ring_size r = 0")
  case True
  then show ?thesis by (simp add: ring_list_def)
next
  case False
  let ?z = "rg_zero r" and ?s = "rg_storage r"
  have z: "?z < ring_size r" using assms(1) False by (auto simp: ring_ok_def)
  have L: "ring_list r = drop ?z ?s @ take ?z ?s" using z by (simp add: ring_list_def rotate_drop_take)
  have "drop ?z ?s = take k (drop ?z ?s) @ drop (?z + k) ?s"
    by (metis append_take_drop_id drop_drop add.commute)
  moreover have "length (take k (drop ?z ?s)) = k" using assms(2) by simp
  ultimately have "take k (ring_list r) = take k (drop ?z ?s)" "drop k (ring_list r) = drop (?z + k) ?s @ take ?z ?s"
    using assms(2) unfolding L by (simp_all add: add.commute)
  with z assms(2) show ?thesis by (simp add: ring_list_def rotate_drop_take)
qed

lemma scrollDown_page_lemma:
  assumes "grid_ok g" "fullHorizontal g m" "fullVertical g m" and k_def: "k = min n (page_lines g)"
  shows "0 < rg_zero (gr_lines g) \<Longrightarrow> rg_zero (gr_lines g) < k \<Longrightarrow>
      scrollDown K T n attr m g = Inl OutOfBounds"
    and "rg_zero (gr_lines g) = 0 \<or> k \<le> rg_zero (gr_lines g) \<Longrightarrow>
      \<exists>g'. scrollDown K T n attr m g = Inr g' \<and> keeps g g' \<and> gr_linesUsed g' = gr_linesUsed g \<and>
        ring_list (gr_lines g') = replicate k (blank_row attr g) @ take (ring_lines g - k) (ring_list (gr_lines g))"
proof -
  note ok = grid_okD [OF assms(1)]
  let ?N = "ring_lines g" and ?z = "rg_zero (gr_lines g)" and ?L = "ring_list (gr_lines g)"
  have n2: "min (int n) (vertical_length m) = int k"
    using assms(3) by (auto simp: vertical_length_def fullVertical_def k_def)
  have k: "k \<le> ?N" using ok(6,7) by (simp add: k_def)
  from rotate_right_refines [OF ok(1,8) k] obtain r where
    r: "rotate_right (gr_lines g) k = Inr r" "ring_ok r" "ring_list r = rotate (?N - k) ?L" "ring_size r = ?N"
    by metis
  note z = rotate_right_zero [OF ok(1,8) k r(1)]
  have start: "pageAtScrollOffset (g\<lparr>gr_lines := r\<rparr>) 0 = Inr (rg_zero r)"
    using ring_index_0 [OF r(2)] r(4) ok(6,8) by (simp add: pageAtScrollOffset_def require_def historyLineCount_def)
  have unf: "scrollDown K T n attr m g =
      (if rg_zero r + k > ?N then Inl OutOfBounds
       else Inr (g\<lparr>gr_lines := r\<lparr>rg_storage := take (rg_zero r) (rg_storage r)
         @ map (line_reset (defaultLineFlags g) attr) (take k (drop (rg_zero r) (rg_storage r)))
         @ drop (rg_zero r + k) (rg_storage r)\<rparr>\<rparr>))"
    using assms(2,3) ok(11) r(1,4) start n2
    by (simp add: scrollDown_def Let_def defaultLineFlags_def)
  show "scrollDown K T n attr m g = Inl OutOfBounds" if "0 < ?z" "?z < k"
    using that z(1) k unf by simp
  show "\<exists>g'. scrollDown K T n attr m g = Inr g' \<and> keeps g g' \<and> gr_linesUsed g' = gr_linesUsed g \<and>
      ring_list (gr_lines g') = replicate k (blank_row attr g) @ take (?N - k) ?L" if zk: "?z = 0 \<or> k \<le> ?z"
  proof -
    have bound: "rg_zero r + k \<le> ?N" using z(1) k zk ok(1,8) by (auto simp: ring_ok_def split: if_splits)
    let ?r = "r\<lparr>rg_storage := take (rg_zero r) (rg_storage r)
         @ map (line_reset (defaultLineFlags g) attr) (take k (drop (rg_zero r) (rg_storage r)))
         @ drop (rg_zero r + k) (rg_storage r)\<rparr>"
    have rot: "ring_list r = drop (?N - k) ?L @ take (?N - k) ?L"
      unfolding r(3) using k ok(8) by (cases "k = 0") (simp_all add: rotate_drop_take)
    have "map (line_reset (defaultLineFlags g) attr) (drop (?N - k) ?L) = replicate k (blank_row attr g)"
      using k ok(9) by (intro nth_equalityI) (auto simp: line_reset_blank blank_row_def line_fits_def)
    then have list: "ring_list ?r = replicate k (blank_row attr g) @ take (?N - k) ?L"
      using reset_span [OF r(2), of k] bound r(4) k rot by simp
    have "ring_size ?r = ?N" using bound r(4) by simp
    moreover have "ring_ok ?r" using r(2,4) \<open>ring_size ?r = ?N\<close> by (simp add: ring_ok_def)
    ultimately have "grid_ok (g\<lparr>gr_linesUsed := gr_linesUsed g, gr_lines := ?r\<rparr>)"
      using assms(1) ok(6,7,9) list by (intro grid_ok_lines) (auto dest!: in_set_takeD)
    then show ?thesis using unf bound list \<open>ring_size ?r = ?N\<close> by (simp add: keeps_def)
  qed
qed

subsection \<open>Clearing\<close>

lemma clearHistory_lemma:
  assumes "grid_ok g"
  shows "\<exists>g'. clearHistory g = Inr g' \<and> grid_ok g' \<and> grid_history g' = [] \<and> grid_page g' = grid_page g"
proof -
  note ok = grid_okD [OF assms]
  let ?g = "g\<lparr>gr_linesUsed := page_lines g\<rparr>"
  have "grid_ok (g\<lparr>gr_linesUsed := page_lines g, gr_lines := gr_lines g\<rparr>)"
    using assms ok by (intro grid_ok_lines) auto
  then have g': "grid_ok ?g" by simp
  have "clearHistory g = Inr ?g" using grid_okD(11) [OF g'] by (simp add: clearHistory_def)
  moreover have "grid_page ?g = grid_page g" using view_split(2) [OF g'] view_split(2) [OF assms] by simp
  ultimately show ?thesis using g' by (simp add: grid_history_def)
qed

lemma grid_reset_lemma:
  assumes "grid_ok g"
  shows "\<exists>g'. grid_reset g = Inr g' \<and> grid_ok g' \<and> rg_zero (gr_lines g') = 0 \<and> grid_history g' = [] \<and>
    grid_page g' = replicate (page_lines g) (blank_row defaultAttributes g)"
proof -
  note ok = grid_okD [OF assms]
  have z: "rg_zero (gr_lines g) \<le> ring_lines g" using ok(1,8) by (auto simp: ring_ok_def)
  from rotate_right_refines [OF ok(1,8) z] obtain r where
    r: "rotate_right (gr_lines g) (rg_zero (gr_lines g)) = Inr r" "ring_ok r"
      "ring_list r = rotate (ring_lines g - rg_zero (gr_lines g)) (ring_list (gr_lines g))" "ring_size r = ring_lines g"
    by metis
  have fits: "line_fits (page_columns g) l" if "l \<in> set (ring_list r)" for l
    using that ok(9) unfolding r(3) by simp
  have "0 < ring_size r" "0 + page_lines g \<le> ring_size r" using ok(6-8) r(4) by simp_all
  from reset_lines_page [OF r(2) this fits, of "defaultLineFlags g" defaultAttributes] obtain q where
    q: "reset_lines (defaultLineFlags g) defaultAttributes [0..int (page_lines g) - 1] r = Inr q" "ring_ok q"
      "ring_size q = ring_lines g"
      "ring_list q = replicate (page_lines g) (blank_row defaultAttributes g) @ drop (page_lines g) (ring_list r)"
    unfolding r(4) blank_row_def by auto
  let ?g = "g\<lparr>gr_linesUsed := page_lines g, gr_lines := q\<rparr>"
  have g': "grid_ok ?g"
    using assms ok(6,7) q fits by (intro grid_ok_lines) (auto dest: in_set_dropD)
  have "rg_zero q = rg_zero r"
    using q(1) unfolding reset_lines_def
    by (rule fold_result_invariant [where P = "\<lambda>x. rg_zero x = rg_zero r", rotated 2])
      (auto simp: bind_result_eq_Inr dest: ring_set_zero)
  then have "rg_zero q = 0" using rotate_right_zero(1) [OF ok(1,8) z r(1)] by simp
  moreover have "grid_reset g = Inr ?g"
    using r(1) q(1) grid_okD(11) [OF g'] by (simp add: grid_reset_def)
  moreover have "grid_page ?g = replicate (page_lines g) (blank_row defaultAttributes g)"
    using view_split(2) [OF g'] q(4) by simp
  ultimately show ?thesis using g' by (intro exI [of _ ?g]) (simp add: grid_history_def)
qed

subsection \<open>Appending to a ring that is not in order\<close>

lemma push_back_split:
  assumes "ring_ok r"
  shows "ring_list (push_backs k v r)
    = take (ring_size r - rg_zero r) (ring_list r) @ replicate k v @ drop (ring_size r - rg_zero r) (ring_list r)"
proof (cases "ring_size r = 0")
  case True
  then show ?thesis using assms by (simp add: ring_list_def ring_ok_def)
next
  case False
  then have "0 < ring_size r" by simp
  then have z: "rg_zero r < ring_size r" using assms unfolding ring_ok_def by linarith
  then show ?thesis by (simp add: ring_list_def rotate_drop_take)
qed

lemma rotate_length: "rotate (length xs) xs = xs"
  by simp

lemma scrollUp_out_of_order:
  assumes "grid_ok g" "gr_historyLimit g = Infinite" "gr_linesUsed g = ring_lines g" "page_lines g = ring_lines g"
    and "ring_lines g + 1 < 2147483648" "rg_zero (gr_lines g) \<noteq> 0"
  shows "\<exists>g'. scrollUp_page 1 attr g = Inr (1, g') \<and>
    grid_view g' = take (page_lines g - rg_zero (gr_lines g)) (grid_page g) @ [blank_row defaultAttributes g]
      @ butlast (drop (page_lines g - rg_zero (gr_lines g)) (grid_page g)) @ [blank_row attr g]"
proof -
  note ok = grid_okD [OF assms(1)]
  let ?L = "ring_list (gr_lines g)" and ?N = "ring_lines g" and ?z = "rg_zero (gr_lines g)"
  define q where "q = g\<lparr>gr_lines := push_backs 1 (blank_row defaultAttributes g) (gr_lines g)\<rparr>"
  have q: "grid_ok q"
    using extend_ring_ok [OF assms(1,5,2)] by (simp add: q_def)
  have q': "gr_linesUsed q = ?N" "ring_lines q = Suc ?N" "page_lines q = ?N" "blank_row attr q = blank_row attr g"
    using assms(3,4) by (simp_all add: q_def blank_row_def defaultLineFlags_def)
  have one: "1 \<le> ring_lines q - gr_linesUsed q" using q' by simp
  from append_lines_view [OF q one, of attr] q'(4) obtain g' where
    g': "append_lines 1 attr q = Inr g'" "grid_view g' = grid_view q @ [blank_row attr g]"
    by auto
  have "scrollUp_page 1 attr g = scrollUp_step 1 attr q"
    using ok(11) assms(2,3) grid_okD(11) [OF q] by (simp add: scrollUp_page_def q_def blank_row_def)
  also have "\<dots> = Inr (1, g')" using q' g'(1) by (simp add: scrollUp_step_def require_def)
  finally have step: "scrollUp_page 1 attr g = Inr (1, g')" .
  have z: "?z < ?N" using ok(1,8) by (auto simp: ring_ok_def)
  have page: "grid_page g = ?L" using view_split(2) [OF assms(1)] assms(4) by simp
  have ne: "drop (?N - ?z) ?L \<noteq> []" using z assms(6) by simp
  have "ring_list (gr_lines q) = take (?N - ?z) ?L @ [blank_row defaultAttributes g] @ drop (?N - ?z) ?L"
    using push_back_split [OF ok(1), of 1 "blank_row defaultAttributes g"] by (simp add: q_def)
  moreover have "grid_window q = rotate (length (ring_list (gr_lines q))) (ring_list (gr_lines q))"
    unfolding grid_window_def length_ring_list using q'(1,3) by simp
  then have "grid_window q = ring_list (gr_lines q)" by (simp only: rotate_length)
  ultimately have win: "grid_window q = (take (?N - ?z) ?L @ [blank_row defaultAttributes g]
      @ butlast (drop (?N - ?z) ?L)) @ [last (drop (?N - ?z) ?L)]"
    by (simp only: append_assoc append_butlast_last_id [OF ne])
  moreover have "length (take (?N - ?z) ?L @ [blank_row defaultAttributes g] @ butlast (drop (?N - ?z) ?L)) = ?N"
    using z assms(6) by simp
  ultimately have "grid_view q = take (?N - ?z) ?L @ [blank_row defaultAttributes g] @ butlast (drop (?N - ?z) ?L)"
    unfolding grid_view_def q'(1) by (metis append_eq_conv_conj)
  with step g'(2) page assms(4) show ?thesis by simp
qed

subsection \<open>The invariant under all operations\<close>

text \<open>What every access to the ring keeps, whatever the offset.\<close>

definition rows_ok :: "nat \<Rightarrow> nat \<Rightarrow> 'c Line basic_ring \<Rightarrow> bool" where
  "rows_ok w n r \<longleftrightarrow> ring_ok r \<and> ring_size r = n \<and> 0 < n \<and> (\<forall>l \<in> set (rg_storage r). line_fits w l)"

lemma ring_index_less: "ring_index r y = Inr k \<Longrightarrow> k < ring_size r"
  by (auto simp: ring_index_def Let_def split: if_splits)

lemma rows_get: "ring_get r y = Inr l \<Longrightarrow> rows_ok w n r \<Longrightarrow> line_fits w l"
  by (auto simp: ring_get_def bind_result_eq_Inr rows_ok_def dest!: ring_index_less)

lemma rows_set: "ring_set r y v = Inr r' \<Longrightarrow> rows_ok w n r \<Longrightarrow> line_fits w v \<Longrightarrow> rows_ok w n r'"
  by (auto simp: ring_set_def bind_result_eq_Inr rows_ok_def ring_ok_def dest!: set_update_subset_insert [THEN subsetD])

lemma rows_rotate_left: "rotate_left r k = Inr r' \<Longrightarrow> rows_ok w n r \<Longrightarrow> rows_ok w n r'"
  by (auto simp: rotate_left_def rows_ok_def ring_ok_def split: if_splits intro: less_max_iff_disj [THEN iffD2])

lemma rows_rotate_right: "rotate_right r k = Inr r' \<Longrightarrow> rows_ok w n r \<Longrightarrow> rows_ok w n r'"
  by (auto simp: rotate_right_def rows_ok_def ring_ok_def split: if_splits intro: less_max_iff_disj [THEN iffD2])

lemma rows_fold_set:
  assumes "fold_result (\<lambda>y r. bind_result (ring_get r y) (\<lambda>l. ring_set r y (f l))) ys r = Inr r'" "rows_ok w n r"
    and "\<And>l. line_fits w l \<Longrightarrow> line_fits w (f l)"
  shows "rows_ok w n r'"
  using assms(1)
  by (rule fold_result_invariant [where P = "rows_ok w n", rotated 2])
    (use assms(2,3) in \<open>auto simp: bind_result_eq_Inr intro: rows_set dest: rows_get\<close>)

lemma rows_fill:
  assumes "fill_lines v ys r = Inr r'" "rows_ok w n r" "line_fits w v"
  shows "rows_ok w n r'"
  using assms(1) unfolding fill_lines_def
  by (rule fold_result_invariant [where P = "rows_ok w n", rotated 2]) (use assms(2,3) in \<open>auto intro: rows_set\<close>)

lemma line_fits_reset [simp]: "line_fits w l \<Longrightarrow> line_fits w (line_reset flags attr l)"
  by (simp add: line_reset_blank line_fits_def) (simp add: blank_line_def trivial_blank_def)

lemma rows_reset:
  assumes "reset_lines flags attr ys r = Inr r'" "rows_ok w n r"
  shows "rows_ok w n r'"
  using assms unfolding reset_lines_def by (rule rows_fold_set) simp

lemma grid_ok_rows: "grid_ok g \<Longrightarrow> rows_ok (page_columns g) (ring_lines g) (gr_lines g)"
  using grid_okD [of g] by (auto simp: rows_ok_def ring_list_def)

lemma rows_keeps:
  assumes "grid_ok g" "rows_ok (page_columns g) (ring_lines g) r" "page_lines g \<le> u" "u \<le> ring_lines g"
  shows "keeps g (g\<lparr>gr_linesUsed := u, gr_lines := r\<rparr>)"
  using assms grid_ok_lines [OF assms(1), of r u] by (auto simp: keeps_def rows_ok_def ring_list_def)

lemma rows_keeps_lines:
  assumes "grid_ok g" "rows_ok (page_columns g) (ring_lines g) r"
  shows "keeps g (g\<lparr>gr_lines := r\<rparr>)"
  using rows_keeps [OF assms grid_okD(6,7) [OF assms(1)]] by simp

lemma rotate_lines_keeps: "rotate_lines d n attr g = Inr g' \<Longrightarrow> grid_ok g \<Longrightarrow> keeps g g'"
  by (auto simp: rotate_lines_def bind_result_eq_Inr intro!: rows_keeps_lines)
    (blast intro: rows_reset rows_rotate_left grid_ok_rows)

lemma append_lines_keeps:
  assumes "append_lines a attr g = Inr g'" "grid_ok g" "a \<le> ring_lines g - gr_linesUsed g"
  shows "keeps g g' \<and> gr_linesUsed g' = gr_linesUsed g + a"
proof -
  have "keeps g (g\<lparr>gr_linesUsed := gr_linesUsed g + a, gr_lines := r'\<rparr>)"
    if "fill_lines (blank_line (page_columns g) attr (defaultLineFlags g)) ys (gr_lines g) = Inr r" "rotate_left r a = Inr r'"
    for ys r r'
    using rows_keeps [OF assms(2)] rows_rotate_left [OF that(2)] rows_fill [OF that(1) grid_ok_rows [OF assms(2)]]
      assms(3) grid_okD(6,7) [OF assms(2)] by simp
  with assms(1) show ?thesis by (auto simp: append_lines_def bind_result_eq_Inr)
qed

lemma scrollUp_page_keeps:
  assumes "scrollUp_page n attr g = Inr (k, g')" "grid_ok g" "gr_historyLimit g \<noteq> Infinite"
  shows "keeps g g'"
proof -
  have step: "scrollUp_step n attr g = Inr (k, g')"
    using assms by (auto simp: scrollUp_page_def grid_okD(11))
  have "keeps g g''" if "append_lines (min n (ring_lines g - gr_linesUsed g)) attr g = Inr g1"
      "rotate_lines d n attr g1 = Inr g''" for d g1 g''
    using append_lines_keeps [OF that(1) assms(2)] rotate_lines_keeps [OF that(2)]
    by (auto simp: keeps_def)
  with step assms(2) show ?thesis
    by (auto simp: scrollUp_step_def bind_result_eq_Inr require_def keeps_refl
        dest: rotate_lines_keeps append_lines_keeps split: if_splits)
qed

text \<open>Rows of cells: a line that fits inflates to as many cells as the page has columns.\<close>

lemma line_fits_inflated:
  assumes "inflatedBuffer K T l = Inr (cs, l')" "line_fits w l"
  shows "line_fits w l'" "length cs = w"
  using assms inflate_length [of K T _ cs]
  by (auto simp: inflatedBuffer_def line_fits_def line_size_def bind_result_eq_Inr split: LineStorage.splits)

lemma line_fits_cells [simp]: "line_fits w (l\<lparr>line_storage := InflatedBuffer cs\<rparr>) \<longleftrightarrow> length cs = w"
  by (simp add: line_fits_def line_size_def)

lemma useCellAt_keeps:
  assumes "useCellAt K T y column g = Inr (cs, g')" "grid_ok g"
  shows "keeps g g'" "length cs = page_columns g"
proof -
  from assms(1) obtain l l' r where l: "ring_get (gr_lines g) y = Inr l" "inflatedBuffer K T l = Inr (cs, l')"
      "ring_set (gr_lines g) y l' = Inr r" "g' = g\<lparr>gr_lines := r\<rparr>"
    by (auto simp: useCellAt_def lineAt_def bind_result_eq_Inr split: if_splits)
  note rows = grid_ok_rows [OF assms(2)]
  note fits = line_fits_inflated [OF l(2) rows_get [OF l(1) rows]]
  show "keeps g g'" using rows_keeps_lines [OF assms(2) rows_set [OF l(3) rows fits(1)]] l(4) by simp
  show "length cs = page_columns g" by (rule fits(2))
qed

lemma put_cells_keeps:
  assumes "put_cells y cs g = Inr g'" "grid_ok g" "length cs = page_columns g"
  shows "keeps g g'"
  using assms(1) rows_keeps_lines [OF assms(2) rows_set [OF _ grid_ok_rows [OF assms(2)]]] assms(3)
  by (auto simp: put_cells_def bind_result_eq_Inr)

lemma map_result_length: "map_result f xs = Inr ys \<Longrightarrow> length ys = length xs"
  by (induction xs arbitrary: ys) (auto simp: bind_result_eq_Inr)

lemma copy_row_keeps:
  assumes "copy_row K T target source left n g = Inr g'" "grid_ok g" "0 \<le> left"
  shows "keeps g g'"
proof -
  from assms(1) obtain ts0 g1 ss g2 ts g3 where s: "useCellAt K T target left g = Inr (ts0, g1)"
      "useCellAt K T source left g1 = Inr (ss, g2)" "useCellAt K T target left g2 = Inr (ts, g3)"
      "0 \<le> n" "left + n \<le> int (length ss)" "left + n \<le> int (length ts)"
      "put_cells target (take (nat left) ts
        @ map (\<lambda>(t, s). op_assign K t s) (zip (take (nat n) (drop (nat left) ts)) (take (nat n) (drop (nat left) ss)))
        @ drop (nat (left + n)) ts) g3 = Inr g'"
    by (auto simp: copy_row_def bind_result_eq_Inr not_less split: if_splits)
  have k1: "keeps g g1" by (rule useCellAt_keeps(1) [OF s(1) assms(2)])
  have k2: "keeps g1 g2" using useCellAt_keeps(1) [OF s(2)] k1 by (simp add: keeps_def)
  have k3: "keeps g2 g3" using useCellAt_keeps(1) [OF s(3)] k2 by (simp add: keeps_def)
  have len: "length ss = page_columns g" "length ts = page_columns g"
    using useCellAt_keeps(2) [OF s(2)] useCellAt_keeps(2) [OF s(3)] k1 k2 by (auto simp: keeps_def)
  have "keeps g3 g'"
    using s(7)
  proof (rule put_cells_keeps)
    show "length (take (nat left) ts
        @ map (\<lambda>(t, s). op_assign K t s) (zip (take (nat n) (drop (nat left) ts)) (take (nat n) (drop (nat left) ss)))
        @ drop (nat (left + n)) ts) = page_columns g3"
      using len s(4-6) assms(3) k1 k2 k3 by (auto simp: keeps_def nat_add_distrib min_def nat_le_iff)
  qed (use k3 in \<open>simp add: keeps_def\<close>)
  with k1 k2 k3 show ?thesis by (blast intro: keeps_trans)
qed

lemma change_row_keeps:
  assumes "change_row K T f y left n g = Inr g'" "grid_ok g" "0 \<le> left"
  shows "keeps g g'"
proof -
  from assms(1) obtain cs g1 changed where s: "useCellAt K T y left g = Inr (cs, g1)" "0 \<le> n"
      "left + n \<le> int (length cs)" "map_result f (take (nat n) (drop (nat left) cs)) = Inr changed"
      "put_cells y (take (nat left) cs @ changed @ drop (nat (left + n)) cs) g1 = Inr g'"
    by (auto simp: change_row_def bind_result_eq_Inr not_less split: if_splits)
  note k = useCellAt_keeps [OF s(1) assms(2)]
  have "keeps g1 g'"
    using s(5)
  proof (rule put_cells_keeps)
    show "length (take (nat left) cs @ changed @ drop (nat (left + n)) cs) = page_columns g1"
      using k s(2,3) assms(3) map_result_length [OF s(4)]
      by (auto simp: keeps_def nat_add_distrib min_def nat_le_iff)
  qed (use k in \<open>simp add: keeps_def\<close>)
  with k show ?thesis by (blast intro: keeps_trans)
qed

lemma keeps_fold:
  assumes "fold_result f xs g = Inr g'" "grid_ok g" "\<And>x g g'. f x g = Inr g' \<Longrightarrow> grid_ok g \<Longrightarrow> keeps g g'"
  shows "keeps g g'"
proof (rule fold_result_invariant [where P = "keeps g", OF _ keeps_refl [OF assms(2)] assms(1)])
  fix x s s'
  assume s: "keeps g s" "f x s = Inr s'"
  then have "keeps s s'" using assms(3) [OF s(2)] unfolding keeps_def by blast
  with s(1) show "keeps g s'" by (rule keeps_trans)
qed

lemma scrollLeft_row_keeps:
  assumes "scrollLeft_row K T attr m y g = Inr g'" "grid_ok g"
  shows "keeps g g'"
proof -
  let ?a = "nat (mg_left m)" and ?c = "nat (mg_right m)"
  obtain l cs l' where l: "ring_get (gr_lines g) y = Inr l" "inflatedBuffer K T l = Inr (cs, l')"
    using assms(1) by (auto simp: scrollLeft_row_def lineAt_def bind_result_eq_Inr)
  have c: "0 \<le> mg_left m" "mg_left m \<le> mg_right m" "mg_right m < int (length cs)"
    using assms(1) l by (auto simp: scrollLeft_row_def lineAt_def split: if_splits)
  define rotated where "rotated = take ?a cs @ rotate1 (take (?c + 1 - ?a) (drop ?a cs)) @ drop (?c + 1) cs"
  obtain v r where r: "ring_set (gr_lines g) y (l'\<lparr>line_storage := InflatedBuffer (rotated[?c := v])\<rparr>) = Inr r"
      "g' = g\<lparr>gr_lines := r\<rparr>"
    using assms(1) l c by (auto simp: scrollLeft_row_def lineAt_def Let_def bind_result_eq_Inr rotated_def)
  note rows = grid_ok_rows [OF assms(2)]
  have len: "length cs = page_columns g" by (rule line_fits_inflated(2) [OF l(2) rows_get [OF l(1) rows]])
  have "length rotated = page_columns g" using c len by (simp add: rotated_def)
  then have "rows_ok (page_columns g) (ring_lines g) r" by (intro rows_set [OF r(1) rows]) simp
  then show ?thesis using rows_keeps_lines [OF assms(2)] r(2) by simp
qed

lemma scrollLeft_keeps: "scrollLeft K T attr m g = Inr g' \<Longrightarrow> grid_ok g \<Longrightarrow> keeps g g'"
  unfolding scrollLeft_def by (rule keeps_fold) (auto intro: scrollLeft_row_keeps)

text \<open>A margin within the page.\<close>

definition margin_ok :: "PageSize \<Rightarrow> Margin \<Rightarrow> bool" where
  "margin_ok ps m \<longleftrightarrow> 0 \<le> mg_top m \<and> mg_top m \<le> mg_bottom m \<and> mg_bottom m < int (ps_lines ps) \<and>
    0 \<le> mg_left m \<and> mg_left m \<le> mg_right m \<and> mg_right m < int (ps_columns ps)"

lemma region_keeps:
  assumes "fold_result (\<lambda>y. copy_row K T y (src y) left n) xs g = Inr g1"
    and "fold_result (\<lambda>y. change_row K T f y left n) ys g1 = Inr g'" "grid_ok g" "0 \<le> left"
  shows "keeps g g'"
proof -
  have copied: "keeps g g1"
    using assms(1,3) by (rule keeps_fold) (use assms(4) in \<open>blast intro: copy_row_keeps\<close>)
  then have "grid_ok g1" by (simp add: keeps_def)
  with assms(2) have "keeps g1 g'"
    by (rule keeps_fold) (use assms(4) in \<open>blast intro: change_row_keeps\<close>)
  with copied show ?thesis by (rule keeps_trans)
qed

lemma scrollUp_keeps:
  assumes "scrollUp K T n attr m g = Inr (k, g')" "grid_ok g" "gr_historyLimit g \<noteq> Infinite"
    and "margin_ok (gr_pageSize g) m"
  shows "keeps g g'"
proof -
  note ok = grid_okD [OF assms(2)]
  have req: "require (0 \<le> mg_left m \<and> mg_right m < int (page_columns g) \<and> 0 \<le> mg_top m \<and>
      mg_bottom m < int (page_lines g)) g = Inr g"
    using assms(4) by (simp add: require_def margin_ok_def)
  consider "fullHorizontal g m" "fullVertical g m" | "fullHorizontal g m" "\<not> fullVertical g m" | "\<not> fullHorizontal g m"
    by blast
  then show ?thesis
  proof cases
    case 1
    with assms(1) have "scrollUp_page n attr g = Inr (k, g')" by (simp add: scrollUp_def Let_def ok(11) req)
    then show ?thesis using assms(2,3) by (rule scrollUp_page_keeps)
  next
    case 2
    from scrollUp_margin_lemma [OF assms(2) 2, of "nat (mg_top m)" "nat (mg_bottom m)" K T n attr] assms(1,4)
    show ?thesis by (auto simp: margin_ok_def)
  next
    case 3
    let ?n2 = "min (int n) (vertical_length m)"
    from assms(1) 3 obtain g1 where s:
      "fold_result (\<lambda>y. copy_row K T y (y + ?n2) (mg_left m) (horizontal_length m)) [mg_top m..mg_bottom m - ?n2] g = Inr g1"
      "fold_result (\<lambda>y. change_row K T (\<lambda>c. Inr (op_reset K attr c)) y (mg_left m) (horizontal_length m))
        [mg_bottom m - ?n2 + 1..mg_bottom m] g1 = Inr g'"
      by (auto simp: scrollUp_def Let_def ok(11) req bind_result_eq_Inr require_def split: if_splits)
    show ?thesis by (rule region_keeps [OF s assms(2)]) (use assms(4) in \<open>simp add: margin_ok_def\<close>)
  qed
qed

lemma scrollDown_keeps:
  assumes "scrollDown K T n attr m g = Inr g'" "grid_ok g" "margin_ok (gr_pageSize g) m"
  shows "keeps g g'"
proof -
  note ok = grid_okD [OF assms(2)]
  consider "fullHorizontal g m" "fullVertical g m" | "fullHorizontal g m" "\<not> fullVertical g m" | "\<not> fullHorizontal g m"
    by blast
  then show ?thesis
  proof cases
    case 1
    let ?z = "rg_zero (gr_lines g)"
    note page = scrollDown_page_lemma [OF assms(2) 1 refl, of n K T attr]
    have "?z = 0 \<or> min n (page_lines g) \<le> ?z"
    proof (rule ccontr)
      assume "\<not> (?z = 0 \<or> min n (page_lines g) \<le> ?z)"
      then have "0 < ?z" "?z < min n (page_lines g)" by linarith+
      with page(1) assms(1) show False by simp
    qed
    from page(2) [OF this] assms(1) show ?thesis by auto
  next
    case 2
    from scrollDown_margin_lemma [OF assms(2) 2, of "nat (mg_top m)" "nat (mg_bottom m)" K T n attr] assms(1,3)
    show ?thesis by (auto simp: margin_ok_def)
  next
    case 3
    let ?n = "min (int n) (vertical_length m)"
    from assms(1) 3 obtain g1 where s:
      "fold_result (\<lambda>y. copy_row K T y (y - ?n) (mg_left m) (horizontal_length m))
        (rev [mg_bottom m - ?n..mg_bottom m]) g = Inr g1"
      "fold_result (\<lambda>y. change_row K T (\<lambda>c. bind_result (op_make K attr 0) (\<lambda>v. Inr (op_assign K c v))) y
          (mg_left m) (horizontal_length m)) [mg_top m..mg_top m + ?n - 1] g1 = Inr g'"
      by (auto simp: scrollDown_def Let_def ok(11) bind_result_eq_Inr)
    show ?thesis by (rule region_keeps [OF s assms(2)]) (use assms(3) in \<open>simp add: margin_ok_def\<close>)
  qed
qed

text \<open>Any sequence of the operations that scroll, clear and reset.\<close>

datatype grid_op =
    ScrollUp nat GraphicsAttributes Margin
  | ScrollDown nat GraphicsAttributes Margin
  | ScrollLeft GraphicsAttributes Margin
  | ClearHistory
  | Reset

fun grid_step :: "'c CellOps \<Rightarrow> ('d, 'm) TextLib_scheme \<Rightarrow> grid_op \<Rightarrow> 'c Grid \<Rightarrow> 'c Grid result" where
  "grid_step K T (ScrollUp n attr m) g = bind_result (scrollUp K T n attr m g) (\<lambda>(k, g). Inr g)"
| "grid_step K T (ScrollDown n attr m) g = scrollDown K T n attr m g"
| "grid_step K T (ScrollLeft attr m) g = scrollLeft K T attr m g"
| "grid_step K T ClearHistory g = clearHistory g"
| "grid_step K T Reset g = grid_reset g"

fun op_margin_ok :: "PageSize \<Rightarrow> grid_op \<Rightarrow> bool" where
  "op_margin_ok ps (ScrollUp n attr m) = margin_ok ps m"
| "op_margin_ok ps (ScrollDown n attr m) = margin_ok ps m"
| "op_margin_ok ps (ScrollLeft attr m) = margin_ok ps m"
| "op_margin_ok ps ClearHistory = True"
| "op_margin_ok ps Reset = True"

lemma grid_step_keeps:
  assumes "grid_step K T a g = Inr g'" "grid_ok g" "gr_historyLimit g \<noteq> Infinite" "op_margin_ok (gr_pageSize g) a"
  shows "keeps g g'"
proof (cases a)
  case (ScrollUp n attr m)
  with assms show ?thesis by (auto simp: bind_result_eq_Inr intro: scrollUp_keeps)
next
  case (ScrollDown n attr m)
  with assms show ?thesis by (auto intro: scrollDown_keeps)
next
  case (ScrollLeft attr m)
  with assms show ?thesis by (auto intro: scrollLeft_keeps)
next
  case ClearHistory
  with clearHistory_lemma [OF assms(2)] assms(1) show ?thesis by (auto simp: keeps_def clearHistory_def require_def split: if_splits)
next
  case Reset
  then have "keeps g (g\<lparr>gr_linesUsed := page_lines g, gr_lines := r'\<rparr>)"
    if "rotate_right (gr_lines g) z = Inr r" "reset_lines f a' ys r = Inr r'" for z r f a' ys r'
    using that assms(2) grid_okD(6,7) [OF assms(2)] grid_ok_rows [OF assms(2)]
    by (intro rows_keeps) (auto intro: rows_reset rows_rotate_right)
  with Reset assms(1) show ?thesis by (auto simp: grid_reset_def bind_result_eq_Inr require_def split: if_splits)
qed

subsection \<open>Properties\<close>

text \<open>A page of two lines and two columns in a ring of \<open>n\<close> blank lines, for the instances below.\<close>

definition sample_grid :: "MaxHistoryLineCount \<Rightarrow> nat \<Rightarrow> nat \<Rightarrow> nat \<Rightarrow> CompactCell Grid" where
  "sample_grid limit n zero used =
    \<lparr>gr_pageSize = \<lparr>ps_lines = 2, ps_columns = 2\<rparr>, gr_reflowOnResize = False, gr_historyLimit = limit,
     gr_lines = \<lparr>rg_storage = replicate n (blank_line 2 defaultAttributes 0), rg_zero = zero\<rparr>,
     gr_linesUsed = used\<rparr>"

lemma sample_grid_ok:
  "2 \<le> used \<Longrightarrow> used \<le> n \<Longrightarrow> n < 100 \<Longrightarrow> zero < n \<Longrightarrow> limit = HistoryLimit (n - 2) \<or> limit = Infinite \<Longrightarrow>
    grid_ok (sample_grid limit n zero used)"
  by (auto simp: sample_grid_def grid_ok_def ring_ok_def verifyState_def totalLineCount_def maxHistoryLineCount_def
      list_all_iff)

lemma sample_grid_simps [simp]:
  "gr_pageSize (sample_grid limit n zero used) = \<lparr>ps_lines = 2, ps_columns = 2\<rparr>"
  "gr_historyLimit (sample_grid limit n zero used) = limit" "ring_lines (sample_grid limit n zero used) = n"
  "gr_linesUsed (sample_grid limit n zero used) = used" "rg_zero (gr_lines (sample_grid limit n zero used)) = zero"
  by (simp_all add: sample_grid_def)

definition whole_page :: Margin where
  "whole_page = \<lparr>mg_top = 0, mg_bottom = 1, mg_left = 0, mg_right = 1\<rparr>"

lemma scroll_zero:
  "\<exists>g. scrollUp_page 1 defaultAttributes (sample_grid (HistoryLimit 0) 2 0 2) = Inr (1, g) \<and> rg_zero (gr_lines g) = 1"
  by (simp add: sample_grid_def scrollUp_page_def scrollUp_step_def rotate_lines_def rotate_left_def require_def
     verifyState_def totalLineCount_def maxHistoryLineCount_def reset_lines_def ring_get_def ring_set_def ring_index_def
     is_long_def to_size_t_nonneg upto.simps numeral_2_eq_2 numeral_3_eq_3 mod_Suc)

text \<open>
  C21. With a limited history, scrolling the page up by \<open>n\<close> lines appends \<open>n\<close> blank lines to what
  history and page show together and drops only the oldest lines that the ring has no room for;
  it returns, and keeps the invariant. The ring never shows a line twice or out of order.
\<close>

theorem scrollUp_view:
  assumes "grid_ok g" "gr_historyLimit g = HistoryLimit m" "n \<le> ring_lines g"
  shows "\<exists>k g'. scrollUp_page n attr g = Inr (k, g') \<and> grid_ok g' \<and> gr_pageSize g' = gr_pageSize g \<and>
    gr_linesUsed g' = min (gr_linesUsed g + n) (ring_lines g) \<and>
    grid_view g' = drop (gr_linesUsed g + n - ring_lines g) (grid_view g @ replicate n (blank_row attr g))"
  using assms by (rule scrollUp_limited_lemma)

theorem scrollUp_view_witness:
  "\<exists>k g'. scrollUp_page 2 defaultAttributes (sample_grid (HistoryLimit 1) 3 1 3) = Inr (k, g') \<and> grid_ok g' \<and>
    length (grid_view g') = 3"
proof -
  have "grid_ok (sample_grid (HistoryLimit 1) 3 1 3)" by (rule sample_grid_ok) simp_all
  from scrollUp_view [OF this, of 1 2 defaultAttributes] show ?thesis
    by (auto simp: length_grid_view [symmetric])
qed

text \<open>
  With an unlimited history, scrolling up loses no line: as long as the vector is in the order
  of the view, the ring grows, the view gains the blank lines at its end, and the vector stays in
  order, so that this goes on for any number of scrolls.
\<close>

theorem scrollUp_unlimited_view:
  assumes "grid_ok g" "in_order g" "gr_historyLimit g = Infinite"
    and "ring_lines g + n < 2147483648" "0 < n"
  shows "\<exists>g'. scrollUp_page n attr g = Inr (n, g') \<and> grid_ok g' \<and> in_order g' \<and>
    gr_pageSize g' = gr_pageSize g \<and> grid_view g' = grid_view g @ replicate n (blank_row attr g)"
  using assms by (rule scrollUp_unlimited_lemma)

theorem scrollUp_unlimited_view_witness:
  "\<exists>g'. scrollUp_page 2 defaultAttributes (sample_grid Infinite 2 0 2) = Inr (2, g') \<and> length (grid_view g') = 4"
proof -
  let ?g = "sample_grid Infinite 2 0 2"
  have ok: "grid_ok ?g" by (rule sample_grid_ok) simp_all
  have "in_order ?g" by (simp add: in_order_def)
  from scrollUp_unlimited_view [OF ok this, of 2 defaultAttributes] length_grid_view [OF ok]
  show ?thesis by auto
qed

text \<open>
  The condition is needed: when the vector is not in the order of the view, as after scrolling
  down, \<open>emplace_back\<close> puts the new line into the middle of the page, and the line at the bottom of
  the page is overwritten.
\<close>

theorem scrollUp_unlimited_corrupts:
  assumes "grid_ok g" "gr_historyLimit g = Infinite" "gr_linesUsed g = ring_lines g" "page_lines g = ring_lines g"
    and "ring_lines g + 1 < 2147483648" "rg_zero (gr_lines g) \<noteq> 0"
  shows "\<exists>g'. scrollUp_page 1 attr g = Inr (1, g') \<and>
    grid_view g' = take (page_lines g - rg_zero (gr_lines g)) (grid_page g) @ [blank_row defaultAttributes g]
      @ butlast (drop (page_lines g - rg_zero (gr_lines g)) (grid_page g)) @ [blank_row attr g]"
  using assms by (rule scrollUp_out_of_order)

theorem scrollUp_unlimited_corrupts_witness:
  "\<exists>g'. scrollUp_page 1 defaultAttributes (sample_grid Infinite 2 1 2) = Inr (1, g') \<and>
    grid_view g' = take 1 (grid_page (sample_grid Infinite 2 1 2))
      @ replicate 2 (blank_row defaultAttributes (sample_grid Infinite 2 1 2))"
proof -
  let ?g = "sample_grid Infinite 2 1 2"
  have ok: "grid_ok ?g" by (rule sample_grid_ok) simp_all
  have "butlast (drop 1 (grid_page ?g)) = []" using length_grid_page [OF ok] by (simp add: butlast_conv_take)
  with scrollUp_unlimited_corrupts [OF ok, of defaultAttributes] show ?thesis by (simp add: numeral_2_eq_2)
qed

text \<open>
  C23. Scrolling in a margin that spans the page's width but not its height moves the lines between
  the margin's ends: up, the first lines are gone and blank ones follow the rest; down, blank lines
  come first and the last ones are gone. The lines outside of the margin and the history stay.
\<close>

theorem scroll_margin_moves:
  assumes "grid_ok g" "fullHorizontal g m" "\<not> fullVertical g m"
    and "mg_top m = int t" "mg_bottom m = int b" "t \<le> b" "b < page_lines g"
  shows "(\<exists>g'. scrollUp K T n attr m g = Inr (0, g') \<and> keeps g g' \<and> grid_history g' = grid_history g \<and>
      grid_page g' = take t (grid_page g) @ drop n (take (Suc b - t) (drop t (grid_page g)))
        @ replicate (min n (Suc b - t)) (blank_row attr g) @ drop (Suc b) (grid_page g)) \<and>
    (\<exists>g'. scrollDown K T n attr m g = Inr g' \<and> keeps g g' \<and> grid_history g' = grid_history g \<and>
      grid_page g' = take t (grid_page g) @ replicate (min n (Suc b - t)) (blank_row attr g)
        @ take (Suc b - t - n) (drop t (grid_page g)) @ drop (Suc b) (grid_page g))"
  using scrollUp_margin_lemma [OF assms] scrollDown_margin_lemma [OF assms] by blast

theorem scroll_margin_moves_witness:
  "\<exists>g'. scrollUp compact_ops byte_lib 1 defaultAttributes (whole_page\<lparr>mg_top := 1\<rparr>) (sample_grid (HistoryLimit 1) 3 1 3)
      = Inr (0, g') \<and> grid_history g' = grid_history (sample_grid (HistoryLimit 1) 3 1 3)"
proof -
  let ?g = "sample_grid (HistoryLimit 1) 3 1 3" and ?m = "whole_page\<lparr>mg_top := 1\<rparr>"
  have ok: "grid_ok ?g" by (rule sample_grid_ok) simp_all
  have m: "fullHorizontal ?g ?m" "\<not> fullVertical ?g ?m"
    by (simp_all add: fullHorizontal_def fullVertical_def whole_page_def)
  from scroll_margin_moves [OF ok m, of 1 1 compact_ops byte_lib 1 defaultAttributes] show ?thesis
    by (auto simp: whole_page_def)
qed

text \<open>
  C24. Scrolling the whole page down puts blank lines at its top and drops those at its bottom, but
  only where the page's first lines are contiguous in the vector; if the vector's end falls into
  the lines that are blanked, the loop over the span writes outside of the vector.
\<close>

theorem scrollDown_page:
  assumes "grid_ok g" "fullHorizontal g m" "fullVertical g m" "k = min n (page_lines g)"
  shows "if 0 < rg_zero (gr_lines g) \<and> rg_zero (gr_lines g) < k
    then scrollDown K T n attr m g = Inl OutOfBounds
    else \<exists>g'. scrollDown K T n attr m g = Inr g' \<and> keeps g g' \<and>
      grid_page g' = replicate k (blank_row attr g) @ take (page_lines g - k) (grid_page g)"
proof (cases "0 < rg_zero (gr_lines g) \<and> rg_zero (gr_lines g) < k")
  case True
  with scrollDown_page_lemma(1) [OF assms, of K T attr] show ?thesis by simp
next
  case False
  then have "rg_zero (gr_lines g) = 0 \<or> k \<le> rg_zero (gr_lines g)" by auto
  from scrollDown_page_lemma(2) [OF assms this, of K T attr] obtain g' where
    g': "scrollDown K T n attr m g = Inr g'" "keeps g g'"
      "ring_list (gr_lines g') = replicate k (blank_row attr g) @ take (ring_lines g - k) (ring_list (gr_lines g))"
    by blast
  have "grid_page g' = take (page_lines g) (ring_list (gr_lines g'))"
    using view_split(2) [of g'] g'(2) by (simp add: keeps_def)
  also have "\<dots> = replicate k (blank_row attr g) @ take (page_lines g - k) (grid_page g)"
  proof -
    have "page_lines g - k \<le> ring_lines g - k" "k \<le> page_lines g"
      using grid_okD(6,7) [OF assms(1)] assms(4) by simp_all
    then show ?thesis using view_split(2) [OF assms(1)] g'(3) by simp
  qed
  finally show ?thesis using g'(1,2) False by auto
qed

theorem scrollDown_page_witness:
  "\<exists>g. scrollUp_page 1 defaultAttributes (sample_grid (HistoryLimit 0) 2 0 2) = Inr (1, g) \<and>
    scrollDown compact_ops byte_lib 2 defaultAttributes whole_page g = Inl OutOfBounds"
proof -
  have "grid_ok (sample_grid (HistoryLimit 0) 2 0 2)" by (rule sample_grid_ok) simp_all
  from scrollUp_limited_lemma [OF this, of 0 1 defaultAttributes] scroll_zero obtain g where
    g: "scrollUp_page 1 defaultAttributes (sample_grid (HistoryLimit 0) 2 0 2) = Inr (1, g)" "grid_ok g"
      "gr_pageSize g = \<lparr>ps_lines = 2, ps_columns = 2\<rparr>" "rg_zero (gr_lines g) = 1"
    by auto
  have m: "fullHorizontal g whole_page" "fullVertical g whole_page"
    using g(3) by (simp_all add: fullHorizontal_def fullVertical_def whole_page_def)
  from scrollDown_page [OF g(2) m refl, of 2 compact_ops byte_lib defaultAttributes] g(1,3,4)
  show ?thesis by auto
qed

text \<open>
  Scrolling the whole page down also turns the history: with all lines in use, the newest lines of
  the history are gone, and the lines scrolled out at the bottom of the page appear as its oldest.
\<close>

theorem scrollDown_turns_history:
  assumes "grid_ok g" "fullHorizontal g m" "fullVertical g m" "n \<le> page_lines g" "n \<le> history_lines g"
    and "gr_linesUsed g = ring_lines g" "rg_zero (gr_lines g) = 0 \<or> n \<le> rg_zero (gr_lines g)"
  shows "\<exists>g'. scrollDown K T n attr m g = Inr g' \<and>
    grid_history g' = drop (page_lines g - n) (grid_page g) @ take (history_lines g - n) (grid_history g)"
proof -
  note ok = grid_okD [OF assms(1)]
  let ?L = "ring_list (gr_lines g)" and ?p = "page_lines g" and ?N = "ring_lines g"
  have "n = min n ?p" using assms(4) by simp
  from scrollDown_page_lemma(2) [OF assms(1-3) this assms(7), of K T attr] obtain g' where
    g': "scrollDown K T n attr m g = Inr g'" "keeps g g'" "gr_linesUsed g' = gr_linesUsed g"
      "ring_list (gr_lines g') = replicate n (blank_row attr g) @ take (?N - n) ?L"
    by blast
  have h: "?N - history_lines g = ?p" "?N - n - ?p = history_lines g - n" using assms(6) ok(6) by simp_all
  have "grid_history g' = drop ?p (ring_list (gr_lines g'))"
    using view_split(1) [of g'] g'(2,3) h(1) by (simp add: keeps_def)
  also have "\<dots> = drop (?p - n) (take (?N - n) ?L)" using assms(4) by (simp add: g'(4))
  also have "\<dots> = drop (?p - n) (take ?p ?L) @ take (history_lines g - n) (drop ?p ?L)"
  proof -
    have "?N - n = ?p + (?N - n - ?p)" using assms(5,6) ok(4,6) by linarith
    then have "take (?N - n) ?L = take ?p ?L @ take (?N - n - ?p) (drop ?p ?L)" by (metis take_add)
    then show ?thesis using assms(4) ok(6,7) h(2) by simp
  qed
  finally show ?thesis using view_split [OF assms(1)] h(1) g'(1) by simp
qed

theorem scrollDown_turns_history_witness:
  "\<exists>g'. scrollDown compact_ops byte_lib 1 defaultAttributes whole_page (sample_grid (HistoryLimit 1) 3 1 3) = Inr g' \<and>
    grid_history g' = drop 1 (grid_page (sample_grid (HistoryLimit 1) 3 1 3))"
proof -
  let ?g = "sample_grid (HistoryLimit 1) 3 1 3"
  have ok: "grid_ok ?g" by (rule sample_grid_ok) simp_all
  have m: "fullHorizontal ?g whole_page" "fullVertical ?g whole_page"
    by (simp_all add: fullHorizontal_def fullVertical_def whole_page_def)
  from scrollDown_turns_history [OF ok m, of 1 compact_ops byte_lib defaultAttributes] show ?thesis by simp
qed

end
