(* ===== verification/VT_GridResize.thy ===== *)
theory VT_GridResize
  imports VT_GridScroll
begin

unbundle bit_operations_syntax

text \<open>
  Resizing the grid. Changing the number of columns reflows the lines: the lemmas follow the cells
  through the loops over the lines and show that the text on the grid, the sequence of its cells
  that are not empty, stays what it was, for lines of cells and for runs of text. Changing the number
  of lines moves the border between history and page. The invariant holds in every grid that
  scrolling and resizing reach.
\<close>

subsection \<open>The text on a list of lines\<close>

definition line_cells :: "'c Line \<Rightarrow> 'c list" where
  "line_cells l = (case line_storage l of InflatedBuffer cs \<Rightarrow> cs | TrivialBuffer b \<Rightarrow> [])"

definition nonempty :: "'c CellOps \<Rightarrow> 'c list \<Rightarrow> 'c list" where
  "nonempty K cs = filter (\<lambda>c. \<not> op_empty K c) cs"

text \<open>The cells a line shows: the ones it has, or the ones its run of text inflates to.\<close>

definition shown_cells :: "'c CellOps \<Rightarrow> ('d, 'm) TextLib_scheme \<Rightarrow> 'c Line \<Rightarrow> 'c list" where
  "shown_cells K T l = (case inflatedBuffer K T l of Inr (cs, l') \<Rightarrow> cs | Inl e \<Rightarrow> [])"

definition content :: "'c CellOps \<Rightarrow> ('d, 'm) TextLib_scheme \<Rightarrow> 'c Line list \<Rightarrow> 'c list" where
  "content K T ls = nonempty K (concat (map (shown_cells K T) ls))"

text \<open>Lines of cells, and lines that are a run of printable US-ASCII text, as it is written to them.\<close>

definition plain :: "'c Line \<Rightarrow> bool" where
  "plain l \<longleftrightarrow> (case line_storage l of
     InflatedBuffer cs \<Rightarrow> True
   | TrivialBuffer b \<Rightarrow> list_all printable (tb_text b) \<and> tb_usedColumns b = length (tb_text b) \<and>
       length (tb_text b) \<le> tb_displayWidth b)"

text \<open>A run of text that would fill a line of a given width exactly.\<close>

definition text_fills :: "nat \<Rightarrow> 'c Line \<Rightarrow> bool" where
  "text_fills n l \<longleftrightarrow>
    (case line_storage l of InflatedBuffer cs \<Rightarrow> False | TrivialBuffer b \<Rightarrow> length (tb_text b) = n)"

lemma nonempty_append [simp]: "nonempty K (xs @ ys) = nonempty K xs @ nonempty K ys"
  by (simp add: nonempty_def)

lemma nonempty_Nil [simp]: "nonempty K [] = []"
  by (simp add: nonempty_def)

lemma nonempty_blanks [simp]: "list_all (op_empty K) cs \<Longrightarrow> nonempty K cs = []"
  by (simp add: nonempty_def list_all_iff)

lemma content_append [simp]: "content K T (xs @ ys) = content K T xs @ content K T ys"
  by (simp add: content_def)

lemma content_single: "content K T [l] = nonempty K (shown_cells K T l)"
  by (simp add: content_def)

lemma content_Nil [simp]: "content K T [] = []"
  by (simp add: content_def)

lemma shown_cells_inflated [simp]: "line_storage l = InflatedBuffer cs \<Longrightarrow> shown_cells K T l = cs"
  by (simp add: shown_cells_def inflatedBuffer_def)

lemma shown_cells_text [simp]:
  "line_storage l = TrivialBuffer b \<Longrightarrow> shown_cells K T l = (case inflate K T b of Inr cs \<Rightarrow> cs | Inl e \<Rightarrow> [])"
  by (simp add: shown_cells_def inflatedBuffer_def bind_result_def split: sum.splits)

lemma shown_cells_storage:
  "line_storage l = line_storage l' \<Longrightarrow> shown_cells K T l = shown_cells K T l'"
  by (cases "line_storage l'") simp_all

lemma content_lines_of_cells:
  assumes "\<forall>l \<in> set ls. \<exists>cs. line_storage l = InflatedBuffer cs"
  shows "content K T ls = nonempty K (concat (map line_cells ls))"
proof -
  have "map (shown_cells K T) ls = map line_cells ls"
    using assms by (intro map_cong refl) (auto simp: line_cells_def)
  then show ?thesis unfolding content_def by (simp only:)
qed

lemma plain_blank [simp]: "plain (blank_line w attr flags)"
  by (simp add: plain_def blank_line_def trivial_blank_def)

lemma nonempty_trim [simp]: "nonempty K (trim_blanks K cs) = nonempty K cs"
proof -
  obtain blanks where "cs = trim_blanks K cs @ blanks" "list_all (op_empty K) blanks"
    using trim_blanks_split by blast
  then show ?thesis by (metis append_Nil2 nonempty_append nonempty_blanks)
qed

subsection \<open>Splitting a logical line\<close>

definition wrap_flags :: "LineFlags \<Rightarrow> bool \<Rightarrow> nat \<Rightarrow> LineFlags" where
  "wrap_flags base noWrap i = base OR (if i = 0 \<and> noWrap then 0 else Wrapped)"

definition wraps_to :: "nat \<Rightarrow> LineFlags \<Rightarrow> bool \<Rightarrow> nat \<Rightarrow> 'c Line list \<Rightarrow> bool" where
  "wraps_to n base noWrap i ls \<longleftrightarrow>
    (\<forall>j < length ls. (\<exists>cs. line_storage (ls ! j) = InflatedBuffer cs \<and> length cs = n) \<and>
      line_flags (ls ! j) = wrap_flags base noWrap (i + j))"

lemma wraps_to_Nil [simp]: "wraps_to n base noWrap i []"
  by (simp add: wraps_to_def)

lemma wraps_to_Cons:
  "wraps_to n base noWrap i (l # ls) \<longleftrightarrow>
    (\<exists>cs. line_storage l = InflatedBuffer cs \<and> length cs = n) \<and> line_flags l = wrap_flags base noWrap i \<and>
    wraps_to n base noWrap (Suc i) ls"
  by (auto simp: wraps_to_def nth_Cons' less_Suc_eq_0_disj)

lemma wrap_lines_splits:
  assumes "0 < n"
  shows "\<exists>ls rest. wrap_lines n base noWrap i buffer target
      = Inr (i + length ls, rest, target\<lparr>rg_storage := rg_storage target @ ls\<rparr>) \<and>
    buffer = concat (map line_cells ls) @ rest \<and> length rest < n \<and> wraps_to n base noWrap i ls"
  using assms
proof (induction n base noWrap i buffer target rule: wrap_lines.induct)
  case (1 n base noWrap i buffer target)
  show ?case
  proof (cases "length buffer \<ge> n")
    case True
    let ?l = "\<lparr>line_storage = InflatedBuffer (take n buffer), line_flags = wrap_flags base noWrap i\<rparr>"
    from 1 True obtain ls rest where
      ih: "wrap_lines n base noWrap (Suc i) (drop n buffer) (push_back target ?l)
          = Inr (Suc i + length ls, rest, (push_back target ?l)\<lparr>rg_storage := rg_storage (push_back target ?l) @ ls\<rparr>)"
        "drop n buffer = concat (map line_cells ls) @ rest" "length rest < n" "wraps_to n base noWrap (Suc i) ls"
      unfolding wrap_flags_def by blast
    have "buffer = concat (map line_cells (?l # ls)) @ rest"
      using ih(2) by (simp add: line_cells_def) (metis append_take_drop_id)
    moreover have "wraps_to n base noWrap i (?l # ls)" using ih(4) True by (simp add: wraps_to_Cons)
    moreover have "wrap_lines n base noWrap i buffer target
        = Inr (i + length (?l # ls), rest, target\<lparr>rg_storage := rg_storage target @ ?l # ls\<rparr>)"
      using ih(1) True 1(2) by (subst wrap_lines.simps) (simp add: wrap_flags_def push_back_def)
    ultimately show ?thesis using ih(3) by blast
  next
    case False
    then show ?thesis using 1(2)
      by (subst wrap_lines.simps) (intro exI [of _ "[]"] exI [of _ buffer], simp)
  qed
qed

lemma wraps_to_length: "wraps_to n base noWrap i ls \<Longrightarrow> length (concat (map line_cells ls)) = n * length ls"
  by (induction ls arbitrary: i) (auto simp: wraps_to_Cons line_cells_def)

lemma wraps_to_fits:
  assumes "wraps_to n base noWrap i ls" "l \<in> set ls"
  shows "line_fits n l \<and> plain l"
  using assms by (auto simp: wraps_to_def in_set_conv_nth line_fits_def line_size_def plain_def)

context cell_interface
begin

lemma addNewWrappedLines_splits:
  assumes "0 < n"
  shows "\<exists>ls blanks. addNewWrappedLines K n buffer base noWrap target
      = Inr (length ls, target\<lparr>rg_storage := rg_storage target @ ls\<rparr>) \<and>
    concat (map line_cells ls) = buffer @ blanks \<and> list_all (op_empty K) blanks \<and> length blanks < n \<and>
    wraps_to n base noWrap 0 ls"
proof -
  from wrap_lines_splits [OF assms, of base noWrap 0 buffer target] obtain ls rest where
    s: "wrap_lines n base noWrap 0 buffer target = Inr (length ls, rest, target\<lparr>rg_storage := rg_storage target @ ls\<rparr>)"
      "buffer = concat (map line_cells ls) @ rest" "length rest < n" "wraps_to n base noWrap 0 ls"
    by auto
  show ?thesis
  proof (cases "rest = []")
    case True
    then show ?thesis using s assms by (intro exI [of _ ls] exI [of _ "[]"]) (simp add: addNewWrappedLines_def)
  next
    case False
    obtain c where c: "push_cells (n - length rest) (op_default K) rest = Inr (rest @ replicate (n - length rest) c)"
        "op_empty K c"
      using push_default by blast
    let ?l = "\<lparr>line_storage = InflatedBuffer (rest @ replicate (n - length rest) c),
      line_flags = wrap_flags base noWrap (length ls)\<rparr>"
    have "addNewWrappedLines K n buffer base noWrap target
        = Inr (length (ls @ [?l]), target\<lparr>rg_storage := rg_storage target @ ls @ [?l]\<rparr>)"
      using s(1) False c(1) by (simp add: addNewWrappedLines_def push_back_def wrap_flags_def)
    moreover have "concat (map line_cells (ls @ [?l])) = buffer @ replicate (n - length rest) c"
      using s(2) by (simp add: line_cells_def)
    moreover have "wraps_to n base noWrap 0 (ls @ [?l])"
      using s(3,4) by (auto simp: wraps_to_def nth_append less_Suc_eq)
    moreover have "list_all (op_empty K) (replicate (n - length rest) c)" using c(2) by (simp add: list_all_iff)
    moreover have "length (replicate (n - length rest) c) < n" using False assms by simp
    ultimately show ?thesis by blast
  qed
qed

lemma addNewWrappedLines_content:
  assumes "0 < n"
  shows "\<exists>ls. addNewWrappedLines K n buffer base noWrap target
      = Inr (length ls, target\<lparr>rg_storage := rg_storage target @ ls\<rparr>) \<and>
    (\<forall>l \<in> set ls. line_fits n l \<and> plain l) \<and> content K T ls = nonempty K buffer \<and> length ls \<le> length buffer"
proof -
  from addNewWrappedLines_splits [OF assms, of buffer base noWrap target] obtain ls blanks where
    a: "addNewWrappedLines K n buffer base noWrap target
        = Inr (length ls, target\<lparr>rg_storage := rg_storage target @ ls\<rparr>)"
      "concat (map line_cells ls) = buffer @ blanks" "list_all (op_empty K) blanks" "length blanks < n"
      "wraps_to n base noWrap 0 ls"
    by blast
  have "n * length ls < length buffer + n" using wraps_to_length [OF a(5)] a(2,4) by simp
  then have "length ls \<le> length buffer"
  proof (cases "length ls")
    case (Suc k)
    have "k \<le> n * k" using assms by simp
    moreover have "n * k < length buffer" using Suc \<open>n * length ls < length buffer + n\<close> by simp
    ultimately show ?thesis using Suc by linarith
  qed simp
  moreover have "\<forall>l \<in> set ls. \<exists>cs. line_storage l = InflatedBuffer cs"
    using a(5) unfolding wraps_to_def by (metis in_set_conv_nth)
  then have "content K T ls = nonempty K (buffer @ blanks)" using a(2) by (simp add: content_lines_of_cells)
  ultimately show ?thesis using a wraps_to_fits [OF a(5)] by auto
qed

end

subsection \<open>Shrinking columns\<close>

lemma setFlag_Wrappable:
  "wrappable (setFlag Wrappable True l)" "line_storage (setFlag f b l) = line_storage l"
proof -
  have "bit (line_flags (setFlag Wrappable True l) AND Wrappable) 0"
    by (simp add: setFlag_def Wrappable_def bit_simps)
  then show "wrappable (setFlag Wrappable True l)" by (auto simp: line_isFlagEnabled_def)
qed (simp add: setFlag_def)

context cell_interface
begin

lemma inflate_plain:
  assumes "ascii_lib T" "plain l" "line_fits w l" "0 < w"
  shows "\<exists>cs l'. inflatedBuffer K T l = Inr (cs, l') \<and> length cs = w \<and> shown_cells K T l = cs \<and>
    line_flags l' = line_flags l \<and> line_storage l' = InflatedBuffer cs"
proof (cases "line_storage l")
  case (InflatedBuffer cs)
  with assms(3) show ?thesis by (simp add: inflatedBuffer_def line_fits_def line_size_def)
next
  case (TrivialBuffer b)
  then have b: "list_all printable (tb_text b)" "tb_usedColumns b = length (tb_text b)"
      "length (tb_text b) \<le> tb_displayWidth b" "tb_displayWidth b = w"
    using assms(2,3) by (simp_all add: plain_def line_fits_def line_size_def)
  from inflate_ascii_cells [OF assms(1) b(1-3)] b(4) assms(4) obtain cs where
    cs: "inflate K T b = Inr cs" by auto
  then have "length cs = w" using inflate_length [of K T b cs] b(2-4) by simp
  with cs TrivialBuffer show ?thesis by (simp add: inflatedBuffer_def)
qed

text \<open>The text of a run does not depend on the width of the line.\<close>

lemma text_any_width:
  assumes "ascii_lib T" "list_all printable (tb_text b)" "tb_usedColumns b = length (tb_text b)"
    and "length (tb_text b) \<le> tb_displayWidth b" "0 < tb_displayWidth b" "length (tb_text b) \<le> n" "0 < n"
    and "line_storage l = TrivialBuffer b" "line_storage l' = TrivialBuffer (b\<lparr>tb_displayWidth := n\<rparr>)"
  shows "nonempty K (shown_cells K T l') = nonempty K (shown_cells K T l)"
proof -
  let ?cell = "text_cell K (tb_textAttributes b) (tb_hyperlink b)"
  from inflate_ascii_cells [OF assms(1-5)] obtain cs blank where
    1: "inflate K T b = Inr (cs @ replicate (tb_displayWidth b - length (tb_text b)) blank)"
      "map ?cell (tb_text b) = map Inr cs" "op_make K (tb_fillAttributes b) 0 = Inr blank"
    by blast
  from inflate_ascii_cells [OF assms(1), of "b\<lparr>tb_displayWidth := n\<rparr>"] assms(2,3,6,7) obtain cs' blank' where
    2: "inflate K T (b\<lparr>tb_displayWidth := n\<rparr>) = Inr (cs' @ replicate (n - length (tb_text b)) blank')"
      "map ?cell (tb_text b) = map Inr cs'" "op_make K (tb_fillAttributes b) 0 = Inr blank'"
    by auto
  have "map Inr cs' = (map Inr cs :: 'c result list)" using 1(2) 2(2) by simp
  then have "cs' = cs" by (simp add: inj_on_def inj_map_eq_map)
  moreover have "op_empty K blank" "op_empty K blank'" using make_ok [of "tb_fillAttributes b" 0] 1(3) 2(3) by auto
  ultimately show ?thesis using 1(1) 2(1) assms(8,9) by (simp add: list_all_iff)
qed

lemma content_blank:
  assumes "ascii_lib T" "0 < w"
  shows "content K T (replicate k (blank_line w attr flags)) = []"
proof -
  let ?b = "trivial_blank w attr"
  have b: "tb_text ?b = []" "tb_usedColumns ?b = 0" "tb_displayWidth ?b = w" by (simp_all add: trivial_blank_def)
  from inflate_ascii_cells [OF assms(1), of ?b] b assms(2) obtain blank where
    "inflate K T ?b = Inr (replicate w blank)" "op_make K (tb_fillAttributes ?b) 0 = Inr blank"
    by auto
  moreover from this(2) have "op_empty K blank" using make_ok [of "tb_fillAttributes ?b" 0] by auto
  ultimately have "content K T [blank_line w attr flags] = []"
    by (simp add: content_single blank_line_def list_all_iff)
  then show ?thesis
    by (induction k) (simp_all add: content_def)
qed

lemma reflow_plain:
  assumes "ascii_lib T" "plain l" "wrappable l" "0 < n" "\<not> text_fills n l"
    and "n \<le> length (shown_cells K T l)" "line_size l = length (shown_cells K T l)"
  shows "\<exists>rem l'. reflow K T n l = Inr (rem, l') \<and> line_fits n l' \<and> plain l' \<and>
    nonempty K (shown_cells K T l') @ nonempty K rem = nonempty K (shown_cells K T l) \<and>
    length rem \<le> length (shown_cells K T l) - n"
proof -
  have cut: "\<exists>rem l'. reflow_cells K n cs l0 = Inr (rem, l') \<and> line_fits n l' \<and> plain l' \<and>
      nonempty K (shown_cells K T l') @ nonempty K rem = nonempty K cs \<and> length rem \<le> length cs - n"
    if "line_storage l0 = InflatedBuffer cs" "line_flags l0 = line_flags l" "n \<le> length cs" for cs l0
  proof (cases "n = length cs")
    case True
    with that(1) show ?thesis by (simp add: reflow_cells_def plain_def line_fits_def line_size_def)
  next
    case False
    with that(3) have less: "n < length cs" by simp
    have "wrappable l0" using assms(3) that(2) by (simp add: line_isFlagEnabled_def)
    obtain rem l' where r: "reflow_cells K n cs l0 = Inr (rem, l')" using less by (simp add: reflow_cells_def)
    from reflow_cells_split [OF r less \<open>wrappable l0\<close>] obtain kept blanks where
      k: "line_storage l' = InflatedBuffer kept" "length kept = n" "cs = kept @ rem @ blanks"
        "list_all (op_empty K) blanks"
      by blast
    with r show ?thesis by (simp add: line_fits_def line_size_def plain_def)
  qed
  show ?thesis
  proof (cases "line_storage l")
    case (InflatedBuffer cs)
    with cut [of l cs] assms(6) show ?thesis by (simp add: reflow_def)
  next
    case (TrivialBuffer b)
    then have b: "list_all printable (tb_text b)" "tb_usedColumns b = length (tb_text b)"
        "length (tb_text b) \<le> tb_displayWidth b" "length (tb_text b) \<noteq> n"
        "tb_displayWidth b = length (shown_cells K T l)"
      using assms(2,5,7) by (simp_all add: plain_def text_fills_def line_size_def)
    have w: "0 < tb_displayWidth b" using b(5) assms(4,6) by linarith
    show ?thesis
    proof (cases "length (tb_text b) < n")
      case True
      let ?l = "l\<lparr>line_storage := TrivialBuffer (b\<lparr>tb_displayWidth := n\<rparr>)\<rparr>"
      have "nonempty K (shown_cells K T ?l) = nonempty K (shown_cells K T l)"
        using True assms(4) TrivialBuffer by (intro text_any_width [OF assms(1) b(1-3) w]) simp_all
      moreover have "reflow K T n l = Inr ([], ?l)" using True TrivialBuffer by (simp add: reflow_def)
      moreover have "line_fits n ?l" "plain ?l"
        using True b(1,2) by (simp_all add: line_fits_def line_size_def plain_def)
      ultimately show ?thesis by (intro exI [of _ "[]"] exI [of _ ?l]) simp
    next
      case False
      have "line_fits (tb_displayWidth b) l" using TrivialBuffer b(2,3) by (simp add: line_fits_def line_size_def)
      from inflate_plain [OF assms(1,2) this w] obtain cs l1 where
        i: "inflatedBuffer K T l = Inr (cs, l1)" "shown_cells K T l = cs" "line_flags l1 = line_flags l"
          "line_storage l1 = InflatedBuffer cs"
        by blast
      have "reflow K T n l = reflow_cells K n cs l1"
        using False b(4) TrivialBuffer i(1) by (simp add: reflow_def)
      with cut [OF i(4,3)] i(2) assms(6) show ?thesis by simp
    qed
  qed
qed

lemma shrink_carry:
  assumes lib: "ascii_lib T" and "plain l" "line_fits w l" "wrappable l" "0 < n" "n \<le> w" "\<not> text_fills n l"
  shows "\<exists>l1 s1 ls. (if ss_wrapped s \<noteq> []
       then
         if wrapped l \<and> inheritableFlags l = ss_flags s
         then bind_result (inflatedBuffer K T l) (\<lambda>(cs, l).
           Inr (l\<lparr>line_storage := InflatedBuffer (ss_wrapped s @ cs)\<rparr>, s))
         else
           bind_result (addNewWrappedLines K n (ss_wrapped s) (ss_flags s) False (ss_lines s))
             (\<lambda>(n, r). Inr (l, s\<lparr>ss_lines := r, ss_written := ss_written s + n, ss_flags := inheritableFlags l\<rparr>))
       else
         let l = setFlag Wrappable True l in Inr (l, s\<lparr>ss_flags := inheritableFlags l\<rparr>)) = Inr (l1, s1) \<and>
    ss_lines s1 = (ss_lines s)\<lparr>rg_storage := rg_storage (ss_lines s) @ ls\<rparr> \<and>
    ss_written s1 = ss_written s + length ls \<and> (\<forall>l \<in> set ls. line_fits n l \<and> plain l) \<and>
    plain l1 \<and> wrappable l1 \<and> \<not> text_fills n l1 \<and> n \<le> length (shown_cells K T l1) \<and>
    line_size l1 = length (shown_cells K T l1) \<and>
    length ls \<le> length (ss_wrapped s) \<and> length ls + length (shown_cells K T l1) \<le> length (ss_wrapped s) + w \<and>
    content K T ls @ nonempty K (shown_cells K T l1) = nonempty K (ss_wrapped s) @ content K T [l]"
proof -
  from assms(5,6) have "0 < w" by simp
  from inflate_plain [OF lib assms(2,3) this] obtain cs l' where
    i: "inflatedBuffer K T l = Inr (cs, l')" "length cs = w" "shown_cells K T l = cs" "line_flags l' = line_flags l"
    by blast
  have size: "line_size l = w" using assms(3) by (simp add: line_fits_def)
  show ?thesis
  proof (cases "ss_wrapped s = []")
    case True
    have st: "line_storage (setFlag Wrappable True l) = line_storage l" by (rule setFlag_Wrappable(2))
    then have "shown_cells K T (setFlag Wrappable True l) = cs" using shown_cells_storage i(3) by metis
    then show ?thesis using True i(2,3) size assms(2,6,7) st setFlag_Wrappable(1) [of l]
      by (simp add: Let_def plain_def text_fills_def line_size_def content_single)
  next
    case carried: False
    show ?thesis
    proof (cases "wrapped l \<and> inheritableFlags l = ss_flags s")
      case True
      let ?l = "l'\<lparr>line_storage := InflatedBuffer (ss_wrapped s @ cs)\<rparr>"
      have "wrappable ?l" using assms(4) i(4) by (simp add: line_isFlagEnabled_def)
      with True carried i assms(6) show ?thesis
        by (intro exI [of _ ?l] exI [of _ s] exI [of _ "[]"])
          (simp add: plain_def text_fills_def line_size_def content_single)
    next
      case False
      from addNewWrappedLines_content [OF assms(5), of "ss_wrapped s" "ss_flags s" False "ss_lines s" T] obtain ls where
        a: "addNewWrappedLines K n (ss_wrapped s) (ss_flags s) False (ss_lines s)
            = Inr (length ls, (ss_lines s)\<lparr>rg_storage := rg_storage (ss_lines s) @ ls\<rparr>)"
          "\<forall>l \<in> set ls. line_fits n l \<and> plain l" "content K T ls = nonempty K (ss_wrapped s)"
          "length ls \<le> length (ss_wrapped s)"
        by blast
      then show ?thesis using carried False i(2,3) size assms(2,4,6,7) by (auto simp: content_single)
    qed
  qed
qed

lemma shrink_line_content:
  assumes lib: "ascii_lib T" and "plain l" "line_fits w l" "wrappable l" "0 < n" "n \<le> w" "\<not> text_fills n l"
  shows "\<exists>s' ls. shrink_line K T n l s = Inr s' \<and>
    ss_lines s' = (ss_lines s)\<lparr>rg_storage := rg_storage (ss_lines s) @ ls\<rparr> \<and> ls \<noteq> [] \<and>
    ss_written s' = ss_written s + length ls \<and> (\<forall>l \<in> set ls. line_fits n l \<and> plain l) \<and>
    content K T ls @ nonempty K (ss_wrapped s') = nonempty K (ss_wrapped s) @ content K T [l] \<and>
    length ls + length (ss_wrapped s') \<le> length (ss_wrapped s) + w"
proof -
  from shrink_carry [OF assms, where s = s] obtain l1 s1 ls where s1: "shrink_line K T n l s =
        bind_result (reflow K T n l1) (\<lambda>(cs, l).
        bind_result (require (line_size l \<ge> n) l) (\<lambda>l.
          Inr (s1\<lparr>ss_wrapped := cs, ss_lines := push_back (ss_lines s1) l, ss_written := Suc (ss_written s1)\<rparr>)))"
      "ss_lines s1 = (ss_lines s)\<lparr>rg_storage := rg_storage (ss_lines s) @ ls\<rparr>"
      "ss_written s1 = ss_written s + length ls" "\<forall>l \<in> set ls. line_fits n l \<and> plain l"
      "plain l1" "wrappable l1" "\<not> text_fills n l1" "n \<le> length (shown_cells K T l1)"
      "line_size l1 = length (shown_cells K T l1)"
      "content K T ls @ nonempty K (shown_cells K T l1) = nonempty K (ss_wrapped s) @ content K T [l]"
      "length ls \<le> length (ss_wrapped s)" "length ls + length (shown_cells K T l1) \<le> length (ss_wrapped s) + w"
    by (auto simp: shrink_line_def)
  from reflow_plain [OF lib s1(5,6) assms(5) s1(7-9)] obtain rem l2 where
    l2: "reflow K T n l1 = Inr (rem, l2)" "line_fits n l2" "plain l2"
      "nonempty K (shown_cells K T l2) @ nonempty K rem = nonempty K (shown_cells K T l1)"
      "length rem \<le> length (shown_cells K T l1) - n"
    by blast
  have "length (ls @ [l2]) + length rem \<le> length (ss_wrapped s) + w"
    using s1(8,11,12) l2(5) assms(5,6) by simp
  have "shrink_line K T n l s = Inr (s1\<lparr>ss_wrapped := rem, ss_lines := push_back (ss_lines s1) l2, ss_written := Suc (ss_written s1)\<rparr>)"
    using s1(1) l2(1,2) by (simp add: require_def line_fits_def)
  with s1(2-4,10) l2(2-4) \<open>length (ls @ [l2]) + length rem \<le> length (ss_wrapped s) + w\<close> show ?thesis
    by (intro exI [of _ "s1\<lparr>ss_wrapped := rem, ss_lines := push_back (ss_lines s1) l2, ss_written := Suc (ss_written s1)\<rparr>"]
        exI [of _ "ls @ [l2]"]) (auto simp: push_back_def content_single)
qed

end

subsection \<open>Growing columns\<close>

context cell_interface
begin

lemma flushLogicalLine_content:
  assumes "0 < n"
  shows "\<exists>ls. flushLogicalLine K n s
      = Inr (s\<lparr>gs_lines := (gs_lines s)\<lparr>rg_storage := rg_storage (gs_lines s) @ ls\<rparr>, gs_buffer := []\<rparr>) \<and>
    (\<forall>l \<in> set ls. line_fits n l \<and> plain l) \<and> content K T ls = nonempty K (gs_buffer s) \<and> length ls \<le> length (gs_buffer s)"
proof (cases "gs_buffer s = []")
  case True
  then show ?thesis by (intro exI [of _ "[]"]) (simp add: flushLogicalLine_def)
next
  case False
  with addNewWrappedLines_content [OF assms, of "gs_buffer s" "gs_flags s" True "gs_lines s" T] show ?thesis
    by (auto simp: flushLogicalLine_def)
qed

lemma grow_line_content:
  assumes lib: "ascii_lib T" and "plain l" "line_fits w l" "0 < w" "w < n"
  shows "\<exists>s' ls. grow_line K T w n l s = Inr s' \<and>
    gs_lines s' = (gs_lines s)\<lparr>rg_storage := rg_storage (gs_lines s) @ ls\<rparr> \<and>
    (\<forall>l \<in> set ls. line_fits n l \<and> plain l) \<and>
    content K T ls @ nonempty K (gs_buffer s') = nonempty K (gs_buffer s) @ content K T [l] \<and>
    length ls + length (gs_buffer s') \<le> length (gs_buffer s) + w"
proof (cases "wrapped l")
  case True
  from inflate_plain [OF lib assms(2-4)] obtain cs l' where
    i: "inflatedBuffer K T l = Inr (cs, l')" "length cs = w" "shown_cells K T l = cs"
    by blast
  obtain blanks where "cs = trim_blanks K cs @ blanks" using trim_blanks_split by blast
  then have "length (trim_blanks K cs) \<le> w" using i(2) by (metis le_add1 length_append)
  with True i assms(3) show ?thesis
    by (intro exI [of _ "s\<lparr>gs_buffer := gs_buffer s @ trim_blanks K cs\<rparr>"] exI [of _ "[]"])
      (simp add: grow_line_def require_def line_fits_def trim_blank_right_def content_single)
next
  case False
  have n: "0 < n" using assms(4,5) by simp
  from flushLogicalLine_content [OF n, of s T] obtain ls where
    f: "flushLogicalLine K n s
        = Inr (s\<lparr>gs_lines := (gs_lines s)\<lparr>rg_storage := rg_storage (gs_lines s) @ ls\<rparr>, gs_buffer := []\<rparr>)"
      "\<forall>l \<in> set ls. line_fits n l \<and> plain l" "content K T ls = nonempty K (gs_buffer s)"
      "length ls \<le> length (gs_buffer s)"
    by blast
  show ?thesis
  proof (cases "line_storage l")
    case (TrivialBuffer b)
    let ?l = "l\<lparr>line_storage := TrivialBuffer (b\<lparr>tb_displayWidth := n\<rparr>)\<rparr>"
    let ?s = "s\<lparr>gs_lines := push_back ((gs_lines s)\<lparr>rg_storage := rg_storage (gs_lines s) @ ls\<rparr>) ?l, gs_buffer := []\<rparr>"
    have "grow_line K T w n l s = Inr ?s"
      using False TrivialBuffer f(1) assms(3) by (simp add: grow_line_def require_def line_fits_def)
    moreover have b: "list_all printable (tb_text b)" "tb_usedColumns b = length (tb_text b)"
        "length (tb_text b) \<le> tb_displayWidth b" "tb_displayWidth b = w"
      using assms(2,3) TrivialBuffer by (simp_all add: plain_def line_fits_def line_size_def)
    moreover have "line_fits n ?l" "plain ?l"
      using b assms(5) by (simp_all add: line_fits_def line_size_def plain_def)
    moreover have "nonempty K (shown_cells K T ?l) = nonempty K (shown_cells K T l)"
      using b(3,4) assms(4,5) TrivialBuffer n by (intro text_any_width [OF lib b(1-3)]) simp_all
    ultimately show ?thesis using f(2-4) assms(4)
      by (intro exI [of _ ?s] exI [of _ "ls @ [?l]"]) (auto simp: push_back_def content_single)
  next
    case (InflatedBuffer cs)
    have "length cs = w" using assms(3) InflatedBuffer by (simp add: line_fits_def line_size_def)
    moreover let ?s = "s\<lparr>gs_lines := (gs_lines s)\<lparr>rg_storage := rg_storage (gs_lines s) @ ls\<rparr>,
      gs_buffer := cs, gs_flags := line_flags l AND NOT Wrapped\<rparr>"
    have "grow_line K T w n l s = Inr ?s"
      using False InflatedBuffer f(1) assms(3) by (simp add: grow_line_def require_def line_fits_def)
    ultimately show ?thesis using f(2-4) InflatedBuffer
      by (intro exI [of _ ?s] exI [of _ ls]) (simp add: content_single)
  qed
qed

end

subsection \<open>The loops over the lines\<close>

lemma fold_lines:
  assumes "grid_ok g"
  shows "fold_result (\<lambda>i s. bind_result (lineAt g i) (\<lambda>l. F l s)) [- historyLineCount g..int (page_lines g) - 1] s
    = fold_result F (grid_view g) s"
proof -
  note ok = grid_okD [OF assms]
  let ?h = "history_lines g"
  have "[- historyLineCount g..int (page_lines g) - 1] = map (\<lambda>i. - int ?h + int i) [0..<gr_linesUsed g]"
    using upto_nat [of "- int ?h" "gr_linesUsed g"] ok(6) by (simp add: historyLineCount_def)
  moreover have "lineAt g (- int ?h + int i) = Inr (grid_view g ! i)" if "i < gr_linesUsed g" for i
    using lineAt_view [OF assms, of "- int ?h + int i"] that ok(6) by simp
  then have "fold_result (\<lambda>i s. bind_result (lineAt g i) (\<lambda>l. F l s)) (map (\<lambda>i. - int ?h + int i) is) s
      = fold_result F (map ((!) (grid_view g)) is) s" if "set is \<subseteq> {..<gr_linesUsed g}" for "is"
    using that by (induction "is" arbitrary: s) (auto simp: bind_result_def split: sum.splits)
  moreover have "map ((!) (grid_view g)) [0..<gr_linesUsed g] = grid_view g"
    using length_grid_view [OF assms] by (metis map_nth)
  ultimately show ?thesis by (metis atLeastLessThan_upt lessThan_atLeast0 order_refl)
qed

text \<open>A loop whose steps append lines and carry cells over to the next line.\<close>

definition appends ::
  "'c CellOps \<Rightarrow> ('d, 'm) TextLib_scheme \<Rightarrow> nat \<Rightarrow> nat \<Rightarrow> nat \<Rightarrow> ('s \<Rightarrow> 'c Line basic_ring) \<Rightarrow> ('s \<Rightarrow> nat) \<Rightarrow> ('s \<Rightarrow> 'c list)
    \<Rightarrow> 'c Line list \<Rightarrow> 's \<Rightarrow> 's result \<Rightarrow> bool" where
  "appends K T n w k lns cnt carry xs s res \<longleftrightarrow> (\<exists>s' ls. res = Inr s' \<and>
    lns s' = (lns s)\<lparr>rg_storage := rg_storage (lns s) @ ls\<rparr> \<and> length xs * k \<le> length ls \<and>
    cnt s' = cnt s + length ls \<and> (\<forall>l \<in> set ls. line_fits n l \<and> plain l) \<and>
    content K T ls @ nonempty K (carry s') = nonempty K (carry s) @ content K T xs \<and>
    length ls + length (carry s') \<le> length (carry s) + length xs * w)"

lemma fold_appends:
  assumes "\<And>l s. l \<in> set xs \<Longrightarrow> appends K T n w k lns cnt carry [l] s (F l s)"
  shows "appends K T n w k lns cnt carry xs s (fold_result F xs s)"
  using assms
proof (induction xs arbitrary: s)
  case Nil
  show ?case unfolding appends_def by (intro exI [of _ s] exI [of _ "[]"]) simp
next
  case (Cons x xs)
  from Cons.prems [of x s] obtain s1 ls1 where
    1: "F x s = Inr s1" "lns s1 = (lns s)\<lparr>rg_storage := rg_storage (lns s) @ ls1\<rparr>" "k \<le> length ls1"
      "cnt s1 = cnt s + length ls1" "\<forall>l \<in> set ls1. line_fits n l \<and> plain l"
      "content K T ls1 @ nonempty K (carry s1) = nonempty K (carry s) @ content K T [x]"
      "length ls1 + length (carry s1) \<le> length (carry s) + w"
    by (auto simp: appends_def)
  from Cons.IH [OF Cons.prems [OF list.set_intros(2)], of s1] obtain s2 ls2 where
    2: "fold_result F xs s1 = Inr s2" "lns s2 = (lns s1)\<lparr>rg_storage := rg_storage (lns s1) @ ls2\<rparr>"
      "length xs * k \<le> length ls2" "cnt s2 = cnt s1 + length ls2" "\<forall>l \<in> set ls2. line_fits n l \<and> plain l"
      "content K T ls2 @ nonempty K (carry s2) = nonempty K (carry s1) @ content K T xs"
      "length ls2 + length (carry s2) \<le> length (carry s1) + length xs * w"
    unfolding appends_def by blast
  have "content K T (ls1 @ ls2) @ nonempty K (carry s2) = (content K T ls1 @ nonempty K (carry s1)) @ content K T xs"
    using 2(6) by simp
  then have "content K T (ls1 @ ls2) @ nonempty K (carry s2) = nonempty K (carry s) @ content K T (x # xs)"
    using 1(6) content_append [of K T "[x]" xs] by simp
  with 1 2 show ?case unfolding appends_def by (intro exI [of _ s2] exI [of _ "ls1 @ ls2"]) auto
qed

lemma set_page_columns_simps:
  "(set_page_columns n g)\<lparr>gr_lines := r\<rparr> = set_page_columns n (g\<lparr>gr_lines := r\<rparr>)"
  "gr_lines (set_page_columns n g) = gr_lines g" "gr_linesUsed (set_page_columns n g) = gr_linesUsed g"
  "page_lines (set_page_columns n g) = page_lines g"
  by (rule Grid.equality, simp_all add: set_page_columns_def)

lemma push_backs_ring:
  "push_backs k v \<lparr>rg_storage = xs, rg_zero = z\<rparr> = \<lparr>rg_storage = xs @ replicate k v, rg_zero = z\<rparr>"
  by (rule basic_ring.equality) simp_all

lemma resized_grid:
  assumes "0 < n" "0 < page_lines g" "page_lines g \<le> u" "u \<le> length xs" "length xs < 2147483648"
    and "nat (totalLineCount g) \<le> length xs \<or> gr_historyLimit g = Infinite" "\<forall>l \<in> set xs. line_fits n l"
  shows "\<exists>r g'. rotate_left \<lparr>rg_storage = xs, rg_zero = 0\<rparr> (u - page_lines g) = Inr r \<and>
    g' = set_page_columns n (g\<lparr>gr_linesUsed := u, gr_lines := r\<rparr>) \<and> verifyState g' \<and> grid_ok g' \<and>
    grid_view g' = take u xs"
proof -
  let ?p = "page_lines g"
  have "ring_ok (mk_ring xs)" "0 < ring_size (mk_ring xs)" "u - ?p < 9223372036854775808" using assms by auto
  from rotate_left_refines [OF this] obtain r where
    r: "rotate_left (mk_ring xs) (u - ?p) = Inr r" "ring_ok r" "ring_list r = rotate (u - ?p) xs"
      "ring_size r = length xs"
    by auto
  let ?g = "set_page_columns n (g\<lparr>gr_linesUsed := u, gr_lines := r\<rparr>)"
  have total: "totalLineCount ?g \<le> int (length xs)"
    using assms(3,4,6) r(4)
    by (cases "gr_historyLimit g") (auto simp: totalLineCount_def maxHistoryLineCount_def set_page_columns_def nat_le_iff)
  have "verifyState ?g" using total r(4) assms(3,4) by (simp add: verifyState_def set_page_columns_def)
  moreover have "set (rg_storage r) = set xs" using arg_cong [OF r(3), of set] unfolding ring_list_def by simp
  ultimately have "grid_ok ?g" using assms r
    by (simp add: grid_ok_def set_page_columns_def list_all_iff)
  moreover have "grid_view ?g = take u xs"
    using assms(3,4) r(3,4) by (simp add: grid_view_def grid_window_def set_page_columns_def rotate_rotate)
  ultimately show ?thesis using r(1) \<open>verifyState ?g\<close> by (auto simp: mk_ring_def)
qed
subsection \<open>Resizing the columns\<close>

text \<open>
  A grid that can be reflown to a number of columns: its lines may wrap, and none is a run of text
  exactly as long as a narrower page is wide, which \<open>Line::reflow\<close> leaves at its old width.
\<close>

definition reflowable :: "nat \<Rightarrow> 'c Grid \<Rightarrow> bool" where
  "reflowable n g \<longleftrightarrow> grid_ok g \<and> gr_reflowOnResize g \<and> gr_linesUsed g * page_columns g < 2147483648 \<and>
    list_all (\<lambda>l. plain l \<and> wrappable l \<and> (n < page_columns g \<longrightarrow> \<not> text_fills n l)) (grid_view g)"

lemma reflowable_line:
  assumes "reflowable n g" "l \<in> set (grid_view g)"
  shows "plain l" "wrappable l" "line_fits (page_columns g) l" "n < page_columns g \<Longrightarrow> \<not> text_fills n l"
proof -
  have "l \<in> set (ring_list (gr_lines g))" using assms(2) set_take_subset unfolding grid_view_def grid_window_def by fastforce
  then show "line_fits (page_columns g) l" using assms(1) grid_okD(9) [of g l] by (simp add: reflowable_def)
qed (use assms in \<open>auto simp: reflowable_def list_all_iff\<close>)

text \<open>The page after the reflow, and the blank lines that fill it up.\<close>

definition reflows_to :: "'c CellOps \<Rightarrow> ('d, 'm) TextLib_scheme \<Rightarrow> nat \<Rightarrow> 'c Grid \<Rightarrow> 'c Grid \<Rightarrow> bool" where
  "reflows_to K T n g g' \<longleftrightarrow> grid_ok g' \<and> gr_pageSize g' = (gr_pageSize g)\<lparr>ps_columns := n\<rparr> \<and>
    gr_historyLimit g' = gr_historyLimit g \<and> list_all plain (grid_view g') \<and> content K T (grid_view g') = content K T (grid_view g)"

context cell_interface
begin

lemma shrinkColumns_content:
  assumes lib: "ascii_lib T" and "reflowable n g" "0 < n" "n < page_columns g"
  shows "\<exists>g'. shrinkColumns K T n cursor g = Inr (cursor, g') \<and> reflows_to K T n g g'"
proof -
  have ok: "grid_ok g" and reflow: "gr_reflowOnResize g" and
    bound: "gr_linesUsed g * page_columns g < 2147483648"
    using assms(2) by (simp_all add: reflowable_def)
  note g = grid_okD [OF ok]
  let ?F = "shrink_line K T n"
  obtain front where front: "ring_front (gr_lines g) = Inr front"
    using ring_at_refines [OF g(1), of 0] g(8) by (auto simp: ring_front_def in_reach_def)
  let ?s = "\<lparr>ss_lines = mk_ring [], ss_wrapped = [], ss_flags = inheritableFlags front, ss_written = 0\<rparr>"
  have "appends K T n (page_columns g) 1 ss_lines ss_written ss_wrapped (grid_view g) ?s (fold_result ?F (grid_view g) ?s)"
  proof (rule fold_appends)
    fix l :: "'c Line" and s :: "'c shrink_state"
    assume "l \<in> set (grid_view g)"
    note l = reflowable_line [OF assms(2) this]
    from shrink_line_content [OF lib l(1,3,2) assms(3), where s = s] assms(4) l(4)
    show "appends K T n (page_columns g) 1 ss_lines ss_written ss_wrapped [l] s (?F l s)"
      by (auto simp: appends_def Suc_le_eq)
  qed
  then obtain s' ls where
    s': "fold_result ?F (grid_view g) ?s = Inr s'" "ss_lines s' = \<lparr>rg_storage = ls, rg_zero = 0\<rparr>"
      "gr_linesUsed g \<le> length ls" "ss_written s' = length ls" "\<forall>l \<in> set ls. line_fits n l \<and> plain l"
      "content K T ls @ nonempty K (ss_wrapped s') = content K T (grid_view g)"
      "length ls + length (ss_wrapped s') \<le> gr_linesUsed g * page_columns g"
    by (auto simp: appends_def mk_ring_def length_grid_view [OF ok])
  from addNewWrappedLines_content [OF assms(3), of "ss_wrapped s'" "ss_flags s'" False "ss_lines s'" T] obtain ls' where
    a: "addNewWrappedLines K n (ss_wrapped s') (ss_flags s') False (ss_lines s')
        = Inr (length ls', \<lparr>rg_storage = ls @ ls', rg_zero = 0\<rparr>)"
      "\<forall>l \<in> set ls'. line_fits n l \<and> plain l" "content K T ls' = nonempty K (ss_wrapped s')"
      "length ls' \<le> length (ss_wrapped s')"
    by (auto simp: s'(2))
  let ?fill = "blank_line n defaultAttributes 0"
  let ?u = "length ls + length ls'" and ?k = "nat (totalLineCount g) - (length ls + length ls')"
  let ?xs = "(ls @ ls') @ replicate ?k ?fill"
  have total: "nat (totalLineCount g) \<le> ring_lines g" using g(3) by (simp add: verifyState_def nat_le_iff)
  have u: "page_lines g \<le> ?u" "?u \<le> length ?xs" using s'(3) g(6) by auto
  have size: "length ?xs < 2147483648" using s'(7) a(4) bound total g(2) by (simp add: max_def)
  have fits: "\<forall>l \<in> set ?xs. line_fits n l" "list_all plain (ls @ ls')" using s'(5) a(2) by (auto simp: list_all_iff)
  have "nat (totalLineCount g) \<le> length ?xs \<or> gr_historyLimit g = Infinite" by auto
  from resized_grid [OF assms(3) g(4) u size this fits(1)] obtain r g' where
    r: "rotate_left \<lparr>rg_storage = ?xs, rg_zero = 0\<rparr> (?u - page_lines g) = Inr r"
      "g' = set_page_columns n (g\<lparr>gr_linesUsed := ?u, gr_lines := r\<rparr>)" "verifyState g'" "grid_ok g'"
      "grid_view g' = take ?u ?xs"
    by blast
  have "shrinkColumns K T n cursor g = Inr (cursor, g')"
    using front s'(1,4) a(1) reflow u(1) r(1-3)
    by (simp add: shrinkColumns_def fold_lines [OF ok] Let_def require_def push_backs_ring)
  moreover have "grid_view g' = ls @ ls'" using r(5) by simp
  ultimately show ?thesis using r(2,4) s'(6) a(3) fits(2)
    by (simp add: reflows_to_def set_page_columns_def)
qed

lemma growColumns_content:
  assumes lib: "ascii_lib T" and "reflowable n g" "page_columns g < n"
  shows "\<exists>move g'. growColumns K T n wrapPending g = Inr (move, g') \<and> reflows_to K T n g g'"
proof -
  have ok: "grid_ok g" and reflow: "gr_reflowOnResize g" and
    bound: "gr_linesUsed g * page_columns g < 2147483648"
    using assms(2) by (simp_all add: reflowable_def)
  note g = grid_okD [OF ok]
  let ?F = "grow_line K T (page_columns g) n"
  let ?s = "\<lparr>gs_lines = mk_ring [], gs_buffer = [], gs_flags = 0\<rparr>"
  have n: "0 < n" using assms(3) by simp
  have "appends K T n (page_columns g) 0 gs_lines (ring_size \<circ> gs_lines) gs_buffer (grid_view g) ?s
      (fold_result ?F (grid_view g) ?s)"
  proof (rule fold_appends)
    fix l :: "'c Line" and s :: "'c grow_state"
    assume "l \<in> set (grid_view g)"
    note l = reflowable_line [OF assms(2) this]
    from grow_line_content [OF lib l(1,3) g(5) assms(3), where s = s]
    show "appends K T n (page_columns g) 0 gs_lines (ring_size \<circ> gs_lines) gs_buffer [l] s (?F l s)"
      by (auto simp: appends_def)
  qed
  then obtain s' ls where
    s': "fold_result ?F (grid_view g) ?s = Inr s'" "gs_lines s' = \<lparr>rg_storage = ls, rg_zero = 0\<rparr>"
      "\<forall>l \<in> set ls. line_fits n l \<and> plain l"
      "content K T ls @ nonempty K (gs_buffer s') = content K T (grid_view g)"
      "length ls + length (gs_buffer s') \<le> gr_linesUsed g * page_columns g"
    by (auto simp: appends_def mk_ring_def length_grid_view [OF ok])
  from flushLogicalLine_content [OF n, of s' T] obtain ls' where
    a: "flushLogicalLine K n s' = Inr (s'\<lparr>gs_lines := \<lparr>rg_storage = ls @ ls', rg_zero = 0\<rparr>, gs_buffer := []\<rparr>)"
      "\<forall>l \<in> set ls'. line_fits n l \<and> plain l" "content K T ls' = nonempty K (gs_buffer s')"
      "length ls' \<le> length (gs_buffer s')"
    by (auto simp: s'(2))
  let ?fill = "blank_line n defaultAttributes (defaultLineFlags g)"
  let ?cy = "page_lines g - (length ls + length ls')"
  let ?u = "length ls + length ls' + ?cy"
  let ?k = "nat (totalLineCount g) - ?u"
  let ?ys = "ls @ ls' @ replicate ?cy ?fill"
  let ?xs = "?ys @ replicate ?k ?fill"
  have total: "nat (totalLineCount g) \<le> ring_lines g" using g(3) by (simp add: verifyState_def nat_le_iff)
  have u: "page_lines g \<le> ?u" "?u \<le> length ?xs" by auto
  have "page_lines g < 2147483648" using g(2,6,7) by simp
  then have "?u < 2147483648" using s'(5) a(4) bound by linarith
  moreover have "length ?xs = max ?u (nat (totalLineCount g))" by simp
  ultimately have size: "length ?xs < 2147483648" using total g(2) by linarith
  have fits: "\<forall>l \<in> set ?xs. line_fits n l" "list_all plain ?ys" using s'(3) a(2) by (auto simp: list_all_iff)
  have "nat (totalLineCount g) \<le> length ?xs \<or> gr_historyLimit g = Infinite" by auto
  from resized_grid [OF n g(4) u size this fits(1)] obtain r g' where
    r: "rotate_left \<lparr>rg_storage = ?xs, rg_zero = 0\<rparr> (?u - page_lines g) = Inr r"
      "g' = set_page_columns n (g\<lparr>gr_linesUsed := ?u, gr_lines := r\<rparr>)" "verifyState g'" "grid_ok g'"
      "grid_view g' = take ?u ?xs"
    by blast
  have "growColumns K T n wrapPending g = Inr (\<lparr>cl_line = - int ?cy, cl_column = (if wrapPending then 1 else 0)\<rparr>, g')"
    using s'(1) a(1) reflow assms(3) r(1-3)
    by (simp add: growColumns_def fold_lines [OF ok] Let_def require_def push_backs_ring set_page_columns_simps add.assoc)
  moreover have "grid_view g' = ?ys" using r(5) by simp
  ultimately show ?thesis using r(2,4) s'(4) a(3) fits(2)
    by (simp add: reflows_to_def set_page_columns_def content_blank [OF lib n])
qed

end

context cell_interface
begin

lemma resize_columns_content:
  assumes lib: "ascii_lib T" and "reflowable n g" "0 < n"
  shows "\<exists>c g'. grid_resize K T \<lparr>ps_lines = page_lines g, ps_columns = n\<rparr> cursor wrapPending g = Inr (c, g') \<and>
    reflows_to K T n g g'"
proof -
  have ok: "grid_ok g" using assms(2) by (simp add: reflowable_def)
  consider "n = page_columns g" | "n < page_columns g" | "page_columns g < n" by linarith
  then show ?thesis
  proof cases
    case 1
    moreover have "reflows_to K T (page_columns g) g g"
      using assms(2) by (simp add: reflows_to_def reflowable_def list_all_iff)
    ultimately show ?thesis by (simp add: grid_resize_def)
  next
    case 2
    from shrinkColumns_content [OF assms 2] obtain g' where
      g': "shrinkColumns K T n cursor g = Inr (cursor, g')" "reflows_to K T n g g'"
      by blast
    then have "gr_pageSize g' = \<lparr>ps_lines = page_lines g, ps_columns = n\<rparr>" by (simp add: reflows_to_def)
    moreover have "gr_pageSize g \<noteq> \<lparr>ps_lines = page_lines g, ps_columns = n\<rparr>" using 2 by (metis PageSize.select_convs(2) less_irrefl)
    ultimately show ?thesis using g' 2 by (simp add: grid_resize_def require_def reflows_to_def grid_okD(3))
  next
    case 3
    from growColumns_content [OF lib assms(2) 3] obtain move g' where
      g': "growColumns K T n wrapPending g = Inr (move, g')" "reflows_to K T n g g'"
      by blast
    then have "gr_pageSize g' = \<lparr>ps_lines = page_lines g, ps_columns = n\<rparr>" by (simp add: reflows_to_def)
    moreover have "gr_pageSize g \<noteq> \<lparr>ps_lines = page_lines g, ps_columns = n\<rparr>" using 3 by (metis PageSize.select_convs(2) less_irrefl)
    ultimately show ?thesis using g' 3 by (simp add: grid_resize_def require_def reflows_to_def grid_okD(3))
  qed
qed

end

subsection \<open>Resizing the lines\<close>

lemma grid_ok_resized:
  assumes "grid_ok g" "ring_ok r" "ring_size r < 2147483648" "\<forall>l \<in> set (rg_storage r). line_fits (page_columns g) l"
    and "0 < p" "p \<le> u" "u \<le> ring_size r" "\<And>m. gr_historyLimit g = HistoryLimit m \<Longrightarrow> m + p \<le> ring_size r"
  shows "grid_ok (set_page_lines p (g\<lparr>gr_linesUsed := u, gr_lines := r\<rparr>))"
  using assms
  by (cases "gr_historyLimit g")
    (auto simp: grid_ok_def verifyState_def totalLineCount_def maxHistoryLineCount_def set_page_lines_def list_all_iff)

lemma limit_fits:
  assumes "grid_ok g" "gr_historyLimit g = HistoryLimit m"
  shows "m + page_lines g \<le> ring_lines g"
  using assms by (simp add: grid_ok_def verifyState_def totalLineCount_def maxHistoryLineCount_def)

lemma storage_fits:
  assumes "grid_ok g" "l \<in> set (rg_storage (gr_lines g))"
  shows "line_fits (page_columns g) l"
  using assms by (simp add: grid_ok_def list_all_iff)

lemma grid_ok_shrunk:
  assumes "grid_ok g" "ring_ok r" "ring_size r = ring_lines g" "set (rg_storage r) = set (rg_storage (gr_lines g))"
    and "0 < p" "p \<le> page_lines g" "p \<le> u" "u \<le> gr_linesUsed g"
  shows "grid_ok (set_page_lines p (g\<lparr>gr_linesUsed := u, gr_lines := r\<rparr>))"
proof (rule grid_ok_resized [OF assms(1,2)])
  show "\<forall>l \<in> set (rg_storage r). line_fits (page_columns g) l" using storage_fits [OF assms(1)] assms(4) by blast
  show "m + p \<le> ring_size r" if "gr_historyLimit g = HistoryLimit m" for m
    using limit_fits [OF assms(1) that] assms(3,6) by linarith
qed (use assms grid_okD(2,7) [OF assms(1)] in linarith)+

lemma set_page_lines_simps [simp]:
  "gr_lines (set_page_lines n g) = gr_lines g" "gr_linesUsed (set_page_lines n g) = gr_linesUsed g"
  "gr_pageSize (set_page_lines n g) = (gr_pageSize g)\<lparr>ps_lines := n\<rparr>" "gr_historyLimit (set_page_lines n g) = gr_historyLimit g"
  "gr_reflowOnResize (set_page_lines n g) = gr_reflowOnResize g"
  by (simp_all add: set_page_lines_def)

lemma set_ring_list: "set (ring_list r) = set (rg_storage r)"
  by (simp add: ring_list_def)

lemma rotate_left_0: "ring_ok r \<Longrightarrow> 0 < ring_size r \<Longrightarrow> rotate_left r 0 = Inr r"
  by (auto simp: rotate_left_def ring_ok_def to_size_t_of_nat simp flip: of_nat_add)

lemma pushUpLines_eq:
  assumes "rotate_left (gr_lines q) up = Inr r" "up \<noteq> 0 \<Longrightarrow> cl_line cursor + 1 = int (page_lines q)"
    and "page_lines q = n + up" "g' = set_page_lines n (q\<lparr>gr_lines := r\<rparr>)" "up = 0 \<Longrightarrow> g' = q" "verifyState g'"
  shows "pushUpLines (int up) cursor q = Inr (\<lparr>cl_line = - int up, cl_column = 0\<rparr>, g')"
  using assms by (cases "up = 0") (auto simp: pushUpLines_def require_def)

lemma shrinkLines_lemma:
  assumes "grid_ok g" "0 < n" "n < page_lines g" "0 \<le> cl_line cursor" "cl_line cursor < int (page_lines g)"
    and c: "c = min (page_lines g - n) (page_lines g - Suc (nat (cl_line cursor)))"
  shows "\<exists>g'. shrinkLines n cursor g = Inr (\<lparr>cl_line = - int (page_lines g - n - c), cl_column = 0\<rparr>, g') \<and>
    grid_ok g' \<and> gr_pageSize g' = (gr_pageSize g)\<lparr>ps_lines := n\<rparr> \<and> gr_historyLimit g' = gr_historyLimit g \<and>
    grid_view g' = take (gr_linesUsed g - c) (grid_view g)"
proof -
  note ok = grid_okD [OF assms(1)]
  let ?p = "page_lines g" and ?u = "gr_linesUsed g" and ?up = "page_lines g - n - c"
  define q where "q = set_page_lines (?p - c) (g\<lparr>gr_linesUsed := ?u - c, gr_lines := gr_lines g\<rparr>)"
  have c': "c \<le> ?p - n" "c \<le> ?p - Suc (nat (cl_line cursor))" using c by auto
  have q: "grid_ok q"
    unfolding q_def using assms(2,3) c' ok(1,6) by (intro grid_ok_shrunk [OF assms(1)]) auto
  have "?up \<le> ring_lines g" using ok(6,7) by linarith
  from window_rotate [OF assms(1) this] obtain r where
    r: "rotate_left (gr_lines g) ?up = Inr r" "ring_ok r" "ring_size r = ring_lines g"
      "\<And>m. rotate m (ring_list r) = rotate (m + ?up) (ring_list (gr_lines g))"
    by blast
  let ?g = "set_page_lines n (g\<lparr>gr_linesUsed := ?u - c, gr_lines := r\<rparr>)"
  have "ring_list r = rotate ?up (ring_list (gr_lines g))" using r(4) [of 0] by simp
  then have "set (ring_list r) = set (ring_list (gr_lines g))" by simp
  then have "set (rg_storage r) = set (rg_storage (gr_lines g))" unfolding set_ring_list .
  then have g': "grid_ok ?g"
    using assms(2,3) c' ok(6) r(2,3) by (intro grid_ok_shrunk [OF assms(1)]) auto
  have "grid_view ?g = take (?u - c) (grid_view g)"
  proof -
    have "ring_lines g - (?u - c - n) + ?up = ring_lines g - (?u - ?p)" using ok(6,7) c'(1) assms(3) by linarith
    then show ?thesis using r(3,4) by (simp add: grid_view_def grid_window_def min_def)
  qed
  moreover have "shrinkLines n cursor g = Inr (\<lparr>cl_line = - int ?up, cl_column = 0\<rparr>, ?g)"
  proof -
    have e: "min (int ?p - int n) (int ?p - (cl_line cursor + 1)) = int c" "int ?p - int n - int c = int ?up"
        "nat (int ?p - int c) = ?p - c" "nat (int ?u - int c) = ?u - c" "nat (int (?p - c) - int ?up) = n"
      using assms(3-5) c c' by linarith+
    have q': "page_lines q = ?p - c" "gr_lines q = gr_lines g" by (simp_all add: q_def)
    have "c = 0 \<Longrightarrow> q = g" unfolding q_def by (rule Grid.equality) simp_all
    moreover have "set_page_lines (?p - c) g\<lparr>gr_linesUsed := ?u - c\<rparr> = q"
      unfolding q_def set_page_lines_def by simp
    moreover have "cl_line cursor < int (?p - c)" using c'(2) assms(4,5) by linarith
    ultimately have first: "cutoffLines (int c) cursor g = Inr q"
      using e(3,4) grid_okD(3) [OF q] q'(1) by (auto simp: Let_def require_def cutoffLines_def)
    have "rotate_left (gr_lines q) ?up = Inr r" using r(1) unfolding q' .
    moreover have "?up \<noteq> 0 \<Longrightarrow> cl_line cursor + 1 = int (page_lines q)" unfolding q' using c assms(3-5) by linarith
    moreover have "page_lines q = n + ?up" unfolding q' using c'(1) assms(3) by linarith
    moreover have "?g = set_page_lines n (q\<lparr>gr_lines := r\<rparr>)" by (simp add: q_def set_page_lines_def)
    moreover have "?g = q" if "?up = 0"
    proof -
      have "r = gr_lines g" using r(1) rotate_left_0 [OF ok(1,8)] unfolding that by simp
      moreover have "?p - c = n" using that c'(1) assms(3) by linarith
      ultimately show ?thesis by (simp add: q_def)
    qed
    ultimately have "pushUpLines (int ?up) cursor q = Inr (\<lparr>cl_line = - int ?up, cl_column = 0\<rparr>, ?g)"
      using grid_okD(3) [OF g'] by (rule pushUpLines_eq)
    moreover have "n \<le> ?p - c" using c'(1) assms(3) by linarith
    ultimately show ?thesis using assms(3) first q'(1)
      unfolding shrinkLines_def Let_def by (simp only: require_def e(1,2) if_True bind_result_simps)
  qed
  ultimately show ?thesis using g' by (intro exI [of _ ?g]) (simp add: set_page_lines_def)
qed

text \<open>
  Growing takes lines back from the history and appends blank lines to the vector, as many as the
  limit of the history and the new page ask for.
\<close>

definition fill_count :: "nat \<Rightarrow> 'c Grid \<Rightarrow> nat" where
  "fill_count n g = nat (max 0 (maxHistoryLineCount g + int n - int (ring_lines g)))"

lemma fill_count_eq:
  "gr_historyLimit g = HistoryLimit m \<Longrightarrow> fill_count n g = m + n - ring_lines g"
  "gr_historyLimit g = Infinite \<Longrightarrow> fill_count n g = n - page_lines g"
  by (simp_all add: fill_count_def maxHistoryLineCount_def)

lemma extendLines_eq:
  assumes "grid_ok g" "ring_ok r" "ring_size r = ring_lines g" "set (rg_storage r) = set (rg_storage (gr_lines g))"
    and "page_lines g \<le> p" "p \<le> gr_linesUsed g" "p \<le> n"
    and q: "q = set_page_lines p (g\<lparr>gr_lines := r\<rparr>)" and "ring_lines g + fill_count n q < 2147483648"
  shows "\<exists>flags g'. extendLines n q = Inr g' \<and> grid_ok g' \<and>
    g' = set_page_lines n (g\<lparr>gr_linesUsed := min (gr_linesUsed g + (n - p)) (ring_lines g + fill_count n q),
      gr_lines := push_backs (fill_count n q) (blank_line (page_columns g) defaultAttributes flags) r\<rparr>)"
proof -
  note ok = grid_okD [OF assms(1)]
  have "in_reach r (int (ring_size r) - 1)" using ok(2,8) assms(3) by (simp add: in_reach_def)
  from ring_at_refines [OF assms(2) this] obtain l where l: "ring_back r = Inr l"
    using ok(8) assms(3) by (auto simp: ring_back_def)
  let ?fill = "push_backs (fill_count n q) (blank_line (page_columns g) defaultAttributes (wrappableFlag l)) r"
  let ?u = "min (gr_linesUsed g + (n - p)) (ring_lines g + fill_count n q)"
  let ?g = "set_page_lines n (g\<lparr>gr_linesUsed := ?u, gr_lines := ?fill\<rparr>)"
  have qs: "gr_lines q = r" "page_lines q = p" "page_columns q = page_columns g" "gr_linesUsed q = gr_linesUsed g"
    by (simp_all add: q)
  have limit: "m + n \<le> ring_lines g + fill_count n q" if "gr_historyLimit g = HistoryLimit m" for m
    using fill_count_eq(1) [of q m n] that assms(3) by (simp add: q)
  have room: "n \<le> ring_lines g + fill_count n q"
  proof (cases "gr_historyLimit g")
    case (HistoryLimit m)
    from limit [OF this] show ?thesis by simp
  next
    case Infinite
    then show ?thesis using fill_count_eq(2) [of q n] assms(6,7) ok(7) by (simp add: q)
  qed
  have "grid_ok ?g"
  proof (rule grid_ok_resized [OF assms(1)])
    show "ring_ok ?fill" using assms(2,3,9) ok(8) by (auto simp: ring_ok_def)
    show "\<forall>l \<in> set (rg_storage ?fill). line_fits (page_columns g) l"
      using storage_fits [OF assms(1)] assms(4) by auto
    show "?u \<le> ring_size ?fill" "ring_size ?fill < 2147483648" using assms(3,9) by simp_all
    show "n \<le> ?u" using room assms(5-7) by linarith
    show "0 < n" using assms(5,7) ok(4) by linarith
  qed (use limit assms(3) in simp)
  define g' where "g' = ?g"
  have g': "grid_ok g'" "verifyState g'" "page_lines g' = n"
    using \<open>grid_ok ?g\<close> grid_okD(3) [of ?g] by (simp_all add: g'_def)
  then have "maxHistoryLineCount g' + int n \<le> int (ring_lines g')"
    by (simp add: verifyState_def totalLineCount_def)
  moreover have "int (ring_lines g') = int (ring_lines g) + int (fill_count n q)"
    using assms(3) by (simp add: g'_def)
  moreover have "(set_page_lines n (q\<lparr>gr_lines := ?fill\<rparr>))\<lparr>gr_linesUsed := ?u\<rparr> = g'"
    unfolding q g'_def by (rule Grid.equality) simp_all
  moreover have "p + (n - p) = n" using assms(7) by simp
  ultimately have "extendLines n q = Inr g'"
    using l g'(2,3) qs unfolding extendLines_def Let_def fill_count_def [of n q, symmetric]
    by (simp add: require_def assms(3))
  with \<open>grid_ok ?g\<close> show ?thesis unfolding g'_def by blast
qed

lemma takeHistory_eq:
  assumes "grid_ok g" "in_order g" "page_lines g < n"
    and t: "t = (if cl_line cursor + 1 = int (page_lines g) then min (n - page_lines g) (history_lines g) else 0)"
  shows "\<exists>r. takeHistory n cursor g = Inr (int t, set_page_lines (page_lines g + t) (g\<lparr>gr_lines := r\<rparr>)) \<and>
    rg_storage r = rg_storage (gr_lines g) \<and> rg_zero r = history_lines g - t"
proof (cases "cl_line cursor + 1 = int (page_lines g)")
  case True
  note ok = grid_okD [OF assms(1)]
  have le: "t \<le> history_lines g" "t \<le> ring_lines g" using t ok(7) by auto
  from rotate_right_refines [OF ok(1,8) le(2)] obtain r where r: "rotate_right (gr_lines g) t = Inr r" by metis
  from rotate_right_zero [OF ok(1,8) le(2) r] assms(2) le(1)
  have "rg_storage r = rg_storage (gr_lines g)" "rg_zero r = history_lines g - t" by (simp_all add: in_order_def)
  moreover have "min (int n - int (page_lines g)) (historyLineCount g) = int t"
    unfolding historyLineCount_def using True assms(3) ok(6) t by (auto simp: min_def of_nat_diff)
  ultimately show ?thesis using True r by (auto simp: takeHistory_def require_def)
next
  case False
  have "set_page_lines (page_lines g) (g\<lparr>gr_lines := gr_lines g\<rparr>) = g" by (rule Grid.equality) simp_all
  with False t assms(2) show ?thesis
    by (intro exI [of _ "gr_lines g"]) (simp add: takeHistory_def in_order_def)
qed

lemma growLines_lemma:
  assumes "grid_ok g" "in_order g" "int (history_lines g) \<le> maxHistoryLineCount g"
    and "page_lines g < n" "ring_lines g + n < 2147483648"
    and "0 \<le> cl_line cursor" "cl_line cursor < int (page_lines g)"
    and t: "t = (if cl_line cursor + 1 = int (page_lines g) then min (n - page_lines g) (history_lines g) else 0)"
  shows "\<exists>g' rest. growLines n cursor g = Inr (\<lparr>cl_line = int t, cl_column = 0\<rparr>, g') \<and>
    grid_ok g' \<and> in_order g' \<and> gr_pageSize g' = (gr_pageSize g)\<lparr>ps_lines := n\<rparr> \<and>
    grid_view g' = grid_view g @ rest \<and> length rest = n - page_lines g - t"
proof -
  note ok = grid_okD [OF assms(1)]
  let ?p = "page_lines g" and ?h = "history_lines g" and ?u = "gr_linesUsed g"
  from takeHistory_eq [OF assms(1,2,4) t] obtain r where
    r: "takeHistory n cursor g = Inr (int t, set_page_lines (?p + t) (g\<lparr>gr_lines := r\<rparr>))"
      "rg_storage r = rg_storage (gr_lines g)" "rg_zero r = ?h - t"
    by blast
  define q where "q = set_page_lines (?p + t) (g\<lparr>gr_lines := r\<rparr>)"
  have tb: "t \<le> ?h" "t \<le> n - ?p" using t by auto
  have rok: "ring_ok r" "ring_size r = ring_lines g" "set (rg_storage r) = set (rg_storage (gr_lines g))"
    using ok(1) assms(2) r(2,3) by (auto simp: ring_ok_def in_order_def)
  let ?k = "fill_count n q"
  have k: "?k \<le> n" "?u + (n - (?p + t)) \<le> ring_lines g + ?k"
  proof (atomize (full), cases "gr_historyLimit g")
    case (HistoryLimit m)
    then have "?k = m + n - ring_lines g" using fill_count_eq(1) [of q m n] r(2) by (simp add: q_def)
    moreover have "?h \<le> m" using assms(3) HistoryLimit by (simp add: maxHistoryLineCount_def)
    ultimately show "?k \<le> n \<and> ?u + (n - (?p + t)) \<le> ring_lines g + ?k"
      using limit_fits [OF assms(1) HistoryLimit] ok(6) assms(4) by linarith
  next
    case Infinite
    then have "?k = n - (?p + t)" using fill_count_eq(2) [of q n] by (simp add: q_def)
    then show "?k \<le> n \<and> ?u + (n - (?p + t)) \<le> ring_lines g + ?k" using ok(7) by simp
  qed
  have bound: "ring_lines g + ?k < 2147483648" using k(1) assms(5) by linarith
  have p: "?p \<le> ?p + t" "?p + t \<le> ?u" "?p + t \<le> n" using tb ok(6) assms(4) by linarith+
  from extendLines_eq [OF assms(1) rok p q_def bound] obtain flags g' where
    e: "extendLines n q = Inr g'" "grid_ok g'"
      "g' = set_page_lines n (g\<lparr>gr_linesUsed := min (?u + (n - (?p + t))) (ring_lines g + ?k),
        gr_lines := push_backs ?k (blank_line (page_columns g) defaultAttributes flags) r\<rparr>)"
    by blast
  have used: "gr_linesUsed g' = ?u + (n - (?p + t))" using k(2) by (simp add: e(3))
  have order: "in_order g'" using used r(3) tb ok(6) assms(4) by (simp add: in_order_def e(3))
  let ?rest = "take (n - (?p + t)) (drop ?u (rg_storage (gr_lines g))
    @ replicate ?k (blank_line (page_columns g) defaultAttributes flags))"
  have "grid_window g' = rg_storage (gr_lines g) @ replicate ?k (blank_line (page_columns g) defaultAttributes flags)"
    using in_order_window [OF order] grid_okD(7) [OF e(2)] r(2) by (simp add: e(3))
  moreover have "grid_window g = rg_storage (gr_lines g)" using in_order_window [OF assms(2)] ok(7) by simp
  moreover have "take ?u (rg_storage (gr_lines g) @ ys) = take ?u (rg_storage (gr_lines g))"
      "drop ?u (rg_storage (gr_lines g) @ ys) = drop ?u (rg_storage (gr_lines g)) @ ys" for ys
    using ok(7) by simp_all
  ultimately have "grid_view g' = grid_view g @ ?rest" by (simp only: grid_view_def used take_add)
  moreover have "length ?rest = n - ?p - t" using k(2) ok(7) by simp
  moreover have "growLines n cursor g = Inr (\<lparr>cl_line = int t, cl_column = 0\<rparr>, g')"
    using assms(4) r(1) e(1) by (simp add: growLines_def require_def flip: q_def)
  moreover have "gr_pageSize g' = (gr_pageSize g)\<lparr>ps_lines := n\<rparr>" by (simp add: e(3))
  ultimately show ?thesis using e(2) order by blast
qed

text \<open>In order or not, growing returns a well-formed grid.\<close>

lemma growLines_ok:
  assumes "grid_ok g" "page_lines g < n" "ring_lines g + n < 2147483648"
  shows "\<exists>move g'. growLines n cursor g = Inr (move, g') \<and> grid_ok g' \<and>
    gr_pageSize g' = (gr_pageSize g)\<lparr>ps_lines := n\<rparr> \<and> gr_historyLimit g' = gr_historyLimit g"
proof -
  note ok = grid_okD [OF assms(1)]
  let ?p = "page_lines g"
  obtain t r where t: "takeHistory n cursor g = Inr (int t, set_page_lines (?p + t) (g\<lparr>gr_lines := r\<rparr>))"
    and r: "ring_ok r" "ring_size r = ring_lines g" "set (rg_storage r) = set (rg_storage (gr_lines g))"
    and le: "?p + t \<le> gr_linesUsed g" "?p + t \<le> n"
  proof (cases "cl_line cursor + 1 = int ?p")
    case True
    let ?t = "min (n - ?p) (history_lines g)"
    have "?t \<le> ring_lines g" using ok(7) by auto
    from rotate_right_refines [OF ok(1,8) this] obtain r where
      r: "rotate_right (gr_lines g) ?t = Inr r" "ring_ok r" "ring_size r = ring_lines g"
        "ring_list r = rotate (ring_lines g - ?t) (ring_list (gr_lines g))"
      by metis
    have "set (ring_list r) = set (ring_list (gr_lines g))" unfolding r(4) by simp
    then have "set (rg_storage r) = set (rg_storage (gr_lines g))" unfolding set_ring_list .
    moreover have "min (int n - int ?p) (historyLineCount g) = int ?t"
      unfolding historyLineCount_def using assms(2) ok(6) by (auto simp: min_def of_nat_diff)
    ultimately show ?thesis using that [of ?t r] True r(1-3) ok(6) assms(2)
      by (simp add: takeHistory_def require_def)
  next
    case False
    have "set_page_lines ?p (g\<lparr>gr_lines := gr_lines g\<rparr>) = g" by (rule Grid.equality) simp_all
    with False that [of 0 "gr_lines g"] ok(1,6) assms(2) show ?thesis by (simp add: takeHistory_def)
  qed
  define q where "q = set_page_lines (?p + t) (g\<lparr>gr_lines := r\<rparr>)"
  have "fill_count n q \<le> n"
  proof (cases "gr_historyLimit g")
    case (HistoryLimit m)
    then show ?thesis using fill_count_eq(1) [of q m n] limit_fits [OF assms(1) HistoryLimit] r(2) by (simp add: q_def)
  next
    case Infinite
    then show ?thesis using fill_count_eq(2) [of q n] by (simp add: q_def)
  qed
  then have bound: "ring_lines g + fill_count n q < 2147483648" using assms(3) by linarith
  from extendLines_eq [OF assms(1) r _ le q_def bound] obtain flags g' where
    e: "extendLines n q = Inr g'" "grid_ok g'"
      "g' = set_page_lines n (g\<lparr>gr_linesUsed := min (gr_linesUsed g + (n - (?p + t))) (ring_lines g + fill_count n q),
        gr_lines := push_backs (fill_count n q) (blank_line (page_columns g) defaultAttributes flags) r\<rparr>)"
    by auto
  have "growLines n cursor g = Inr (\<lparr>cl_line = int t, cl_column = 0\<rparr>, g')"
    using assms(2) t e(1) by (simp add: growLines_def require_def flip: q_def)
  then show ?thesis using e(2,3) by simp
qed

lemma resize_lines_ok:
  assumes "grid_ok g" "0 < n" "ring_lines g + n < 2147483648" "0 \<le> cl_line cursor" "cl_line cursor < int (page_lines g)"
  shows "\<exists>c g'. grid_resize K T \<lparr>ps_lines = n, ps_columns = page_columns g\<rparr> cursor wrapPending g = Inr (c, g') \<and>
    grid_ok g' \<and> gr_historyLimit g' = gr_historyLimit g"
proof -
  let ?size = "\<lparr>ps_lines = n, ps_columns = page_columns g\<rparr>"
  consider "n = page_lines g" | "page_lines g < n" | "n < page_lines g" by linarith
  then show ?thesis
  proof cases
    case 1
    then show ?thesis using assms(1) by (simp add: grid_resize_def)
  next
    case 2
    from growLines_ok [OF assms(1) 2 assms(3), of cursor] obtain move g' where
      g': "growLines n cursor g = Inr (move, g')" "grid_ok g'" "gr_pageSize g' = ?size" "gr_historyLimit g' = gr_historyLimit g"
      by auto
    moreover have "gr_pageSize g \<noteq> ?size" using 2 by (metis PageSize.select_convs(1) less_irrefl)
    ultimately show ?thesis using 2 by (simp add: grid_resize_def require_def grid_okD(3))
  next
    case 3
    from shrinkLines_lemma [OF assms(1,2) 3 assms(4,5) refl] obtain move g' where
      g': "shrinkLines n cursor g = Inr (move, g')" "grid_ok g'" "gr_pageSize g' = ?size" "gr_historyLimit g' = gr_historyLimit g"
      by auto
    moreover have "gr_pageSize g \<noteq> ?size" using 3 by (metis PageSize.select_convs(1) less_irrefl)
    ultimately show ?thesis using 3 by (simp add: grid_resize_def require_def grid_okD(3))
  qed
qed

lemma take_insert:
  assumes "z \<le> p" "p \<le> length xs" "p \<le> n"
  shows "take n (take z xs @ replicate (n - p) b @ drop z xs)
    = take z (take p xs) @ replicate (n - p) b @ drop z (take p xs)"
proof -
  from assms(1,3) obtain i j where "p = z + i" "n = z + i + j" by (metis le_Suc_ex)
  with assms(2) show ?thesis by (simp add: drop_take)
qed

lemma growLines_rotated:
  assumes "grid_ok g" "gr_historyLimit g = HistoryLimit m" "ring_lines g = page_lines g + m"
    and "page_lines g < n" "m + n < 2147483648"
    and "0 \<le> cl_line cursor" "cl_line cursor + 1 < int (page_lines g)"
    and "ring_lines g - rg_zero (gr_lines g) \<le> page_lines g"
  shows "\<exists>flags g'. growLines n cursor g = Inr (\<lparr>cl_line = 0, cl_column = 0\<rparr>, g') \<and>
    grid_page g' = take (ring_lines g - rg_zero (gr_lines g)) (grid_page g)
      @ replicate (n - page_lines g) (blank_line (page_columns g) defaultAttributes flags)
      @ drop (ring_lines g - rg_zero (gr_lines g)) (grid_page g)"
proof -
  note ok = grid_okD [OF assms(1)]
  let ?z = "ring_lines g - rg_zero (gr_lines g)"
  have same: "g = set_page_lines (page_lines g) (g\<lparr>gr_lines := gr_lines g\<rparr>)" by (rule Grid.equality) simp_all
  have fill: "fill_count n g = n - page_lines g" using fill_count_eq(1) [OF assms(2)] assms(3) by simp
  have "ring_lines g + fill_count n g < 2147483648" using fill assms(3-5) by simp
  from extendLines_eq [OF assms(1) ok(1) refl refl order_refl ok(6) less_imp_le [OF assms(4)] same this] fill
  obtain flags g' where
    e: "extendLines n g = Inr g'" "grid_ok g'"
      "g' = set_page_lines n (g\<lparr>gr_linesUsed := min (gr_linesUsed g + (n - page_lines g)) (ring_lines g + (n - page_lines g)),
        gr_lines := push_backs (n - page_lines g) (blank_line (page_columns g) defaultAttributes flags) (gr_lines g)\<rparr>)"
    by auto
  have "growLines n cursor g = Inr (\<lparr>cl_line = 0, cl_column = 0\<rparr>, g')"
    using assms(4,7) e(1) by (simp add: growLines_def takeHistory_def require_def)
  moreover have "grid_page g' = take n (take ?z (ring_list (gr_lines g))
      @ replicate (n - page_lines g) (blank_line (page_columns g) defaultAttributes flags) @ drop ?z (ring_list (gr_lines g)))"
    using view_split(2) [OF e(2)] push_back_split [OF ok(1)] by (simp add: e(3))
  moreover have "\<dots> = take ?z (grid_page g)
      @ replicate (n - page_lines g) (blank_line (page_columns g) defaultAttributes flags) @ drop ?z (grid_page g)"
    unfolding view_split(2) [OF assms(1)] using assms(4,8) ok(6,7) by (intro take_insert) auto
  ultimately show ?thesis by auto
qed

lemma resized_history:
  assumes "p \<le> N" "length xs = N"
  shows "drop (p + n - (min N (p + n) - p)) (vector_resize d (p + n) xs)
    = drop (n - (N - p)) (take n (drop p xs @ replicate (n - (N - p)) d))"
proof (cases "p + n \<le> N")
  case True
  then show ?thesis using assms by (simp add: vector_resize_def drop_take)
next
  case False
  then obtain k where k: "p + n = N + k" by (metis le_Suc_ex nat_le_linear)
  from assms(1) obtain i where i: "N = p + i" by (metis le_Suc_ex)
  with k have "n = i + k" by simp
  with i show ?thesis using assms(2) by (simp add: vector_resize_def add.commute)
qed

lemma setMaxHistoryLineCount_lemma:
  assumes "grid_ok g" "gr_linesUsed g = ring_lines g" "page_lines g + n < 2147483648"
  shows "\<exists>g'. setMaxHistoryLineCount (HistoryLimit n) g = Inr g' \<and> grid_page g' = grid_page g \<and>
    grid_history g' = drop (n - history_lines g)
      (take n (grid_history g @ replicate (n - history_lines g) newLine))"
proof -
  note ok = grid_okD [OF assms(1)]
  let ?L = "ring_list (gr_lines g)" and ?p = "page_lines g" and ?N = "ring_lines g"
  from rezero_refines [OF ok(1)] obtain r where
    r: "rezero (gr_lines g) = Inr r" "ring_ok r" "ring_list r = ?L" "ring_size r = ?N"
    by metis
  have "?p + n < 2305843009213693952" using assms(3) by simp
  from ring_resize_refines [OF r(2) this, of newLine] obtain r' where
    r': "ring_resize newLine r (?p + n) = Inr r'" "ring_ok r'" "ring_list r' = vector_resize newLine (?p + n) ?L"
      "ring_size r' = ?p + n"
    using r(3) by metis
  let ?g = "g\<lparr>gr_historyLimit := HistoryLimit n, gr_lines := r', gr_linesUsed := min ?N (?p + n)\<rparr>"
  have v: "verifyState ?g"
    using r'(4) assms(2) ok(6,7) by (simp add: verifyState_def totalLineCount_def maxHistoryLineCount_def)
  have "nat (int ?p + int n) = ?p + n" "nat (min (int ?N) (int ?p + int n)) = min ?N (?p + n)" by auto
  then have "setMaxHistoryLineCount (HistoryLimit n) g = Inr ?g"
    using ok(3) r(1) r'(1) v assms(2)
    by (simp add: setMaxHistoryLineCount_def Let_def maxHistoryLineCount_def require_def)
  moreover have "grid_page ?g = grid_page g"
    using view_split_verified(2) [OF v] view_split(2) [OF assms(1)] r'(3) ok(6,7)
    by (simp add: vector_resize_def)
  moreover have "grid_history ?g = drop (n - history_lines g)
      (take n (grid_history g @ replicate (n - history_lines g) newLine))"
  proof -
    have h: "grid_history ?g = drop (?p + n - (min ?N (?p + n) - ?p)) (vector_resize newLine (?p + n) ?L)"
      using view_split_verified(1) [OF v] r'(3,4) by simp
    have g: "grid_history g = drop ?p ?L" using view_split(1) [OF assms(1)] ok(6,7) assms(2) by simp
    have hl: "history_lines g = ?N - ?p" "?p \<le> ?N" "length ?L = ?N" using assms(2) ok(6) by simp_all
    show ?thesis unfolding h g hl(1) using hl(2,3) by (rule resized_history)
  qed
  ultimately show ?thesis by blast
qed

subsection \<open>Reachable grids\<close>

text \<open>
  The grids that the operations of a grid lead to: scrolling in margins within the page, clearing the
  history, resetting and switching reflow; resizing to another number of lines, with the cursor on
  the page and the lines within the range of an \<open>int\<close>; and resizing to another number of columns a
  grid that can be reflown.
\<close>

inductive grid_reachable ::
  "'c CellOps \<Rightarrow> ('d, 'm) TextLib_scheme \<Rightarrow> 'c Grid \<Rightarrow> 'c Grid \<Rightarrow> bool" for K T g0 where
  start: "grid_reachable K T g0 g0"
| operation: "grid_reachable K T g0 g \<Longrightarrow> op_margin_ok (gr_pageSize g) a \<Longrightarrow> grid_step K T a g = Inr g' \<Longrightarrow>
    grid_reachable K T g0 g'"
| reflow: "grid_reachable K T g0 g \<Longrightarrow> grid_reachable K T g0 (setReflowOnResize enabled g)"
| resize_lines: "grid_reachable K T g0 g \<Longrightarrow> 0 < n \<Longrightarrow> ring_lines g + n < 2147483648 \<Longrightarrow>
    0 \<le> cl_line cursor \<Longrightarrow> cl_line cursor < int (page_lines g) \<Longrightarrow>
    grid_resize K T \<lparr>ps_lines = n, ps_columns = page_columns g\<rparr> cursor wrapPending g = Inr (c, g') \<Longrightarrow>
    grid_reachable K T g0 g'"
| resize_columns: "grid_reachable K T g0 g \<Longrightarrow> 0 < n \<Longrightarrow> reflowable n g \<Longrightarrow>
    grid_resize K T \<lparr>ps_lines = page_lines g, ps_columns = n\<rparr> cursor wrapPending g = Inr (c, g') \<Longrightarrow>
    grid_reachable K T g0 g'"

lemma setReflowOnResize_ok [simp]:
  "grid_ok (setReflowOnResize enabled g) = grid_ok g"
  "gr_historyLimit (setReflowOnResize enabled g) = gr_historyLimit g"
proof -
  have "maxHistoryLineCount (setReflowOnResize enabled g) = maxHistoryLineCount g"
    by (simp add: maxHistoryLineCount_def setReflowOnResize_def split: MaxHistoryLineCount.split)
  then show "grid_ok (setReflowOnResize enabled g) = grid_ok g"
    by (simp add: grid_ok_def verifyState_def totalLineCount_def) (simp add: setReflowOnResize_def)
qed (simp add: setReflowOnResize_def)

context cell_interface
begin

lemma grid_reachable_lemma:
  assumes "grid_reachable K T g0 g" "ascii_lib T" "grid_ok g0" "gr_historyLimit g0 \<noteq> Infinite"
  shows "grid_ok g \<and> gr_historyLimit g = gr_historyLimit g0"
  using assms(1)
proof (induction rule: grid_reachable.induct)
  case start
  then show ?case using assms(3) by simp
next
  case (operation g a g')
  then have "keeps g g'" using assms(4) by (auto intro: grid_step_keeps)
  then show ?case using operation.IH by (simp add: keeps_def)
next
  case (reflow g enabled)
  then show ?case by simp
next
  case (resize_lines g n cursor wrapPending c g')
  then show ?case using resize_lines_ok [of g n cursor K T wrapPending] by auto
next
  case (resize_columns g n cursor wrapPending c g')
  then show ?case
    using resize_columns_content [OF assms(2) resize_columns.hyps(3,2), of cursor wrapPending]
    by (auto simp: reflows_to_def)
qed

end

subsection \<open>Properties\<close>

text \<open>A page of two lines with the text \<open>a\<close> and \<open>bc\<close>, one of them a run of text, for the instances below.\<close>

definition letter :: "codepoint \<Rightarrow> CompactCell" where
  "letter ch = cc_blank\<lparr>cc_codepoint := ch\<rparr>"

definition text_grid :: "CompactCell Grid" where
  "text_grid =
    \<lparr>gr_pageSize = \<lparr>ps_lines = 2, ps_columns = 2\<rparr>, gr_reflowOnResize = True, gr_historyLimit = HistoryLimit 0,
     gr_lines = \<lparr>rg_storage =
       [\<lparr>line_storage = InflatedBuffer [letter 0x61, cc_blank], line_flags = Wrappable\<rparr>,
        \<lparr>line_storage = TrivialBuffer ((trivial_blank 2 defaultAttributes)\<lparr>tb_usedColumns := 2, tb_text := [0x62, 0x63]\<rparr>),
         line_flags = Wrappable\<rparr>], rg_zero = 0\<rparr>,
     gr_linesUsed = 2\<rparr>"

lemma letter_nonempty: "\<not> op_empty compact_ops (letter 0x61)" "\<not> op_empty compact_ops (letter 0x62)"
  "\<not> op_empty compact_ops (letter 0x63)" "op_empty compact_ops cc_blank"
  by (simp_all add: compact_ops_def cc_empty_def letter_def cc_blank_def cc_codepointCount_def cc_imageFragment_def)

lemma text_grid_view: "grid_view text_grid = rg_storage (gr_lines text_grid)"
  by (simp add: grid_view_def grid_window_def text_grid_def ring_list_def numeral_2_eq_2)

lemma text_grid_reflowable: "reflowable 1 text_grid"
  unfolding reflowable_def text_grid_view
  by (simp add: text_grid_def grid_ok_def ring_ok_def verifyState_def totalLineCount_def maxHistoryLineCount_def
      line_fits_def line_size_def plain_def text_fills_def printable_def trivial_blank_def Wrappable_def line_isFlagEnabled_def)

text \<open>
  C20. Changing the number of columns with reflow enabled keeps the text: on a grid whose lines may be
  wrapped, lines of cells and runs of printable US-ASCII text alike, shrinking and growing both
  return, keep the invariant, give the page the new width, and leave the sequence of cells that are
  not empty, over history and page, as it was. No character is lost, doubled or moved past another
  one. Left out are lines that may not be wrapped, which are cut off, and, when shrinking, a run of
  text exactly as long as the new width, which \<open>Line::reflow\<close> leaves at its old width.
\<close>

theorem resize_columns_keeps_text:
  assumes "ascii_lib T" "reflowable n g" "0 < n"
  shows "\<exists>c g'. grid_resize compact_ops T \<lparr>ps_lines = page_lines g, ps_columns = n\<rparr> cursor wrapPending g = Inr (c, g') \<and>
    grid_ok g' \<and> gr_pageSize g' = (gr_pageSize g)\<lparr>ps_columns := n\<rparr> \<and>
    content compact_ops T (grid_view g') = content compact_ops T (grid_view g)"
  using compact.resize_columns_content [OF assms] unfolding reflows_to_def by blast

lemma text_grid_content:
  "content compact_ops byte_lib (grid_view text_grid) = [letter 0x61, letter 0x62, letter 0x63]"
proof -
  have "cc_write defaultAttributes ch 1 (cc_setHyperlink 0 cc_blank) = Inr (letter ch)" for ch
    by (simp add: cc_write_def cc_setWidth_def cc_setHyperlink_def letter_def cc_blank_def defaultAttributes_def
        if_extra_def has_extra_def MaxCodepoints_def)
  then have "inflate compact_ops byte_lib
      ((trivial_blank 2 defaultAttributes)\<lparr>tb_usedColumns := 2, tb_text := [0x62, 0x63]\<rparr>)
      = Inr [letter 0x62, letter 0x63]"
    by (simp add: inflate_def inflate_byte_def inflate_char_def push_cells_def byte_lib_def trivial_blank_def
        compact_ops_def newCompactCell_view(1) wrap8_def)
  then show ?thesis
    unfolding text_grid_view by (simp add: text_grid_def content_def nonempty_def letter_nonempty)
qed

theorem resize_columns_keeps_text_witness:
  "\<exists>c g'. grid_resize compact_ops byte_lib \<lparr>ps_lines = 2, ps_columns = 1\<rparr> \<lparr>cl_line = 0, cl_column = 0\<rparr> False text_grid
      = Inr (c, g') \<and> content compact_ops byte_lib (grid_view g') = [letter 0x61, letter 0x62, letter 0x63]"
proof -
  have "page_lines text_grid = 2" by (simp add: text_grid_def)
  then show ?thesis
    using resize_columns_keeps_text [OF ascii_lib_byte_lib text_grid_reflowable, of "\<lparr>cl_line = 0, cl_column = 0\<rparr>" False]
      text_grid_content
    by auto
qed

text \<open>
  C22. The invariant of the grid (a sound ring, the state \<open>verifyState\<close> asks for, every line as wide as
  the page) holds in every grid that any sequence of its operations reaches from a grid with a
  limited history: scrolling up, down and left in margins within the page, clearing the history,
  resetting, switching reflow, resizing the lines in both directions, and resizing the columns of
  a grid that can be reflown. Changing the limit of the history is not among them: it leaves lines
  of no width.
\<close>

theorem grid_reachable_ok:
  assumes "grid_reachable compact_ops T g0 g" "ascii_lib T" "grid_ok g0" "gr_historyLimit g0 \<noteq> Infinite"
  shows "grid_ok g \<and> gr_historyLimit g = gr_historyLimit g0"
  using assms by (rule compact.grid_reachable_lemma)

theorem grid_reachable_ok_witness:
  "\<exists>g. grid_reachable compact_ops byte_lib text_grid g \<and> gr_linesUsed g = page_lines g \<and> page_columns g = 1 \<and> grid_ok g"
proof -
  let ?reach = "grid_reachable compact_ops byte_lib text_grid"
  have start: "grid_ok text_grid" "gr_historyLimit text_grid \<noteq> Infinite" "page_lines text_grid = 2"
    using text_grid_reflowable by (auto simp: reflowable_def) (auto simp: text_grid_def)
  obtain c g1 where g1: "grid_resize compact_ops byte_lib \<lparr>ps_lines = page_lines text_grid, ps_columns = 1\<rparr>
        \<lparr>cl_line = 0, cl_column = 0\<rparr> False text_grid = Inr (c, g1)" "page_columns g1 = 1"
    using compact.resize_columns_content [OF ascii_lib_byte_lib text_grid_reflowable,
        of "\<lparr>cl_line = 0, cl_column = 0\<rparr>" False] by (auto simp: reflows_to_def)
  have r1: "?reach g1"
    by (rule grid_reachable.resize_columns [OF grid_reachable.start _ text_grid_reflowable g1(1)]) simp
  from grid_reachable_ok [OF r1 ascii_lib_byte_lib start(1,2)] have ok1: "grid_ok g1" by simp
  from clearHistory_lemma [OF ok1] obtain g2 where g2: "clearHistory g1 = Inr g2" by blast
  have r2: "?reach g2" by (rule grid_reachable.operation [OF r1, of ClearHistory]) (simp_all add: g2)
  have "gr_linesUsed g2 = page_lines g2" "page_columns g2 = 1"
    using g2 g1(2) by (auto simp: clearHistory_def require_def split: if_splits)
  with r2 grid_reachable_ok [OF r2 ascii_lib_byte_lib start(1,2)] show ?thesis by blast
qed

text \<open>
  C28. Splitting a logical line: \<open>addNewWrappedLines\<close> ends for any positive number of columns, and the
  lines it appends, read one after the other, are the buffer followed by fewer blank cells than a
  line has. Every line is full width, and all of them are marked as wrapped, the first one only if
  the caller asks for it.
\<close>

theorem wrapped_lines_roundtrip:
  assumes "0 < n"
  shows "\<exists>ls blanks. addNewWrappedLines compact_ops n buffer base noWrap target
      = Inr (length ls, target\<lparr>rg_storage := rg_storage target @ ls\<rparr>) \<and>
    concat (map line_cells ls) = buffer @ blanks \<and> list_all (op_empty compact_ops) blanks \<and> length blanks < n \<and>
    (\<forall>j < length ls. length (line_cells (ls ! j)) = n \<and>
      line_flags (ls ! j) = base OR (if j = 0 \<and> noWrap then 0 else Wrapped))"
proof -
  from compact.addNewWrappedLines_splits [OF assms, of buffer base noWrap target] obtain ls blanks where
    a: "addNewWrappedLines compact_ops n buffer base noWrap target
        = Inr (length ls, target\<lparr>rg_storage := rg_storage target @ ls\<rparr>)"
      "concat (map line_cells ls) = buffer @ blanks" "list_all (op_empty compact_ops) blanks" "length blanks < n"
      "wraps_to n base noWrap 0 ls"
    by blast
  have "length (line_cells (ls ! j)) = n \<and> line_flags (ls ! j) = base OR (if j = 0 \<and> noWrap then 0 else Wrapped)"
    if "j < length ls" for j
    using a(5) that by (auto simp: wraps_to_def wrap_flags_def line_cells_def)
  with a(1-4) show ?thesis by blast
qed

theorem wrapped_lines_roundtrip_witness:
  "\<exists>ls blanks. addNewWrappedLines compact_ops 2 [letter 0x61, letter 0x62, letter 0x63] Wrappable True (mk_ring [])
      = Inr (length ls, \<lparr>rg_storage = ls, rg_zero = 0\<rparr>) \<and>
    concat (map line_cells ls) = [letter 0x61, letter 0x62, letter 0x63] @ blanks \<and> length blanks < 2"
  using wrapped_lines_roundtrip [of 2 "[letter 0x61, letter 0x62, letter 0x63]" Wrappable True "mk_ring []"]
  by (auto simp: mk_ring_def)

text \<open>
  C25. Shrinking the page to fewer lines cuts off lines below the cursor first and pushes the top
  lines into the history for the rest: nothing above the cursor's line is lost, the view is the old
  one without the lines cut off, and the cursor moves up with its line. The lines pushed up are
  added to the history whatever its limit: the assertion that a comment in the code expects to fail
  in the alternate screen, whose history is limited to no lines, holds, and that screen gets a
  history.
\<close>

theorem shrinkLines_view:
  assumes "grid_ok g" "0 < n" "n < page_lines g" "0 \<le> cl_line cursor" "cl_line cursor < int (page_lines g)"
    and "c = min (page_lines g - n) (page_lines g - Suc (nat (cl_line cursor)))"
  shows "\<exists>g'. shrinkLines n cursor g = Inr (\<lparr>cl_line = - int (page_lines g - n - c), cl_column = 0\<rparr>, g') \<and>
    grid_ok g' \<and> page_lines g' = n \<and> grid_view g' = take (gr_linesUsed g - c) (grid_view g) \<and>
    history_lines g' = history_lines g + (page_lines g - n - c)"
proof -
  from shrinkLines_lemma [OF assms] obtain g' where
    g': "shrinkLines n cursor g = Inr (\<lparr>cl_line = - int (page_lines g - n - c), cl_column = 0\<rparr>, g')" "grid_ok g'"
      "gr_pageSize g' = (gr_pageSize g)\<lparr>ps_lines := n\<rparr>" "grid_view g' = take (gr_linesUsed g - c) (grid_view g)"
    by blast
  have "length (grid_view g') = gr_linesUsed g'" by (rule length_grid_view [OF g'(2)])
  then have "gr_linesUsed g' = gr_linesUsed g - c" using g'(4) length_grid_view [OF assms(1)] by simp
  moreover have "c \<le> page_lines g - n" using assms(6) by simp
  ultimately have "history_lines g' = history_lines g + (page_lines g - n - c)"
    using g'(3) grid_okD(6) [OF assms(1)] assms(3) by simp
  with g' show ?thesis by simp
qed

theorem shrinkLines_view_witness:
  "\<exists>g'. shrinkLines 1 \<lparr>cl_line = 1, cl_column = 0\<rparr> text_grid = Inr (\<lparr>cl_line = -1, cl_column = 0\<rparr>, g') \<and>
    gr_historyLimit text_grid = HistoryLimit 0 \<and> history_lines g' = 1"
  using shrinkLines_view [of text_grid 1 "\<lparr>cl_line = 1, cl_column = 0\<rparr>" 0] text_grid_reflowable
  by (auto simp: reflowable_def) (auto simp: text_grid_def)

text \<open>
  C26. Growing the page to more lines, on a grid whose vector is in order: with the cursor in the last
  line, lines come back from the history, and the cursor moves down with its line; what the history
  cannot give is put below the page. The view keeps all its lines in their order.
\<close>

theorem growLines_view:
  assumes "grid_ok g" "in_order g" "int (history_lines g) \<le> maxHistoryLineCount g"
    and "page_lines g < n" "ring_lines g + n < 2147483648"
    and "0 \<le> cl_line cursor" "cl_line cursor < int (page_lines g)"
    and "t = (if cl_line cursor + 1 = int (page_lines g) then min (n - page_lines g) (history_lines g) else 0)"
  shows "\<exists>g' rest. growLines n cursor g = Inr (\<lparr>cl_line = int t, cl_column = 0\<rparr>, g') \<and>
    grid_ok g' \<and> in_order g' \<and> gr_pageSize g' = (gr_pageSize g)\<lparr>ps_lines := n\<rparr> \<and>
    grid_view g' = grid_view g @ rest \<and> length rest = n - page_lines g - t"
  using assms by (rule growLines_lemma)

theorem growLines_view_witness:
  "\<exists>g' rest. growLines 4 \<lparr>cl_line = 1, cl_column = 0\<rparr> (sample_grid (HistoryLimit 1) 3 1 3)
      = Inr (\<lparr>cl_line = 1, cl_column = 0\<rparr>, g') \<and> grid_ok g' \<and> length (rest :: CompactCell Line list) = 1"
proof -
  have ok: "grid_ok (sample_grid (HistoryLimit 1) 3 1 3)" by (rule sample_grid_ok) simp_all
  show ?thesis
    using growLines_view [OF ok, of 4 "\<lparr>cl_line = 1, cl_column = 0\<rparr>" 1]
    by (auto simp: in_order_def maxHistoryLineCount_def)
qed

text \<open>
  C27. Growing a page that reaches the end of the ring's vector, with the cursor above the last line,
  tears it apart if the page goes on at the vector's start: \<open>emplace_back\<close> appends to the vector
  and not to the ring, so the blank lines land between the lines of the page that are at the
  end of the vector and those that are at its start.
\<close>

theorem growLines_splits_page:
  assumes "grid_ok g" "gr_historyLimit g = HistoryLimit m" "ring_lines g = page_lines g + m"
    and "page_lines g < n" "m + n < 2147483648"
    and "0 \<le> cl_line cursor" "cl_line cursor + 1 < int (page_lines g)"
    and "ring_lines g - rg_zero (gr_lines g) \<le> page_lines g"
  shows "\<exists>flags g'. growLines n cursor g = Inr (\<lparr>cl_line = 0, cl_column = 0\<rparr>, g') \<and>
    grid_page g' = take (ring_lines g - rg_zero (gr_lines g)) (grid_page g)
      @ replicate (n - page_lines g) (blank_line (page_columns g) defaultAttributes flags)
      @ drop (ring_lines g - rg_zero (gr_lines g)) (grid_page g)"
  using assms by (rule growLines_rotated)

theorem growLines_splits_page_witness:
  "\<exists>flags g'. growLines 3 \<lparr>cl_line = 0, cl_column = 0\<rparr> (sample_grid (HistoryLimit 1) 3 2 3)
      = Inr (\<lparr>cl_line = 0, cl_column = 0\<rparr>, g') \<and>
    grid_page g' = [grid_page (sample_grid (HistoryLimit 1) 3 2 3) ! 0, blank_line 2 defaultAttributes flags,
      grid_page (sample_grid (HistoryLimit 1) 3 2 3) ! 1]"
proof -
  have ok: "grid_ok (sample_grid (HistoryLimit 1) 3 2 3)" by (rule sample_grid_ok) simp_all
  then have "length (grid_page (sample_grid (HistoryLimit 1) 3 2 3)) = 2" by (simp add: length_grid_page)
  then obtain a b where "grid_page (sample_grid (HistoryLimit 1) 3 2 3) = [a, b]"
    by (auto simp: numeral_2_eq_2 length_Suc_conv)
  then show ?thesis
    using growLines_splits_page [OF ok, of 1 3 "\<lparr>cl_line = 0, cl_column = 0\<rparr>"] by auto
qed

text \<open>
  C29. Changing the limit of a full history: lowering it keeps the oldest lines and drops the newest;
  raising it shifts the history up and leaves empty lines of no width between it and the page. The
  page stays.
\<close>

theorem setMaxHistoryLineCount_history:
  assumes "grid_ok g" "gr_linesUsed g = ring_lines g" "page_lines g + n < 2147483648"
  shows "\<exists>g'. setMaxHistoryLineCount (HistoryLimit n) g = Inr g' \<and> grid_page g' = grid_page g \<and>
    grid_history g' = (if n < history_lines g then take n (grid_history g)
      else drop (n - history_lines g) (grid_history g @ replicate (n - history_lines g) newLine))"
proof -
  have "length (grid_history g) = history_lines g"
    using length_grid_view [OF assms(1)] by (simp add: grid_history_def)
  with setMaxHistoryLineCount_lemma [OF assms] show ?thesis by auto
qed

theorem setMaxHistoryLineCount_history_witness:
  "\<exists>g'. setMaxHistoryLineCount (HistoryLimit 2) (sample_grid (HistoryLimit 1) 3 1 3) = Inr g' \<and>
    grid_history g' = [newLine]"
proof -
  have ok: "grid_ok (sample_grid (HistoryLimit 1) 3 1 3)" by (rule sample_grid_ok) simp_all
  have "length (grid_history (sample_grid (HistoryLimit 1) 3 1 3)) = 1"
    using length_grid_view [OF ok] by (simp add: grid_history_def)
  then obtain l where "grid_history (sample_grid (HistoryLimit 1) 3 1 3) = [l]" by (auto simp: length_Suc_conv)
  with setMaxHistoryLineCount_history [OF ok, of 2] show ?thesis by auto
qed

end
