(* ===== verification/VT_ScreenOps.thy ===== *)
theory VT_ScreenOps
  imports VT_Screen VT_GridResize
begin

unbundle bit_operations_syntax

text \<open>
  The invariant of the screen, and that its operations keep it: the grid is well formed, the margins
  lie within the page, the cursor is in the page, and the pointer to the current line refers to the
  line of the cursor. Operations fall into three groups: those that only change cells or lines in
  place (\<open>redrawn\<close>), those that move the cursor within its line, and those that end by updating the
  pointer.
\<close>

subsection \<open>The invariant\<close>

definition in_page :: "'c Grid \<Rightarrow> CellLocation \<Rightarrow> bool" where
  "in_page g p \<longleftrightarrow> 0 \<le> cl_line p \<and> cl_line p < int (page_lines g) \<and> 0 \<le> cl_column p \<and> cl_column p < int (page_columns g)"

definition screen_shape :: "'c Screen \<Rightarrow> bool" where
  "screen_shape s \<longleftrightarrow> grid_ok (scr_grid s) \<and> gr_historyLimit (scr_grid s) \<noteq> Infinite \<and>
    margin_ok (gr_pageSize (scr_grid s)) (scr_margin s) \<and> in_page (scr_grid s) (cu_position (scr_cursor s)) \<and>
    in_page (scr_grid s) (scr_lastCursorPosition s) \<and> (\<forall>t \<in> set (tm_tabs s). 0 \<le> t)"

definition screen_ok :: "'c Screen \<Rightarrow> bool" where
  "screen_ok s \<longleftrightarrow> screen_shape s \<and> ring_index (gr_lines (scr_grid s)) (cursor_line s) = Inr (scr_currentLine s)"

lemmas cursor_simps = set_position_def set_wrapPending_def set_grid_def set_lines_def

lemma position_fields [simp]:
  "scr_grid (set_position y x s) = scr_grid s" "scr_margin (set_position y x s) = scr_margin s"
  "cursor_line (set_position y x s) = y" "cursor_column (set_position y x s) = x"
  "tm_tabs (set_position y x s) = tm_tabs s" "rendition (set_position y x s) = rendition s"
  by (simp_all add: set_position_def)

lemma wrap_fields [simp]:
  "scr_grid (set_wrapPending b s) = scr_grid s" "scr_margin (set_wrapPending b s) = scr_margin s"
  "cursor_line (set_wrapPending b s) = cursor_line s" "cursor_column (set_wrapPending b s) = cursor_column s"
  "tm_tabs (set_wrapPending b s) = tm_tabs s" "rendition (set_wrapPending b s) = rendition s"
  by (simp_all add: set_wrapPending_def)

lemma shape_position:
  assumes "screen_shape s" "0 \<le> y" "y < int (screen_lines s)" "0 \<le> x" "x < int (screen_columns s)"
  shows "screen_shape (set_position y x s)"
  using assms by (simp add: screen_shape_def in_page_def cursor_simps)

lemma shape_wrap [simp]: "screen_shape (set_wrapPending b s) \<longleftrightarrow> screen_shape s"
  by (simp add: screen_shape_def cursor_simps)

lemma ok_wrap [simp]: "screen_ok (set_wrapPending b s) \<longleftrightarrow> screen_ok s"
  by (simp add: screen_ok_def) (simp add: cursor_simps)

lemma ok_column:
  assumes "screen_ok s" "0 \<le> x" "x < int (screen_columns s)"
  shows "screen_ok (set_position (cursor_line s) x s)"
  using assms by (simp add: screen_ok_def screen_shape_def in_page_def cursor_simps)

lemma ok_shape: "screen_ok s \<Longrightarrow> screen_shape s"
  by (simp add: screen_ok_def)

lemma screen_okD:
  assumes "screen_ok s"
  shows "grid_ok (scr_grid s)" "gr_historyLimit (scr_grid s) \<noteq> Infinite"
    "margin_ok (gr_pageSize (scr_grid s)) (scr_margin s)"
    "0 \<le> cursor_line s" "cursor_line s < int (screen_lines s)"
    "0 \<le> cursor_column s" "cursor_column s < int (screen_columns s)"
    "ring_index (gr_lines (scr_grid s)) (cursor_line s) = Inr (scr_currentLine s)"
    "\<And>t. t \<in> set (tm_tabs s) \<Longrightarrow> 0 \<le> t"
  using assms by (simp_all add: screen_ok_def screen_shape_def in_page_def)

lemma ring_index_total:
  assumes "grid_ok g" "0 \<le> y" "y < int (page_lines g)"
  shows "\<exists>k. ring_index (gr_lines g) y = Inr k \<and> k < ring_lines g"
proof -
  note ok = grid_okD [OF assms(1)]
  have "\<exists>l. ring_get (gr_lines g) y = Inr l"
    using lineAt_view [OF assms(1) _ assms(3)] assms(2) by (simp add: lineAt_def)
  then obtain k where "ring_index (gr_lines g) y = Inr k" by (auto simp: ring_get_def bind_result_eq_Inr)
  moreover from this ok(8) have "k < ring_lines g" by (auto simp: ring_index_def Let_def split: if_splits)
  ultimately show ?thesis by blast
qed

text \<open>Updating the pointer never fails, and makes a screen of the right shape well formed.\<close>

lemma updateCursorIterator_ok:
  assumes "screen_shape s"
  obtains s' where "updateCursorIterator s = Inr s'" "screen_ok s'" "scr_grid s' = scr_grid s"
    "scr_cursor s' = scr_cursor s" "scr_margin s' = scr_margin s" "tm_tabs s' = tm_tabs s"
proof -
  from ring_index_total [of "scr_grid s" "cursor_line s"] assms obtain k where
    k: "ring_index (gr_lines (scr_grid s)) (cursor_line s) = Inr k"
    by (auto simp: screen_shape_def in_page_def)
  then show thesis
    using that [of "s\<lparr>scr_currentLine := k\<rparr>"] assms by (simp add: updateCursorIterator_def screen_ok_def screen_shape_def)
qed

lemma updateCursorIterator_keeps:
  assumes "updateCursorIterator s = Inr s'" "screen_shape s"
  shows "screen_ok s'"
  using assms updateCursorIterator_ok [OF assms(2)] by (metis Inr_inject)

subsection \<open>Changes in place\<close>

definition redraws :: "'c Grid \<Rightarrow> 'c Grid \<Rightarrow> bool" where
  "redraws g g' \<longleftrightarrow> keeps g g' \<and> rg_zero (gr_lines g') = rg_zero (gr_lines g)"

definition redrawn :: "'c Screen \<Rightarrow> 'c Screen \<Rightarrow> bool" where
  "redrawn s s' \<longleftrightarrow> redraws (scr_grid s) (scr_grid s') \<and> s' = s\<lparr>scr_grid := scr_grid s'\<rparr>"

lemma ring_index_cong: "rg_zero r' = rg_zero r \<Longrightarrow> ring_size r' = ring_size r \<Longrightarrow> ring_index r' i = ring_index r i"
  by (simp only: ring_index_def)

lemma redrawn_ok:
  assumes "redrawn s s'" "screen_ok s"
  shows "screen_ok s'"
proof -
  define g where "g = scr_grid s'"
  have g: "keeps (scr_grid s) g" "rg_zero (gr_lines g) = rg_zero (gr_lines (scr_grid s))" "s' = s\<lparr>scr_grid := g\<rparr>"
    using assms(1) by (simp_all add: redrawn_def redraws_def g_def)
  have "ring_index (gr_lines g) i = ring_index (gr_lines (scr_grid s)) i" for i
    using g(1,2) by (intro ring_index_cong) (simp_all add: keeps_def)
  with g(1) assms(2) show ?thesis
    unfolding g(3) by (simp add: keeps_def screen_ok_def screen_shape_def in_page_def)
qed

lemma redrawn_refl: "grid_ok (scr_grid s) \<Longrightarrow> redrawn s s"
  by (simp add: redrawn_def redraws_def keeps_refl)

lemma redrawn_trans: "redrawn s s' \<Longrightarrow> redrawn s' s'' \<Longrightarrow> redrawn s s''"
  by (cases s; cases s'; cases s'') (auto simp: redrawn_def redraws_def intro: keeps_trans)

lemma redrawn_grid: "redrawn s s' \<Longrightarrow> grid_ok (scr_grid s')"
  by (simp add: redrawn_def redraws_def keeps_def)

lemma redrawn_same:
  assumes "redrawn s s'"
  shows "scr_cursor s' = scr_cursor s" "scr_margin s' = scr_margin s" "gr_pageSize (scr_grid s') = gr_pageSize (scr_grid s)"
    "tm_tabs s' = tm_tabs s" "scr_currentLine s' = scr_currentLine s" "scr_lastCursorPosition s' = scr_lastCursorPosition s"
  using assms by (cases s; cases s'; auto simp: redrawn_def redraws_def keeps_def)+

lemma redrawn_fold:
  assumes "fold_result f xs s = Inr s'" "grid_ok (scr_grid s)"
    and "\<And>x s s'. f x s = Inr s' \<Longrightarrow> grid_ok (scr_grid s) \<Longrightarrow> redrawn s s'"
  shows "redrawn s s'"
proof (rule fold_result_invariant [where P = "redrawn s", OF _ redrawn_refl [OF assms(2)] assms(1)])
  fix x t t'
  assume t: "redrawn s t" "f x t = Inr t'"
  from assms(3) [OF t(2) redrawn_grid [OF t(1)]] t(1) show "redrawn s t'" by (rule redrawn_trans [rotated])
qed

definition fits_step :: "('c Line \<Rightarrow> 'c Line result) \<Rightarrow> bool" where
  "fits_step f \<longleftrightarrow> (\<forall>w l l'. line_fits w l \<longrightarrow> f l = Inr l' \<longrightarrow> line_fits w l')"

lemma on_line_redrawn:
  assumes "on_line y f s = Inr s'" "grid_ok (scr_grid s)" "fits_step f"
  shows "redrawn s s'"
proof -
  from assms(1) obtain l l' r where l: "ring_get (gr_lines (scr_grid s)) y = Inr l" "f l = Inr l'"
      "ring_set (gr_lines (scr_grid s)) y l' = Inr r" "s' = set_lines r s"
    by (auto simp: on_line_def lineAt_def bind_result_eq_Inr)
  note rows = grid_ok_rows [OF assms(2)]
  have "line_fits (screen_columns s) l'"
    using assms(3) rows_get [OF l(1) rows] l(2) unfolding fits_step_def by blast
  from rows_keeps_lines [OF assms(2) rows_set [OF l(3) rows this]] ring_set_zero [OF l(3)] l(4)
  show ?thesis by (simp add: redrawn_def redraws_def set_lines_def)
qed

lemma on_current_redrawn:
  assumes "on_current f s = Inr s'" "grid_ok (scr_grid s)" "fits_step f"
  shows "redrawn s s'"
proof -
  let ?r = "gr_lines (scr_grid s)" and ?k = "scr_currentLine s"
  from assms(1) obtain l' where l: "?k < ring_lines (scr_grid s)" "f (rg_storage ?r ! ?k) = Inr l'"
      "s' = set_lines (?r\<lparr>rg_storage := (rg_storage ?r)[?k := l']\<rparr>) s"
    by (auto simp: on_current_def currentLine_def Let_def bind_result_eq_Inr split: if_splits)
  note rows = grid_ok_rows [OF assms(2)]
  have "rg_storage ?r ! ?k \<in> set (rg_storage ?r)" using l(1) by simp
  then have "line_fits (screen_columns s) (rg_storage ?r ! ?k)" using assms(2) by (auto simp: grid_ok_def list_all_iff)
  then have fit: "line_fits (screen_columns s) l'" using assms(3) l(2) unfolding fits_step_def by blast
  have "rows_ok (screen_columns s) (ring_lines (scr_grid s)) (?r\<lparr>rg_storage := (rg_storage ?r)[?k := l']\<rparr>)"
    using rows fit set_update_subset_insert [of "rg_storage ?r" ?k l'] by (auto simp: rows_ok_def ring_ok_def)
  from rows_keeps_lines [OF assms(2) this] l(3) show ?thesis by (simp add: redrawn_def redraws_def set_lines_def)
qed

lemma on_current_line:
  assumes "screen_ok s"
  shows "on_current f s = on_line (cursor_line s) f s"
  using screen_okD(8) [OF assms] ring_index_total [OF screen_okD(1,4,5) [OF assms]]
  by (auto simp: on_current_def currentLine_def on_line_def lineAt_def ring_get_def ring_set_def Let_def)

lemma fits_inflated:
  assumes "\<And>cs l l' w. length cs = w \<Longrightarrow> f cs l = Inr l' \<Longrightarrow> line_fits w l \<Longrightarrow> line_fits w l'"
  shows "fits_step (\<lambda>l. bind_result (inflatedBuffer K T l) (\<lambda>(cs, l). f cs l))"
  unfolding fits_step_def
proof (intro allI impI)
  fix w l l'
  assume l: "line_fits w l" "bind_result (inflatedBuffer K T l) (\<lambda>(cs, l). f cs l) = Inr l'"
  then obtain cs l1 where "inflatedBuffer K T l = Inr (cs, l1)" "f cs l1 = Inr l'" by (auto simp: bind_result_eq_Inr)
  with line_fits_inflated [of K T l cs l1 w] l(1) assms show "line_fits w l'" by blast
qed

lemma change_cell_fits: "fits_step (change_cell K T x f)"
proof -
  have "fits_step (\<lambda>l. bind_result (inflatedBuffer K T l) (\<lambda>(cs, l).
         if int (length cs) \<le> x then Inl OutOfBounds
         else bind_result (f (cs ! nat x)) (\<lambda>c. Inr (l\<lparr>line_storage := InflatedBuffer (cs[nat x := c])\<rparr>))))"
    by (rule fits_inflated) (auto simp: bind_result_eq_Inr split: if_splits)
  then show ?thesis by (auto simp: fits_step_def change_cell_def)
qed

lemma change_range_fits: "fits_step (change_range K T a n f)"
  unfolding change_range_def
proof (rule fits_inflated, goal_cases)
  case (1 cs l l' w)
  then obtain changed where "0 \<le> a" "0 \<le> n" "a + n \<le> int (length cs)"
      "map_result f (take (nat n) (drop (nat a) cs)) = Inr changed"
      "l' = l\<lparr>line_storage := InflatedBuffer (take (nat a) cs @ changed @ drop (nat (a + n)) cs)\<rparr>"
    by (auto simp: bind_result_eq_Inr not_less split: if_splits)
  with map_result_length [of f "take (nat n) (drop (nat a) cs)" changed] 1(1) show ?case
    by (auto simp: nat_add_distrib min_def nat_le_iff)
qed

lemma rotate_cells_fits: "fits_step (rotate_cells K T a b c)"
  unfolding rotate_cells_def
  by (rule fits_inflated) (auto simp: not_less nat_le_eq_zle nat_le_iff min_def split: if_splits)

lemma reset_fits: "line_fits w l \<Longrightarrow> line_fits w (line_reset flags attr l)"
proof -
  assume "line_fits w l"
  then have "line_size l = w" by (simp add: line_fits_def)
  then show ?thesis by (simp add: line_reset_blank)
qed

lemma line_reset_fits: "fits_step (\<lambda>l. Inr (line_reset flags attr l))"
  "fits_step (\<lambda>l. Inr (line_reset (line_flags l) attr l))"
  by (auto simp: fits_step_def intro: reset_fits)

lemma setFlag_fits: "fits_step (\<lambda>l. Inr (setFlag fl b l))"
  by (auto simp: fits_step_def setFlag_def line_fits_def line_size_def)

lemmas line_step_fits = change_cell_fits change_range_fits rotate_cells_fits line_reset_fits setFlag_fits

subsection \<open>Moving the cursor\<close>

lemma std_clamp_range: "lo \<le> hi \<Longrightarrow> lo \<le> std_clamp v lo hi \<and> std_clamp v lo hi \<le> hi"
  by (simp add: std_clamp_def)

lemma clampedLine_range: "screen_shape s \<Longrightarrow> 0 \<le> clampedLine s y \<and> clampedLine s y < int (screen_lines s)"
  using grid_okD(4) [of "scr_grid s"] by (auto simp: clampedLine_def std_clamp_def screen_shape_def)

lemma clampedColumn_range: "screen_shape s \<Longrightarrow> 0 \<le> clampedColumn s x \<and> clampedColumn s x < int (screen_columns s)"
  using grid_okD(5) [of "scr_grid s"] by (auto simp: clampedColumn_def std_clamp_def screen_shape_def)

lemma moveCursorTo_ok:
  assumes "screen_shape s"
  shows "\<exists>s'. moveCursorTo y x s = Inr s' \<and> screen_ok s' \<and> scr_grid s' = scr_grid s \<and>
    scr_cursor s' = (scr_cursor s)\<lparr>cu_wrapPending := False,
      cu_position := \<lparr>cl_line = clampedLine s (y + cl_line (origin s)), cl_column = clampedColumn s (x + cl_column (origin s))\<rparr>\<rparr>"
proof -
  let ?s = "set_position (clampedLine s (y + cl_line (origin s))) (clampedColumn s (x + cl_column (origin s)))
    (set_wrapPending False s)"
  have "screen_shape ?s"
    by (rule shape_position) (use assms clampedLine_range [OF assms] clampedColumn_range [OF assms] in simp_all)
  from updateCursorIterator_ok [OF this] show ?thesis
    by (auto simp: moveCursorTo_def clampToScreen_def Let_def set_position_def set_wrapPending_def)
qed

lemma moveCursorTo_keeps: "moveCursorTo y x s = Inr s' \<Longrightarrow> screen_shape s \<Longrightarrow> screen_ok s'"
  using moveCursorTo_ok [of s y x] by auto

lemma moveCursorVertically_ok:
  assumes "screen_ok s"
  shows "\<exists>s'. moveCursorVertically y s = Inr s' \<and> screen_ok s' \<and> scr_grid s' = scr_grid s \<and>
    cursor_column s' = cursor_column s \<and>
    (vertical_contains (scr_margin s) (cursor_line s) \<longrightarrow> vertical_contains (scr_margin s) (cursor_line s'))"
proof -
  let ?m = "scr_margin s"
  let ?y = "if vertical_contains ?m (cursor_line s) then std_clamp y (mg_top ?m) (mg_bottom ?m) else clampedLine s y"
  note ok = screen_okD [OF assms]
  have y: "0 \<le> ?y" "?y < int (screen_lines s)"
    using ok(3) std_clamp_range [of "mg_top ?m" "mg_bottom ?m" y] clampedLine_range [OF ok_shape [OF assms], of y]
    by (auto simp: margin_ok_def)
  have "screen_shape (set_position ?y (cursor_column s) (set_wrapPending False s))"
    by (rule shape_position) (use ok_shape [OF assms] y ok in simp_all)
  then obtain s' where s': "updateCursorIterator (set_position ?y (cursor_column s) (set_wrapPending False s)) = Inr s'"
      "screen_ok s'" "scr_grid s' = scr_grid s" "cursor_column s' = cursor_column s" "cursor_line s' = ?y"
    by (rule updateCursorIterator_ok) (auto simp: cursor_simps)
  moreover have "vertical_contains ?m ?y" if "vertical_contains ?m (cursor_line s)"
    using that ok(3) std_clamp_range [of "mg_top ?m" "mg_bottom ?m" y] by (simp add: vertical_contains_def margin_ok_def)
  ultimately show ?thesis by (auto simp: moveCursorVertically_def Let_def)
qed

lemma moveCursorVertically_keeps: "moveCursorVertically y s = Inr s' \<Longrightarrow> screen_ok s \<Longrightarrow> screen_ok s'"
  using moveCursorVertically_ok [of s y] by auto

lemma moveCursorForward_keeps: "screen_ok s \<Longrightarrow> screen_ok (moveCursorForward n s)"
  and moveCursorBackward_keeps: "screen_ok s \<Longrightarrow> screen_ok (moveCursorBackward n s)"
proof -
  assume ok: "screen_ok s"
  note d = screen_okD [OF ok]
  have "0 \<le> (if horizontal_contains (scr_margin s) (cursor_column s)
      then std_clamp x (mg_left (scr_margin s)) (mg_right (scr_margin s)) else clampedColumn s x')"
    "(if horizontal_contains (scr_margin s) (cursor_column s)
      then std_clamp x (mg_left (scr_margin s)) (mg_right (scr_margin s)) else clampedColumn s x') < int (screen_columns s)"
    for x x'
    using d(3) std_clamp_range [of "mg_left (scr_margin s)" "mg_right (scr_margin s)" x]
      clampedColumn_range [OF ok_shape [OF ok], of x'] by (auto simp: margin_ok_def)
  from ok_column [OF ok this] show "screen_ok (moveCursorForward n s)" "screen_ok (moveCursorBackward n s)"
    by (simp_all add: moveCursorForward_def moveCursorBackward_def Let_def)
qed

lemma setCurrentColumn_keeps:
  assumes "screen_ok s" "0 \<le> n"
  shows "screen_ok (setCurrentColumn n s)"
proof -
  let ?x = "min (if cu_originMode (scr_cursor s) then mg_left (scr_margin s) + n else n) (int (screen_columns s) - 1)"
  have "0 \<le> ?x" "?x < int (screen_columns s)"
    using screen_okD(3,6,7) [OF assms(1)] assms(2) by (auto simp: margin_ok_def)
  from ok_column [OF assms(1) this] have "screen_ok (set_wrapPending False (set_position (cursor_line s) ?x s))" by simp
  moreover have "setCurrentColumn n s = set_wrapPending False (set_position (cursor_line s) ?x s)"
    by (simp add: setCurrentColumn_def cursor_simps Let_def)
  ultimately show ?thesis by simp
qed

lemma backspace_keeps: "screen_ok s \<Longrightarrow> screen_ok (backspace s)"
  using screen_okD(6,7) [of s] by (auto simp: backspace_def intro: ok_column)

lemma moveCursorToNextTab_keeps: "screen_ok s \<Longrightarrow> screen_ok (moveCursorToNextTab s)"
  by (auto simp: moveCursorToNextTab_def Let_def moveCursorForward_keeps split: option.split)

lemma cursorForwardTab_keeps: "screen_ok s \<Longrightarrow> screen_ok (cursorForwardTab n s)"
  by (induction n arbitrary: s) (auto intro: moveCursorToNextTab_keeps)

lemma backward_tabs_keeps: "screen_ok s \<Longrightarrow> screen_ok (backward_tabs n s)"
proof (induction n arbitrary: s)
  case (Suc n)
  have left: "0 \<le> mg_left (scr_margin s)" using screen_okD(3) [OF Suc.prems] by (simp add: margin_ok_def)
  have "screen_ok (setCurrentColumn t s)" if "find P (rev (tm_tabs s)) = Some t" for P t
  proof -
    from that have "t \<in> set (rev (tm_tabs s))" by (auto simp: find_Some_iff simp del: set_rev)
    then show ?thesis using screen_okD(9) [OF Suc.prems, of t] setCurrentColumn_keeps [OF Suc.prems] by simp
  qed
  then show ?case using Suc setCurrentColumn_keeps [OF Suc.prems left] by (auto split: option.split)
qed simp

lemma cursorBackwardTab_keeps: "screen_ok s \<Longrightarrow> screen_ok (cursorBackwardTab n s)"
  by (auto simp: cursorBackwardTab_def Let_def intro: backward_tabs_keeps setCurrentColumn_keeps moveCursorBackward_keeps)

lemma tabs_keeps:
  assumes "screen_ok s"
  shows "screen_ok (setTabUnderCursor s)" "screen_ok (horizontalTabClear which s)"
proof -
  have ok: "screen_ok (s\<lparr>tm_tabs := ts\<rparr>) \<longleftrightarrow> (\<forall>t \<in> set ts. 0 \<le> t)" for ts
    using assms by (simp add: screen_ok_def screen_shape_def)
  show "screen_ok (setTabUnderCursor s)" using screen_okD(6,9) [OF assms] by (auto simp: setTabUnderCursor_def ok)
  have rest: "\<forall>t \<in> set (remove1 c ts). 0 \<le> t" if "\<forall>t \<in> set ts. 0 \<le> t" for c :: int and ts
    using that set_remove1_subset [of c ts] by auto
  have "screen_ok (clearTabUnderCursor s)"
    unfolding clearTabUnderCursor_def Let_def ok
    by (rule rest) (use screen_okD(9) [OF assms] in \<open>auto simp: TabWidth_def\<close>)
  then show "screen_ok (horizontalTabClear which s)" by (cases which) (simp_all add: ok)
qed

subsection \<open>Scrolling and feeding lines\<close>

lemma shape_grid: "keeps (scr_grid s) g \<Longrightarrow> screen_shape s \<Longrightarrow> screen_shape (set_grid g s)"
  by (simp add: screen_shape_def keeps_def in_page_def set_grid_def)

lemma scr_scrollUp_keeps:
  assumes "scr_scrollUp K T n sgr m s = Inr s'" "screen_shape s" "margin_ok (gr_pageSize (scr_grid s)) m"
  shows "screen_ok s'"
proof -
  from assms(1) obtain k g where g: "scrollUp K T n sgr m (scr_grid s) = Inr (k, g)"
      "updateCursorIterator (set_grid g s) = Inr s'"
    by (auto simp: scr_scrollUp_def bind_result_eq_Inr)
  have "keeps (scr_grid s) g" by (rule scrollUp_keeps [OF g(1)]) (use assms(2,3) in \<open>simp_all add: screen_shape_def\<close>)
  with g(2) assms(2) show ?thesis by (blast intro: updateCursorIterator_keeps shape_grid)
qed

lemma scr_scrollDown_keeps:
  assumes "scr_scrollDown K T n m s = Inr s'" "screen_shape s" "margin_ok (gr_pageSize (scr_grid s)) m"
  shows "screen_ok s'"
proof -
  from assms(1) obtain g where g: "scrollDown K T n (rendition s) m (scr_grid s) = Inr g"
      "updateCursorIterator (set_grid g s) = Inr s'"
    by (auto simp: scr_scrollDown_def bind_result_eq_Inr)
  have "keeps (scr_grid s) g" by (rule scrollDown_keeps [OF g(1)]) (use assms(2,3) in \<open>simp_all add: screen_shape_def\<close>)
  with g(2) assms(2) show ?thesis by (blast intro: updateCursorIterator_keeps shape_grid)
qed

text \<open>A line feed stays in the page unless the cursor is in the last line, below the margin.\<close>

definition can_feed :: "'c Screen \<Rightarrow> bool" where
  "can_feed s \<longleftrightarrow> cursor_line s = mg_bottom (scr_margin s) \<or> cursor_line s + 1 < int (screen_lines s)"

lemma linefeed_to_keeps:
  assumes "linefeed_to K T x s = Inr s'" "screen_ok s" "0 \<le> x" "x < int (screen_columns s)" "can_feed s"
  shows "screen_ok s'"
proof -
  let ?s = "set_position (cursor_line s) x (set_wrapPending False s)"
  note ok = screen_okD [OF assms(2)]
  have shape: "screen_shape ?s"
    by (rule shape_position) (use assms(3,4) ok_shape [OF assms(2)] ok(4,5) in simp_all)
  show ?thesis
  proof (cases "cursor_line s = mg_bottom (scr_margin s)")
    case True
    with assms(1) have "scr_scrollUp K T 1 (rendition s) (scr_margin s) ?s = Inr s'"
      by (simp add: linefeed_to_def Let_def)
    then show ?thesis by (rule scr_scrollUp_keeps) (use shape ok(3) in simp_all)
  next
    case False
    with assms(1) have "updateCursorIterator (set_position (cursor_line s + 1) x ?s) = Inr s'"
      by (simp add: linefeed_to_def Let_def)
    moreover have "screen_shape (set_position (cursor_line s + 1) x ?s)"
      by (rule shape_position) (use shape assms(3-5) ok(4,5) False in \<open>simp_all add: can_feed_def\<close>)
    ultimately show ?thesis by (rule updateCursorIterator_keeps)
  qed
qed

lemma left_margin_column:
  assumes "screen_ok s"
  shows "0 \<le> mg_left (scr_margin s)" "mg_left (scr_margin s) < int (screen_columns s)"
  using screen_okD(3) [OF assms] by (auto simp: margin_ok_def)

lemma linefeed_keeps: "linefeed K T s = Inr s' \<Longrightarrow> screen_ok s \<Longrightarrow> can_feed s \<Longrightarrow> screen_ok s'"
  unfolding linefeed_def
  by (erule linefeed_to_keeps) (use left_margin_column [of s] screen_okD(6,7) [of s] in simp_all)

lemma crlf_keeps: "crlf K T s = Inr s' \<Longrightarrow> screen_ok s \<Longrightarrow> can_feed s \<Longrightarrow> screen_ok s'"
  unfolding crlf_def by (erule linefeed_to_keeps) (use left_margin_column [of s] in simp_all)

lemma index_keeps:
  assumes "index K T s = Inr s'" "screen_ok s"
  shows "screen_ok s'"
  using assms scr_scrollUp_keeps [of K T 1 "rendition s" "scr_margin s" s s'] ok_shape [OF assms(2)]
    screen_okD(3) [OF assms(2)] moveCursorVertically_keeps [of _ s s']
  by (auto simp: index_def moveCursorDown_def split: if_splits)

lemma reverseIndex_keeps:
  assumes "reverseIndex K T s = Inr s'" "screen_ok s"
  shows "screen_ok s'"
  using assms scr_scrollDown_keeps [of K T 1 "scr_margin s" s s'] ok_shape [OF assms(2)]
    screen_okD(3) [OF assms(2)] moveCursorVertically_keeps [of _ s s']
  by (auto simp: reverseIndex_def moveCursorUp_def split: if_splits)

lemma backIndex_keeps: "screen_ok s \<Longrightarrow> screen_ok (backIndex s)"
  by (simp add: backIndex_def moveCursorForward_keeps)

subsection \<open>Rows\<close>

lemma useCellAt_redraws: "useCellAt K T y x g = Inr (cs, g') \<Longrightarrow> grid_ok g \<Longrightarrow> redraws g g'"
  using useCellAt_keeps(1) [of K T y x g cs g']
  by (auto simp: redraws_def useCellAt_def bind_result_eq_Inr dest: ring_set_zero split: if_splits)

lemma put_cells_zero: "put_cells y cs g = Inr g' \<Longrightarrow> rg_zero (gr_lines g') = rg_zero (gr_lines g)"
  by (auto simp: put_cells_def bind_result_eq_Inr dest: ring_set_zero)

lemma change_row_redraws:
  assumes "change_row K T f y left n g = Inr g'" "grid_ok g" "0 \<le> left"
  shows "redraws g g'"
proof -
  from assms(1) obtain cs g1 cs' where "useCellAt K T y left g = Inr (cs, g1)" "put_cells y cs' g1 = Inr g'"
    by (auto simp: change_row_def bind_result_eq_Inr split: if_splits)
  with useCellAt_redraws [OF _ assms(2)] change_row_keeps [OF assms] put_cells_zero show ?thesis
    by (fastforce simp: redraws_def)
qed

lemma on_row_redrawn:
  assumes "on_row K T f y left n s = Inr s'" "grid_ok (scr_grid s)" "0 \<le> left"
  shows "redrawn s s'"
  using assms(1) change_row_redraws [OF _ assms(2,3)] by (auto simp: on_row_def bind_result_eq_Inr redrawn_def set_grid_def)

lemma scrollLeft_redraws:
  assumes "scrollLeft K T attr m g = Inr g'" "grid_ok g"
  shows "redraws g g'"
proof -
  have row: "rg_zero (gr_lines h') = rg_zero (gr_lines h)" if "scrollLeft_row K T attr m y h = Inr h'" for y h h'
    using that by (auto simp: scrollLeft_row_def Let_def bind_result_eq_Inr dest: ring_set_zero split: if_splits)
  have "rg_zero (gr_lines g') = rg_zero (gr_lines g)"
    using assms(1) unfolding scrollLeft_def
    by (rule fold_result_invariant [where P = "\<lambda>h. rg_zero (gr_lines h) = rg_zero (gr_lines g)", rotated 2])
      (use row in auto)
  with scrollLeft_keeps [OF assms] show ?thesis by (simp add: redraws_def)
qed

lemma reset_lines_zero: "reset_lines flags attr ys r = Inr r' \<Longrightarrow> rg_zero r' = rg_zero r"
  unfolding reset_lines_def
  by (erule fold_result_invariant [where P = "\<lambda>q. rg_zero q = rg_zero r", rotated 2])
    (auto simp: bind_result_eq_Inr dest: ring_set_zero)

lemma reset_rows_redrawn:
  assumes "reset_rows ys s = Inr s'" "grid_ok (scr_grid s)"
  shows "redrawn s s'"
proof -
  from assms(1) obtain r where r: "reset_lines (defaultLineFlags (scr_grid s)) (rendition s) ys (gr_lines (scr_grid s)) = Inr r"
      "s' = set_lines r s"
    by (auto simp: reset_rows_def bind_result_eq_Inr)
  from rows_keeps_lines [OF assms(2) rows_reset [OF r(1) grid_ok_rows [OF assms(2)]]] reset_lines_zero [OF r(1)] r(2)
  show ?thesis by (simp add: redrawn_def redraws_def set_lines_def)
qed

lemma forwardIndex_keeps:
  assumes "forwardIndex K T s = Inr s'" "screen_ok s"
  shows "screen_ok s'"
proof -
  have "redrawn s (set_grid g s)" if "scrollLeft K T a m (scr_grid s) = Inr g" for a m g
    using scrollLeft_redraws [OF that screen_okD(1) [OF assms(2)]] by (simp add: redrawn_def set_grid_def)
  with assms moveCursorForward_keeps [OF assms(2), of 1] show ?thesis
    by (auto simp: forwardIndex_def bind_result_eq_Inr split: if_splits intro: redrawn_ok)
qed

subsection \<open>Erasing and editing change lines in place\<close>

lemma clearToEndOfLine_redrawn:
  assumes "clearToEndOfLine K T s = Inr s'" "screen_ok s"
  shows "redrawn s s'"
  using assms(1) on_current_redrawn [OF _ screen_okD(1) [OF assms(2)] line_reset_fits(2)]
    on_row_redrawn [OF _ screen_okD(1,6) [OF assms(2)]]
  by (auto simp: clearToEndOfLine_def split: if_splits)

lemma clearToBeginOfLine_redrawn:
  assumes "clearToBeginOfLine K T s = Inr s'" "grid_ok (scr_grid s)"
  shows "redrawn s s'"
  using on_row_redrawn [OF assms(1) [unfolded clearToBeginOfLine_def] assms(2)] by simp

lemma clearLine_redrawn: "clearLine s = Inr s' \<Longrightarrow> grid_ok (scr_grid s) \<Longrightarrow> redrawn s s'"
  unfolding clearLine_def by (erule (1) on_current_redrawn) (rule line_reset_fits)

lemma clearToEndOfScreen_redrawn:
  assumes "clearToEndOfScreen K T s = Inr s'" "screen_ok s"
  shows "redrawn s s'"
proof -
  from assms(1) obtain s1 where s1: "clearToEndOfLine K T s = Inr s1"
      "reset_rows [cursor_line s1 + 1..int (screen_lines s1) - 1] s1 = Inr s'"
    by (auto simp: clearToEndOfScreen_def bind_result_eq_Inr)
  note r = clearToEndOfLine_redrawn [OF s1(1) assms(2)]
  from r reset_rows_redrawn [OF s1(2) redrawn_grid [OF r]] show ?thesis by (rule redrawn_trans)
qed

lemma clearToBeginOfScreen_redrawn:
  assumes "clearToBeginOfScreen K T s = Inr s'" "grid_ok (scr_grid s)"
  shows "redrawn s s'"
proof -
  from assms(1) obtain s1 where s1: "clearToBeginOfLine K T s = Inr s1" "reset_rows [0..cursor_line s1 - 1] s1 = Inr s'"
    by (auto simp: clearToBeginOfScreen_def bind_result_eq_Inr)
  note r = clearToBeginOfLine_redrawn [OF s1(1) assms(2)]
  from r reset_rows_redrawn [OF s1(2) redrawn_grid [OF r]] show ?thesis by (rule redrawn_trans)
qed

lemma eraseCharacters_redrawn: "eraseCharacters K T n s = Inr s' \<Longrightarrow> grid_ok (scr_grid s) \<Longrightarrow> redrawn s s'"
  unfolding eraseCharacters_def by (erule (1) redrawn_fold) (blast intro: on_current_redrawn change_cell_fits)

lemma selectiveErase_redrawn:
  "selectiveErase K T y a b s = Inr s' \<Longrightarrow> grid_ok (scr_grid s) \<Longrightarrow> 0 \<le> a \<Longrightarrow> redrawn s s'"
  unfolding selectiveErase_def by (rule on_row_redrawn)

lemma containsProtectedCharacters_redrawn:
  assumes "containsProtectedCharacters K T y a b s = Inr (p, s')" "grid_ok (scr_grid s)"
  shows "redrawn s s'"
  using assms(1) useCellAt_redraws [OF _ assms(2)]
  by (auto simp: containsProtectedCharacters_def bind_result_eq_Inr redrawn_def set_grid_def split: if_splits)

lemma selectiveEraseLine_redrawn:
  assumes "selectiveEraseLine K T y s = Inr s'" "grid_ok (scr_grid s)"
  shows "redrawn s s'"
proof -
  from assms(1) obtain p s1 where s1: "containsProtectedCharacters K T y 0 (int (screen_columns s)) s = Inr (p, s1)"
      "(if p then selectiveErase K T y 0 (int (screen_columns s1)) s1 else clearLine s1) = Inr s'"
    by (auto simp: selectiveEraseLine_def bind_result_eq_Inr)
  note r = containsProtectedCharacters_redrawn [OF s1(1) assms(2)]
  have "redrawn s1 s'"
    using s1(2) redrawn_grid [OF r] by (auto split: if_splits intro: selectiveErase_redrawn clearLine_redrawn)
  with r show ?thesis by (rule redrawn_trans)
qed

lemma selectiveEraseLines_redrawn:
  "fold_result (selectiveEraseLine K T) ys s = Inr s' \<Longrightarrow> grid_ok (scr_grid s) \<Longrightarrow> redrawn s s'"
  by (erule (1) redrawn_fold) (rule selectiveEraseLine_redrawn)

lemma selectiveEraseToEndOfLine_redrawn:
  assumes "selectiveEraseToEndOfLine K T s = Inr s'" "screen_ok s"
  shows "redrawn s s'"
  using assms(1) selectiveEraseLine_redrawn [OF _ screen_okD(1) [OF assms(2)]]
    selectiveErase_redrawn [OF _ screen_okD(1,6) [OF assms(2)]]
  by (auto simp: selectiveEraseToEndOfLine_def split: if_splits)

lemma selectiveEraseToBeginOfLine_redrawn:
  assumes "selectiveEraseToBeginOfLine K T s = Inr s'" "grid_ok (scr_grid s)"
  shows "redrawn s s'"
  using assms(1) selectiveEraseLine_redrawn [OF _ assms(2)] selectiveErase_redrawn [where a = 0, OF _ assms(2) order_refl]
  by (auto simp: selectiveEraseToBeginOfLine_def split: if_splits)

lemma selectiveEraseToEndOfScreen_redrawn:
  assumes "selectiveEraseToEndOfScreen K T s = Inr s'" "screen_ok s"
  shows "redrawn s s'"
proof -
  from assms(1) obtain s1 where s1: "selectiveEraseToEndOfLine K T s = Inr s1"
      "fold_result (selectiveEraseLine K T) [cursor_line s1 + 1..int (screen_lines s1) - 1] s1 = Inr s'"
    by (auto simp: selectiveEraseToEndOfScreen_def bind_result_eq_Inr)
  note r = selectiveEraseToEndOfLine_redrawn [OF s1(1) assms(2)]
  from r selectiveEraseLines_redrawn [OF s1(2) redrawn_grid [OF r]] show ?thesis by (rule redrawn_trans)
qed

lemma selectiveEraseToBeginOfScreen_redrawn:
  assumes "selectiveEraseToBeginOfScreen K T s = Inr s'" "grid_ok (scr_grid s)"
  shows "redrawn s s'"
proof -
  from assms(1) obtain s1 where s1: "selectiveEraseToBeginOfLine K T s = Inr s1"
      "fold_result (selectiveEraseLine K T) [0..cursor_line s1 - 1] s1 = Inr s'"
    by (auto simp: selectiveEraseToBeginOfScreen_def bind_result_eq_Inr)
  note r = selectiveEraseToBeginOfLine_redrawn [OF s1(1) assms(2)]
  from r selectiveEraseLines_redrawn [OF s1(2) redrawn_grid [OF r]] show ?thesis by (rule redrawn_trans)
qed

lemma selectiveEraseScreen_redrawn:
  "selectiveEraseScreen K T s = Inr s' \<Longrightarrow> grid_ok (scr_grid s) \<Longrightarrow> redrawn s s'"
  unfolding selectiveEraseScreen_def by (rule selectiveEraseLines_redrawn)

lemma on_rect_redrawn: "on_rect K T f area s = Inr s' \<Longrightarrow> grid_ok (scr_grid s) \<Longrightarrow> redrawn s s'"
  unfolding on_rect_def by (erule (1) redrawn_fold) (blast intro: on_line_redrawn change_range_fits)

lemma areas_redrawn:
  assumes "grid_ok (scr_grid s)"
  shows "selectiveEraseArea K T area s = Inr s' \<Longrightarrow> redrawn s s'"
    and "eraseArea K T area s = Inr s' \<Longrightarrow> redrawn s s'"
    and "fillArea K T ch area s = Inr s' \<Longrightarrow> redrawn s s'"
  using on_rect_redrawn [OF _ assms] redrawn_refl [OF assms]
  by (auto simp: selectiveEraseArea_def eraseArea_def fillArea_def Let_def split: if_splits)

text \<open>Two changes of one line.\<close>

lemma two_lines_redrawn:
  assumes "bind_result (on_line y f s) (\<lambda>s. on_line y (h s) s) = Inr s'" "grid_ok (scr_grid s)"
    and "fits_step f" "\<And>s. fits_step (h s)"
  shows "redrawn s s'"
proof -
  from assms(1) obtain s1 where s1: "on_line y f s = Inr s1" "on_line y (h s1) s1 = Inr s'"
    by (auto simp: bind_result_eq_Inr)
  note r = on_line_redrawn [OF s1(1) assms(2,3)]
  from r on_line_redrawn [OF s1(2) redrawn_grid [OF r] assms(4)] show ?thesis by (rule redrawn_trans)
qed

lemma insertChars_redrawn: "insertChars K T y n s = Inr s' \<Longrightarrow> grid_ok (scr_grid s) \<Longrightarrow> redrawn s s'"
  unfolding insertChars_def Let_def by (erule (1) two_lines_redrawn) (rule line_step_fits)+

lemma deleteChars_redrawn: "deleteChars K T y x n s = Inr s' \<Longrightarrow> grid_ok (scr_grid s) \<Longrightarrow> redrawn s s'"
  unfolding deleteChars_def Let_def by (erule (1) two_lines_redrawn) (rule line_step_fits)+

lemma edits_redrawn:
  assumes "grid_ok (scr_grid s)"
  shows "insertCharacters K T n s = Inr s' \<Longrightarrow> redrawn s s'"
    and "insertColumns K T n s = Inr s' \<Longrightarrow> redrawn s s'"
    and "deleteCharacters K T n s = Inr s' \<Longrightarrow> redrawn s s'"
    and "deleteColumns K T n s = Inr s' \<Longrightarrow> redrawn s s'"
  using insertChars_redrawn [OF _ assms] deleteChars_redrawn [OF _ assms] redrawn_refl [OF assms]
    redrawn_fold [OF _ assms, of "\<lambda>y. insertChars K T y n"] redrawn_fold [OF _ assms, of "\<lambda>y. deleteChars K T y x n" for x]
    insertChars_redrawn [of K T] deleteChars_redrawn [of K T]
  by (auto simp: insertCharacters_def insertColumns_def deleteCharacters_def deleteColumns_def split: if_splits)

lemma copy_cell_redrawn:
  assumes "copy_cell K T p q s = Inr s'" "grid_ok (scr_grid s)"
  shows "redrawn s s'"
proof -
  from assms(1) obtain cs g c where g: "useCellAt K T (fst p) (snd p) (scr_grid s) = Inr (cs, g)"
      "on_line (fst q) (change_cell K T (snd q) (\<lambda>d. Inr (op_assign K d c))) (set_grid g s) = Inr s'"
    by (auto simp: copy_cell_def bind_result_eq_Inr split: if_splits)
  have r: "redrawn s (set_grid g s)"
    using useCellAt_redraws [OF g(1) assms(2)] by (simp add: redrawn_def set_grid_def)
  from r on_line_redrawn [OF g(2) redrawn_grid [OF r] change_cell_fits] show ?thesis by (rule redrawn_trans)
qed

lemma copyArea_redrawn: "copyArea K T area p s = Inr s' \<Longrightarrow> grid_ok (scr_grid s) \<Longrightarrow> redrawn s s'"
proof -
  have "fold_result (\<lambda>y. fold_result (\<lambda>x. copy_cell K T (a y, b x) (c y, d x)) xs) ys s = Inr s' \<Longrightarrow>
      grid_ok (scr_grid s) \<Longrightarrow> redrawn s s'" for a b c d xs ys
    by (erule (1) redrawn_fold, erule (1) redrawn_fold) (rule copy_cell_redrawn)
  then show "copyArea K T area p s = Inr s' \<Longrightarrow> grid_ok (scr_grid s) \<Longrightarrow> redrawn s s'"
    by (auto simp: copyArea_def Let_def redrawn_refl split: if_splits)
qed

lemma setMark_redrawn: "setMark s = Inr s' \<Longrightarrow> grid_ok (scr_grid s) \<Longrightarrow> redrawn s s'"
  unfolding setMark_def by (erule (1) on_current_redrawn) (rule setFlag_fits)

lemma lines_keeps:
  assumes "screen_ok s" "isCursorInsideMargins s"
  shows "margin_ok (gr_pageSize (scr_grid s)) ((scr_margin s)\<lparr>mg_top := cursor_line s\<rparr>)"
  using screen_okD(3,4) [OF assms(1)] assms(2) by (simp add: margin_ok_def isCursorInsideMargins_def vertical_contains_def)

lemma insertLines_keeps:
  assumes "insertLines K T n s = Inr s'" "screen_ok s"
  shows "screen_ok s'"
proof (cases "isCursorInsideMargins s")
  case True
  with assms(1) obtain s1 where s1: "scr_scrollDown K T n ((scr_margin s)\<lparr>mg_top := cursor_line s\<rparr>) s = Inr s1"
      "updateCursorIterator s1 = Inr s'"
    by (auto simp: insertLines_def bind_result_eq_Inr)
  from scr_scrollDown_keeps [OF s1(1) ok_shape [OF assms(2)] lines_keeps [OF assms(2) True]]
  show ?thesis by (intro updateCursorIterator_keeps [OF s1(2)] ok_shape)
qed (use assms in \<open>simp add: insertLines_def\<close>)

lemma deleteLines_keeps:
  assumes "deleteLines K T n s = Inr s'" "screen_ok s"
  shows "screen_ok s'"
  using assms scr_scrollUp_keeps [OF _ ok_shape [OF assms(2)] lines_keeps [OF assms(2)]]
  by (auto simp: deleteLines_def split: if_splits)

lemma clearScreen_keeps: "clearScreen K T s = Inr s' \<Longrightarrow> screen_ok s \<Longrightarrow> screen_ok s'"
  unfolding clearScreen_def by (erule scr_scrollUp_keeps) (simp_all add: ok_shape screen_okD)

subsection \<open>Margins, saved cursors and the alignment pattern\<close>

lemma ok_margin: "screen_ok s \<Longrightarrow> margin_ok (gr_pageSize (scr_grid s)) m \<Longrightarrow> screen_ok (s\<lparr>scr_margin := m\<rparr>)"
  by (simp add: screen_ok_def screen_shape_def)

lemma margins_keeps:
  assumes "screen_ok s"
  shows "screen_ok (setTopBottomMargin t b s)" "screen_ok (setLeftRightMargin l r s)"
proof -
  show "screen_ok (setTopBottomMargin t b s)"
    unfolding setTopBottomMargin_def Let_def
    by (cases "max 0 (case t of Some t \<Rightarrow> t | None \<Rightarrow> 0)
          < min (int (screen_lines s) - 1) (case b of Some b \<Rightarrow> b | None \<Rightarrow> int (screen_lines s) - 1)")
      (use assms screen_okD(3) [OF assms] in \<open>auto intro!: ok_margin simp: margin_ok_def simp del: max_less_iff_conj min_less_iff_conj\<close>)
  show "screen_ok (setLeftRightMargin l r s)"
    unfolding setLeftRightMargin_def Let_def
    by (cases "max (case l of Some l \<Rightarrow> l | None \<Rightarrow> 0) 0
          < min (case r of Some r \<Rightarrow> r | None \<Rightarrow> int (screen_columns s) - 1) (int (screen_columns s) - 1)")
      (use assms screen_okD(3) [OF assms] in \<open>auto intro!: ok_margin simp: margin_ok_def simp del: max_less_iff_conj min_less_iff_conj\<close>)
qed

lemma full_margin_ok:
  "grid_ok g \<Longrightarrow> margin_ok (gr_pageSize g)
    \<lparr>mg_top = 0, mg_bottom = int (page_lines g) - 1, mg_left = 0, mg_right = int (page_columns g) - 1\<rparr>"
  using grid_okD(4,5) [of g] by (simp add: margin_ok_def)

lemma cursor_fields_keeps:
  assumes "screen_ok s" "cu_position c = cu_position (scr_cursor s)"
  shows "screen_ok (s\<lparr>scr_cursor := c\<rparr>)"
  using assms by (simp add: screen_ok_def screen_shape_def)

lemma saves_keeps:
  assumes "screen_ok s"
  shows "screen_ok (saveCursor s)" "screen_ok (saveGraphicsRendition s)" "screen_ok (restoreGraphicsRendition s)"
    "screen_ok (designateCharset t cs s)" "screen_ok (singleShiftSelect t s)" "screen_ok (lockingShiftSelect t s)"
proof -
  show "screen_ok (saveCursor s)" "screen_ok (saveGraphicsRendition s)"
    using assms by (simp_all add: saveCursor_def saveGraphicsRendition_def screen_ok_def screen_shape_def)
  show "screen_ok (restoreGraphicsRendition s)" "screen_ok (designateCharset t cs s)" "screen_ok (singleShiftSelect t s)"
    "screen_ok (lockingShiftSelect t s)"
    unfolding restoreGraphicsRendition_def designateCharset_def singleShiftSelect_def lockingShiftSelect_def
    by (rule cursor_fields_keeps [OF assms], simp)+
qed

text \<open>The saved cursor is clamped to the page, or to the margins, when it is restored.\<close>

lemma clampCoordinate_in_page:
  assumes "screen_shape s"
  shows "in_page (scr_grid s) (clampCoordinate s p)"
proof -
  have "0 \<le> mg_bottom (scr_margin s)" "mg_bottom (scr_margin s) < int (screen_lines s)"
    "0 \<le> mg_right (scr_margin s)" "mg_right (scr_margin s) < int (screen_columns s)"
    using assms by (auto simp: screen_shape_def margin_ok_def)
  then show ?thesis
    using clampedLine_range [OF assms] clampedColumn_range [OF assms] std_clamp_range [of 0]
    by (auto simp: clampCoordinate_def clampToOrigin_def clampToScreen_def in_page_def std_clamp_def)
qed

lemma shape_cursor:
  assumes "screen_shape s" "in_page (scr_grid s) (cu_position c)"
  shows "screen_shape (s\<lparr>scr_cursor := c\<rparr>)"
  using assms by (simp add: screen_shape_def)

lemma clampCoordinate_cong:
  "cu_originMode (scr_cursor s) = cu_originMode (scr_cursor s') \<Longrightarrow> scr_grid s = scr_grid s' \<Longrightarrow> scr_margin s = scr_margin s' \<Longrightarrow>
    clampCoordinate s p = clampCoordinate s' p"
  by (simp add: clampCoordinate_def clampToOrigin_def clampToScreen_def clampedLine_def clampedColumn_def)

lemma screen_verifyState_ok: "screen_ok s \<Longrightarrow> screen_verifyState s = Inr s"
  using screen_okD [of s] grid_okD(3) [of "scr_grid s"]
  by (simp add: screen_verifyState_def require_def clampToScreen_def clampedLine_def clampedColumn_def std_clamp_def)

lemma restoreCursor_ok:
  assumes "screen_ok s"
  shows "\<exists>s'. restoreCursor s = Inr s' \<and> screen_ok s' \<and> scr_grid s' = scr_grid s \<and>
    scr_cursor s' = (scr_savedCursor s)\<lparr>cu_position :=
      clampCoordinate (s\<lparr>scr_cursor := scr_savedCursor s\<rparr>) (cu_position (scr_savedCursor s))\<rparr>"
proof -
  let ?c = "scr_savedCursor s" and ?s = "s\<lparr>scr_cursor := scr_savedCursor s\<rparr>"
  let ?p = "clampCoordinate ?s (cu_position ?c)"
  have "clampCoordinate ?s q = clampCoordinate
      (s\<lparr>scr_cursor := (scr_cursor s)\<lparr>cu_originMode := cu_originMode ?c\<rparr>\<rparr>) q" for q
    by (rule clampCoordinate_cong) simp_all
  moreover have "screen_shape (s\<lparr>scr_cursor := (scr_cursor s)\<lparr>cu_originMode := cu_originMode ?c\<rparr>\<rparr>)"
    using assms by (simp add: screen_ok_def screen_shape_def)
  ultimately have p: "in_page (scr_grid s) ?p" using clampCoordinate_in_page by fastforce
  then have "screen_shape (s\<lparr>scr_cursor := ?c\<lparr>cu_position := ?p\<rparr>\<rparr>)"
    by (intro shape_cursor ok_shape [OF assms]) simp
  moreover have "set_position (cl_line ?p) (cl_column ?p) ?s = s\<lparr>scr_cursor := ?c\<lparr>cu_position := ?p\<rparr>\<rparr>"
    by (simp add: set_position_def)
  ultimately show ?thesis
    using updateCursorIterator_ok [of "s\<lparr>scr_cursor := ?c\<lparr>cu_position := ?p\<rparr>\<rparr>"]
    by (fastforce simp: restoreCursor_def Let_def screen_verifyState_ok)
qed

lemma restoreCursor_keeps: "restoreCursor s = Inr s' \<Longrightarrow> screen_ok s \<Longrightarrow> screen_ok s'"
  using restoreCursor_ok [of s] by auto

lemma line_fill_fits:
  assumes "line_fill K T flags attr cp w l = Inr l'" "line_fits n l"
  shows "line_fits n l'"
proof (cases "cp = 0")
  case False
  with assms(1) obtain cs l1 cs' where "inflatedBuffer K T l = Inr (cs, l1)"
      "map_result (\<lambda>c. op_write K attr cp w (op_clear K c)) cs = Inr cs'"
      "l' = l1\<lparr>line_storage := InflatedBuffer cs', line_flags := flags\<rparr>"
    by (auto simp: line_fill_def bind_result_eq_Inr)
  with line_fits_inflated(2) [OF _ assms(2)] map_result_length show ?thesis
    by (fastforce simp: line_fits_def line_size_def)
qed (use assms reset_fits [OF assms(2)] in \<open>auto simp: line_fill_def\<close>)

lemma map_result_all:
  assumes "map_result f xs = Inr ys" "\<forall>x \<in> set xs. \<forall>y. f x = Inr y \<longrightarrow> P y"
  shows "\<forall>y \<in> set ys. P y"
  using assms by (induction xs arbitrary: ys) (auto simp: bind_result_eq_Inr)

lemma screenAlignmentPattern_keeps:
  assumes "screenAlignmentPattern K T s = Inr s'" "screen_ok s"
  shows "screen_ok s'"
proof -
  let ?m = "\<lparr>mg_top = 0, mg_bottom = int (screen_lines s) - 1, mg_left = 0, mg_right = int (screen_columns s) - 1\<rparr>"
  from assms(1) obtain s1 start where s0: "moveCursorTo 0 0 (s\<lparr>scr_margin := ?m\<rparr>) = Inr s1"
      "(let r = gr_lines (scr_grid s1); xs = rg_storage r; n = screen_lines s1 in
        if start + n > ring_lines (scr_grid s1) then Inl OutOfBounds
        else bind_result (map_result (line_fill K T (defaultLineFlags (scr_grid s1)) defaultAttributes 0x45 1)
            (take n (drop start xs))) (\<lambda>ls.
          Inr (set_lines (r\<lparr>rg_storage := take start xs @ ls @ drop (start + n) xs\<rparr>) s1))) = Inr s'"
    unfolding screenAlignmentPattern_def bind_result_eq_Inr by blast
  from s0(2) have "\<not> start + screen_lines s1 > ring_lines (scr_grid s1)" by (auto simp only: Let_def if_True sum.distinct)
  with s0(2) obtain ls where s1: "start + screen_lines s1 \<le> ring_lines (scr_grid s1)"
      "map_result (line_fill K T (defaultLineFlags (scr_grid s1)) defaultAttributes 0x45 1)
        (take (screen_lines s1) (drop start (rg_storage (gr_lines (scr_grid s1))))) = Inr ls"
      "s' = set_lines ((gr_lines (scr_grid s1))\<lparr>rg_storage := take start (rg_storage (gr_lines (scr_grid s1))) @ ls @
        drop (start + screen_lines s1) (rg_storage (gr_lines (scr_grid s1)))\<rparr>) s1"
    unfolding Let_def bind_result_eq_Inr by (auto simp only: if_False bind_result_eq_Inr not_less Inr_inject)
  have ok: "screen_ok s1"
    by (rule moveCursorTo_keeps [OF s0(1) ok_shape [OF ok_margin [OF assms(2) full_margin_ok [OF screen_okD(1) [OF assms(2)]]]]])
  let ?xs = "rg_storage (gr_lines (scr_grid s1))"
  have fits: "line_fits (screen_columns s1) l" if "l \<in> set ?xs" for l
    using that screen_okD(1) [OF ok] by (simp add: grid_ok_def list_all_iff)
  have new: "line_fits (screen_columns s1) l" if "l \<in> set ls" for l
    using map_result_all [OF s1(2), of "line_fits (screen_columns s1)"] that line_fill_fits fits
    by (blast dest: in_set_takeD in_set_dropD)
  let ?r = "(gr_lines (scr_grid s1))\<lparr>rg_storage := take start ?xs @ ls @ drop (start + screen_lines s1) ?xs\<rparr>"
  have len: "length ls = screen_lines s1" using map_result_length [OF s1(2)] s1(1) by simp
  have "rows_ok (screen_columns s1) (ring_lines (scr_grid s1)) ?r"
    using fits new len s1(1) grid_ok_rows [OF screen_okD(1) [OF ok]]
    by (auto simp: rows_ok_def ring_ok_def dest: in_set_takeD in_set_dropD)
  from rows_keeps_lines [OF screen_okD(1) [OF ok] this] have "redrawn s1 s'"
    by (simp add: redrawn_def redraws_def set_lines_def s1(3))
  then show ?thesis using ok by (rule redrawn_ok)
qed

subsection \<open>Construction and reset\<close>

lemma lineAt_page:
  assumes "grid_ok g" "0 \<le> y" "y < int (page_lines g)"
  shows "lineAt g y = Inr (grid_page g ! nat y)"
proof -
  note ok = grid_okD [OF assms(1)]
  have "nat (int (history_lines g) + y) = history_lines g + nat y" using assms(2) by simp
  then show ?thesis
    using lineAt_view [OF assms(1) _ assms(3)] assms(2,3) ok(6) length_grid_view [OF assms(1)]
    by (simp add: grid_page_def nth_drop)
qed

lemma newScreen_ok:
  assumes "0 < ps_lines ps" "0 < ps_columns ps" "ps_lines ps + n < 2147483648"
  shows "\<exists>s :: 'c Screen. newScreen ps rf (HistoryLimit n) = Inr s \<and> screen_ok s \<and> scr_cursor s = newCursor \<and>
    scr_savedCursor s = newCursor \<and> gr_pageSize (scr_grid s) = ps \<and>
    scr_margin s = \<lparr>mg_top = 0, mg_bottom = int (ps_lines ps) - 1, mg_left = 0, mg_right = int (ps_columns ps) - 1\<rparr> \<and>
    scr_lastCursorPosition s = \<lparr>cl_line = 0, cl_column = 0\<rparr> \<and> tm_tabs s = [] \<and> tm_precedingGraphicCharacter s = 0 \<and>
    \<not> tm_leftRightMargin s \<and> \<not> tm_automaticNewLine s \<and> \<not> tm_stdoutFastPipe s \<and>
    (\<forall>y. 0 \<le> y \<longrightarrow> y < int (ps_lines ps) \<longrightarrow> lineAt (scr_grid s) y = Inr (blank_row defaultAttributes (scr_grid s)))"
proof -
  obtain g :: "'c Grid" where g: "newGrid ps rf (HistoryLimit n) = Inr g" "grid_ok g" "gr_historyLimit g = HistoryLimit n"
      "gr_pageSize g = ps" "grid_page g = replicate (ps_lines ps) (blank_row defaultAttributes g)"
    using newGrid_ok [of ps "HistoryLimit n" rf] assms by auto
  have rows: "lineAt g y = Inr (blank_row defaultAttributes g)" if "0 \<le> y" "y < int (ps_lines ps)" for y
    using lineAt_page [OF g(2), of y] that g(4,5) by (simp add: nat_less_iff)
  let ?s = "\<lparr>scr_grid = g, scr_margin = \<lparr>mg_top = 0, mg_bottom = int (ps_lines ps) - 1, mg_left = 0,
        mg_right = int (ps_columns ps) - 1\<rparr>,
      scr_cursor = newCursor, scr_savedCursor = newCursor, scr_savedGraphicsRenditions = defaultAttributes,
      scr_lastCursorPosition = \<lparr>cl_line = 0, cl_column = 0\<rparr>, scr_currentLine = 0, tm_tabs = [],
      tm_leftRightMargin = False, tm_automaticNewLine = False, tm_stdoutFastPipe = False,
      tm_precedingGraphicCharacter = 0, tm_pageSize = ps\<rparr>"
  have shape: "screen_shape ?s"
    using g(2-4) assms by (simp add: screen_shape_def in_page_def margin_ok_def newCursor_def)
  obtain k where "ring_index (gr_lines g) 0 = Inr k" using ring_index_total [OF g(2), of 0] g(4) assms(1) by auto
  then have new: "newScreen ps rf (HistoryLimit n) = Inr (?s\<lparr>scr_currentLine := k\<rparr>)"
    by (simp add: newScreen_def g(1) updateCursorIterator_def newCursor_def)
  moreover have "screen_ok (?s\<lparr>scr_currentLine := k\<rparr>)"
    by (rule updateCursorIterator_keeps [OF _ shape])
      (use new in \<open>simp add: newScreen_def g(1)\<close>)
  ultimately show ?thesis using rows g(4) by (intro exI [of _ "?s\<lparr>scr_currentLine := k\<rparr>"]) simp
qed

lemma hardReset_ok:
  assumes "screen_ok s"
  shows "\<exists>s'. hardReset s = Inr s' \<and> screen_ok s' \<and> scr_cursor s' = newCursor \<and>
    gr_pageSize (scr_grid s') = gr_pageSize (scr_grid s)"
proof -
  note ok = screen_okD [OF assms]
  obtain g where g: "grid_reset (scr_grid s) = Inr g" using grid_reset_lemma [OF ok(1)] by blast
  have keep: "keeps (scr_grid s) g"
    by (rule grid_step_keeps [where a = Reset, OF _ ok(1,2)]) (use g in simp_all)
  let ?s = "(set_grid g s)\<lparr>scr_cursor := newCursor, scr_lastCursorPosition := \<lparr>cl_line = 0, cl_column = 0\<rparr>\<rparr>"
  have "screen_shape ?s"
    using shape_grid [OF keep ok_shape [OF assms]] keep grid_okD(4,5) [of g]
    by (simp add: screen_shape_def in_page_def newCursor_def set_grid_def keeps_def)
  from updateCursorIterator_ok [OF this] obtain s' where "updateCursorIterator ?s = Inr s'" "screen_ok s'"
      "scr_grid s' = g" "scr_cursor s' = newCursor"
    by (auto simp: set_grid_def)
  then show ?thesis using g keep by (simp add: hardReset_def keeps_def)
qed

end
