(* ===== verification/VT_ScreenText.thy ===== *)
theory VT_ScreenText
  imports VT_ScreenOps
begin

unbundle bit_operations_syntax

text \<open>
  Writing text on the screen: that it keeps the invariant of the screen, what a character changes,
  and that the fast path for a run of text shows the same cells as writing its characters one by one.
  The locale \<open>screen_cells\<close> extends the interface of the cells by what the screen relies on, and
  \<open>viewed_cells\<close> by the simple cell that a cell shows.
\<close>

subsection \<open>The interface of the cells\<close>

locale screen_cells = cell_interface K for K :: "'c CellOps" +
  assumes append_width: "op_append K cp c = Inr (d, c') \<Longrightarrow> d = 0"
    and write_link_ok: "0 < ch \<Longrightarrow> 0 < w \<Longrightarrow> w < 7 \<Longrightarrow>
      \<exists>c'. op_write_link K a ch w h c = Inr c' \<and> op_codepoints K c' = [ch] \<and> op_width K c' = w"
    and append_joins: "op_codepoints K c = [ch] \<Longrightarrow> 0 < cp \<Longrightarrow>
      \<exists>c'. op_append K cp c = Inr (0, c') \<and> op_codepoints K c' = [ch, cp]"
    and make_plain: "op_make K a h = Inr c \<Longrightarrow> op_width K c = 1 \<and> op_flags K c = ga_flags a"

interpretation compact_screen: screen_cells compact_ops
proof (unfold_locales, goal_cases)
  case (1 cp c d c')
  then show ?case
    by (auto simp: compact_ops_def cc_appendCharacter_def computeWidthChange_def Let_def split: if_splits)
next
  case (2 ch w a h c)
  then show ?case
    by (cases "cc_extra c")
      (auto simp: compact_ops_def cc_write_link_def cc_writeTextOnly_def cc_setWidth_def with_extra_def view_simps Let_def)
next
  case (3 c ch cp)
  then show ?case
    by (cases "cc_extra c")
      (auto simp: compact_ops_def cc_appendCharacter_def computeWidthChange_def view_simps Let_def split: if_splits)
next
  case (4 a h c)
  then show ?case
    by (auto simp: compact_ops_def cc_make_def cc_setWidth_def cc_setHyperlink_def cc_blank_def view_simps Let_def
        split: if_splits)
qed

interpretation simple_screen: screen_cells simple_ops
  by unfold_locales
    (auto simp: simple_ops_def sc_appendCharacter_def computeWidthChange_def sc_write_link_def sc_make_def newSimpleCell_def
      sc_flags_def Let_def)

text \<open>
  Cells that show something: a view of the cell as a simple cell, and what the three ways to make a
  cell without an image show.
\<close>

definition shown_cell :: "GraphicsAttributes \<Rightarrow> HyperlinkId \<Rightarrow> codepoint \<Rightarrow> SimpleCell" where
  "shown_cell a h ch =
    \<lparr>sc_codepoints = [ch], sc_graphicsAttributes = a, sc_width = 1, sc_hyperlink = h, sc_imageFragment = None\<rparr>"

locale viewed_cells = screen_cells K for K :: "'c CellOps" +
  fixes view :: "'c \<Rightarrow> SimpleCell"
  assumes make_view: "op_make K a h = Inr c \<Longrightarrow> view c = sc_make a h"
    and text_cell_view: "0 < ch \<Longrightarrow> text_cell K a h ch = Inr c \<Longrightarrow> view c = shown_cell a h ch"
    and write_link_view: "0 < ch \<Longrightarrow> sc_imageFragment (view c) = None \<Longrightarrow>
      op_write_link K a ch 1 h c = Inr c' \<Longrightarrow> view c' = shown_cell a h ch"

interpretation compact_viewed: viewed_cells compact_ops cell_view
proof (unfold_locales, goal_cases)
  case (1 a h c)
  then show ?case using cc_make_view [of a h] by (auto simp: compact_ops_def)
next
  case (2 ch a h c)
  then show ?case
    by (auto simp: compact_ops_def text_cell_def newCompactCell_view(1) cc_write_def cc_setWidth_def cc_setHyperlink_def
        cc_blank_def shown_cell_def view_simps Let_def split: if_splits)
next
  case (3 ch c a h c')
  then show ?case
    by (cases "cc_extra c")
      (auto simp: compact_ops_def cc_write_link_def cc_writeTextOnly_def cc_setWidth_def shown_cell_def view_simps Let_def
        split: if_splits)
qed

interpretation simple_viewed: viewed_cells simple_ops "\<lambda>c. c"
  by unfold_locales
    (auto simp: simple_ops_def text_cell_def sc_write_def sc_write_link_def sc_setHyperlink_def newSimpleCell_def shown_cell_def)

subsection \<open>The invariant\<close>

lemma write_cell_fits:
  assumes "write_cell K T sgr h cp x l = Inr (l', ow, nw)" "line_fits w l"
  shows "line_fits w l'" "0 \<le> nw" "0 \<le> ow"
proof -
  from assms(1) obtain cs l1 cs1 c where c: "inflatedBuffer K T l = Inr (cs, l1)"
      "l' = l1\<lparr>line_storage := InflatedBuffer cs1\<rparr>" "length cs1 = length cs" "0 \<le> nw" "0 \<le> ow"
    by (auto simp: write_cell_def Let_def bind_result_eq_Inr split: if_splits)
  with line_fits_inflated(2) [OF c(1) assms(2)] show "line_fits w l'" "0 \<le> nw" "0 \<le> ow" by simp_all
qed

lemma append_to_cell_fits:
  assumes "append_to_cell K T cp x l = Inr (l', d)" "line_fits w l"
  shows "line_fits w l'"
proof -
  from assms(1) obtain cs l1 cs1 where c: "inflatedBuffer K T l = Inr (cs, l1)"
      "l' = l1\<lparr>line_storage := InflatedBuffer cs1\<rparr>" "length cs1 = length cs"
    by (auto simp: append_to_cell_def bind_result_eq_Inr split: if_splits)
  with line_fits_inflated(2) [OF c(1) assms(2)] show ?thesis by simp
qed

lemma clearAndAdvance_keeps:
  fixes s :: "'c Screen"
  assumes "clearAndAdvance K T ow nw s = Inr s'" "screen_ok s" "0 \<le> nw"
  shows "screen_ok s'"
proof -
  define available where "available = (if tm_leftRightMargin s \<and> isCursorInsideMargins s
    then mg_right (scr_margin s) - cursor_column s - 1 else int (screen_columns s) - cursor_column s - 1)"
  define sgr where "sgr = (if 1 < nw then attributes_with (rendition s) (flag CF_WideCharContinuation) else rendition s)"
  from assms(1) obtain s1 where s1: "fold_result (\<lambda>i. on_current (change_cell K T (cursor_column s + i)
        (\<lambda>c. Inr (op_reset_link K sgr (cu_hyperlink (scr_cursor s)) c)))) [1..min (max ow nw) available - 1] s = Inr s1"
      "(if nw = min nw available then Inr (set_position (cursor_line s1) (cursor_column s1 + nw) s1)
        else if cu_autoWrap (scr_cursor s1) then Inr (set_wrapPending True s1) else Inr s1) = (Inr s' :: 'c Screen result)"
    unfolding clearAndAdvance_def Let_def available_def [symmetric] sgr_def [symmetric] bind_result_eq_Inr by (elim exE conjE) (rule that)
  have red: "redrawn s s1"
    using s1(1) screen_okD(1) [OF assms(2)] by (rule redrawn_fold) (blast intro: on_current_redrawn change_cell_fits)
  then have ok: "screen_ok s1" using assms(2) by (rule redrawn_ok)
  have "cursor_column s1 + nw < int (screen_columns s1)" if "nw = min nw available"
  proof -
    have "mg_right (scr_margin s) < int (screen_columns s)" using screen_okD(3) [OF assms(2)] by (simp add: margin_ok_def)
    then have "available \<le> int (screen_columns s) - cursor_column s - 1" by (simp add: available_def)
    moreover have "nw \<le> available" using that by linarith
    ultimately show ?thesis using redrawn_same(1,3) [OF red] by simp
  qed
  with s1(2) ok screen_okD(6) [OF ok] assms(3) show ?thesis by (auto intro: ok_column split: if_splits)
qed

lemma on_current_const:
  assumes "currentLine s = Inr l" "on_current (\<lambda>_. Inr l') s = Inr s'" "grid_ok (scr_grid s)"
    and "\<And>w. line_fits w l \<Longrightarrow> line_fits w l'"
  shows "redrawn s s'"
proof -
  have "on_current (\<lambda>m. if m = l then Inr l' else Inl AssertionFailed) s = Inr s'"
    using assms(1,2) by (simp add: on_current_def)
  then show ?thesis using assms(3) by (rule on_current_redrawn) (use assms(4) in \<open>auto simp: fits_step_def\<close>)
qed

lemma on_line_const:
  assumes "lineAt (scr_grid s) y = Inr l" "on_line y (\<lambda>_. Inr l') s = Inr s'" "grid_ok (scr_grid s)"
    and "\<And>w. line_fits w l \<Longrightarrow> line_fits w l'"
  shows "redrawn s s'"
proof -
  have "on_line y (\<lambda>m. if m = l then Inr l' else Inl AssertionFailed) s = Inr s'"
    using assms(1,2) by (simp add: on_line_def)
  then show ?thesis using assms(3) by (rule on_line_redrawn) (use assms(4) in \<open>auto simp: fits_step_def\<close>)
qed

lemma currentLine_fits: "grid_ok (scr_grid s) \<Longrightarrow> currentLine s = Inr l \<Longrightarrow> line_fits (screen_columns s) l"
  by (auto simp: currentLine_def grid_ok_def list_all_iff split: if_splits)

lemma ok_last_position: "screen_ok s \<Longrightarrow> screen_ok (s\<lparr>scr_lastCursorPosition := cu_position (scr_cursor s)\<rparr>)"
  by (simp add: screen_ok_def screen_shape_def)

lemma writeCharToCurrentAndAdvance_keeps:
  assumes "writeCharToCurrentAndAdvance K T cp s = Inr s'" "screen_ok s"
  shows "screen_ok s'"
proof -
  from assms(1) obtain l l' ow nw s1 where s1: "currentLine s = Inr l"
      "write_cell K T (rendition s) (cu_hyperlink (scr_cursor s)) cp (cursor_column s) l = Inr (l', ow, nw)"
      "on_current (\<lambda>_. Inr l') s = Inr s1"
      "clearAndAdvance K T ow nw (s1\<lparr>scr_lastCursorPosition := cu_position (scr_cursor s1)\<rparr>) = Inr s'"
    by (auto simp: writeCharToCurrentAndAdvance_def bind_result_eq_Inr)
  have "redrawn s s1"
    using s1(1,3) screen_okD(1) [OF assms(2)] by (rule on_current_const) (rule write_cell_fits(1) [OF s1(2)])
  then have "screen_ok s1" using assms(2) by (rule redrawn_ok)
  moreover have "line_fits (screen_columns s) l" using screen_okD(1) [OF assms(2)] s1(1) by (rule currentLine_fits)
  ultimately show ?thesis
    using clearAndAdvance_keeps [OF s1(4)] write_cell_fits(2) [OF s1(2)] ok_last_position by blast
qed

text \<open>Writing is safe unless it must wrap with the cursor in the last line, below the margin.\<close>

definition can_write :: "'c Screen \<Rightarrow> bool" where
  "can_write s \<longleftrightarrow> (cu_wrapPending (scr_cursor s) \<and> cu_autoWrap (scr_cursor s) \<longrightarrow> can_feed s)"

lemma crlfIfWrapPending_keeps:
  fixes s :: "'c Screen"
  assumes "crlfIfWrapPending K T s = Inr s'" "screen_ok s" "can_write s"
  shows "screen_ok s'"
proof (cases "cu_wrapPending (scr_cursor s) \<and> cu_autoWrap (scr_cursor s)")
  case True
  with assms(1) obtain l s1 where "currentLine s = Inr l" and s1: "crlf K T s = Inr s1"
      "(if wrappable l then on_current (\<lambda>l. Inr (setFlag (Wrappable OR Wrapped) True l)) s1 else Inr s1) = (Inr s' :: 'c Screen result)"
    unfolding crlfIfWrapPending_def bind_result_eq_Inr if_P [OF True] by (elim exE conjE) (rule that)
  have ok: "screen_ok s1" using crlf_keeps [OF s1(1) assms(2)] True assms(3) by (simp add: can_write_def)
  with s1(2) on_current_redrawn [OF _ screen_okD(1) [OF ok] setFlag_fits] show ?thesis
    by (auto split: if_splits intro: redrawn_ok)
next
  case False
  then have "crlfIfWrapPending K T s = Inr s" unfolding crlfIfWrapPending_def by (rule if_not_P)
  with assms(1,2) show ?thesis by simp
qed

context screen_cells
begin

lemma writeTextInternal_keeps:
  assumes "writeTextInternal K T cp s = Inr s'" "screen_ok s" "can_write s"
  shows "screen_ok s'"
proof -
  from assms(1) obtain s1 ch m where s1: "crlfIfWrapPending K T s = Inr s1"
      "map_charset cp (cu_charsets (scr_cursor s1)) = Inr (ch, m)"
    by (auto simp: writeTextInternal_def bind_result_eq_Inr)
  define s2 where "s2 = s1\<lparr>scr_cursor := (scr_cursor s1)\<lparr>cu_charsets := m\<rparr>\<rparr>"
  have ok: "screen_ok s2"
    unfolding s2_def
    by (rule cursor_fields_keeps [OF crlfIfWrapPending_keeps [OF s1(1) assms(2,3)]]) simp
  show ?thesis
  proof (cases "tl_breakable T (tm_precedingGraphicCharacter s2) ch")
    case True
    with assms(1) s1 have "writeCharToCurrentAndAdvance K T ch s2 = Inr s'"
      by (simp add: writeTextInternal_def Let_def s2_def)
    then show ?thesis using ok by (rule writeCharToCurrentAndAdvance_keeps)
  next
    case False
    let ?p = "scr_lastCursorPosition s2"
    from False assms(1) s1 obtain l l' d s3 where s3: "lineAt (scr_grid s2) (cl_line ?p) = Inr l"
        "append_to_cell K T ch (cl_column ?p) l = Inr (l', d)" "on_line (cl_line ?p) (\<lambda>_. Inr l') s2 = Inr s3"
        "clearAndAdvance K T 0 d s3 = Inr s'"
      by (auto simp: writeTextInternal_def Let_def s2_def bind_result_eq_Inr)
    have "redrawn s2 s3"
      using s3(1,3) screen_okD(1) [OF ok] by (rule on_line_const) (rule append_to_cell_fits [OF s3(2)])
    then have "screen_ok s3" using ok by (rule redrawn_ok)
    moreover have "d = 0"
      using s3(2) append_width by (auto simp: append_to_cell_def bind_result_eq_Inr split: if_splits)
    ultimately show ?thesis using clearAndAdvance_keeps [OF s3(4)] by simp
  qed
qed

end

subsection \<open>What a character changes\<close>

lemma currentLine_lineAt: "screen_ok s \<Longrightarrow> currentLine s = lineAt (scr_grid s) (cursor_line s)"
  using screen_okD(8) [of s] ring_index_total [OF screen_okD(1,4,5), of s]
  by (auto simp: currentLine_def lineAt_def ring_get_def)

text \<open>The screen after a line was put in place of the current one.\<close>

definition put_line :: "'c Line \<Rightarrow> 'c Screen \<Rightarrow> 'c Screen" where
  "put_line l s = set_lines ((gr_lines (scr_grid s))\<lparr>rg_storage := (rg_storage (gr_lines (scr_grid s)))[scr_currentLine s := l]\<rparr>) s"

lemma on_current_put:
  assumes "screen_ok s"
  shows "on_current (\<lambda>_. Inr l) s = Inr (put_line l s)"
proof -
  have "scr_currentLine s < ring_lines (scr_grid s)"
    using screen_okD(8) [OF assms] ring_index_total [OF screen_okD(1,4,5) [OF assms]] by auto
  then show ?thesis by (simp add: on_current_def currentLine_def put_line_def Let_def)
qed

lemma ring_index_inj:
  assumes "grid_ok g" "0 \<le> y" "y < int (page_lines g)" "0 \<le> y'" "y' < int (page_lines g)"
    and "ring_index (gr_lines g) y = Inr k" "ring_index (gr_lines g) y' = Inr k"
  shows "y = y'"
proof -
  note ok = grid_okD [OF assms(1)]
  let ?n = "ring_lines g" and ?z = "rg_zero (gr_lines g)"
  have idx: "int k = (int ?z + int ?n + v) mod int ?n"
    if "ring_index (gr_lines g) v = Inr k" "0 \<le> v" "v < int (page_lines g)" for v
    using that ok(1,2,6,7,8)
    by (auto simp: ring_index_def Let_def to_size_t_def ring_ok_def zmod_int is_long_def split: if_splits)
  have "(int ?z + int ?n + y) mod int ?n = (int ?z + int ?n + y') mod int ?n"
    using idx [OF assms(6,2,3)] idx [OF assms(7,4,5)] by simp
  then have "y mod int ?n = y' mod int ?n" by (metis (no_types, opaque_lifting) add_diff_cancel_left' mod_diff_cong)
  with assms(2-5) ok(6,7) show ?thesis by simp
qed

lemma put_line_rows:
  assumes "screen_ok s" "0 \<le> y" "y < int (screen_lines s)"
  shows "lineAt (scr_grid (put_line l s)) y = (if y = cursor_line s then Inr l else lineAt (scr_grid s) y)"
proof -
  let ?g = "scr_grid s" and ?k = "scr_currentLine s"
  have cong: "ring_index (gr_lines (scr_grid (put_line l s))) v = ring_index (gr_lines ?g) v" for v
    by (rule ring_index_cong) (simp_all add: put_line_def set_lines_def)
  have k: "ring_index (gr_lines ?g) (cursor_line s) = Inr ?k" "?k < ring_lines ?g"
    using screen_okD(8) [OF assms(1)] ring_index_total [OF screen_okD(1,4,5) [OF assms(1)]] by auto
  obtain j where j: "ring_index (gr_lines ?g) y = Inr j" using ring_index_total [OF screen_okD(1) [OF assms(1)] assms(2,3)] by blast
  have "j = ?k \<longleftrightarrow> y = cursor_line s"
    using ring_index_inj [OF screen_okD(1) [OF assms(1)] assms(2,3) screen_okD(4,5) [OF assms(1)] j] k(1) j by auto
  with j k show ?thesis
    by (cases "y = cursor_line s") (simp_all add: lineAt_def ring_get_def cong, simp_all add: put_line_def set_lines_def)
qed

text \<open>The state in which a printable character is written as it is.\<close>

definition typing_ready :: "'c Screen \<Rightarrow> bool" where
  "typing_ready s \<longleftrightarrow> screen_ok s \<and> \<not> tm_leftRightMargin s \<and> cu_autoWrap (scr_cursor s) \<and>
    (let m = cu_charsets (scr_cursor s) in tables m (tableForNextGraphic m) = USASCII \<and> tables m (selectedTable m) = USASCII) \<and>
    (tm_precedingGraphicCharacter s = 0 \<or> printable (tm_precedingGraphicCharacter s))"

definition narrow :: "'c CellOps \<Rightarrow> 'c \<Rightarrow> bool" where
  "narrow K c \<longleftrightarrow> op_width K c \<le> 1 \<and> op_flags K c AND flag CF_WideCharContinuation = 0"

definition typed_cursor :: "'c Screen \<Rightarrow> Cursor" where
  "typed_cursor s =
    (let c = (scr_cursor s)\<lparr>cu_charsets := (cu_charsets (scr_cursor s))\<lparr>tableForNextGraphic :=
           selectedTable (cu_charsets (scr_cursor s))\<rparr>\<rparr>
     in if cursor_column s + 1 < int (screen_columns s)
        then c\<lparr>cu_position := \<lparr>cl_line = cursor_line s, cl_column = cursor_column s + 1\<rparr>\<rparr>
        else c\<lparr>cu_wrapPending := True\<rparr>)"

lemma map_usascii:
  "tables m (tableForNextGraphic m) = USASCII \<Longrightarrow> printable ch \<Longrightarrow>
    map_charset ch m = Inr (ch, m\<lparr>tableForNextGraphic := selectedTable m\<rparr>)"
  by (simp add: map_charset_def map_table_def usasciiCharset_def printable_def Let_def)

context screen_cells
begin

lemma print_char_lemma:
  fixes s :: "'c Screen"
  assumes ready: "typing_ready s" "\<not> cu_wrapPending (scr_cursor s)"
    and ch: "ascii_lib T" "printable ch"
    and row: "lineAt (scr_grid s) (cursor_line s) = Inr l" "inflatedBuffer K T l = Inr (cs, l1)"
    and old: "narrow K (cs ! nat (cursor_column s))"
  shows "\<exists>c'. op_codepoints K c' = [ch] \<and>
    op_write_link K (rendition s) ch 1 (cu_hyperlink (scr_cursor s)) (cs ! nat (cursor_column s)) = Inr c' \<and> print_char K T ch s = Inr
    ((put_line (l1\<lparr>line_storage := InflatedBuffer (cs[nat (cursor_column s) := c'])\<rparr>) s)
      \<lparr>scr_cursor := typed_cursor s, scr_lastCursorPosition := cu_position (scr_cursor s), tm_precedingGraphicCharacter := ch\<rparr>)"
proof -
  let ?x = "cursor_column s" and ?m = "cu_charsets (scr_cursor s)"
  have ok: "screen_ok s" and lrmm: "\<not> tm_leftRightMargin s" and wrap: "cu_autoWrap (scr_cursor s)"
    and us: "tables ?m (tableForNextGraphic ?m) = USASCII"
    using ready(1) by (auto simp: typing_ready_def Let_def)
  note d = screen_okD [OF ok]
  have lib: "tl_width T ch = 1" "tl_breakable T (tm_precedingGraphicCharacter s) ch"
    using ready(1) ch by (auto simp: typing_ready_def ascii_lib_def)
  have fits: "line_fits (screen_columns s) l"
    by (rule currentLine_fits [OF d(1)]) (simp add: currentLine_lineAt [OF ok] row(1))
  then have len: "length cs = screen_columns s" "line_size l = screen_columns s"
    using line_fits_inflated(2) [OF row(2)] by (auto simp: line_fits_def)
  define s1 where "s1 = s\<lparr>scr_cursor := (scr_cursor s)\<lparr>cu_charsets := ?m\<lparr>tableForNextGraphic := selectedTable ?m\<rparr>\<rparr>\<rparr>"
  have ok1: "screen_ok s1" unfolding s1_def by (rule cursor_fields_keeps [OF ok]) simp
  obtain c' where c': "op_write_link K (rendition s) ch 1 (cu_hyperlink (scr_cursor s)) (cs ! nat ?x) = Inr c'"
      "op_codepoints K c' = [ch]" "op_width K c' = 1"
    using write_link_ok [of ch 1 "rendition s" "cu_hyperlink (scr_cursor s)" "cs ! nat ?x"] ch(2) by (auto simp: printable_def)
  let ?l = "l1\<lparr>line_storage := InflatedBuffer (cs[nat ?x := c'])\<rparr>"
  have cell: "write_cell K T (rendition s1) (cu_hyperlink (scr_cursor s1)) ch (cursor_column s1) l
      = Inr (?l, int (op_width K (cs ! nat ?x)), 1)"
    using row(2) len d(6,7) old c' lib(1) by (simp add: write_cell_def s1_def narrow_def wrap8_def Let_def)
  have lst: "(if P then A else Inr B) = (Inr B :: 'c Screen result)" if "\<not> P" for P A B using that by simp
  have crlf: "crlfIfWrapPending K T s = Inr s" unfolding crlfIfWrapPending_def using ready(2) by (intro lst) simp
  have line: "currentLine s1 = Inr l" using currentLine_lineAt [OF ok1] row(1) by (simp add: s1_def)
  let ?s2 = "(put_line ?l s1)\<lparr>scr_lastCursorPosition := cu_position (scr_cursor (put_line ?l s1))\<rparr>"
  have none: "[1..min (max (int (op_width K (cs ! nat ?x))) 1) a - 1] = []" for a
    using old by (simp add: narrow_def)
  have "clearAndAdvance K T (int (op_width K (cs ! nat ?x))) 1 ?s2 = Inr (?s2\<lparr>scr_cursor := typed_cursor s\<rparr>)"
    unfolding clearAndAdvance_def Let_def none
    using lrmm wrap by (auto simp: put_line_def set_lines_def s1_def typed_cursor_def Let_def cursor_simps)
  then have "writeTextInternal K T ch s = Inr (?s2\<lparr>scr_cursor := typed_cursor s\<rparr>)"
    using crlf map_usascii [OF us ch(2)] lib(2) line cell on_current_put [OF ok1]
    by (simp add: writeTextInternal_def writeCharToCurrentAndAdvance_def s1_def [symmetric] Let_def)
      (simp add: s1_def)
  moreover have "put_line ?l s1 = (put_line ?l s)\<lparr>scr_cursor := scr_cursor s1\<rparr>"
    by (simp add: put_line_def set_lines_def s1_def)
  ultimately show ?thesis
    using c'(1,2) by (intro exI [of _ c']) (simp add: print_char_def put_line_def set_lines_def s1_def)
qed

end

subsection \<open>What a run of text changes\<close>

definition row_text :: "'c CellOps \<Rightarrow> ('d, 'm) TextLib_scheme \<Rightarrow> 'c Screen \<Rightarrow> int \<Rightarrow> codepoint list list result" where
  "row_text K T s y =
    bind_result (lineAt (scr_grid s) y) (\<lambda>l. bind_result (inflatedBuffer K T l) (\<lambda>(cs, _). Inr (map (op_codepoints K) cs)))"

definition row_cells :: "'c CellOps \<Rightarrow> ('d, 'm) TextLib_scheme \<Rightarrow> 'c Screen \<Rightarrow> int \<Rightarrow> 'c list result" where
  "row_cells K T s y = bind_result (lineAt (scr_grid s) y) (\<lambda>l. bind_result (inflatedBuffer K T l) (\<lambda>(cs, _). Inr cs))"

lemma row_text_cells: "row_cells K T s y = Inr cs \<Longrightarrow> row_text K T s y = Inr (map (op_codepoints K) cs)"
  by (auto simp: row_cells_def row_text_def bind_result_eq_Inr)

text \<open>The cells of a row after a run was written over them, with the given attributes and hyperlink.\<close>

definition cells_written ::
  "'c CellOps \<Rightarrow> GraphicsAttributes \<Rightarrow> HyperlinkId \<Rightarrow> nat \<Rightarrow> bytes \<Rightarrow> 'c list \<Rightarrow> 'c list \<Rightarrow> bool" where
  "cells_written K a h n bs cs cs' \<longleftrightarrow> length cs' = length cs \<and>
    (\<forall>i < length cs. if n \<le> i \<and> i < n + length bs then op_write_link K a (bs ! (i - n)) 1 h (cs ! i) = Inr (cs' ! i)
      else cs' ! i = cs ! i)"

lemma cells_written_Nil [simp]: "cells_written K a h n [] cs cs"
  by (auto simp: cells_written_def)

definition overwrite :: "nat \<Rightarrow> bytes \<Rightarrow> codepoint list list \<Rightarrow> codepoint list list" where
  "overwrite n bs xs = take n xs @ map (\<lambda>c. [c]) bs @ drop (n + length bs) xs"

text \<open>The page, its margins and the modes that place the cursor stay.\<close>

definition same_frame :: "'c Screen \<Rightarrow> 'c Screen \<Rightarrow> bool" where
  "same_frame s s' \<longleftrightarrow> gr_pageSize (scr_grid s') = gr_pageSize (scr_grid s) \<and> scr_margin s' = scr_margin s \<and>
    tm_leftRightMargin s' = tm_leftRightMargin s \<and> cu_originMode (scr_cursor s') = cu_originMode (scr_cursor s)"

text \<open>The cursor behind \<open>n\<close> more columns, or in the last one with a wrap pending.\<close>

definition cursor_after :: "nat \<Rightarrow> 'c Screen \<Rightarrow> 'c Screen \<Rightarrow> bool" where
  "cursor_after n s s' \<longleftrightarrow> same_frame s s' \<and> cursor_line s' = cursor_line s \<and>
    (if cursor_column s + int n < int (screen_columns s)
     then cursor_column s' = cursor_column s + int n \<and> \<not> cu_wrapPending (scr_cursor s')
     else cursor_column s' = int (screen_columns s) - 1 \<and> cu_wrapPending (scr_cursor s'))"

definition other_rows_same :: "'c Screen \<Rightarrow> 'c Screen \<Rightarrow> bool" where
  "other_rows_same s s' \<longleftrightarrow> (\<forall>y. 0 \<le> y \<longrightarrow> y < int (screen_lines s) \<longrightarrow> y \<noteq> cursor_line s \<longrightarrow>
    lineAt (scr_grid s') y = lineAt (scr_grid s) y)"

lemma put_line_fields [simp]:
  "gr_pageSize (scr_grid (put_line l s)) = gr_pageSize (scr_grid s)" "scr_cursor (put_line l s) = scr_cursor s"
  "tm_leftRightMargin (put_line l s) = tm_leftRightMargin s" "scr_margin (put_line l s) = scr_margin s"
  by (simp_all add: put_line_def set_lines_def)

lemma typed_cursor_frame: "cu_originMode (typed_cursor s) = cu_originMode (scr_cursor s)"
  by (simp add: typed_cursor_def Let_def)

lemma typed_cursor_after:
  "\<not> cu_wrapPending (scr_cursor s) \<Longrightarrow> screen_ok s \<Longrightarrow> scr_cursor s' = typed_cursor s \<Longrightarrow> same_frame s s' \<Longrightarrow> cursor_after 1 s s'"
  using screen_okD(7) [of s] by (auto simp: cursor_after_def typed_cursor_def Let_def)

context screen_cells
begin

lemma print_char_step:
  fixes s :: "'c Screen"
  assumes ready: "typing_ready s" "\<not> cu_wrapPending (scr_cursor s)"
    and ch: "ascii_lib T" "printable ch"
    and row: "lineAt (scr_grid s) (cursor_line s) = Inr l" "inflatedBuffer K T l = Inr (cs, l1)"
    and old: "narrow K (cs ! nat (cursor_column s))"
  shows "\<exists>s' c' l'. print_byte K T ch (tl_init T, s) = Inr (tl_init T, s') \<and> typing_ready s' \<and> cursor_after 1 s s' \<and>
    gr_pageSize (scr_grid s') = gr_pageSize (scr_grid s) \<and> other_rows_same s s' \<and>
    rendition s' = rendition s \<and> cu_hyperlink (scr_cursor s') = cu_hyperlink (scr_cursor s) \<and>
    scr_lastCursorPosition s' = cu_position (scr_cursor s) \<and>
    op_write_link K (rendition s) ch 1 (cu_hyperlink (scr_cursor s)) (cs ! nat (cursor_column s)) = Inr c' \<and>
    lineAt (scr_grid s') (cursor_line s) = Inr l' \<and> inflatedBuffer K T l' = Inr (cs[nat (cursor_column s) := c'], l')"
proof -
  let ?x = "nat (cursor_column s)"
  have ok: "screen_ok s" using ready(1) by (simp add: typing_ready_def)
  obtain c' s' where
    c': "op_write_link K (rendition s) ch 1 (cu_hyperlink (scr_cursor s)) (cs ! ?x) = Inr c'" "print_char K T ch s = Inr s'" and
    s': "s' = (put_line (l1\<lparr>line_storage := InflatedBuffer (cs[?x := c'])\<rparr>) s)
      \<lparr>scr_cursor := typed_cursor s, scr_lastCursorPosition := cu_position (scr_cursor s), tm_precedingGraphicCharacter := ch\<rparr>"
    using print_char_lemma [OF ready ch row old] by blast
  have cur: "scr_cursor s' = typed_cursor s" by (simp add: s')
  have frame: "same_frame s s'" by (simp add: same_frame_def s' typed_cursor_frame)
  obtain s0 where s0: "writeTextInternal K T ch s = Inr s0" "s' = s0\<lparr>tm_precedingGraphicCharacter := ch\<rparr>"
    using c'(2) by (auto simp: print_char_def bind_result_eq_Inr)
  have "screen_ok s0" using writeTextInternal_keeps [OF s0(1) ok] ready(2) by (simp add: can_write_def)
  then have ok': "screen_ok s'" by (simp add: s0(2) screen_ok_def screen_shape_def)
  have "typing_ready s'"
    using ready(1) ok' ch(2) cur by (auto simp: typing_ready_def s' typed_cursor_def Let_def)
  moreover have "print_byte K T ch (tl_init T, s) = Inr (tl_init T, s')"
    using ch c'(2) by (auto simp: print_byte_def ascii_lib_def)
  moreover have "rendition s' = rendition s" "cu_hyperlink (scr_cursor s') = cu_hyperlink (scr_cursor s)"
    by (simp_all add: cur typed_cursor_def Let_def)
  moreover have "scr_lastCursorPosition s' = cu_position (scr_cursor s)" by (simp add: s')
  moreover have "scr_grid s' = scr_grid (put_line (l1\<lparr>line_storage := InflatedBuffer (cs[?x := c'])\<rparr>) s)" by (simp add: s')
  ultimately show ?thesis
    using typed_cursor_after [OF ready(2) ok cur frame] c'(1) screen_okD(4,5) [OF ok]
    by (intro exI [of _ s'] exI [of _ c'] exI [of _ "l1\<lparr>line_storage := InflatedBuffer (cs[?x := c'])\<rparr>"])
      (simp add: other_rows_same_def put_line_rows [OF ok] inflatedBuffer_def)
qed

lemma print_text_cells:
  fixes s :: "'c Screen"
  assumes "typing_ready s" "\<not> cu_wrapPending (scr_cursor s)" "ascii_lib T" "list_all printable bs"
    and "lineAt (scr_grid s) (cursor_line s) = Inr l" "inflatedBuffer K T l = Inr (cs, l1)"
    and "\<forall>c \<in> set (drop (nat (cursor_column s)) cs). narrow K c"
    and "cursor_column s + int (length bs) \<le> int (screen_columns s)"
  shows "\<exists>s' cs'. fold_result (print_byte K T) bs (tl_init T, s) = Inr (tl_init T, s') \<and> screen_ok s' \<and>
    cursor_after (length bs) s s' \<and> other_rows_same s s' \<and> row_cells K T s' (cursor_line s) = Inr cs' \<and>
    cells_written K (rendition s) (cu_hyperlink (scr_cursor s)) (nat (cursor_column s)) bs cs cs'"
  using assms
proof (induction bs arbitrary: s l cs l1)
  case Nil
  then have "screen_ok s" by (simp add: typing_ready_def)
  with Nil screen_okD(7) [of s] show ?case
    by (simp add: row_cells_def cursor_after_def same_frame_def other_rows_same_def)
next
  case (Cons ch bs)
  let ?x = "nat (cursor_column s)" and ?y = "cursor_line s" and ?a = "rendition s" and ?h = "cu_hyperlink (scr_cursor s)"
  have ok: "screen_ok s" using Cons.prems(1) by (simp add: typing_ready_def)
  note d = screen_okD [OF ok]
  have "line_fits (screen_columns s) l"
    by (rule currentLine_fits [OF d(1)]) (simp add: currentLine_lineAt [OF ok] Cons.prems(5))
  then have len: "length cs = screen_columns s" using line_fits_inflated(2) [OF Cons.prems(6)] by simp
  have x: "?x < length cs" using d(6,7) len by simp
  then have "cs ! ?x \<in> set (drop ?x cs)" by (metis Cons_nth_drop_Suc list.set_intros(1))
  with Cons.prems(7) have old: "narrow K (cs ! ?x)" by blast
  have ch: "printable ch" using Cons.prems(4) by simp
  obtain s1 c' l' where s1: "print_byte K T ch (tl_init T, s) = Inr (tl_init T, s1)" "typing_ready s1" "cursor_after 1 s s1"
      "gr_pageSize (scr_grid s1) = gr_pageSize (scr_grid s)" "other_rows_same s s1" "rendition s1 = ?a"
      "cu_hyperlink (scr_cursor s1) = ?h" "op_write_link K ?a ch 1 ?h (cs ! ?x) = Inr c'"
      "lineAt (scr_grid s1) ?y = Inr l'" "inflatedBuffer K T l' = Inr (cs[?x := c'], l')"
    using print_char_step [OF Cons.prems(1-3) ch Cons.prems(5,6) old] by blast
  have "\<exists>s' cs'. fold_result (print_byte K T) bs (tl_init T, s1) = Inr (tl_init T, s') \<and> screen_ok s' \<and>
      cursor_after (length (ch # bs)) s s' \<and> other_rows_same s s' \<and> row_cells K T s' ?y = Inr cs' \<and>
      cells_written K ?a ?h (?x + 1) bs (cs[?x := c']) cs'"
  proof (cases "cursor_column s + 1 < int (screen_columns s)")
    case True
    have cur: "cursor_line s1 = ?y" "cursor_column s1 = cursor_column s + 1" "\<not> cu_wrapPending (scr_cursor s1)"
      using s1(3) True by (simp_all add: cursor_after_def)
    have nx: "nat (cursor_column s1) = ?x + 1" using cur(2) d(6) by simp
    have "\<exists>s' cs'. fold_result (print_byte K T) bs (tl_init T, s1) = Inr (tl_init T, s') \<and> screen_ok s' \<and>
      cursor_after (length bs) s1 s' \<and> other_rows_same s1 s' \<and> row_cells K T s' (cursor_line s1) = Inr cs' \<and>
      cells_written K (rendition s1) (cu_hyperlink (scr_cursor s1)) (nat (cursor_column s1)) bs (cs[?x := c']) cs'"
    proof (rule Cons.IH [OF s1(2) cur(3) Cons.prems(3)])
      show "\<forall>c \<in> set (drop (nat (cursor_column s1)) (cs[?x := c'])). narrow K c"
        using Cons.prems(7) set_drop_subset_set_drop [of ?x "Suc ?x" cs] by (auto simp: nx)
    qed (use Cons.prems(4,8) s1 cur in simp_all)
    moreover have "cursor_after (length (ch # bs)) s s'" if "cursor_after (length bs) s1 s'" for s'
      using that s1(3) cur by (auto simp: cursor_after_def same_frame_def split: if_splits)
    moreover have "other_rows_same s s'" if "other_rows_same s1 s'" for s'
      using that s1(4,5) cur(1) by (simp add: other_rows_same_def)
    ultimately show ?thesis unfolding cur(1) nx s1(6,7) by blast
  next
    case False
    then have "bs = []" using Cons.prems(8) by (cases bs) simp_all
    with s1 show ?thesis by (auto simp: typing_ready_def row_cells_def)
  qed
  moreover have "cells_written K ?a ?h ?x (ch # bs) cs cs'" if "cells_written K ?a ?h (?x + 1) bs (cs[?x := c']) cs'" for cs'
    using that s1(8) x unfolding cells_written_def
    by (auto simp: nth_Cons' nth_list_update split: if_splits)
  ultimately show ?case using s1(1) by auto
qed

lemma cells_written_text:
  assumes "cells_written K a h n bs cs cs'" "list_all printable bs" "n + length bs \<le> length cs"
  shows "map (op_codepoints K) cs' = overwrite n bs (map (op_codepoints K) cs)"
proof (rule nth_equalityI)
  show "length (map (op_codepoints K) cs') = length (overwrite n bs (map (op_codepoints K) cs))"
    using assms(1,3) by (simp add: cells_written_def overwrite_def)
next
  fix i
  assume "i < length (map (op_codepoints K) cs')"
  then have i: "i < length cs'" "i < length cs" using assms(1) by (simp_all add: cells_written_def)
  have "op_codepoints K (cs' ! i) = [bs ! (i - n)]" if "n \<le> i" "i < n + length bs"
  proof -
    have "bs ! (i - n) \<in> set bs" using that by simp
    then have "0 < bs ! (i - n)" using assms(2) by (auto simp: list_all_iff printable_def)
    moreover have "op_write_link K a (bs ! (i - n)) 1 h (cs ! i) = Inr (cs' ! i)"
      using assms(1) i(2) that by (auto simp: cells_written_def)
    ultimately show ?thesis using write_link_ok [of "bs ! (i - n)" 1 a h "cs ! i"] by auto
  qed
  moreover have "cs' ! i = cs ! i" if "\<not> (n \<le> i \<and> i < n + length bs)"
    using assms(1) i(2) that by (auto simp: cells_written_def)
  ultimately show "map (op_codepoints K) cs' ! i = overwrite n bs (map (op_codepoints K) cs) ! i"
    using i assms(3) by (auto simp: overwrite_def nth_append add.commute)
qed

lemma print_text_lemma:
  fixes s :: "'c Screen"
  assumes "typing_ready s" "\<not> cu_wrapPending (scr_cursor s)" "ascii_lib T" "list_all printable bs"
    and "lineAt (scr_grid s) (cursor_line s) = Inr l" "inflatedBuffer K T l = Inr (cs, l1)"
    and "\<forall>c \<in> set (drop (nat (cursor_column s)) cs). narrow K c"
    and "cursor_column s + int (length bs) \<le> int (screen_columns s)"
  shows "\<exists>s'. fold_result (print_byte K T) bs (tl_init T, s) = Inr (tl_init T, s') \<and> screen_ok s' \<and>
    cursor_after (length bs) s s' \<and> other_rows_same s s' \<and>
    row_text K T s' (cursor_line s) = Inr (overwrite (nat (cursor_column s)) bs (map (op_codepoints K) cs))"
proof -
  have ok: "screen_ok s" using assms(1) by (simp add: typing_ready_def)
  have "line_fits (screen_columns s) l"
    by (rule currentLine_fits [OF screen_okD(1) [OF ok]]) (simp add: currentLine_lineAt [OF ok] assms(5))
  then have "nat (cursor_column s) + length bs \<le> length cs"
    using line_fits_inflated(2) [OF assms(6)] assms(8) screen_okD(6) [OF ok] by simp
  with print_text_cells [OF assms] cells_written_text [OF _ assms(4)] show ?thesis
    using row_text_cells by fastforce
qed

end

subsection \<open>The fast path\<close>

text \<open>Inflating a line without text.\<close>

definition blank_cells :: "'c CellOps \<Rightarrow> TrivialLineBuffer \<Rightarrow> 'c list \<Rightarrow> bool" where
  "blank_cells K b cs \<longleftrightarrow> length cs = tb_displayWidth b \<and> (\<forall>c \<in> set cs. op_make K (tb_fillAttributes b) 0 = Inr c)"

context screen_cells
begin

lemma inflate_blank:
  assumes "tb_text b = []" "tb_usedColumns b = 0" "0 < tb_displayWidth b"
  shows "\<exists>cs. inflate K T b = Inr cs \<and> blank_cells K b cs"
proof -
  obtain c where "op_make K (tb_fillAttributes b) 0 = Inr c" using make_ok by blast
  with assms show ?thesis by (simp add: inflate_def push_cells_def blank_cells_def)
qed

lemma blank_cells_plain:
  assumes "blank_cells K b cs" "ga_flags (tb_fillAttributes b) AND flag CF_WideCharContinuation = 0"
  shows "\<forall>c \<in> set cs. narrow K c" "map (op_codepoints K) cs = replicate (tb_displayWidth b) []"
proof -
  show "\<forall>c \<in> set cs. narrow K c"
    using assms make_plain unfolding blank_cells_def narrow_def by fastforce
  have "op_codepoints K c = []" if "c \<in> set cs" for c
    using that assms(1) make_ok [of "tb_fillAttributes b" 0] empty_codepoints by (auto simp: blank_cells_def)
  then show "map (op_codepoints K) cs = replicate (tb_displayWidth b) []"
    using assms(1) by (auto simp: blank_cells_def intro!: nth_equalityI)
qed

lemma fast_path_cells:
  fixes s :: "'c Screen"
  assumes "typing_ready s" "\<not> cu_wrapPending (scr_cursor s)" "isFullHorizontalMargins s"
    and "ascii_lib T" "list_all printable bs" "cursor_column s + int (length bs) \<le> int (screen_columns s)"
    and "lineAt (scr_grid s) (cursor_line s) = Inr l" "line_storage l = TrivialBuffer b" "list_all printable (tb_text b)"
    and "cursor_column s = int (length (tb_text b))"
    and "tb_text b = [] \<or> contiguous \<and> tb_usedColumns b = length (tb_text b) \<and> tb_textAttributes b = rendition s \<and>
      tb_hyperlink b = cu_hyperlink (scr_cursor s)"
  shows "\<exists>s' cs blank. writeText K T contiguous bs (length bs) (d, s) = Inr (d, s') \<and> cursor_after (length bs) s s' \<and>
    other_rows_same s s' \<and> scr_lastCursorPosition s' = scr_lastCursorPosition s \<and> screen_ok s' \<and>
    row_cells K T s' (cursor_line s) = Inr (cs @ replicate (screen_columns s - length (tb_text b @ bs)) blank) \<and>
    map (text_cell K (rendition s) (cu_hyperlink (scr_cursor s))) (tb_text b @ bs) = map Inr cs \<and>
    op_make K (tb_fillAttributes b) 0 = Inr blank"
proof -
  let ?n = "length bs"
  have ok: "screen_ok s" using assms(1) by (simp add: typing_ready_def)
  note sd = screen_okD [OF ok]
  have line: "currentLine s = Inr l" using currentLine_lineAt [OF ok] assms(7) by simp
  have "line_fits (screen_columns s) l" by (rule currentLine_fits [OF sd(1) line])
  then have w: "tb_displayWidth b = screen_columns s" by (simp add: line_fits_def line_size_def assms(8))
  define b' where "b' = \<lparr>tb_displayWidth = screen_columns s, tb_textAttributes = rendition s,
    tb_fillAttributes = tb_fillAttributes b, tb_hyperlink = cu_hyperlink (scr_cursor s),
    tb_usedColumns = length (tb_text b @ bs), tb_text = tb_text b @ bs\<rparr>"
  define s1 where "s1 = put_line (l\<lparr>line_storage := TrivialBuffer b'\<rparr>) s"
  define s' where "s' = (if cursor_column s + int ?n < int (screen_columns s)
    then set_position (cursor_line s) (cursor_column s + int ?n) s1
    else set_wrapPending True (set_position (cursor_line s) (cursor_column s + int ?n - 1) s1))"
  have right: "mg_right (scr_margin s) + 1 = int (screen_columns s)" using assms(3) by (simp add: isFullHorizontalMargins_def)
  have put: "on_current (\<lambda>l. Inr (l\<lparr>line_storage := TrivialBuffer b'\<rparr>)) s = Inr s1"
    using on_current_put [OF ok, of "l\<lparr>line_storage := TrivialBuffer b'\<rparr>"] line by (simp add: on_current_def s1_def)
  have advance: "advanceCursorAfterWrite ?n s1 = Inr s'"
    using right assms(6) by (simp add: advanceCursorAfterWrite_def s'_def s1_def)
  have crlf: "crlfIfWrapPending K T s = Inr s"
    unfolding crlfIfWrapPending_def using assms(2) by (intro if_not_P) simp
  have us: "isSelected USASCII (cu_charsets (scr_cursor s))"
    using assms(1) by (simp add: typing_ready_def isSelected_def Let_def)
  have run: "writeText K T contiguous bs ?n (d, s) = Inr (d, s')"
  proof (cases "tb_text b = []")
    case True
    with assms(10) have col: "cursor_column s = 0" by simp
    have "\<lparr>tb_displayWidth = tb_displayWidth b, tb_textAttributes = rendition s, tb_fillAttributes = tb_fillAttributes b,
        tb_hyperlink = cu_hyperlink (scr_cursor s), tb_usedColumns = ?n, tb_text = bs\<rparr> = b'"
      using True w by (simp add: b'_def)
    with put advance have "emplaceCharsIntoCurrentLine K T bs ?n (d, s) = Inr (d, s')"
      using line right col assms(6,8) True by (simp add: emplaceCharsIntoCurrentLine_def Let_def line_empty_def)
    then show ?thesis
      using assms(3,6,8) True col line crlf us by (simp add: writeText_def tryEmplaceChars_def Let_def line_empty_def)
  next
    case False
    with assms(10,11) have col: "cursor_column s \<noteq> 0" and c: "contiguous" "tb_usedColumns b = length (tb_text b)"
        "tb_textAttributes b = rendition s" "tb_hyperlink b = cu_hyperlink (scr_cursor s)"
      by auto
    have "b\<lparr>tb_text := tb_text b @ bs, tb_usedColumns := tb_usedColumns b + ?n\<rparr> = b'"
      using c(2-4) w by (simp add: b'_def)
    with put advance show ?thesis
      using assms(3,6,8) col c(1) line crlf us by (simp add: writeText_def tryEmplaceChars_def Let_def)
  qed
  have grid: "scr_grid s' = scr_grid s1" by (simp add: s'_def)
  have rows: "other_rows_same s s'" "lineAt (scr_grid s') (cursor_line s) = Inr (l\<lparr>line_storage := TrivialBuffer b'\<rparr>)"
    using sd(4,5) by (simp_all add: other_rows_same_def grid s1_def put_line_rows [OF ok])
  have fit: "length (tb_text b @ bs) \<le> screen_columns s" using assms(6,10) by simp
  obtain cs blank where cs: "inflate K T b' = Inr (cs @ replicate (screen_columns s - length (tb_text b @ bs)) blank)"
      "map (text_cell K (rendition s) (cu_hyperlink (scr_cursor s))) (tb_text b @ bs) = map Inr cs"
      "op_make K (tb_fillAttributes b) 0 = Inr blank"
    using inflate_ascii_cells [of T b'] assms(4,5,9) fit grid_okD(5) [OF sd(1)] by (auto simp: b'_def)
  have "row_cells K T s' (cursor_line s) = Inr (cs @ replicate (screen_columns s - length (tb_text b @ bs)) blank)"
    using cs(1) by (simp add: row_cells_def rows(2) inflatedBuffer_def)
  moreover have "cursor_after ?n s s'"
    using assms(2,6) by (auto simp: cursor_after_def same_frame_def s'_def s1_def set_wrapPending_def set_position_def)
  moreover have "scr_lastCursorPosition s' = scr_lastCursorPosition s"
    by (simp add: s'_def s1_def put_line_def set_lines_def set_wrapPending_def set_position_def)
  moreover have "screen_ok s'"
  proof -
    have "redrawn s s1"
      using line on_current_put [OF ok, of "l\<lparr>line_storage := TrivialBuffer b'\<rparr>", folded s1_def] sd(1)
    proof (rule on_current_const)
      show "line_fits v (l\<lparr>line_storage := TrivialBuffer b'\<rparr>)" if "line_fits v l" for v
        using that fit w by (simp add: line_fits_def line_size_def assms(8) b'_def)
    qed
    then have ok1: "screen_ok s1" using ok by (rule redrawn_ok)
    have "gr_pageSize (scr_grid s1) = gr_pageSize (scr_grid s)" "cursor_line s1 = cursor_line s"
      by (simp_all add: s1_def)
    then show ?thesis
      using ok_column [OF ok1, of "cursor_column s + int ?n"] ok_column [OF ok1, of "cursor_column s + int ?n - 1"] sd(6,7) assms(6)
      by (auto simp: s'_def)
  qed
  ultimately show ?thesis using run rows(1) cs(2,3) by blast
qed

lemma fast_path_lemma:
  fixes s :: "'c Screen"
  assumes "typing_ready s" "\<not> cu_wrapPending (scr_cursor s)" "isFullHorizontalMargins s" "cursor_column s = 0"
    and "ascii_lib T" "list_all printable bs" "length bs \<le> screen_columns s"
    and "lineAt (scr_grid s) (cursor_line s) = Inr l" "line_storage l = TrivialBuffer b" "tb_text b = []"
  shows "\<exists>s'. writeText K T contiguous bs (length bs) (d, s) = Inr (d, s') \<and> cursor_after (length bs) s s' \<and>
    other_rows_same s s' \<and> scr_lastCursorPosition s' = scr_lastCursorPosition s \<and> screen_ok s' \<and>
    row_text K T s' (cursor_line s) = Inr (map (\<lambda>c. [c]) bs @ replicate (screen_columns s - length bs) [])"
proof -
  have "list_all printable (tb_text b)" "cursor_column s = int (length (tb_text b))"
      "cursor_column s + int (length bs) \<le> int (screen_columns s)"
    using assms(4,7,10) by simp_all
  from fast_path_cells [OF assms(1-3,5,6) this(3) assms(8,9) this(1,2), of contiguous d] assms(10) obtain s' cs blank where
    s': "writeText K T contiguous bs (length bs) (d, s) = Inr (d, s')" "cursor_after (length bs) s s'" "other_rows_same s s'"
      "scr_lastCursorPosition s' = scr_lastCursorPosition s" "screen_ok s'"
      "row_cells K T s' (cursor_line s) = Inr (cs @ replicate (screen_columns s - length bs) blank)"
      "map (text_cell K (rendition s) (cu_hyperlink (scr_cursor s))) bs = map Inr cs"
      "op_make K (tb_fillAttributes b) 0 = Inr blank"
    by auto
  have "map (op_codepoints K) cs = map (\<lambda>c. [c]) bs"
    using s'(7) by (rule text_cells_codepoints) (use assms(6) in \<open>auto simp: list_all_iff printable_def\<close>)
  moreover have "op_codepoints K blank = []"
    using s'(8) make_ok [of "tb_fillAttributes b" 0] empty_codepoints by auto
  ultimately show ?thesis using s'(1-5) row_text_cells [OF s'(6)] by auto
qed

end

context viewed_cells
begin

lemma text_cells_view:
  assumes "map (text_cell K a h) bs = map Inr cs" "list_all printable bs"
  shows "map view cs = map (shown_cell a h) bs"
proof -
  have len: "length bs = length cs" using assms(1) by (metis length_map)
  have "view (cs ! i) = shown_cell a h (bs ! i)" if "i < length bs" for i
  proof (rule text_cell_view)
    show "text_cell K a h (bs ! i) = Inr (cs ! i)" using assms(1) that len by (metis nth_map)
    show "0 < bs ! i" using assms(2) that by (auto simp: list_all_length printable_def)
  qed
  then show ?thesis by (intro nth_equalityI) (simp_all add: len [symmetric])
qed

lemma cells_written_view:
  assumes "cells_written K a h n bs cs cs'" "list_all printable bs" "cs = pre @ replicate m blank" "length pre = n"
    and "length bs \<le> m" "sc_imageFragment (view blank) = None"
  shows "map view cs' = map view pre @ map (shown_cell a h) bs @ replicate (m - length bs) (view blank)"
proof (rule nth_equalityI)
  show len: "length (map view cs') = length (map view pre @ map (shown_cell a h) bs @ replicate (m - length bs) (view blank))"
    using assms(1,3-5) by (simp add: cells_written_def)
  fix i
  assume "i < length (map view cs')"
  then have i: "i < length cs'" "i < length cs" using assms(1) by (simp_all add: cells_written_def)
  have blank: "cs ! i = blank" if "n \<le> i" using that i(2) assms(3,4) by (simp add: nth_append)
  have "view (cs' ! i) = shown_cell a h (bs ! (i - n))" if "n \<le> i" "i < n + length bs"
  proof (rule write_link_view)
    show "op_write_link K a (bs ! (i - n)) 1 h (cs ! i) = Inr (cs' ! i)"
      using assms(1) i(2) that by (auto simp: cells_written_def)
    have "bs ! (i - n) \<in> set bs" using that by simp
    then show "0 < bs ! (i - n)" using assms(2) by (auto simp: list_all_iff printable_def)
  qed (simp add: blank [OF that(1)] assms(6))
  moreover have "cs' ! i = cs ! i" if "\<not> (n \<le> i \<and> i < n + length bs)"
    using assms(1) i(2) that by (auto simp: cells_written_def)
  ultimately show "map view cs' ! i = (map view pre @ map (shown_cell a h) bs @ replicate (m - length bs) (view blank)) ! i"
    using i blank assms(3-5) by (auto simp: nth_append)
qed

lemma fast_path_agrees_lemma:
  fixes s :: "'c Screen"
  assumes s: "typing_ready s" "\<not> cu_wrapPending (scr_cursor s)" "isFullHorizontalMargins s"
    and bs: "ascii_lib T" "list_all printable bs" "cursor_column s + int (length bs) \<le> int (screen_columns s)"
    and l: "lineAt (scr_grid s) (cursor_line s) = Inr l" "line_storage l = TrivialBuffer b" "list_all printable (tb_text b)"
      "tb_usedColumns b = length (tb_text b)" "cursor_column s = int (length (tb_text b))"
      "ga_flags (tb_fillAttributes b) AND flag CF_WideCharContinuation = 0"
    and run: "tb_text b \<noteq> [] \<Longrightarrow> contiguous \<Longrightarrow> tb_textAttributes b = rendition s \<and> tb_hyperlink b = cu_hyperlink (scr_cursor s)"
  shows "\<exists>s1 s2 cs1 cs2. writeText K T contiguous bs (length bs) (tl_init T, s) = Inr (tl_init T, s1) \<and>
    fold_result (print_byte K T) bs (tl_init T, s) = Inr (tl_init T, s2) \<and>
    cursor_after (length bs) s s1 \<and> cursor_after (length bs) s s2 \<and> other_rows_same s s1 \<and> other_rows_same s s2 \<and>
    row_cells K T s1 (cursor_line s) = Inr cs1 \<and> row_cells K T s2 (cursor_line s) = Inr cs2 \<and> map view cs1 = map view cs2 \<and>
    map view cs2 = map (shown_cell (tb_textAttributes b) (tb_hyperlink b)) (tb_text b)
      @ map (shown_cell (rendition s) (cu_hyperlink (scr_cursor s))) bs
      @ replicate (screen_columns s - length (tb_text b @ bs)) (sc_make (tb_fillAttributes b) 0)"
proof -
  let ?t = "tb_text b" and ?a = "rendition s" and ?h = "cu_hyperlink (scr_cursor s)"
  have ok: "screen_ok s" using s(1) by (simp add: typing_ready_def)
  note sd = screen_okD [OF ok]
  have line: "currentLine s = Inr l" using currentLine_lineAt [OF ok] l(1) by simp
  have "line_fits (screen_columns s) l" by (rule currentLine_fits [OF sd(1) line])
  then have w: "tb_displayWidth b = screen_columns s" by (simp add: line_fits_def line_size_def l(2))
  have tfit: "length ?t \<le> tb_displayWidth b" "0 < tb_displayWidth b"
    using w l(5) bs(3) grid_okD(5) [OF sd(1)] by simp_all
  obtain pre blank where pre: "inflate K T b = Inr (pre @ replicate (screen_columns s - length ?t) blank)"
      "map (text_cell K (tb_textAttributes b) (tb_hyperlink b)) ?t = map Inr pre" "op_make K (tb_fillAttributes b) 0 = Inr blank"
    using inflate_ascii_cells [OF bs(1) l(3,4) tfit] w by auto
  have plen: "length pre = length ?t" using pre(2) by (metis length_map)
  have blank: "view blank = sc_make (tb_fillAttributes b) 0" "narrow K blank"
    using make_view [OF pre(3)] make_plain [OF pre(3)] l(6) by (simp_all add: narrow_def)
  let ?cs = "pre @ replicate (screen_columns s - length ?t) blank"
  have inf: "inflatedBuffer K T l = Inr (?cs, l\<lparr>line_storage := InflatedBuffer ?cs\<rparr>)"
    by (simp add: inflatedBuffer_def l(2) pre(1))
  have "\<forall>c \<in> set (drop (nat (cursor_column s)) ?cs). narrow K c" using blank(2) l(5) plen by simp
  from print_text_cells [OF s(1,2) bs(1,2) l(1) inf this bs(3)] obtain s2 cs2 where
    s2: "fold_result (print_byte K T) bs (tl_init T, s) = Inr (tl_init T, s2)" "cursor_after (length bs) s s2"
      "other_rows_same s s2" "row_cells K T s2 (cursor_line s) = Inr cs2" "cells_written K ?a ?h (nat (cursor_column s)) bs ?cs cs2"
    by blast
  have img: "sc_imageFragment (view blank) = None" by (simp add: blank(1) sc_make_def newSimpleCell_def)
  have v2: "map view cs2 = map (shown_cell (tb_textAttributes b) (tb_hyperlink b)) ?t @ map (shown_cell ?a ?h) bs
      @ replicate (screen_columns s - length (?t @ bs)) (sc_make (tb_fillAttributes b) 0)"
    using cells_written_view [OF s2(5) bs(2) refl _ _ img] text_cells_view [OF pre(2) l(3)] plen l(5) bs(3) blank(1) by simp
  show ?thesis
  proof (cases "?t = [] \<or> contiguous")
    case True
    then have hyp: "?t = [] \<or> contiguous \<and> tb_usedColumns b = length ?t \<and> tb_textAttributes b = ?a \<and> tb_hyperlink b = ?h"
      using run l(4) by blast
    from fast_path_cells [OF s bs l(1,2,3,5) hyp, of "tl_init T"] obtain s1 cs blank' where
      s1: "writeText K T contiguous bs (length bs) (tl_init T, s) = Inr (tl_init T, s1)" "cursor_after (length bs) s s1"
        "other_rows_same s s1" "row_cells K T s1 (cursor_line s) = Inr (cs @ replicate (screen_columns s - length (?t @ bs)) blank')"
        "map (text_cell K ?a ?h) (?t @ bs) = map Inr cs" "op_make K (tb_fillAttributes b) 0 = Inr blank'"
      by blast
    have "map view cs = map (shown_cell ?a ?h) (?t @ bs)"
      using s1(5) by (rule text_cells_view) (use l(3) bs(2) in simp)
    moreover have "map (shown_cell (tb_textAttributes b) (tb_hyperlink b)) ?t = map (shown_cell ?a ?h) ?t" using hyp by auto
    ultimately have "map view (cs @ replicate (screen_columns s - length (?t @ bs)) blank') = map view cs2"
      using v2 make_view [OF s1(6)] by simp
    with s1(1-4) s2(1-4) v2 show ?thesis by blast
  next
    case False
    then have "writeText K T contiguous bs (length bs) (tl_init T, s) = fold_result (print_byte K T) bs (tl_init T, s)"
    proof -
      have crlf: "crlfIfWrapPending K T s = Inr s"
        unfolding crlfIfWrapPending_def using s(2) by (intro if_not_P) simp
      have us: "isSelected USASCII (cu_charsets (scr_cursor s))"
        using s(1) by (simp add: typing_ready_def isSelected_def Let_def)
      have col: "cursor_column s \<noteq> 0" using False l(5) by simp
      show ?thesis
        using False s(3) bs(3) l(2) line crlf us col by (simp add: writeText_def tryEmplaceChars_def Let_def)
    qed
    with s2(1-4) v2 show ?thesis by auto
  qed
qed

end

subsection \<open>Properties\<close>

lemma no_continuation [simp]: "ga_flags defaultAttributes AND flag CF_WideCharContinuation = 0"
  by (simp add: defaultAttributes_def)

text \<open>A new screen, for the examples: it is ready, and its lines are blank.\<close>

lemma new_screen_ready:
  assumes "0 < ps_lines ps" "0 < ps_columns ps" "ps_lines ps + n < 2147483648"
  shows "\<exists>s l :: 'c Line. newScreen ps rf (HistoryLimit n) = Inr s \<and> typing_ready s \<and> \<not> cu_wrapPending (scr_cursor s) \<and>
    isFullHorizontalMargins s \<and> cursor_line s = 0 \<and> cursor_column s = 0 \<and> gr_pageSize (scr_grid s) = ps \<and>
    scr_lastCursorPosition s = \<lparr>cl_line = 0, cl_column = 0\<rparr> \<and>
    lineAt (scr_grid s) 0 = Inr l \<and> line_storage l = TrivialBuffer (trivial_blank (ps_columns ps) defaultAttributes)"
proof -
  obtain s :: "'c Screen" where s: "newScreen ps rf (HistoryLimit n) = Inr s" "screen_ok s" "scr_cursor s = newCursor"
      "gr_pageSize (scr_grid s) = ps"
      "scr_margin s = \<lparr>mg_top = 0, mg_bottom = int (ps_lines ps) - 1, mg_left = 0, mg_right = int (ps_columns ps) - 1\<rparr>"
      "\<not> tm_leftRightMargin s" "tm_precedingGraphicCharacter s = 0" "scr_lastCursorPosition s = \<lparr>cl_line = 0, cl_column = 0\<rparr>"
      "\<forall>y. 0 \<le> y \<longrightarrow> y < int (ps_lines ps) \<longrightarrow> lineAt (scr_grid s) y = Inr (blank_row defaultAttributes (scr_grid s))"
    using newScreen_ok [of ps n rf] assms by auto
  then show ?thesis
    using assms(1)
    by (intro exI [of _ s] exI [of _ "blank_row defaultAttributes (scr_grid s)"])
      (simp add: typing_ready_def isFullHorizontalMargins_def newCursor_def newCharsetMapping_def blank_row_def blank_line_def Let_def)
qed



lemma put_line_at:
  assumes "grid_ok (scr_grid s)" "0 \<le> y" "y < int (screen_lines s)"
  shows "\<exists>s'. on_line y (\<lambda>_. Inr l') s = Inr s' \<and> scr_cursor s' = scr_cursor s \<and>
    tm_leftRightMargin s' = tm_leftRightMargin s \<and> gr_pageSize (scr_grid s') = gr_pageSize (scr_grid s) \<and>
    (\<forall>y'. 0 \<le> y' \<longrightarrow> y' < int (screen_lines s) \<longrightarrow>
      lineAt (scr_grid s') y' = (if y' = y then Inr l' else lineAt (scr_grid s) y'))"
proof -
  let ?r = "gr_lines (scr_grid s)"
  obtain k where k: "ring_index ?r y = Inr k" using ring_index_total [OF assms] by blast
  then have less: "k < ring_size ?r" by (rule ring_index_less)
  let ?r' = "?r\<lparr>rg_storage := (rg_storage ?r)[k := l']\<rparr>"
  have cong: "ring_index ?r' v = ring_index ?r v" for v by (rule ring_index_cong) simp_all
  have "ring_get ?r' y' = (if y' = y then Inr l' else ring_get ?r y')" if y': "0 \<le> y'" "y' < int (screen_lines s)" for y'
  proof -
    obtain j where j: "ring_index ?r y' = Inr j" using ring_index_total [OF assms(1) y'] by blast
    have "j = k \<longleftrightarrow> y' = y" using ring_index_inj [OF assms(1) y' assms(2,3) j] k j by auto
    then show ?thesis using j k less by (auto simp: ring_get_def cong)
  qed
  moreover obtain l where "lineAt (scr_grid s) y = Inr l"
    using k less by (simp add: lineAt_def ring_get_def)
  ultimately show ?thesis using k by (simp add: on_line_def ring_set_def set_lines_def lineAt_def)
qed

context screen_cells
begin

lemma combining_lemma:
  fixes s :: "'c Screen"
  assumes "typing_ready s" "\<not> cu_wrapPending (scr_cursor s)" "isFullHorizontalMargins s" "cursor_column s = 0"
    and "ascii_lib T" "list_all printable bs" "length bs < screen_columns s"
    and "lineAt (scr_grid s) (cursor_line s) = Inr l" "line_storage l = TrivialBuffer b" "tb_text b = []"
    and last: "scr_lastCursorPosition s = \<lparr>cl_line = y, cl_column = int x\<rparr>" "0 \<le> y" "y < int (screen_lines s)" "y \<noteq> cursor_line s"
    and old: "row_text K T s y = Inr t" "x < length t" "t ! x = [ch]"
    and "bs \<noteq> []" and cp: "128 \<le> cp" "\<not> tl_breakable T (last bs) cp"
  shows "\<exists>s1 s2. writeText K T contiguous bs (length bs) (d, s) = Inr (d, s1) \<and>
    writeTextInternal K T cp (s1\<lparr>tm_precedingGraphicCharacter := last bs\<rparr>) = Inr s2 \<and>
    row_text K T s2 (cursor_line s) = Inr (map (\<lambda>c. [c]) bs @ replicate (screen_columns s - length bs) []) \<and>
    row_text K T s2 y = Inr (t[x := [ch, cp]])"
proof -
  let ?y = "cursor_line s"
  have "screen_ok s" using assms(1) by (simp add: typing_ready_def)
  note here = screen_okD(4,5) [OF this]
  obtain s1 where s1: "writeText K T contiguous bs (length bs) (d, s) = Inr (d, s1)" "cursor_after (length bs) s s1"
      "other_rows_same s s1" "scr_lastCursorPosition s1 = scr_lastCursorPosition s" "screen_ok s1"
      "row_text K T s1 ?y = Inr (map (\<lambda>c. [c]) bs @ replicate (screen_columns s - length bs) [])"
    using fast_path_lemma [OF assms(1-6) less_imp_le [OF assms(7)] assms(8-10), of contiguous d] by auto
  have frame: "gr_pageSize (scr_grid s1) = gr_pageSize (scr_grid s)" "tm_leftRightMargin s1 = tm_leftRightMargin s"
    using s1(2) by (simp_all add: cursor_after_def same_frame_def)
  define s1' where "s1' = s1\<lparr>tm_precedingGraphicCharacter := last bs\<rparr>"
  have "lineAt (scr_grid s1) y = lineAt (scr_grid s) y" using s1(3) last(2-4) by (simp add: other_rows_same_def)
  then obtain l1 cs l2 where l1: "lineAt (scr_grid s1) y = Inr l1" "inflatedBuffer K T l1 = Inr (cs, l2)"
      "map (op_codepoints K) cs = t"
    using old(1) by (auto simp: row_text_def bind_result_eq_Inr)
  have x: "x < length cs" "op_codepoints K (cs ! x) = [ch]" using old(2,3) l1(3) by auto
  obtain c' where c': "op_append K cp (cs ! x) = Inr (0, c')" "op_codepoints K c' = [ch, cp]"
    using append_joins [OF x(2), of cp] cp(1) by auto
  let ?l = "l2\<lparr>line_storage := InflatedBuffer (cs[x := c'])\<rparr>"
  have "line_fits (screen_columns s1) l1"
    using l1(1) screen_okD(1) [OF s1(5)] by (auto simp: lineAt_def ring_get_def bind_result_eq_Inr grid_ok_def list_all_iff split: if_splits dest!: ring_index_less)
  then have "line_size l1 = length cs" using line_fits_inflated(2) [OF l1(2)] by (simp add: line_fits_def)
  then have app: "append_to_cell K T cp (int x) l1 = Inr (?l, 0)"
    using l1(2) c'(1) x(1) by (simp add: append_to_cell_def)
  obtain s3 where s3: "on_line y (\<lambda>_. Inr ?l) s1' = Inr s3" "scr_cursor s3 = scr_cursor s1"
      "tm_leftRightMargin s3 = tm_leftRightMargin s" "gr_pageSize (scr_grid s3) = gr_pageSize (scr_grid s)"
      "lineAt (scr_grid s3) y = Inr ?l" "lineAt (scr_grid s3) ?y = lineAt (scr_grid s1) ?y"
    using put_line_at [of s1' y ?l] screen_okD(1) [OF s1(5)] frame last(2-4) here by (auto simp: s1'_def)
  have cur: "cursor_column s1 = int (length bs)" "\<not> cu_wrapPending (scr_cursor s1)"
    using s1(2) assms(4,7) by (simp_all add: cursor_after_def)
  have none: "[1..min (max 0 0) a - 1] = []" for a :: int by simp
  let ?s = "set_position (cursor_line s3) (cursor_column s3 + 0) s3"
  have "clearAndAdvance K T 0 0 s3 = Inr ?s"
    unfolding clearAndAdvance_def Let_def none
    using assms(1,7) s3(2-4) cur(1) by (simp add: typing_ready_def)
  moreover have "crlfIfWrapPending K T s1' = Inr s1'"
    unfolding crlfIfWrapPending_def using cur(2) by (intro if_not_P) (simp add: s1'_def)
  moreover have "map_charset cp m = Inr (cp, m)" for m using cp(1) by (simp add: map_charset_def)
  ultimately have "writeTextInternal K T cp s1' = Inr ?s"
    using cp(2) s1(4) last(1) l1(1) app s3(1) by (simp add: writeTextInternal_def s1'_def Let_def)
  moreover have "row_text K T ?s y = Inr (t[x := [ch, cp]])"
    using s3(5) c'(2) l1(3) by (simp add: row_text_def inflatedBuffer_def map_update)
  moreover have "row_text K T ?s ?y = row_text K T s1 ?y" using s3(6) by (simp add: row_text_def)
  ultimately show ?thesis using s1(1,6) by (auto simp: s1'_def)
qed

end

text \<open>
  C38. The fast path forgets where the last character went. A combining character joins the cell at
  \<open>_lastCursorPosition\<close>, which the fast path does not set: when a run of text was stored in a line
  and the position still is that of a character written earlier in another line, a combining
  character that arrives apart from the run joins that earlier character, on the other line, and
  the last character of the run stays without it.
\<close>

theorem fast_path_loses_position:
  fixes s :: "CompactCell Screen"
  assumes "typing_ready s" "\<not> cu_wrapPending (scr_cursor s)" "isFullHorizontalMargins s" "cursor_column s = 0"
    and "ascii_lib T" "list_all printable bs" "length bs < screen_columns s"
    and "lineAt (scr_grid s) (cursor_line s) = Inr l" "line_storage l = TrivialBuffer b" "tb_text b = []"
    and "scr_lastCursorPosition s = \<lparr>cl_line = y, cl_column = int x\<rparr>" "0 \<le> y" "y < int (screen_lines s)" "y \<noteq> cursor_line s"
    and "row_text compact_ops T s y = Inr t" "x < length t" "t ! x = [ch]"
    and "bs \<noteq> []" and "128 \<le> cp" "\<not> tl_breakable T (last bs) cp"
  shows "\<exists>s1 s2. writeText compact_ops T contiguous bs (length bs) (d, s) = Inr (d, s1) \<and>
    writeTextInternal compact_ops T cp (s1\<lparr>tm_precedingGraphicCharacter := last bs\<rparr>) = Inr s2 \<and>
    row_text compact_ops T s2 (cursor_line s) = Inr (map (\<lambda>c. [c]) bs @ replicate (screen_columns s - length bs) []) \<and>
    row_text compact_ops T s2 y = Inr (t[x := [ch, cp]])"
  using assms by (rule compact_screen.combining_lemma)

definition mark_lib :: "unit TextLib" where
  "mark_lib = byte_lib\<lparr>tl_breakable := (\<lambda>a b. b \<noteq> 0x301)\<rparr>"

theorem fast_path_loses_position_witness:
  "\<exists>s0 s s' s1 s2. newScreen \<lparr>ps_lines = 2, ps_columns = 4\<rparr> True (HistoryLimit 5) = Inr s0 \<and>
    print_byte compact_ops mark_lib 0x61 ((), s0) = Inr ((), s) \<and> moveCursorTo 1 0 s = Inr s' \<and>
    writeText compact_ops mark_lib False [0x62, 0x65] 2 ((), s') = Inr ((), s1) \<and>
    writeTextInternal compact_ops mark_lib 0x301 (s1\<lparr>tm_precedingGraphicCharacter := 0x65\<rparr>) = Inr s2 \<and>
    row_text compact_ops mark_lib s2 1 = Inr [[0x62], [0x65], [], []] \<and>
    row_text compact_ops mark_lib s2 0 = Inr [[0x61, 0x301], [], [], []]"
proof -
  let ?ps = "\<lparr>ps_lines = 2, ps_columns = 4\<rparr>"
  obtain s0 :: "CompactCell Screen" where s0: "newScreen ?ps True (HistoryLimit 5) = Inr s0" "screen_ok s0"
      "scr_cursor s0 = newCursor" "gr_pageSize (scr_grid s0) = ?ps"
      "scr_margin s0 = \<lparr>mg_top = 0, mg_bottom = 1, mg_left = 0, mg_right = 3\<rparr>"
      "\<not> tm_leftRightMargin s0" "tm_precedingGraphicCharacter s0 = 0"
      "\<forall>y. 0 \<le> y \<longrightarrow> y < 2 \<longrightarrow> lineAt (scr_grid s0) y = Inr (blank_row defaultAttributes (scr_grid s0))"
    using newScreen_ok [of ?ps 5 True] by auto
  let ?b = "trivial_blank 4 defaultAttributes" and ?l = "blank_row defaultAttributes (scr_grid s0)"
  have lib: "ascii_lib mark_lib" "tl_init mark_lib = ()" by (auto simp: mark_lib_def byte_lib_def ascii_lib_def printable_def)
  have ready: "typing_ready s0" "\<not> cu_wrapPending (scr_cursor s0)" "cursor_line s0 = 0" "cursor_column s0 = 0"
    using s0(2,3,6,7) by (simp_all add: typing_ready_def newCursor_def newCharsetMapping_def Let_def)
  have line: "line_storage ?l = TrivialBuffer ?b" using s0(4) by (simp add: blank_row_def blank_line_def)
  obtain cs where cs: "inflate compact_ops mark_lib ?b = Inr cs" "blank_cells compact_ops ?b cs"
    using compact_screen.inflate_blank [of ?b mark_lib] by (auto simp: trivial_blank_def)
  have "ga_flags (tb_fillAttributes ?b) AND flag CF_WideCharContinuation = 0" "tb_displayWidth ?b = 4"
    by (simp_all add: trivial_blank_def)
  note blank = compact_screen.blank_cells_plain [OF cs(2) this(1), unfolded this(2)]
  have inf: "inflatedBuffer compact_ops mark_lib ?l = Inr (cs, ?l\<lparr>line_storage := InflatedBuffer cs\<rparr>)"
    using cs(1) line by (simp add: inflatedBuffer_def)
  have len: "length cs = 4" using arg_cong [OF blank(2), of length] by simp
  have p: "printable 0x61" "narrow compact_ops (cs ! nat (cursor_column s0))" "lineAt (scr_grid s0) (cursor_line s0) = Inr ?l"
    using blank(1) len ready(3,4) s0(8) by (simp_all add: printable_def)
  obtain s c' l' where s: "print_byte compact_ops mark_lib 0x61 ((), s0) = Inr ((), s)" "typing_ready s" "cursor_after 1 s0 s"
      "other_rows_same s0 s" "scr_lastCursorPosition s = cu_position (scr_cursor s0)"
      "op_write_link compact_ops (rendition s0) 0x61 1 (cu_hyperlink (scr_cursor s0)) (cs ! 0) = Inr c'"
      "lineAt (scr_grid s) 0 = Inr l'" "inflatedBuffer compact_ops mark_lib l' = Inr (cs[0 := c'], l')"
    using compact_screen.print_char_step [OF ready(1,2) lib(1) p(1,3) inf p(2)] ready(3,4) unfolding lib(2) by auto
  have c': "op_codepoints compact_ops c' = [0x61]"
    using compact_screen.write_link_ok [of "0x61" 1 "rendition s0" "cu_hyperlink (scr_cursor s0)" "cs ! 0"] s(6) by auto
  have frame: "gr_pageSize (scr_grid s) = ?ps" "scr_margin s = scr_margin s0" "\<not> cu_originMode (scr_cursor s)"
    using s(3) s0(3,4) by (simp_all add: cursor_after_def same_frame_def newCursor_def)
  have row0: "row_text compact_ops mark_lib s 0 = Inr [[0x61], [], [], []]"
    using s(7,8) c' blank(2) by (simp add: row_text_def map_update numeral_eq_Suc)
  have shape: "screen_shape s" using s(2) by (simp add: typing_ready_def screen_ok_def)
  from moveCursorTo_ok [OF shape, of 1 0] obtain s' where s': "moveCursorTo 1 0 s = Inr s'" "screen_ok s'" "scr_grid s' = scr_grid s"
      "cursor_line s' = 1" "cursor_column s' = 0" "\<not> cu_wrapPending (scr_cursor s')"
      "cu_charsets (scr_cursor s') = cu_charsets (scr_cursor s)" "cu_autoWrap (scr_cursor s') = cu_autoWrap (scr_cursor s)"
    using frame by (auto simp: origin_def clampedLine_def clampedColumn_def std_clamp_def)
  have keep: "scr_margin s' = scr_margin s" "tm_leftRightMargin s' = tm_leftRightMargin s"
      "tm_precedingGraphicCharacter s' = tm_precedingGraphicCharacter s" "scr_lastCursorPosition s' = scr_lastCursorPosition s"
    using s'(1) by (auto simp: moveCursorTo_def updateCursorIterator_def Let_def bind_result_eq_Inr cursor_simps)
  have ready': "typing_ready s'" using s(2) s'(2,7,8) keep by (simp add: typing_ready_def Let_def)
  have full: "isFullHorizontalMargins s'" using keep(1) frame(1,2) s0(5) s'(3) by (simp add: isFullHorizontalMargins_def)
  have line1: "lineAt (scr_grid s') (cursor_line s') = Inr ?l"
    using s(4) s0(4,8) ready(3) s'(3,4) by (simp add: other_rows_same_def)
  have bs: "list_all printable [0x62, 0x65]" "length [0x62, 0x65 :: byte] < screen_columns s'"
    using frame(1) s'(3) by (simp_all add: printable_def)
  have last: "scr_lastCursorPosition s' = \<lparr>cl_line = 0, cl_column = int 0\<rparr>"
    using keep(4) s(5) s0(3) by (simp add: newCursor_def)
  have old: "row_text compact_ops mark_lib s' 0 = Inr [[0x61], [], [], []]" using row0 s'(3) by (simp add: row_text_def)
  have mark: "\<not> tl_breakable mark_lib (last [0x62, 0x65]) 0x301" by (simp add: mark_lib_def)
  have rows: "(0::int) < int (screen_lines s')" "(0::int) \<noteq> cursor_line s'" using frame(1) s'(3,4) by simp_all
  have b: "tb_text ?b = []" by (simp add: trivial_blank_def)
  from fast_path_loses_position [OF ready' s'(6) full s'(5) lib(1) bs line1 line b last _ rows old _ _ _ _ mark, where ch = "0x61" and contiguous = False and d = "()"]
  obtain s1 s2 where "writeText compact_ops mark_lib False [0x62, 0x65] 2 ((), s') = Inr ((), s1)"
    "writeTextInternal compact_ops mark_lib 0x301 (s1\<lparr>tm_precedingGraphicCharacter := 0x65\<rparr>) = Inr s2"
    "row_text compact_ops mark_lib s2 1 = Inr [[0x62], [0x65], [], []]"
    "row_text compact_ops mark_lib s2 0 = Inr [[0x61, 0x301], [], [], []]"
    using frame(1) s'(3,4) by (auto simp: numeral_eq_Suc)
  with s0(1) s(1) s'(1) show ?thesis by blast
qed

end
