(* ===== verification/VT_Table.thy ===== *)
theory VT_Table
  imports Prelude
begin

text \<open>
  The state machine tables of \<open>src/src/vtparser/Parser-impl.h\<close> (\<open>struct ParserTable\<close>) over the
  states and actions of \<open>src/src/vtparser/Parser.h\<close>. The tables are built the way
  \<open>ParserTable::get()\<close> builds them: one definition per block of that function, applied in its
  order, on a table of value-initialised arrays. A closed form of the finished tables follows,
  which is what the parser's proofs use.
\<close>

subsection \<open>States and actions\<close>

datatype State =
    State_Undefined
  | Ground
  | Escape
  | EscapeIntermediate
  | CSI_Entry
  | CSI_Param
  | CSI_Intermediate
  | CSI_Ignore
  | DCS_Entry
  | DCS_Param
  | DCS_Intermediate
  | DCS_PassThrough
  | DCS_Ignore
  | OSC_String
  | APC_String
  | PM_String
  | IgnoreUntilST

datatype ActionClass = Enter | Event | Leave | Transition

datatype Action =
    Action_Undefined
  | Ignore
  | Print
  | PrintEnd
  | Execute
  | Clear
  | Collect
  | CollectLeader
  | Param
  | ParamDigit
  | ParamSeparator
  | ParamSubSeparator
  | ESC_Dispatch
  | CSI_Dispatch
  | Hook
  | Put
  | Unhook
  | APC_Start
  | APC_Put
  | APC_End
  | PM_Start
  | PM_Put
  | PM_End
  | OSC_Start
  | OSC_Put
  | OSC_End
  | GroundStart

text \<open>
  The underlying value of a \<open>State\<close>, its inverse, and the array sizes that
  \<open>std::numeric_limits<State>\<close> and \<open>std::numeric_limits<Action>\<close> declare.
\<close>

fun state_index :: "State \<Rightarrow> nat" where
  "state_index State_Undefined = 0"
| "state_index Ground = 1"
| "state_index Escape = 2"
| "state_index EscapeIntermediate = 3"
| "state_index CSI_Entry = 4"
| "state_index CSI_Param = 5"
| "state_index CSI_Intermediate = 6"
| "state_index CSI_Ignore = 7"
| "state_index DCS_Entry = 8"
| "state_index DCS_Param = 9"
| "state_index DCS_Intermediate = 10"
| "state_index DCS_PassThrough = 11"
| "state_index DCS_Ignore = 12"
| "state_index OSC_String = 13"
| "state_index APC_String = 14"
| "state_index PM_String = 15"
| "state_index IgnoreUntilST = 16"

definition state_limits_size :: nat where
  "state_limits_size = 17"

definition action_limits_size :: nat where
  "action_limits_size = 19"

definition state_limits_min :: State where
  "state_limits_min = Ground"

definition state_limits_max :: State where
  "state_limits_max = IgnoreUntilST"

text \<open>The states in enumeration order, the values that \<open>operator++\<close> steps through.\<close>

definition states :: "State list" where
  "states = [State_Undefined, Ground, Escape, EscapeIntermediate, CSI_Entry, CSI_Param,
     CSI_Intermediate, CSI_Ignore, DCS_Entry, DCS_Param, DCS_Intermediate, DCS_PassThrough,
     DCS_Ignore, OSC_String, APC_String, PM_String, IgnoreUntilST]"

text \<open>
  \<open>operator++\<close> on the underlying value: it steps one past the last enumerator and stays there.
\<close>

definition state_inc :: "nat \<Rightarrow> nat" where
  "state_inc s = (if s \<le> state_index IgnoreUntilST then 1 + s else s)"

subsection \<open>Building tables\<close>

record ParserTable =
  transitions :: "State \<Rightarrow> byte \<Rightarrow> State"
  entryEvents :: "State \<Rightarrow> Action"
  exitEvents :: "State \<Rightarrow> Action"
  events :: "State \<Rightarrow> byte \<Rightarrow> Action"

text \<open>
  The initialisers: every element is value-initialised (the first enumerator), except the first
  element of the first row of \<open>transitions\<close>, which the braces set to \<open>Ground\<close>.
\<close>

definition empty_table :: ParserTable where
  "empty_table =
     \<lparr> transitions = (\<lambda>s b. if s = State_Undefined \<and> b = 0 then Ground else State_Undefined),
       entryEvents = (\<lambda>_. Action_Undefined),
       exitEvents = (\<lambda>_. Action_Undefined),
       events = (\<lambda>_ _. Action_Undefined) \<rparr>"

text \<open>An input argument of \<open>event\<close> and \<open>transition\<close>: a byte, or a \<open>Range\<close> of bytes.\<close>

datatype input = Byte byte | Range byte byte

fun in_input :: "input \<Rightarrow> byte \<Rightarrow> bool" where
  "in_input (Byte c) b = (b = c)"
| "in_input (Range lo hi) b = (lo \<le> b \<and> b \<le> hi)"

definition entry :: "State \<Rightarrow> Action \<Rightarrow> ParserTable \<Rightarrow> ParserTable" where
  "entry state action t = t\<lparr>entryEvents := (entryEvents t)(state := action)\<rparr>"

definition exit :: "State \<Rightarrow> Action \<Rightarrow> ParserTable \<Rightarrow> ParserTable" where
  "exit state action t = t\<lparr>exitEvents := (exitEvents t)(state := action)\<rparr>"

definition event :: "State \<Rightarrow> Action \<Rightarrow> input \<Rightarrow> ParserTable \<Rightarrow> ParserTable" where
  "event state action i t = t\<lparr>events :=
     (events t)(state := (\<lambda>b. if in_input i b then action else events t state b))\<rparr>"

text \<open>The variadic overload: one \<open>event\<close> per argument, first to last.\<close>

fun event_all :: "State \<Rightarrow> Action \<Rightarrow> input list \<Rightarrow> ParserTable \<Rightarrow> ParserTable" where
  "event_all s a [] t = t"
| "event_all s a (i # rest) t = event_all s a rest (event s a i t)"

text \<open>Transitions with and without an action.\<close>

definition transition :: "State \<Rightarrow> State \<Rightarrow> Action \<Rightarrow> input \<Rightarrow> ParserTable \<Rightarrow> ParserTable" where
  "transition from to action i t =
     (let u = event from action i t
      in u\<lparr>transitions :=
           (transitions u)(from := (\<lambda>b. if in_input i b then to else transitions u from b))\<rparr>)"

definition transition_ignore :: "State \<Rightarrow> State \<Rightarrow> input \<Rightarrow> ParserTable \<Rightarrow> ParserTable" where
  "transition_ignore from to i t = transition from to Ignore i t"

definition C0_inputs :: "input list" where
  "C0_inputs = [Range 0x00 0x17, Byte 0x19, Range 0x1C 0x1F]"

definition UnicodeRange :: input where
  "UnicodeRange = Range 0x80 0xFF"

subsection \<open>The blocks of \<open>ParserTable::get()\<close>, in source order\<close>

definition get_Ground :: "ParserTable \<Rightarrow> ParserTable" where
  "get_Ground t0 =
     (let t = entry Ground GroundStart t0;
          t = event_all Ground Execute C0_inputs t;
          t = event Ground Print (Range 0x20 0x7F) t;
          t = event Ground Print (Range 0xA0 0xFF) t;
          t = event Ground Print UnicodeRange t
      in exit Ground PrintEnd t)"

definition get_EscapeIntermediate :: "ParserTable \<Rightarrow> ParserTable" where
  "get_EscapeIntermediate t0 =
     (let t = event_all EscapeIntermediate Execute C0_inputs t0;
          t = event EscapeIntermediate Collect (Range 0x20 0x2F) t;
          t = event EscapeIntermediate Ignore (Byte 0x7F) t
      in transition EscapeIntermediate Ground ESC_Dispatch (Range 0x30 0x7E) t)"

definition get_Escape :: "ParserTable \<Rightarrow> ParserTable" where
  "get_Escape t0 =
     (let t = entry Escape Clear t0;
          t = event_all Escape Execute C0_inputs t;
          t = event Escape Ignore (Byte 0x7F) t;
          t = transition_ignore Escape IgnoreUntilST (Byte 0x58) t;
          t = transition_ignore Escape PM_String (Byte 0x5E) t;
          t = transition_ignore Escape APC_String (Byte 0x5F) t;
          t = transition_ignore Escape DCS_Entry (Byte 0x50) t;
          t = transition_ignore Escape OSC_String (Byte 0x5D) t;
          t = transition_ignore Escape CSI_Entry (Byte 0x5B) t;
          t = transition Escape Ground ESC_Dispatch (Range 0x30 0x4F) t;
          t = transition Escape Ground ESC_Dispatch (Range 0x51 0x57) t;
          t = transition Escape Ground ESC_Dispatch (Byte 0x59) t;
          t = transition Escape Ground ESC_Dispatch (Byte 0x5A) t;
          t = transition Escape Ground Ignore (Byte 0x5C) t;
          t = transition Escape Ground ESC_Dispatch (Range 0x60 0x7E) t
      in transition Escape EscapeIntermediate Collect (Range 0x20 0x2F) t)"

definition get_IgnoreUntilST :: "ParserTable \<Rightarrow> ParserTable" where
  "get_IgnoreUntilST t = event_all IgnoreUntilST Ignore C0_inputs t"

definition get_DCS_Entry :: "ParserTable \<Rightarrow> ParserTable" where
  "get_DCS_Entry t0 =
     (let t = entry DCS_Entry Clear t0;
          t = event_all DCS_Entry Ignore C0_inputs t;
          t = event DCS_Entry Ignore (Byte 0x7F) t;
          t = transition DCS_Entry DCS_Intermediate Collect (Range 0x20 0x2F) t;
          t = transition_ignore DCS_Entry DCS_Ignore (Byte 0x3A) t;
          t = transition DCS_Entry DCS_Param Param (Range 0x30 0x39) t;
          t = transition DCS_Entry DCS_Param Param (Byte 0x3B) t;
          t = transition DCS_Entry DCS_Param CollectLeader (Range 0x3C 0x3F) t
      in transition_ignore DCS_Entry DCS_PassThrough (Range 0x40 0x7E) t)"

definition get_DCS_Ignore :: "ParserTable \<Rightarrow> ParserTable" where
  "get_DCS_Ignore t0 =
     (let t = event_all DCS_Ignore Ignore (C0_inputs @ [Range 0x20 0x7F]) t0;
          t = event DCS_Ignore Print (Range 0xA0 0xFF) t
      in event DCS_Ignore Print UnicodeRange t)"

definition get_DCS_Intermediate :: "ParserTable \<Rightarrow> ParserTable" where
  "get_DCS_Intermediate t0 =
     (let t = event_all DCS_Intermediate Ignore C0_inputs t0;
          t = event DCS_Intermediate Collect (Range 0x20 0x2F) t;
          t = event DCS_Intermediate Ignore (Byte 0x7F) t
      in transition_ignore DCS_Intermediate DCS_PassThrough (Range 0x40 0x7E) t)"

definition get_DCS_PassThrough :: "ParserTable \<Rightarrow> ParserTable" where
  "get_DCS_PassThrough t0 =
     (let t = entry DCS_PassThrough Hook t0;
          t = event_all DCS_PassThrough Put (C0_inputs @ [Range 0x20 0x7E]) t;
          t = event DCS_PassThrough Ignore (Byte 0x7F) t
      in exit DCS_PassThrough Unhook t)"

definition get_DCS_Param :: "ParserTable \<Rightarrow> ParserTable" where
  "get_DCS_Param t0 =
     (let t = event_all DCS_Param Execute C0_inputs t0;
          t = event_all DCS_Param Param [Range 0x30 0x39, Byte 0x3B] t;
          t = event DCS_Param Ignore (Byte 0x7F) t;
          t = transition_ignore DCS_Param DCS_Ignore (Byte 0x3A) t;
          t = transition_ignore DCS_Param DCS_Ignore (Range 0x3C 0x3F) t;
          t = transition_ignore DCS_Param DCS_Intermediate (Range 0x20 0x2F) t
      in transition_ignore DCS_Param DCS_PassThrough (Range 0x40 0x7E) t)"

definition get_OSC_String :: "ParserTable \<Rightarrow> ParserTable" where
  "get_OSC_String t0 =
     (let t = entry OSC_String OSC_Start t0;
          t = event_all OSC_String Ignore
                [Range 0x00 0x06, Range 0x08 0x17, Byte 0x19, Range 0x1C 0x1F] t;
          t = event OSC_String OSC_Put (Range 0x20 0x7F) t;
          t = event OSC_String OSC_Put (Range 0xA0 0xFF) t;
          t = event OSC_String OSC_Put UnicodeRange t;
          t = exit OSC_String OSC_End t
      in transition_ignore OSC_String Ground (Byte 0x07) t)"

definition get_APC_String :: "ParserTable \<Rightarrow> ParserTable" where
  "get_APC_String t0 =
     (let t = entry APC_String APC_Start t0;
          t = event APC_String APC_Put (Range 0x20 0x7F) t;
          t = event APC_String APC_Put (Range 0xA0 0xFF) t;
          t = event APC_String APC_Put UnicodeRange t;
          t = exit APC_String APC_End t
      in transition_ignore APC_String Ground (Byte 0x07) t)"

definition get_PM_String :: "ParserTable \<Rightarrow> ParserTable" where
  "get_PM_String t0 =
     (let t = entry PM_String PM_Start t0;
          t = event_all PM_String PM_Put (C0_inputs @ [Range 0x20 0x7F, Range 0xA0 0xFF]) t;
          t = event PM_String PM_Put UnicodeRange t;
          t = exit PM_String PM_End t
      in transition_ignore PM_String Ground (Byte 0x07) t)"

definition get_CSI_Entry :: "ParserTable \<Rightarrow> ParserTable" where
  "get_CSI_Entry t0 =
     (let t = entry CSI_Entry Clear t0;
          t = event_all CSI_Entry Execute C0_inputs t;
          t = event CSI_Entry Ignore (Byte 0x7F) t;
          t = transition CSI_Entry Ground CSI_Dispatch (Range 0x40 0x7E) t;
          t = transition CSI_Entry CSI_Intermediate Collect (Range 0x20 0x2F) t;
          t = transition_ignore CSI_Entry CSI_Ignore (Byte 0x3A) t;
          t = transition CSI_Entry CSI_Param ParamDigit (Range 0x30 0x39) t;
          t = transition CSI_Entry CSI_Param ParamSeparator (Byte 0x3B) t
      in transition CSI_Entry CSI_Param CollectLeader (Range 0x3C 0x3F) t)"

definition get_CSI_Param :: "ParserTable \<Rightarrow> ParserTable" where
  "get_CSI_Param t0 =
     (let t = event_all CSI_Param Execute C0_inputs t0;
          t = event CSI_Param ParamDigit (Range 0x30 0x39) t;
          t = event CSI_Param ParamSubSeparator (Byte 0x3A) t;
          t = event CSI_Param ParamSeparator (Byte 0x3B) t;
          t = event CSI_Param Ignore (Byte 0x7F) t;
          t = transition_ignore CSI_Param CSI_Ignore (Range 0x3C 0x3F) t;
          t = transition CSI_Param CSI_Intermediate Collect (Range 0x20 0x2F) t
      in transition CSI_Param Ground CSI_Dispatch (Range 0x40 0x7E) t)"

definition get_CSI_Ignore :: "ParserTable \<Rightarrow> ParserTable" where
  "get_CSI_Ignore t0 =
     (let t = event_all CSI_Ignore Execute C0_inputs t0;
          t = event_all CSI_Ignore Ignore [Range 0x20 0x3F, Byte 0x7F] t
      in transition_ignore CSI_Ignore Ground (Range 0x40 0x7E) t)"

definition get_CSI_Intermediate :: "ParserTable \<Rightarrow> ParserTable" where
  "get_CSI_Intermediate t0 =
     (let t = event_all CSI_Intermediate Execute C0_inputs t0;
          t = event CSI_Intermediate Collect (Range 0x20 0x2F) t;
          t = event CSI_Intermediate Ignore (Byte 0x7F) t;
          t = transition_ignore CSI_Intermediate CSI_Ignore (Range 0x30 0x3F) t
      in transition CSI_Intermediate Ground CSI_Dispatch (Range 0x40 0x7E) t)"

text \<open>The body of the closing loop, and the loop over every state from \<open>min()\<close> to \<open>max()\<close>.\<close>

definition get_anywhere :: "State \<Rightarrow> ParserTable \<Rightarrow> ParserTable" where
  "get_anywhere anywhere t0 =
     (let t = transition_ignore anywhere Ground (Byte 0x18) t0;
          t = transition_ignore anywhere Ground (Byte 0x1A) t
      in transition_ignore anywhere Escape (Byte 0x1B) t)"

definition loop_states :: "State list" where
  "loop_states = filter (\<lambda>s. state_index state_limits_min \<le> state_index s
                           \<and> state_index s \<le> state_index state_limits_max) states"

definition Table :: ParserTable where
  "Table =
     (let t = get_Ground empty_table;
          t = get_EscapeIntermediate t;
          t = get_Escape t;
          t = get_IgnoreUntilST t;
          t = get_DCS_Entry t;
          t = get_DCS_Ignore t;
          t = get_DCS_Intermediate t;
          t = get_DCS_PassThrough t;
          t = get_DCS_Param t;
          t = get_OSC_String t;
          t = get_APC_String t;
          t = get_PM_String t;
          t = get_CSI_Entry t;
          t = get_CSI_Param t;
          t = get_CSI_Ignore t;
          t = get_CSI_Intermediate t
      in fold get_anywhere loop_states t)"

subsection \<open>Closed form\<close>

text \<open>
  What each table operation does to a single element. The blocks are then unfolded element by
  element, so that no whole table is ever rewritten.
\<close>

lemma entry_apply [simp]:
  "entryEvents (entry s a t) x = (if x = s then a else entryEvents t x)"
  "exitEvents (entry s a t) = exitEvents t"
  "events (entry s a t) = events t"
  "transitions (entry s a t) = transitions t"
  by (simp_all add: entry_def)

lemma exit_apply [simp]:
  "exitEvents (exit s a t) x = (if x = s then a else exitEvents t x)"
  "entryEvents (exit s a t) = entryEvents t"
  "events (exit s a t) = events t"
  "transitions (exit s a t) = transitions t"
  by (simp_all add: exit_def)

lemma event_apply [simp]:
  "events (event s a i t) x b = (if x = s \<and> in_input i b then a else events t x b)"
  "entryEvents (event s a i t) = entryEvents t"
  "exitEvents (event s a i t) = exitEvents t"
  "transitions (event s a i t) = transitions t"
  by (simp_all add: event_def)

lemma event_all_apply [simp]:
  "events (event_all s a is t) x b = (if x = s \<and> (\<exists>i \<in> set is. in_input i b) then a else events t x b)"
  "entryEvents (event_all s a is t) = entryEvents t"
  "exitEvents (event_all s a is t) = exitEvents t"
  "transitions (event_all s a is t) = transitions t"
  by (induction "is" arbitrary: t) auto

lemma transition_apply [simp]:
  "transitions (transition s s' a i t) x b = (if x = s \<and> in_input i b then s' else transitions t x b)"
  "events (transition s s' a i t) x b = (if x = s \<and> in_input i b then a else events t x b)"
  "entryEvents (transition s s' a i t) = entryEvents t"
  "exitEvents (transition s s' a i t) = exitEvents t"
  by (simp_all add: transition_def Let_def)

lemma transition_ignore_apply [simp]:
  "transitions (transition_ignore s s' i t) x b =
     (if x = s \<and> in_input i b then s' else transitions t x b)"
  "events (transition_ignore s s' i t) x b = (if x = s \<and> in_input i b then Ignore else events t x b)"
  "entryEvents (transition_ignore s s' i t) = entryEvents t"
  "exitEvents (transition_ignore s s' i t) = exitEvents t"
  by (simp_all add: transition_ignore_def)

lemma get_anywhere_apply [simp]:
  "transitions (get_anywhere s t) x b =
     (if x = s \<and> (b = 0x18 \<or> b = 0x1A) then Ground
      else if x = s \<and> b = 0x1B then Escape else transitions t x b)"
  "events (get_anywhere s t) x b =
     (if x = s \<and> (b = 0x18 \<or> b = 0x1A \<or> b = 0x1B) then Ignore else events t x b)"
  "entryEvents (get_anywhere s t) = entryEvents t"
  "exitEvents (get_anywhere s t) = exitEvents t"
  by (auto simp: get_anywhere_def Let_def)

lemma fold_anywhere_apply:
  "transitions (fold get_anywhere ss t) x b =
     (if x \<in> set ss \<and> (b = 0x18 \<or> b = 0x1A) then Ground
      else if x \<in> set ss \<and> b = 0x1B then Escape else transitions t x b)"
  "events (fold get_anywhere ss t) x b =
     (if x \<in> set ss \<and> (b = 0x18 \<or> b = 0x1A \<or> b = 0x1B) then Ignore else events t x b)"
  "entryEvents (fold get_anywhere ss t) = entryEvents t"
  "exitEvents (fold get_anywhere ss t) = exitEvents t"
  by (induction ss arbitrary: t) auto

lemma loop_states_eq: "loop_states = tl states"
  by (simp add: loop_states_def states_def state_limits_min_def state_limits_max_def)

lemma in_loop_states [simp]: "s \<in> set loop_states \<longleftrightarrow> s \<noteq> State_Undefined"
  by (cases s) (simp_all add: loop_states_eq states_def)

definition is_C0 :: "byte \<Rightarrow> bool" where
  "is_C0 b \<longleftrightarrow> b \<le> 0x17 \<or> b = 0x19 \<or> 0x1C \<le> b \<and> b \<le> 0x1F"

text \<open>
  The target of a transition row, and the action of an event row, as one case distinction per
  state. The three bytes of the closing loop (CAN, SUB, ESC) come first.
\<close>

fun next_state :: "State \<Rightarrow> byte \<Rightarrow> State" where
  "next_state EscapeIntermediate b = (if 0x30 \<le> b \<and> b \<le> 0x7E then Ground else State_Undefined)"
| "next_state Escape b =
     (if b = 0x58 then IgnoreUntilST else if b = 0x5E then PM_String
      else if b = 0x5F then APC_String else if b = 0x50 then DCS_Entry
      else if b = 0x5D then OSC_String else if b = 0x5B then CSI_Entry
      else if 0x30 \<le> b \<and> b \<le> 0x7E then Ground
      else if 0x20 \<le> b \<and> b \<le> 0x2F then EscapeIntermediate else State_Undefined)"
| "next_state DCS_Entry b =
     (if 0x20 \<le> b \<and> b \<le> 0x2F then DCS_Intermediate else if b = 0x3A then DCS_Ignore
      else if 0x30 \<le> b \<and> b \<le> 0x3F then DCS_Param
      else if 0x40 \<le> b \<and> b \<le> 0x7E then DCS_PassThrough else State_Undefined)"
| "next_state DCS_Intermediate b =
     (if 0x40 \<le> b \<and> b \<le> 0x7E then DCS_PassThrough else State_Undefined)"
| "next_state DCS_Param b =
     (if b = 0x3A \<or> 0x3C \<le> b \<and> b \<le> 0x3F then DCS_Ignore
      else if 0x20 \<le> b \<and> b \<le> 0x2F then DCS_Intermediate
      else if 0x40 \<le> b \<and> b \<le> 0x7E then DCS_PassThrough else State_Undefined)"
| "next_state CSI_Entry b =
     (if 0x20 \<le> b \<and> b \<le> 0x2F then CSI_Intermediate else if b = 0x3A then CSI_Ignore
      else if 0x30 \<le> b \<and> b \<le> 0x3F then CSI_Param
      else if 0x40 \<le> b \<and> b \<le> 0x7E then Ground else State_Undefined)"
| "next_state CSI_Param b =
     (if 0x3C \<le> b \<and> b \<le> 0x3F then CSI_Ignore
      else if 0x20 \<le> b \<and> b \<le> 0x2F then CSI_Intermediate
      else if 0x40 \<le> b \<and> b \<le> 0x7E then Ground else State_Undefined)"
| "next_state CSI_Ignore b = (if 0x40 \<le> b \<and> b \<le> 0x7E then Ground else State_Undefined)"
| "next_state CSI_Intermediate b =
     (if 0x30 \<le> b \<and> b \<le> 0x3F then CSI_Ignore
      else if 0x40 \<le> b \<and> b \<le> 0x7E then Ground else State_Undefined)"
| "next_state OSC_String b = (if b = 0x07 then Ground else State_Undefined)"
| "next_state APC_String b = (if b = 0x07 then Ground else State_Undefined)"
| "next_state PM_String b = (if b = 0x07 then Ground else State_Undefined)"
| "next_state _ b = State_Undefined"

fun row_action :: "State \<Rightarrow> byte \<Rightarrow> Action" where
  "row_action Ground b =
     (if is_C0 b then Execute else if 0x20 \<le> b \<and> b \<le> 0xFF then Print else Action_Undefined)"
| "row_action EscapeIntermediate b =
     (if is_C0 b then Execute else if 0x20 \<le> b \<and> b \<le> 0x2F then Collect
      else if 0x30 \<le> b \<and> b \<le> 0x7E then ESC_Dispatch
      else if b = 0x7F then Ignore else Action_Undefined)"
| "row_action Escape b =
     (if is_C0 b then Execute else if 0x20 \<le> b \<and> b \<le> 0x2F then Collect
      else if b \<in> {0x50, 0x58, 0x5B, 0x5C, 0x5D, 0x5E, 0x5F, 0x7F} then Ignore
      else if 0x30 \<le> b \<and> b \<le> 0x7E then ESC_Dispatch else Action_Undefined)"
| "row_action IgnoreUntilST b = (if is_C0 b then Ignore else Action_Undefined)"
| "row_action DCS_Entry b =
     (if is_C0 b then Ignore else if 0x20 \<le> b \<and> b \<le> 0x2F then Collect
      else if b = 0x3A then Ignore else if 0x30 \<le> b \<and> b \<le> 0x3B then Param
      else if 0x3C \<le> b \<and> b \<le> 0x3F then CollectLeader
      else if 0x40 \<le> b \<and> b \<le> 0x7F then Ignore else Action_Undefined)"
| "row_action DCS_Ignore b =
     (if is_C0 b \<or> 0x20 \<le> b \<and> b \<le> 0x7F then Ignore
      else if 0x80 \<le> b \<and> b \<le> 0xFF then Print else Action_Undefined)"
| "row_action DCS_Intermediate b =
     (if is_C0 b then Ignore else if 0x20 \<le> b \<and> b \<le> 0x2F then Collect
      else if 0x40 \<le> b \<and> b \<le> 0x7F then Ignore else Action_Undefined)"
| "row_action DCS_PassThrough b =
     (if is_C0 b \<or> 0x20 \<le> b \<and> b \<le> 0x7E then Put else if b = 0x7F then Ignore
      else Action_Undefined)"
| "row_action DCS_Param b =
     (if is_C0 b then Execute else if 0x20 \<le> b \<and> b \<le> 0x2F \<or> b = 0x3A then Ignore
      else if 0x30 \<le> b \<and> b \<le> 0x3B then Param
      else if 0x3C \<le> b \<and> b \<le> 0x7F then Ignore else Action_Undefined)"
| "row_action OSC_String b =
     (if is_C0 b then Ignore else if 0x20 \<le> b \<and> b \<le> 0xFF then OSC_Put else Action_Undefined)"
| "row_action APC_String b =
     (if b = 0x07 then Ignore else if 0x20 \<le> b \<and> b \<le> 0xFF then APC_Put else Action_Undefined)"
| "row_action PM_String b =
     (if b = 0x07 then Ignore else if is_C0 b \<or> 0x20 \<le> b \<and> b \<le> 0xFF then PM_Put
      else Action_Undefined)"
| "row_action CSI_Entry b =
     (if is_C0 b then Execute else if 0x20 \<le> b \<and> b \<le> 0x2F then Collect
      else if 0x30 \<le> b \<and> b \<le> 0x39 then ParamDigit else if b = 0x3A then Ignore
      else if b = 0x3B then ParamSeparator else if 0x3C \<le> b \<and> b \<le> 0x3F then CollectLeader
      else if 0x40 \<le> b \<and> b \<le> 0x7E then CSI_Dispatch
      else if b = 0x7F then Ignore else Action_Undefined)"
| "row_action CSI_Param b =
     (if is_C0 b then Execute else if 0x20 \<le> b \<and> b \<le> 0x2F then Collect
      else if 0x30 \<le> b \<and> b \<le> 0x39 then ParamDigit else if b = 0x3A then ParamSubSeparator
      else if b = 0x3B then ParamSeparator else if 0x3C \<le> b \<and> b \<le> 0x3F then Ignore
      else if 0x40 \<le> b \<and> b \<le> 0x7E then CSI_Dispatch
      else if b = 0x7F then Ignore else Action_Undefined)"
| "row_action CSI_Ignore b =
     (if is_C0 b then Execute else if 0x20 \<le> b \<and> b \<le> 0x7F then Ignore else Action_Undefined)"
| "row_action CSI_Intermediate b =
     (if is_C0 b then Execute else if 0x20 \<le> b \<and> b \<le> 0x2F then Collect
      else if 0x30 \<le> b \<and> b \<le> 0x3F then Ignore
      else if 0x40 \<le> b \<and> b \<le> 0x7E then CSI_Dispatch
      else if b = 0x7F then Ignore else Action_Undefined)"
| "row_action State_Undefined b = Action_Undefined"

lemmas row_defs = Let_def C0_inputs_def UnicodeRange_def is_C0_def

text \<open>
  Each block writes the rows of its own state only; on an untouched row it leaves exactly the
  closed form above.
\<close>

lemma get_Ground_frame [simp]:
  "s \<noteq> Ground \<Longrightarrow> events (get_Ground t) s b = events t s b"
  "s \<noteq> Ground \<Longrightarrow> transitions (get_Ground t) s b = transitions t s b"
  "entryEvents (get_Ground t) s = (if s = Ground then GroundStart else entryEvents t s)"
  "exitEvents (get_Ground t) s = (if s = Ground then PrintEnd else exitEvents t s)"
  by (simp_all add: get_Ground_def Let_def)

lemma get_Ground_row [simp]:
  "events t Ground b = Action_Undefined \<Longrightarrow> events (get_Ground t) Ground b = row_action Ground b"
  "transitions t Ground b = State_Undefined \<Longrightarrow>
     transitions (get_Ground t) Ground b = next_state Ground b"
  by (simp_all add: get_Ground_def row_defs)

lemma get_EscapeIntermediate_frame [simp]:
  "s \<noteq> EscapeIntermediate \<Longrightarrow> events (get_EscapeIntermediate t) s b = events t s b"
  "s \<noteq> EscapeIntermediate \<Longrightarrow> transitions (get_EscapeIntermediate t) s b = transitions t s b"
  "entryEvents (get_EscapeIntermediate t) s = entryEvents t s"
  "exitEvents (get_EscapeIntermediate t) s = exitEvents t s"
  by (simp_all add: get_EscapeIntermediate_def Let_def)

lemma get_EscapeIntermediate_row [simp]:
  "events t EscapeIntermediate b = Action_Undefined \<Longrightarrow> events (get_EscapeIntermediate t) EscapeIntermediate b = row_action EscapeIntermediate b"
  "transitions t EscapeIntermediate b = State_Undefined \<Longrightarrow>
     transitions (get_EscapeIntermediate t) EscapeIntermediate b = next_state EscapeIntermediate b"
  by (simp_all add: get_EscapeIntermediate_def row_defs)

lemma get_Escape_frame [simp]:
  "s \<noteq> Escape \<Longrightarrow> events (get_Escape t) s b = events t s b"
  "s \<noteq> Escape \<Longrightarrow> transitions (get_Escape t) s b = transitions t s b"
  "entryEvents (get_Escape t) s = (if s = Escape then Clear else entryEvents t s)"
  "exitEvents (get_Escape t) s = exitEvents t s"
  by (simp_all add: get_Escape_def Let_def)

lemma get_Escape_row [simp]:
  "events t Escape b = Action_Undefined \<Longrightarrow> events (get_Escape t) Escape b = row_action Escape b"
  "transitions t Escape b = State_Undefined \<Longrightarrow>
     transitions (get_Escape t) Escape b = next_state Escape b"
  by (auto simp: get_Escape_def row_defs)

lemma get_IgnoreUntilST_frame [simp]:
  "s \<noteq> IgnoreUntilST \<Longrightarrow> events (get_IgnoreUntilST t) s b = events t s b"
  "s \<noteq> IgnoreUntilST \<Longrightarrow> transitions (get_IgnoreUntilST t) s b = transitions t s b"
  "entryEvents (get_IgnoreUntilST t) s = entryEvents t s"
  "exitEvents (get_IgnoreUntilST t) s = exitEvents t s"
  by (simp_all add: get_IgnoreUntilST_def Let_def)

lemma get_IgnoreUntilST_row [simp]:
  "events t IgnoreUntilST b = Action_Undefined \<Longrightarrow> events (get_IgnoreUntilST t) IgnoreUntilST b = row_action IgnoreUntilST b"
  "transitions t IgnoreUntilST b = State_Undefined \<Longrightarrow>
     transitions (get_IgnoreUntilST t) IgnoreUntilST b = next_state IgnoreUntilST b"
  by (simp_all add: get_IgnoreUntilST_def row_defs)

lemma get_DCS_Entry_frame [simp]:
  "s \<noteq> DCS_Entry \<Longrightarrow> events (get_DCS_Entry t) s b = events t s b"
  "s \<noteq> DCS_Entry \<Longrightarrow> transitions (get_DCS_Entry t) s b = transitions t s b"
  "entryEvents (get_DCS_Entry t) s = (if s = DCS_Entry then Clear else entryEvents t s)"
  "exitEvents (get_DCS_Entry t) s = exitEvents t s"
  by (simp_all add: get_DCS_Entry_def Let_def)

lemma get_DCS_Entry_row [simp]:
  "events t DCS_Entry b = Action_Undefined \<Longrightarrow> events (get_DCS_Entry t) DCS_Entry b = row_action DCS_Entry b"
  "transitions t DCS_Entry b = State_Undefined \<Longrightarrow>
     transitions (get_DCS_Entry t) DCS_Entry b = next_state DCS_Entry b"
  by (simp_all add: get_DCS_Entry_def row_defs)

lemma get_DCS_Ignore_frame [simp]:
  "s \<noteq> DCS_Ignore \<Longrightarrow> events (get_DCS_Ignore t) s b = events t s b"
  "s \<noteq> DCS_Ignore \<Longrightarrow> transitions (get_DCS_Ignore t) s b = transitions t s b"
  "entryEvents (get_DCS_Ignore t) s = entryEvents t s"
  "exitEvents (get_DCS_Ignore t) s = exitEvents t s"
  by (simp_all add: get_DCS_Ignore_def Let_def)

lemma get_DCS_Ignore_row [simp]:
  "events t DCS_Ignore b = Action_Undefined \<Longrightarrow> events (get_DCS_Ignore t) DCS_Ignore b = row_action DCS_Ignore b"
  "transitions t DCS_Ignore b = State_Undefined \<Longrightarrow>
     transitions (get_DCS_Ignore t) DCS_Ignore b = next_state DCS_Ignore b"
  by (simp_all add: get_DCS_Ignore_def row_defs)

lemma get_DCS_Intermediate_frame [simp]:
  "s \<noteq> DCS_Intermediate \<Longrightarrow> events (get_DCS_Intermediate t) s b = events t s b"
  "s \<noteq> DCS_Intermediate \<Longrightarrow> transitions (get_DCS_Intermediate t) s b = transitions t s b"
  "entryEvents (get_DCS_Intermediate t) s = entryEvents t s"
  "exitEvents (get_DCS_Intermediate t) s = exitEvents t s"
  by (simp_all add: get_DCS_Intermediate_def Let_def)

lemma get_DCS_Intermediate_row [simp]:
  "events t DCS_Intermediate b = Action_Undefined \<Longrightarrow> events (get_DCS_Intermediate t) DCS_Intermediate b = row_action DCS_Intermediate b"
  "transitions t DCS_Intermediate b = State_Undefined \<Longrightarrow>
     transitions (get_DCS_Intermediate t) DCS_Intermediate b = next_state DCS_Intermediate b"
  by (simp_all add: get_DCS_Intermediate_def row_defs)

lemma get_DCS_PassThrough_frame [simp]:
  "s \<noteq> DCS_PassThrough \<Longrightarrow> events (get_DCS_PassThrough t) s b = events t s b"
  "s \<noteq> DCS_PassThrough \<Longrightarrow> transitions (get_DCS_PassThrough t) s b = transitions t s b"
  "entryEvents (get_DCS_PassThrough t) s = (if s = DCS_PassThrough then Hook else entryEvents t s)"
  "exitEvents (get_DCS_PassThrough t) s = (if s = DCS_PassThrough then Unhook else exitEvents t s)"
  by (simp_all add: get_DCS_PassThrough_def Let_def)

lemma get_DCS_PassThrough_row [simp]:
  "events t DCS_PassThrough b = Action_Undefined \<Longrightarrow> events (get_DCS_PassThrough t) DCS_PassThrough b = row_action DCS_PassThrough b"
  "transitions t DCS_PassThrough b = State_Undefined \<Longrightarrow>
     transitions (get_DCS_PassThrough t) DCS_PassThrough b = next_state DCS_PassThrough b"
  by (simp_all add: get_DCS_PassThrough_def row_defs)

lemma get_DCS_Param_frame [simp]:
  "s \<noteq> DCS_Param \<Longrightarrow> events (get_DCS_Param t) s b = events t s b"
  "s \<noteq> DCS_Param \<Longrightarrow> transitions (get_DCS_Param t) s b = transitions t s b"
  "entryEvents (get_DCS_Param t) s = entryEvents t s"
  "exitEvents (get_DCS_Param t) s = exitEvents t s"
  by (simp_all add: get_DCS_Param_def Let_def)

lemma get_DCS_Param_row [simp]:
  "events t DCS_Param b = Action_Undefined \<Longrightarrow> events (get_DCS_Param t) DCS_Param b = row_action DCS_Param b"
  "transitions t DCS_Param b = State_Undefined \<Longrightarrow>
     transitions (get_DCS_Param t) DCS_Param b = next_state DCS_Param b"
  by (simp_all add: get_DCS_Param_def row_defs)

lemma get_OSC_String_frame [simp]:
  "s \<noteq> OSC_String \<Longrightarrow> events (get_OSC_String t) s b = events t s b"
  "s \<noteq> OSC_String \<Longrightarrow> transitions (get_OSC_String t) s b = transitions t s b"
  "entryEvents (get_OSC_String t) s = (if s = OSC_String then OSC_Start else entryEvents t s)"
  "exitEvents (get_OSC_String t) s = (if s = OSC_String then OSC_End else exitEvents t s)"
  by (simp_all add: get_OSC_String_def Let_def)

lemma get_OSC_String_row [simp]:
  "events t OSC_String b = Action_Undefined \<Longrightarrow> events (get_OSC_String t) OSC_String b = row_action OSC_String b"
  "transitions t OSC_String b = State_Undefined \<Longrightarrow>
     transitions (get_OSC_String t) OSC_String b = next_state OSC_String b"
  by (simp_all add: get_OSC_String_def row_defs)

lemma get_APC_String_frame [simp]:
  "s \<noteq> APC_String \<Longrightarrow> events (get_APC_String t) s b = events t s b"
  "s \<noteq> APC_String \<Longrightarrow> transitions (get_APC_String t) s b = transitions t s b"
  "entryEvents (get_APC_String t) s = (if s = APC_String then APC_Start else entryEvents t s)"
  "exitEvents (get_APC_String t) s = (if s = APC_String then APC_End else exitEvents t s)"
  by (simp_all add: get_APC_String_def Let_def)

lemma get_APC_String_row [simp]:
  "events t APC_String b = Action_Undefined \<Longrightarrow> events (get_APC_String t) APC_String b = row_action APC_String b"
  "transitions t APC_String b = State_Undefined \<Longrightarrow>
     transitions (get_APC_String t) APC_String b = next_state APC_String b"
  by (simp_all add: get_APC_String_def row_defs)

lemma get_PM_String_frame [simp]:
  "s \<noteq> PM_String \<Longrightarrow> events (get_PM_String t) s b = events t s b"
  "s \<noteq> PM_String \<Longrightarrow> transitions (get_PM_String t) s b = transitions t s b"
  "entryEvents (get_PM_String t) s = (if s = PM_String then PM_Start else entryEvents t s)"
  "exitEvents (get_PM_String t) s = (if s = PM_String then PM_End else exitEvents t s)"
  by (simp_all add: get_PM_String_def Let_def)

lemma get_PM_String_row [simp]:
  "events t PM_String b = Action_Undefined \<Longrightarrow> events (get_PM_String t) PM_String b = row_action PM_String b"
  "transitions t PM_String b = State_Undefined \<Longrightarrow>
     transitions (get_PM_String t) PM_String b = next_state PM_String b"
  by (simp_all add: get_PM_String_def row_defs)

lemma get_CSI_Entry_frame [simp]:
  "s \<noteq> CSI_Entry \<Longrightarrow> events (get_CSI_Entry t) s b = events t s b"
  "s \<noteq> CSI_Entry \<Longrightarrow> transitions (get_CSI_Entry t) s b = transitions t s b"
  "entryEvents (get_CSI_Entry t) s = (if s = CSI_Entry then Clear else entryEvents t s)"
  "exitEvents (get_CSI_Entry t) s = exitEvents t s"
  by (simp_all add: get_CSI_Entry_def Let_def)

lemma get_CSI_Entry_row [simp]:
  "events t CSI_Entry b = Action_Undefined \<Longrightarrow> events (get_CSI_Entry t) CSI_Entry b = row_action CSI_Entry b"
  "transitions t CSI_Entry b = State_Undefined \<Longrightarrow>
     transitions (get_CSI_Entry t) CSI_Entry b = next_state CSI_Entry b"
  by (simp_all add: get_CSI_Entry_def row_defs)

lemma get_CSI_Param_frame [simp]:
  "s \<noteq> CSI_Param \<Longrightarrow> events (get_CSI_Param t) s b = events t s b"
  "s \<noteq> CSI_Param \<Longrightarrow> transitions (get_CSI_Param t) s b = transitions t s b"
  "entryEvents (get_CSI_Param t) s = entryEvents t s"
  "exitEvents (get_CSI_Param t) s = exitEvents t s"
  by (simp_all add: get_CSI_Param_def Let_def)

lemma get_CSI_Param_row [simp]:
  "events t CSI_Param b = Action_Undefined \<Longrightarrow> events (get_CSI_Param t) CSI_Param b = row_action CSI_Param b"
  "transitions t CSI_Param b = State_Undefined \<Longrightarrow>
     transitions (get_CSI_Param t) CSI_Param b = next_state CSI_Param b"
  by (simp_all add: get_CSI_Param_def row_defs)

lemma get_CSI_Ignore_frame [simp]:
  "s \<noteq> CSI_Ignore \<Longrightarrow> events (get_CSI_Ignore t) s b = events t s b"
  "s \<noteq> CSI_Ignore \<Longrightarrow> transitions (get_CSI_Ignore t) s b = transitions t s b"
  "entryEvents (get_CSI_Ignore t) s = entryEvents t s"
  "exitEvents (get_CSI_Ignore t) s = exitEvents t s"
  by (simp_all add: get_CSI_Ignore_def Let_def)

lemma get_CSI_Ignore_row [simp]:
  "events t CSI_Ignore b = Action_Undefined \<Longrightarrow> events (get_CSI_Ignore t) CSI_Ignore b = row_action CSI_Ignore b"
  "transitions t CSI_Ignore b = State_Undefined \<Longrightarrow>
     transitions (get_CSI_Ignore t) CSI_Ignore b = next_state CSI_Ignore b"
  by (simp_all add: get_CSI_Ignore_def row_defs)

lemma get_CSI_Intermediate_frame [simp]:
  "s \<noteq> CSI_Intermediate \<Longrightarrow> events (get_CSI_Intermediate t) s b = events t s b"
  "s \<noteq> CSI_Intermediate \<Longrightarrow> transitions (get_CSI_Intermediate t) s b = transitions t s b"
  "entryEvents (get_CSI_Intermediate t) s = entryEvents t s"
  "exitEvents (get_CSI_Intermediate t) s = exitEvents t s"
  by (simp_all add: get_CSI_Intermediate_def Let_def)

lemma get_CSI_Intermediate_row [simp]:
  "events t CSI_Intermediate b = Action_Undefined \<Longrightarrow> events (get_CSI_Intermediate t) CSI_Intermediate b = row_action CSI_Intermediate b"
  "transitions t CSI_Intermediate b = State_Undefined \<Longrightarrow>
     transitions (get_CSI_Intermediate t) CSI_Intermediate b = next_state CSI_Intermediate b"
  by (simp_all add: get_CSI_Intermediate_def row_defs)

lemma empty_table_simps [simp]:
  "s \<noteq> State_Undefined \<Longrightarrow> transitions empty_table s b = State_Undefined"
  "events empty_table s b = Action_Undefined"
  "entryEvents empty_table s = Action_Undefined"
  "exitEvents empty_table s = Action_Undefined"
  by (simp_all add: empty_table_def)

lemma Table_transitions:
  assumes "s \<noteq> State_Undefined"
  shows "transitions Table s b =
    (if b = 0x18 \<or> b = 0x1A then Ground else if b = 0x1B then Escape else next_state s b)"
  using assms by (cases s) (simp_all add: Table_def fold_anywhere_apply del: next_state.simps)

lemma Table_events:
  assumes "s \<noteq> State_Undefined"
  shows "events Table s b = (if b = 0x18 \<or> b = 0x1A \<or> b = 0x1B then Ignore else row_action s b)"
  using assms by (cases s) (simp_all add: Table_def fold_anywhere_apply del: row_action.simps)

lemma Table_entryEvents:
  "entryEvents Table s =
     (case s of Ground \<Rightarrow> GroundStart | Escape \<Rightarrow> Clear | CSI_Entry \<Rightarrow> Clear | DCS_Entry \<Rightarrow> Clear
      | DCS_PassThrough \<Rightarrow> Hook | OSC_String \<Rightarrow> OSC_Start | APC_String \<Rightarrow> APC_Start
      | PM_String \<Rightarrow> PM_Start | _ \<Rightarrow> Action_Undefined)"
  by (cases s) (simp_all add: Table_def fold_anywhere_apply)

lemma Table_exitEvents:
  "exitEvents Table s =
     (case s of Ground \<Rightarrow> PrintEnd | DCS_PassThrough \<Rightarrow> Unhook | OSC_String \<Rightarrow> OSC_End
      | APC_String \<Rightarrow> APC_End | PM_String \<Rightarrow> PM_End | _ \<Rightarrow> Action_Undefined)"
  by (cases s) (simp_all add: Table_def fold_anywhere_apply)

end
