(* ===== verification/VT_Parser.thy ===== *)
theory VT_Parser
  imports VT_Table
begin

text \<open>
  The parser of \<open>src/src/vtparser/Parser.h\<close> and \<open>Parser-impl.h\<close>: the calls it makes on its event
  listener (\<open>ParserEventsConcept\<close>), one step of the state machine, bulk text and whole fragments.

  The listener is an argument of the model: a step function on its own state, which may fault,
  and the width it still has for bulk text. The functions of the Unicode library
  (\<open>unicode::scan_text\<close>, \<open>unicode::from_utf8\<close>), which is not part of the repository, are an
  argument too; \<open>scan_contract\<close> names the documented behaviour that the parser relies on.
\<close>

subsection \<open>Events and listeners\<close>

datatype ParserEvent =
    Ev_error
  | Ev_print codepoint
  | Ev_printText bytes nat
  | Ev_printEnd
  | Ev_execute byte
  | Ev_clear
  | Ev_collect byte
  | Ev_collectLeader byte
  | Ev_param byte
  | Ev_paramDigit byte
  | Ev_paramSeparator
  | Ev_paramSubSeparator
  | Ev_dispatchESC byte
  | Ev_dispatchCSI byte
  | Ev_startOSC
  | Ev_putOSC byte
  | Ev_dispatchOSC
  | Ev_hook byte
  | Ev_put byte
  | Ev_unhook
  | Ev_startAPC
  | Ev_putAPC byte
  | Ev_dispatchAPC
  | Ev_startPM
  | Ev_putPM byte
  | Ev_dispatchPM

record 'l EventListener =
  on_event :: "ParserEvent \<Rightarrow> 'l \<Rightarrow> 'l result"
  maxBulkTextSequenceWidth :: "'l \<Rightarrow> nat"

subsection \<open>The Unicode library\<close>

datatype ConvertResult = Incomplete | Invalid | Success codepoint

record 'u scan_state =
  utf8 :: 'u
  lastCodepointHint :: codepoint

text \<open>
  \<open>scan_text\<close> returns the new scan state, the offset of \<open>next\<close> in the scanned chunk, the cell
  count and the offsets of the scanned text's start and end.
\<close>

record 'u unicode_lib =
  scan_text :: "'u scan_state \<Rightarrow> bytes \<Rightarrow> nat \<Rightarrow> 'u scan_state \<times> nat \<times> nat \<times> nat \<times> nat"
  from_utf8 :: "'u \<Rightarrow> byte \<Rightarrow> 'u \<times> ConvertResult"
  expectedLength :: "'u \<Rightarrow> nat"

text \<open>
  What \<open>scan_text\<close> promises: its offsets lie inside the chunk, in order, the cell count respects
  the given maximum, and it does not consume a C0 control character at the start of the chunk.
\<close>

definition scan_contract :: "'u unicode_lib \<Rightarrow> bool" where
  "scan_contract U \<longleftrightarrow>
     (\<forall>st chunk n st' nx cells s e. scan_text U st chunk n = (st', nx, cells, s, e) \<longrightarrow>
        nx \<le> length chunk \<and> s \<le> e \<and> e \<le> length chunk \<and> cells \<le> n
        \<and> (chunk \<noteq> [] \<and> hd chunk < 0x20 \<longrightarrow> nx = 0))"

subsection \<open>The parser\<close>

record ('u, 'l) Parser =
  state :: State
  listener :: 'l
  scanState :: "'u scan_state"

definition emit :: "'l EventListener \<Rightarrow> ParserEvent \<Rightarrow> ('u, 'l) Parser \<Rightarrow> ('u, 'l) Parser result" where
  "emit L ev p = bind_result (on_event L ev (listener p)) (\<lambda>l. Inr (p\<lparr>listener := l\<rparr>))"

definition printUtf8Byte ::
  "'u unicode_lib \<Rightarrow> 'l EventListener \<Rightarrow> byte \<Rightarrow> ('u, 'l) Parser \<Rightarrow> ('u, 'l) Parser result" where
  "printUtf8Byte U L ch p =
     (let (u, r) = from_utf8 U (utf8 (scanState p)) ch;
          p1 = p\<lparr>scanState := (scanState p)\<lparr>utf8 := u\<rparr>\<rparr>
      in case r of
           Incomplete \<Rightarrow> Inr p1
         | _ \<Rightarrow> (let cp = (case r of Success v \<Rightarrow> v | _ \<Rightarrow> 0xFFFD)
                in bind_result (emit L (Ev_print cp) p1)
                     (\<lambda>p2. Inr (p2\<lparr>scanState := (scanState p2)\<lparr>lastCodepointHint := cp\<rparr>\<rparr>))))"

fun handle ::
  "'u unicode_lib \<Rightarrow> 'l EventListener \<Rightarrow> ActionClass \<Rightarrow> Action \<Rightarrow> byte
     \<Rightarrow> ('u, 'l) Parser \<Rightarrow> ('u, 'l) Parser result" where
  "handle U L ac GroundStart ch p = Inr (p\<lparr>scanState := (scanState p)\<lparr>lastCodepointHint := 0\<rparr>\<rparr>)"
| "handle U L ac Clear ch p = emit L Ev_clear p"
| "handle U L ac CollectLeader ch p = emit L (Ev_collectLeader ch) p"
| "handle U L ac Collect ch p = emit L (Ev_collect ch) p"
| "handle U L ac Param ch p = emit L (Ev_param ch) p"
| "handle U L ac ParamDigit ch p = emit L (Ev_paramDigit ch) p"
| "handle U L ac ParamSeparator ch p = emit L Ev_paramSeparator p"
| "handle U L ac ParamSubSeparator ch p = emit L Ev_paramSubSeparator p"
| "handle U L ac Execute ch p = emit L (Ev_execute ch) p"
| "handle U L ac ESC_Dispatch ch p = emit L (Ev_dispatchESC ch) p"
| "handle U L ac CSI_Dispatch ch p = emit L (Ev_dispatchCSI ch) p"
| "handle U L ac Print ch p = printUtf8Byte U L ch p"
| "handle U L ac PrintEnd ch p = emit L Ev_printEnd p"
| "handle U L ac OSC_Start ch p = emit L Ev_startOSC p"
| "handle U L ac OSC_Put ch p = emit L (Ev_putOSC ch) p"
| "handle U L ac OSC_End ch p = emit L Ev_dispatchOSC p"
| "handle U L ac Hook ch p = emit L (Ev_hook ch) p"
| "handle U L ac Put ch p = emit L (Ev_put ch) p"
| "handle U L ac Unhook ch p = emit L Ev_unhook p"
| "handle U L ac APC_Start ch p = emit L Ev_startAPC p"
| "handle U L ac APC_Put ch p = emit L (Ev_putAPC ch) p"
| "handle U L ac APC_End ch p = emit L Ev_dispatchAPC p"
| "handle U L ac PM_Start ch p = emit L Ev_startPM p"
| "handle U L ac PM_Put ch p = emit L (Ev_putPM ch) p"
| "handle U L ac PM_End ch p = emit L Ev_dispatchPM p"
| "handle U L ac Ignore ch p = Inr p"
| "handle U L ac Action_Undefined ch p = Inr p"

definition processOnceViaStateMachine ::
  "'u unicode_lib \<Rightarrow> 'l EventListener \<Rightarrow> byte \<Rightarrow> ('u, 'l) Parser \<Rightarrow> ('u, 'l) Parser result" where
  "processOnceViaStateMachine U L ch p =
     (let s = state p; t = transitions Table s ch
      in if t \<noteq> State_Undefined
         then bind_result (handle U L Leave (exitEvents Table s) ch p) (\<lambda>p1.
              bind_result (handle U L Transition (events Table s ch) ch p1) (\<lambda>p2.
              handle U L Enter (entryEvents Table t) ch (p2\<lparr>state := t\<rparr>)))
         else let a = events Table s ch
              in if a \<noteq> Action_Undefined then handle U L Event a ch p
                 else emit L Ev_error p)"

datatype ProcessKind = ContinueBulk | FallbackToFSM

text \<open>
  Bulk text, with the assertions on what the scanner returned. \<open>input\<close> is the begin of the chunk throughout, also where the code looks for a
  following line feed.
\<close>

definition parseBulkText ::
  "'u unicode_lib \<Rightarrow> 'l EventListener \<Rightarrow> bytes \<Rightarrow> ('u, 'l) Parser
     \<Rightarrow> (ProcessKind \<times> nat \<times> ('u, 'l) Parser) result" where
  "parseBulkText U L chunk p =
     (if state p \<noteq> Ground then Inr (FallbackToFSM, 0, p)
      else let maxCharCount = maxBulkTextSequenceWidth L (listener p)
      in if maxCharCount = 0 then Inr (FallbackToFSM, 0, p)
      else let (st, nx, cellCount, subStart, subEnd) = scan_text U (scanState p) chunk maxCharCount;
               p1 = p\<lparr>scanState := st\<rparr>
      in if nx = 0 then Inr (FallbackToFSM, 0, p1)
      else if subEnd < subStart then Inl AssertionFailed
      else let byteCount = subEnd - subStart
      in if byteCount = 0 then Inr (FallbackToFSM, 0, p1)
      else if maxCharCount < cellCount \<or> length chunk < subEnd \<or> length chunk < nx then Inl AssertionFailed
      else if expectedLength U (utf8 st) = 0
      then let txt = take byteCount (drop subStart chunk)
           in bind_result (if txt \<noteq> [] then emit L (Ev_printText txt cellCount) p1 else Inr p1)
                (\<lambda>p2. if chunk \<noteq> [] \<and> hd chunk = 0x0A
                      then bind_result (emit L (Ev_execute 0x0A) p2)
                             (\<lambda>p3. Inr (ContinueBulk, nx - 1, p3))
                      else Inr (ContinueBulk, nx, p2))
      else Inr (ContinueBulk, nx, p1))"

text \<open>
  The loop over a fragment. \<open>None\<close> is a loop that does not end; advancing past the end of the
  fragment, after which the loop's exit test never holds, is a fault.
\<close>

partial_function (option) parseFragment ::
  "'u unicode_lib \<Rightarrow> 'l EventListener \<Rightarrow> bytes \<Rightarrow> ('u, 'l) Parser
     \<Rightarrow> ('u, 'l) Parser result option" where
  "parseFragment U L data p =
     (if data = [] then Some (Inr p)
      else case parseBulkText U L data p of
        Inl e \<Rightarrow> Some (Inl e)
      | Inr (kind, n, p1) \<Rightarrow>
          (case kind of
             ContinueBulk \<Rightarrow>
               if length data < n then Some (Inl OutOfBounds) else parseFragment U L (drop n data) p1
           | FallbackToFSM \<Rightarrow>
               (case processOnceViaStateMachine U L (hd data) p1 of
                  Inl e \<Rightarrow> Some (Inl e)
                | Inr p2 \<Rightarrow> parseFragment U L (tl data) p2)))"

text \<open>The fragments of an input, one after the other.\<close>

fun parseFragments ::
  "'u unicode_lib \<Rightarrow> 'l EventListener \<Rightarrow> bytes list \<Rightarrow> ('u, 'l) Parser
     \<Rightarrow> ('u, 'l) Parser result option" where
  "parseFragments U L [] p = Some (Inr p)"
| "parseFragments U L (data # rest) p =
     (case parseFragment U L data p of
        Some (Inr p1) \<Rightarrow> parseFragments U L rest p1 | r \<Rightarrow> r)"

text \<open>The parser as constructed, over a given listener and scanner state.\<close>

definition new_parser :: "'u \<Rightarrow> 'l \<Rightarrow> ('u, 'l) Parser" where
  "new_parser u l = \<lparr>state = Ground, listener = l, scanState = \<lparr>utf8 = u, lastCodepointHint = 0\<rparr>\<rparr>"

text \<open>The state machine alone, byte by byte.\<close>

definition run_fsm ::
  "'u unicode_lib \<Rightarrow> 'l EventListener \<Rightarrow> bytes \<Rightarrow> ('u, 'l) Parser \<Rightarrow> ('u, 'l) Parser result" where
  "run_fsm U L = fold_result (processOnceViaStateMachine U L)"

text \<open>
  \<open>extractCodePrefix\<close>: the numeric prefix of an OSC string, and the offset of its data. The code is
  accumulated in a signed \<open>int\<close>.
\<close>

fun scan_digits :: "bytes \<Rightarrow> nat \<Rightarrow> (nat \<times> nat) result" where
  "scan_digits [] code = Inr (code, 0)"
| "scan_digits (d # ds) code =
     (if is_digit d
      then if code * 10 + (d - 48) < 2 ^ 31
           then bind_result (scan_digits ds (code * 10 + (d - 48))) (\<lambda>(c, i). Inr (c, Suc i))
           else Inl SignedOverflow
      else Inr (code, 0))"

definition extractCodePrefix :: "bytes \<Rightarrow> (int \<times> nat) result" where
  "extractCodePrefix data =
     bind_result (scan_digits data 0) (\<lambda>(c0, i0).
       let (code, i) = (if i0 = 0 \<and> data \<noteq> [] \<and> hd data \<noteq> 0x3B
                        then (- schar (hd data), Suc i0) else (int c0, i0))
       in Inr (code, if i < length data \<and> data ! i = 0x3B then Suc i else i))"

subsection \<open>The event stream\<close>

fun action_events ::
  "'u unicode_lib \<Rightarrow> Action \<Rightarrow> byte \<Rightarrow> 'u scan_state \<Rightarrow> ParserEvent list \<times> 'u scan_state" where
  "action_events U GroundStart ch sc = ([], sc\<lparr>lastCodepointHint := 0\<rparr>)"
| "action_events U Clear ch sc = ([Ev_clear], sc)"
| "action_events U CollectLeader ch sc = ([Ev_collectLeader ch], sc)"
| "action_events U Collect ch sc = ([Ev_collect ch], sc)"
| "action_events U Param ch sc = ([Ev_param ch], sc)"
| "action_events U ParamDigit ch sc = ([Ev_paramDigit ch], sc)"
| "action_events U ParamSeparator ch sc = ([Ev_paramSeparator], sc)"
| "action_events U ParamSubSeparator ch sc = ([Ev_paramSubSeparator], sc)"
| "action_events U Execute ch sc = ([Ev_execute ch], sc)"
| "action_events U ESC_Dispatch ch sc = ([Ev_dispatchESC ch], sc)"
| "action_events U CSI_Dispatch ch sc = ([Ev_dispatchCSI ch], sc)"
| "action_events U Print ch sc =
     (case from_utf8 U (utf8 sc) ch of
        (u, Incomplete) \<Rightarrow> ([], sc\<lparr>utf8 := u\<rparr>)
      | (u, Invalid) \<Rightarrow> ([Ev_print 0xFFFD], sc\<lparr>utf8 := u, lastCodepointHint := 0xFFFD\<rparr>)
      | (u, Success v) \<Rightarrow> ([Ev_print v], sc\<lparr>utf8 := u, lastCodepointHint := v\<rparr>))"
| "action_events U PrintEnd ch sc = ([Ev_printEnd], sc)"
| "action_events U OSC_Start ch sc = ([Ev_startOSC], sc)"
| "action_events U OSC_Put ch sc = ([Ev_putOSC ch], sc)"
| "action_events U OSC_End ch sc = ([Ev_dispatchOSC], sc)"
| "action_events U Hook ch sc = ([Ev_hook ch], sc)"
| "action_events U Put ch sc = ([Ev_put ch], sc)"
| "action_events U Unhook ch sc = ([Ev_unhook], sc)"
| "action_events U APC_Start ch sc = ([Ev_startAPC], sc)"
| "action_events U APC_Put ch sc = ([Ev_putAPC ch], sc)"
| "action_events U APC_End ch sc = ([Ev_dispatchAPC], sc)"
| "action_events U PM_Start ch sc = ([Ev_startPM], sc)"
| "action_events U PM_Put ch sc = ([Ev_putPM ch], sc)"
| "action_events U PM_End ch sc = ([Ev_dispatchPM], sc)"
| "action_events U Ignore ch sc = ([], sc)"
| "action_events U Action_Undefined ch sc = ([], sc)"

fun actions_events ::
  "'u unicode_lib \<Rightarrow> Action list \<Rightarrow> byte \<Rightarrow> 'u scan_state \<Rightarrow> ParserEvent list \<times> 'u scan_state" where
  "actions_events U [] ch sc = ([], sc)"
| "actions_events U (a # as) ch sc =
     (let (evs, sc1) = action_events U a ch sc; (evs', sc2) = actions_events U as ch sc1
      in (evs @ evs', sc2))"

definition byte_events ::
  "'u unicode_lib \<Rightarrow> byte \<Rightarrow> State \<times> 'u scan_state \<Rightarrow> ParserEvent list \<times> State \<times> 'u scan_state" where
  "byte_events U ch = (\<lambda>(s, sc).
     let t = transitions Table s ch; a = events Table s ch
     in if t \<noteq> State_Undefined
        then let (evs, sc') = actions_events U [exitEvents Table s, a, entryEvents Table t] ch sc
             in (evs, t, sc')
        else if a \<noteq> Action_Undefined
             then let (evs, sc') = action_events U a ch sc in (evs, s, sc')
             else ([Ev_error], s, sc))"

fun stream_events ::
  "'u unicode_lib \<Rightarrow> bytes \<Rightarrow> State \<times> 'u scan_state \<Rightarrow> ParserEvent list \<times> State \<times> 'u scan_state" where
  "stream_events U [] c = ([], c)"
| "stream_events U (b # bs) c =
     (let (evs, c1) = byte_events U b c; (evs', c2) = stream_events U bs c1 in (evs @ evs', c2))"

definition deliver ::
  "'l EventListener \<Rightarrow> ParserEvent list \<times> State \<times> 'u scan_state \<Rightarrow> ('u, 'l) Parser
     \<Rightarrow> ('u, 'l) Parser result" where
  "deliver L = (\<lambda>(evs, s, sc) p. bind_result (fold_result (on_event L) evs (listener p))
     (\<lambda>l. Inr (p\<lparr>listener := l, state := s, scanState := sc\<rparr>)))"

lemma emit_deliver: "emit L ev p = deliver L ([ev], state p, scanState p) p"
  by (simp add: deliver_def emit_def bind_result_def split: sum.splits)

lemma deliver_Nil [simp]: "deliver L ([], s, sc) p = Inr (p\<lparr>state := s, scanState := sc\<rparr>)"
  by (simp add: deliver_def)

lemma printUtf8Byte_deliver:
  "printUtf8Byte U L ch p =
     (case action_events U Print ch (scanState p) of (evs, sc) \<Rightarrow> deliver L (evs, state p, sc) p)"
proof -
  obtain u r where "from_utf8 U (utf8 (scanState p)) ch = (u, r)" by fastforce
  then show ?thesis
    by (cases r) (simp_all add: deliver_def emit_def printUtf8Byte_def bind_result_def Let_def
        split: sum.splits)
qed

lemma handle_deliver:
  "handle U L ac a ch p =
     (case action_events U a ch (scanState p) of (evs, sc) \<Rightarrow> deliver L (evs, state p, sc) p)"
  by (cases a) (simp_all add: emit_deliver printUtf8Byte_deliver del: action_events.simps(12))

lemma deliver_deliver:
  "bind_result (deliver L (evs, s, sc) p) (deliver L (evs', s', sc')) = deliver L (evs @ evs', s', sc') p"
  by (auto simp: deliver_def fold_result_append bind_result_def split: sum.splits)

lemma state_deliver [simp]:
  "deliver L (evs, s, sc) p = Inr p' \<Longrightarrow> state p' = s \<and> scanState p' = sc"
  by (auto simp: deliver_def bind_result_eq_Inr)

lemma bind_deliver_cong:
  "(\<And>p'. state p' = s \<Longrightarrow> scanState p' = sc \<Longrightarrow> f p' = g p')
   \<Longrightarrow> bind_result (deliver L (evs, s, sc) p) f = bind_result (deliver L (evs, s, sc) p) g"
  by (cases "deliver L (evs, s, sc) p") auto

lemma process_deliver:
  "processOnceViaStateMachine U L ch p = deliver L (byte_events U ch (state p, scanState p)) p"
proof -
  let ?s = "state p" and ?sc = "scanState p"
  let ?t = "transitions Table ?s ch" and ?a = "events Table ?s ch"
  show ?thesis
  proof (cases "?t = State_Undefined")
    case True
    obtain e c where "action_events U ?a ch ?sc = (e, c)" by fastforce
    moreover have "emit L Ev_error p = deliver L ([Ev_error], ?s, ?sc) p"
      by (simp add: emit_deliver)
    ultimately show ?thesis
      using True by (simp add: processOnceViaStateMachine_def byte_events_def handle_deliver Let_def)
  next
    case False
    obtain e1 c1 where 1: "action_events U (exitEvents Table ?s) ch ?sc = (e1, c1)" by fastforce
    obtain e2 c2 where 2: "action_events U ?a ch c1 = (e2, c2)" by fastforce
    obtain e3 c3 where 3: "action_events U (entryEvents Table ?t) ch c2 = (e3, c3)" by fastforce
    have enter: "handle U L Enter (entryEvents Table ?t) ch (q\<lparr>state := ?t\<rparr>)
        = deliver L (e3, ?t, c3) q" if "scanState q = c2" for q
      using 3 that by (simp add: handle_deliver deliver_def)
    have "processOnceViaStateMachine U L ch p =
      bind_result (deliver L (e1, ?s, c1) p) (\<lambda>p1. bind_result (deliver L (e2, ?s, c2) p1)
        (deliver L (e3, ?t, c3)))"
      using False 1 2 enter
      by (auto simp: processOnceViaStateMachine_def Let_def handle_deliver intro!: bind_deliver_cong)
    also have "\<dots> = deliver L (e1 @ e2 @ e3, ?t, c3) p"
      by (simp add: deliver_deliver flip: bind_result_assoc)
    finally show ?thesis using False 1 2 3 by (simp add: byte_events_def)
  qed
qed

lemma run_fsm_deliver:
  "run_fsm U L bs p = deliver L (stream_events U bs (state p, scanState p)) p"
proof (induction bs arbitrary: p)
  case Nil
  then show ?case by (simp add: run_fsm_def deliver_def)
next
  case (Cons b bs)
  obtain e1 s1 c1 where 1: "byte_events U b (state p, scanState p) = (e1, s1, c1)"
    by (metis prod_cases3)
  obtain e2 s2 c2 where 2: "stream_events U bs (s1, c1) = (e2, s2, c2)"
    by (metis prod_cases3)
  have "run_fsm U L (b # bs) p = bind_result (deliver L (e1, s1, c1) p) (run_fsm U L bs)"
    by (simp add: run_fsm_def process_deliver 1)
  also have "\<dots> = bind_result (deliver L (e1, s1, c1) p) (deliver L (e2, s2, c2))"
    using Cons.IH 2 by (auto intro!: bind_deliver_cong)
  finally show ?case by (simp add: 1 2 deliver_deliver)
qed

subsection \<open>States\<close>

lemma state_index_bound: "state_index s < state_limits_size \<and> state_limits_size \<le> action_limits_size"
  by (cases s) (simp_all add: state_limits_size_def action_limits_size_def)

lemma next_state_cases:
  assumes "s \<noteq> State_Undefined"
  shows "fst (snd (byte_events U b (s, sc))) =
    (if b = 0x18 \<or> b = 0x1A then Ground else if b = 0x1B then Escape
     else if next_state s b = State_Undefined then s else next_state s b)"
  using assms
  by (simp add: byte_events_def Table_transitions Let_def split: prod.splits)

lemma byte_events_defined:
  assumes "s \<noteq> State_Undefined"
  shows "fst (snd (byte_events U b (s, sc))) \<noteq> State_Undefined"
  using assms by (simp add: next_state_cases)

lemma stream_events_append:
  "stream_events U (xs @ ys) c =
     (case stream_events U xs c of (evs, c1) \<Rightarrow>
        case stream_events U ys c1 of (evs', c2) \<Rightarrow> (evs @ evs', c2))"
  by (induction xs arbitrary: c) (simp_all add: Let_def split: prod.splits)

lemma stream_state_defined:
  "s \<noteq> State_Undefined \<Longrightarrow> fst (snd (stream_events U bs (s, sc))) \<noteq> State_Undefined"
proof (induction bs arbitrary: s sc)
  case Nil
  then show ?case by simp
next
  case (Cons b bs)
  obtain e s1 c1 where 1: "byte_events U b (s, sc) = (e, s1, c1)" by (metis prod_cases3)
  with byte_events_defined [OF Cons.prems, of U b sc] have "s1 \<noteq> State_Undefined" by simp
  from Cons.IH [OF this, of c1] show ?case by (simp add: 1 case_prod_beta Let_def)
qed

subsection \<open>The listener's protocol\<close>

text \<open>
  The order in which the calls of \<open>ParserEventsConcept\<close> may arrive: a control string is opened,
  filled and closed, nothing but its own bytes (and error reports) arrives in between, and nothing
  of a string arrives outside of it.
\<close>

datatype Mode = Outside | In_OSC | In_DCS | In_APC | In_PM

definition expect :: "Mode \<Rightarrow> Mode \<Rightarrow> Mode \<Rightarrow> Mode option" where
  "expect m m' cur = (if cur = m then Some m' else None)"

fun monitor :: "Mode \<Rightarrow> ParserEvent \<Rightarrow> Mode option" where
  "monitor m Ev_error = Some m"
| "monitor m Ev_startOSC = expect Outside In_OSC m"
| "monitor m (Ev_putOSC b) = expect In_OSC In_OSC m"
| "monitor m Ev_dispatchOSC = expect In_OSC Outside m"
| "monitor m (Ev_hook b) = expect Outside In_DCS m"
| "monitor m (Ev_put b) = expect In_DCS In_DCS m"
| "monitor m Ev_unhook = expect In_DCS Outside m"
| "monitor m Ev_startAPC = expect Outside In_APC m"
| "monitor m (Ev_putAPC b) = expect In_APC In_APC m"
| "monitor m Ev_dispatchAPC = expect In_APC Outside m"
| "monitor m Ev_startPM = expect Outside In_PM m"
| "monitor m (Ev_putPM b) = expect In_PM In_PM m"
| "monitor m Ev_dispatchPM = expect In_PM Outside m"
| "monitor m (Ev_print c) = expect Outside Outside m"
| "monitor m (Ev_printText t n) = expect Outside Outside m"
| "monitor m Ev_printEnd = expect Outside Outside m"
| "monitor m (Ev_execute b) = expect Outside Outside m"
| "monitor m Ev_clear = expect Outside Outside m"
| "monitor m (Ev_collect b) = expect Outside Outside m"
| "monitor m (Ev_collectLeader b) = expect Outside Outside m"
| "monitor m (Ev_param b) = expect Outside Outside m"
| "monitor m (Ev_paramDigit b) = expect Outside Outside m"
| "monitor m Ev_paramSeparator = expect Outside Outside m"
| "monitor m Ev_paramSubSeparator = expect Outside Outside m"
| "monitor m (Ev_dispatchESC b) = expect Outside Outside m"
| "monitor m (Ev_dispatchCSI b) = expect Outside Outside m"

fun monitor_run :: "Mode \<Rightarrow> ParserEvent list \<Rightarrow> Mode option" where
  "monitor_run m [] = Some m"
| "monitor_run m (ev # evs) = (case monitor m ev of None \<Rightarrow> None | Some m' \<Rightarrow> monitor_run m' evs)"

fun mode_of :: "State \<Rightarrow> Mode" where
  "mode_of OSC_String = In_OSC"
| "mode_of DCS_PassThrough = In_DCS"
| "mode_of APC_String = In_APC"
| "mode_of PM_String = In_PM"
| "mode_of _ = Outside"

lemma monitor_run_append:
  "monitor_run m (xs @ ys) = (case monitor_run m xs of None \<Rightarrow> None | Some m' \<Rightarrow> monitor_run m' ys)"
  by (induction xs arbitrary: m) (simp_all split: option.splits)


lemma monitor_exit:
  "monitor_run (mode_of s) (fst (action_events U (exitEvents Table s) b sc)) = Some Outside"
  by (cases s) (simp_all add: Table_exitEvents expect_def)

lemma monitor_entry:
  "monitor_run Outside (fst (action_events U (entryEvents Table t) b sc)) = Some (mode_of t)"
  by (cases t) (simp_all add: Table_entryEvents expect_def)

lemma monitor_print:
  "monitor_run Outside (fst (action_events U Print b sc)) = Some Outside"
  by (simp add: expect_def split: prod.splits ConvertResult.splits)

definition plain_actions :: "Action set" where
  "plain_actions = {Action_Undefined, Ignore, Print, Execute, Collect, CollectLeader, Param, ParamDigit,
     ParamSeparator, ParamSubSeparator, ESC_Dispatch, CSI_Dispatch}"

lemma monitor_plain:
  "a \<in> plain_actions \<Longrightarrow> monitor_run Outside (fst (action_events U a b sc)) = Some Outside"
  by (auto simp: plain_actions_def expect_def monitor_print simp del: action_events.simps(12))

lemma transition_plain: "next_state s b \<noteq> State_Undefined \<Longrightarrow> row_action s b \<in> plain_actions"
  by (cases s) (simp_all add: plain_actions_def is_C0_def split: if_splits)

lemma row_plain: "mode_of s = Outside \<Longrightarrow> row_action s b \<in> plain_actions"
  by (cases s) (simp_all add: plain_actions_def)

lemma monitor_row:
  assumes "next_state s b = State_Undefined"
  shows "monitor_run (mode_of s) (fst (action_events U (row_action s b) b sc)) = Some (mode_of s)"
proof (cases "mode_of s = Outside")
  case True
  then show ?thesis using monitor_plain [OF row_plain] by simp
next
  case False
  with assms show ?thesis by (cases s) (auto simp: expect_def split: if_splits)
qed

lemma monitor_byte:
  assumes "s \<noteq> State_Undefined"
  shows "monitor_run (mode_of s) (fst (byte_events U b (s, sc)))
         = Some (mode_of (fst (snd (byte_events U b (s, sc)))))"
proof (cases "transitions Table s b = State_Undefined")
  case True
  with assms have "next_state s b = State_Undefined" and "events Table s b = row_action s b"
    by (auto simp: Table_transitions Table_events split: if_splits)
  with True monitor_row [of s b U sc] show ?thesis
    by (simp add: byte_events_def Let_def case_prod_beta)
next
  case False
  let ?t = "transitions Table s b"
  from assms False have "events Table s b \<in> plain_actions"
    using transition_plain [of s b]
    by (auto simp: Table_transitions Table_events plain_actions_def split: if_splits)
  note plain = monitor_plain [OF this, of U b]
  show ?thesis
    using False monitor_exit [of s U b] monitor_entry [of U ?t b]
    by (simp add: byte_events_def Let_def case_prod_beta monitor_run_append plain)
qed

lemma monitor_stream:
  assumes "s \<noteq> State_Undefined"
  shows "monitor_run (mode_of s) (fst (stream_events U bs (s, sc)))
         = Some (mode_of (fst (snd (stream_events U bs (s, sc)))))"
  using assms
proof (induction bs arbitrary: s sc)
  case Nil
  then show ?case by simp
next
  case (Cons b bs)
  obtain e s1 c1 where 1: "byte_events U b (s, sc) = (e, s1, c1)" by (metis prod_cases3)
  with byte_events_defined [OF Cons.prems, of U b sc] have "s1 \<noteq> State_Undefined" by simp
  with Cons.IH [OF this, of c1] monitor_byte [OF Cons.prems, of U b sc] 1 show ?case
    by (simp add: case_prod_beta Let_def monitor_run_append)
qed

subsection \<open>Fragments\<close>

lemma parseBulkText_no_bulk:
  "maxBulkTextSequenceWidth L (listener p) = 0 \<Longrightarrow> parseBulkText U L data p = Inr (FallbackToFSM, 0, p)"
  by (simp add: parseBulkText_def)

lemma parseFragment_Nil [simp]: "parseFragment U L [] p = Some (Inr p)"
  by (simp add: parseFragment.simps)

text \<open>A listener that takes no bulk text sees the state machine's events, byte by byte.\<close>

lemma parseFragment_fsm:
  assumes "\<And>l. maxBulkTextSequenceWidth L l = 0"
  shows "parseFragment U L data p = Some (run_fsm U L data p)"
proof (induction data arbitrary: p)
  case Nil
  then show ?case by (simp add: run_fsm_def)
next
  case (Cons b bs)
  show ?case
    using Cons.IH
    by (subst parseFragment.simps)
       (simp add: parseBulkText_no_bulk assms run_fsm_def split: sum.splits)
qed

lemma parseBulkText_progress:
  assumes "scan_contract U" and "data \<noteq> []"
    and "parseBulkText U L data p = Inr (ContinueBulk, n, p')"
  shows "0 < n \<and> n \<le> length data"
proof -
  obtain st nx cells s e where scan:
    "scan_text U (scanState p) data (maxBulkTextSequenceWidth L (listener p)) = (st, nx, cells, s, e)"
    by (metis prod_cases5)
  with assms(1,2) have "nx \<le> length data" and "hd data < 0x20 \<Longrightarrow> nx = 0"
    unfolding scan_contract_def by blast+
  with assms(3) scan show ?thesis
    by (auto simp: parseBulkText_def Let_def bind_result_def split: if_splits sum.splits)
qed

subsection \<open>A recording listener\<close>

definition recorder :: "ParserEvent list EventListener" where
  "recorder = \<lparr>on_event = (\<lambda>ev l. Inr (l @ [ev])), maxBulkTextSequenceWidth = (\<lambda>_. 0)\<rparr>"

lemma recorder_simps [simp]:
  "on_event recorder ev l = Inr (l @ [ev])"
  "maxBulkTextSequenceWidth recorder l = 0"
  by (simp_all add: recorder_def)

lemma fold_recorder [simp]: "fold_result (on_event recorder) evs l = Inr (l @ evs)"
  by (induction evs arbitrary: l) simp_all

text \<open>The same for a listener that takes bulk text, of a width that may depend on what it has seen.\<close>

definition bulk_recorder :: "(ParserEvent list \<Rightarrow> nat) \<Rightarrow> ParserEvent list EventListener" where
  "bulk_recorder w = recorder\<lparr>maxBulkTextSequenceWidth := w\<rparr>"

lemma bulk_recorder_simps [simp]:
  "on_event (bulk_recorder w) ev l = Inr (l @ [ev])"
  "maxBulkTextSequenceWidth (bulk_recorder w) = w"
  by (simp_all add: bulk_recorder_def recorder_def)

lemma fold_bulk_recorder [simp]: "fold_result (on_event (bulk_recorder w)) evs l = Inr (l @ evs)"
  by (induction evs arbitrary: l) simp_all

lemma parse_recorder:
  "parseFragment U recorder bs p =
     (case stream_events U bs (state p, scanState p) of
        (evs, s, sc) \<Rightarrow> Some (Inr (p\<lparr>listener := listener p @ evs, state := s, scanState := sc\<rparr>)))"
  by (simp add: parseFragment_fsm run_fsm_deliver deliver_def split: prod.splits)

subsection \<open>Which bytes can end a sequence\<close>

definition final_ok :: "ParserEvent \<Rightarrow> bool" where
  "final_ok ev = (case ev of
     Ev_dispatchCSI b \<Rightarrow> 0x40 \<le> b \<and> b \<le> 0x7E
   | Ev_dispatchESC b \<Rightarrow> 0x30 \<le> b \<and> b \<le> 0x7E
   | Ev_hook b \<Rightarrow> 0x40 \<le> b \<and> b \<le> 0x7E
   | Ev_collect b \<Rightarrow> 0x20 \<le> b \<and> b \<le> 0x2F
   | Ev_collectLeader b \<Rightarrow> 0x3C \<le> b \<and> b \<le> 0x3F
   | Ev_paramDigit b \<Rightarrow> is_digit b
   | Ev_param b \<Rightarrow> is_digit b \<or> b = 0x3B
   | Ev_printText txt cells \<Rightarrow> txt \<noteq> []
   | _ \<Rightarrow> True)"

lemma final_ok_row:
  "row_action s b \<noteq> Hook \<and> (\<forall>ev \<in> set (fst (action_events U (row_action s b) b sc)). final_ok ev)"
  by (cases s)
     (auto simp: final_ok_def is_digit_def is_C0_def split: if_splits prod.splits ConvertResult.splits)

lemma final_ok_exit: "ev \<in> set (fst (action_events U (exitEvents Table s) b sc)) \<Longrightarrow> final_ok ev"
  by (cases s) (auto simp: Table_exitEvents final_ok_def)

lemma final_ok_entry:
  assumes "transitions Table s b = t" and "s \<noteq> State_Undefined"
    and "ev \<in> set (fst (action_events U (entryEvents Table t) b sc))"
  shows "final_ok ev"
proof (cases "t = DCS_PassThrough")
  case True
  with assms(1,2) have "0x40 \<le> b \<and> b \<le> 0x7E"
    by (cases s) (auto simp: Table_transitions split: if_splits)
  with True assms(3) show ?thesis by (simp add: Table_entryEvents final_ok_def)
next
  case False
  with assms(3) show ?thesis by (cases t) (auto simp: Table_entryEvents final_ok_def)
qed

lemma final_ok_byte:
  assumes "s \<noteq> State_Undefined" and "ev \<in> set (fst (byte_events U b (s, sc)))"
  shows "final_ok ev"
proof -
  have row: "final_ok e" if "e \<in> set (fst (action_events U (events Table s b) b c))" for e c
    using final_ok_row [of s b U c] assms(1) that by (auto simp: Table_events split: if_splits)
  from assms(2) show ?thesis
    using row final_ok_exit final_ok_entry [OF refl assms(1)]
    by (auto simp: byte_events_def Let_def case_prod_beta final_ok_def [of Ev_error] split: if_splits)
qed

lemma final_ok_stream:
  "s \<noteq> State_Undefined \<Longrightarrow> ev \<in> set (fst (stream_events U bs (s, sc))) \<Longrightarrow> final_ok ev"
proof (induction bs arbitrary: s sc)
  case Nil
  then show ?case by simp
next
  case (Cons b bs)
  obtain e s1 c1 where 1: "byte_events U b (s, sc) = (e, s1, c1)" by (metis prod_cases3)
  with byte_events_defined [OF Cons.prems(1), of U b sc] have "s1 \<noteq> State_Undefined" by simp
  then show ?case
    using Cons.IH [of s1 c1] Cons.prems final_ok_byte [OF Cons.prems(1), of ev U b sc] 1
    by (auto simp: case_prod_beta Let_def)
qed

subsection \<open>A concrete scanner\<close>

text \<open>
  A scanner for ASCII text that satisfies \<open>scan_contract\<close>: it takes printable ASCII only, one cell
  per byte, and every byte is a code point of its own.
\<close>

definition ascii_lib :: "unit unicode_lib" where
  "ascii_lib =
     \<lparr>scan_text = (\<lambda>st chunk n. let k = min n (length (takeWhile (\<lambda>b. 0x20 \<le> b \<and> b < 0x7F) chunk))
        in (st, k, k, 0, k)),
      from_utf8 = (\<lambda>u b. (u, Success b)),
      expectedLength = (\<lambda>_. 0)\<rparr>"

lemma ascii_contract: "scan_contract ascii_lib"
proof -
  have "length (takeWhile P xs) \<le> length xs" for P and xs :: bytes
    by (rule length_takeWhile_le)
  moreover have "takeWhile (\<lambda>b. 0x20 \<le> b \<and> b < 0x7F) xs = []"
    if "xs \<noteq> []" and "hd xs < 0x20" for xs :: bytes
    using that by (cases xs) auto
  ultimately show ?thesis
    by (auto simp: scan_contract_def ascii_lib_def Let_def le_trans min.coboundedI2)
qed

lemmas byte_events_simps = byte_events_def Table_transitions Table_events Table_exitEvents
  Table_entryEvents Let_def is_C0_def

subsection \<open>The contract of a listener\<close>

text \<open>
  What the parser and a listener owe each other. The parser makes its calls in the order of the
  listener protocol and with arguments in their documented ranges; a listener that under these
  conditions keeps an invariant, which may depend on the control string that is open, and fails only
  with known faults, is kept within its invariant by every fragment, and parsing it ends.
\<close>

locale parser_listener =
  fixes L :: "'l EventListener" and Inv :: "Mode \<Rightarrow> 'l \<Rightarrow> bool" and Faults :: "fault set"
  assumes step: "Inv m l \<Longrightarrow> monitor m ev = Some m' \<Longrightarrow> final_ok ev \<Longrightarrow>
    result_in Faults (Inv m') (on_event L ev l)"
begin

definition good :: "('u, 'l) Parser result \<Rightarrow> bool" where
  "good = result_in Faults (\<lambda>p. state p \<noteq> State_Undefined \<and> Inv (mode_of (state p)) (listener p))"

lemma fold_step:
  "Inv m l \<Longrightarrow> monitor_run m evs = Some m' \<Longrightarrow> (\<And>ev. ev \<in> set evs \<Longrightarrow> final_ok ev) \<Longrightarrow>
    result_in Faults (Inv m') (fold_result (on_event L) evs l)"
proof (induction evs arbitrary: m l)
  case (Cons ev evs)
  from Cons.prems(2) obtain m1 where m1: "monitor m ev = Some m1" "monitor_run m1 evs = Some m'"
    by (auto split: option.splits)
  from step [OF Cons.prems(1) m1(1)] Cons.prems(3) Cons.IH [OF _ m1(2)] show ?case
    by (cases "on_event L ev l") auto
qed simp

lemma process_good:
  assumes "state p \<noteq> State_Undefined" and "Inv (mode_of (state p)) (listener p)"
  shows "good (processOnceViaStateMachine U L b p)"
proof -
  obtain e s c where b: "byte_events U b (state p, scanState p) = (e, s, c)" by (metis prod_cases3)
  have s: "s \<noteq> State_Undefined"
    using byte_events_defined [OF assms(1), of U b "scanState p"] b by simp
  have m: "monitor_run (mode_of (state p)) e = Some (mode_of s)"
    using monitor_byte [OF assms(1), of U b "scanState p"] b by simp
  have "final_ok ev" if "ev \<in> set e" for ev
    using final_ok_byte [OF assms(1), of ev U b "scanState p"] b that by simp
  with fold_step [OF assms(2) m] s b show ?thesis
    by (cases "fold_result (on_event L) e (listener p)")
      (simp_all add: good_def process_deliver deliver_def)
qed

lemma emit_good:
  assumes "Inv Outside (listener p)" "state p = Ground" "monitor Outside ev = Some Outside" "final_ok ev"
  shows "good (emit L ev p)" and "emit L ev p = Inr p' \<Longrightarrow> state p' = Ground"
  using step [OF assms(1,3,4)] assms(2)
  by (auto simp: good_def emit_def bind_result_def split: sum.splits)

lemma bulk_good:
  assumes contract: "scan_contract U" and "state p \<noteq> State_Undefined" and "Inv (mode_of (state p)) (listener p)"
  shows "good (bind_result (parseBulkText U L data p) (\<lambda>(k, n, p'). Inr p'))"
proof (cases "state p = Ground")
  case False
  with assms show ?thesis by (simp add: parseBulkText_def good_def)
next
  case True
  obtain st nx cells s e where scan:
    "scan_text U (scanState p) data (maxBulkTextSequenceWidth L (listener p)) = (st, nx, cells, s, e)"
    by (metis prod_cases5)
  with contract have asserts: "\<not> e < s"
      "\<not> (maxBulkTextSequenceWidth L (listener p) < cells \<or> length data < e \<or> length data < nx)"
    unfolding scan_contract_def by (meson leD)+
  let ?p1 = "p\<lparr>scanState := st\<rparr>" and ?txt = "take (e - s) (drop s data)"
  have p1: "Inv Outside (listener ?p1)" "state ?p1 = Ground" using assms True by simp_all
  have stop: "good (Inr ?p1)" "good (Inr p)" using assms True by (simp_all add: good_def)
  have pr: "good (emit L (Ev_printText ?txt cells) ?p1)
      \<and> (\<forall>p2. emit L (Ev_printText ?txt cells) ?p1 = Inr p2 \<longrightarrow> state p2 = Ground)" if "?txt \<noteq> []"
    using emit_good [OF p1, of "Ev_printText ?txt cells"] that by (auto simp: expect_def final_ok_def)
  have lf: "good (emit L (Ev_execute 0x0A) p2)" if "good (Inr p2)" "state p2 = Ground" for p2
    using emit_good(1) [of p2 "Ev_execute 0x0A"] that by (simp add: expect_def final_ok_def good_def)
  let ?r = "if ?txt \<noteq> [] then emit L (Ev_printText ?txt cells) ?p1 else Inr ?p1"
  have r: "good ?r \<and> (\<forall>p2. ?r = Inr p2 \<longrightarrow> state p2 = Ground)"
    using pr stop p1 by auto
  have main: "good (bind_result (bind_result ?r (\<lambda>p2. if data \<noteq> [] \<and> hd data = 0x0A
          then bind_result (emit L (Ev_execute 0x0A) p2) (\<lambda>p3. Inr (ContinueBulk, nx - 1, p3))
          else Inr (ContinueBulk, nx, p2))) (\<lambda>(k, n, p'). Inr p'))"
  proof (cases ?r)
    case (Inl f)
    with r show ?thesis by (simp only: bind_result_simps)
  next
    case (Inr p2)
    show ?thesis
      using r lf [of p2] unfolding Inr by (cases "emit L (Ev_execute 0x0A) p2") auto
  qed
  show ?thesis
  proof (cases "maxBulkTextSequenceWidth L (listener p) = 0 \<or> nx = 0 \<or> e - s = 0
      \<or> expectedLength U (utf8 st) \<noteq> 0")
    case True
    with stop scan asserts \<open>state p = Ground\<close> show ?thesis by (auto simp: parseBulkText_def Let_def)
  next
    case False
    with scan asserts \<open>state p = Ground\<close> have "parseBulkText U L data p = bind_result ?r (\<lambda>p2.
        if data \<noteq> [] \<and> hd data = 0x0A
        then bind_result (emit L (Ev_execute 0x0A) p2) (\<lambda>p3. Inr (ContinueBulk, nx - 1, p3))
        else Inr (ContinueBulk, nx, p2))"
      by (simp add: parseBulkText_def Let_def)
    with main show ?thesis by (simp only:)
  qed
qed

lemma parseFragment_good:
  assumes contract: "scan_contract U"
  shows "state p \<noteq> State_Undefined \<Longrightarrow> Inv (mode_of (state p)) (listener p) \<Longrightarrow>
    \<exists>r. parseFragment U L data p = Some r \<and> good r"
proof (induction "length data" arbitrary: data p rule: less_induct)
  case less
  show ?case
  proof (cases data)
    case Nil
    with less.prems show ?thesis by (simp add: good_def)
  next
    case (Cons b bs)
    note bulk = bulk_good [OF contract less.prems, of data]
    show ?thesis
    proof (cases "parseBulkText U L data p")
      case (Inl e)
      with Cons bulk show ?thesis by (subst parseFragment.simps) (simp add: good_def)
    next
      case (Inr r)
      obtain k n p1 where r: "r = (k, n, p1)" by (metis prod_cases3)
      with bulk Inr have p1: "state p1 \<noteq> State_Undefined" "Inv (mode_of (state p1)) (listener p1)"
        by (simp_all add: good_def)
      show ?thesis
      proof (cases k)
        case ContinueBulk
        with Inr r Cons have n: "0 < n \<and> n \<le> length data"
          using parseBulkText_progress [OF contract] by blast
        then have "length (drop n data) < length data" by auto
        from less.hyps [OF this p1] n Inr r Cons ContinueBulk show ?thesis
          by (subst parseFragment.simps) auto
      next
        case FallbackToFSM
        have short: "length bs < length data" using Cons by simp
        show ?thesis
        proof (cases "processOnceViaStateMachine U L b p1")
          case (Inl e)
          with process_good [OF p1, of U b] Inr r Cons FallbackToFSM show ?thesis
            by (subst parseFragment.simps) (simp add: good_def)
        next
          case (Inr p2)
          with process_good [OF p1, of U b] have "state p2 \<noteq> State_Undefined" "Inv (mode_of (state p2)) (listener p2)"
            by (simp_all add: good_def)
          from less.hyps [OF short this] Inr \<open>parseBulkText U L data p = Inr r\<close> r Cons FallbackToFSM
          show ?thesis by (subst parseFragment.simps) simp
        qed
      qed
    qed
  qed
qed

lemma parseFragments_good:
  assumes contract: "scan_contract U"
  shows "state p \<noteq> State_Undefined \<Longrightarrow> Inv (mode_of (state p)) (listener p) \<Longrightarrow>
    \<exists>r. parseFragments U L frags p = Some r \<and> good r"
proof (induction frags arbitrary: p)
  case Nil
  then show ?case by (simp add: good_def)
next
  case (Cons data rest)
  obtain r where r: "parseFragment U L data p = Some r" "good r"
    using parseFragment_good [OF contract Cons.prems] by blast
  show ?case
  proof (cases r)
    case (Inl e)
    with r show ?thesis by simp
  next
    case (Inr p1)
    with r(2) have "state p1 \<noteq> State_Undefined" "Inv (mode_of (state p1)) (listener p1)"
      by (simp_all add: good_def)
    from Cons.IH [OF this] r(1) Inr show ?thesis by simp
  qed
qed

end

text \<open>
  The listener protocol itself is such an invariant of a recording listener: the calls made so far
  form a run of the protocol that ends in the open control string.
\<close>

interpretation bulk_protocol:
  parser_listener "bulk_recorder w" "\<lambda>m evs. monitor_run Outside evs = Some m" "{}" for w
  by unfold_locales (simp add: monitor_run_append)

subsection \<open>Properties of the parser\<close>

lemma process_no_fault:
  assumes "\<And>ev l. \<exists>l'. on_event L ev l = Inr l'"
  shows "\<exists>p'. processOnceViaStateMachine U L b p = Inr p'"
proof -
  have total: "\<exists>l'. fold_result (on_event L) evs l = Inr l'" for evs l
  proof (induction evs arbitrary: l)
    case (Cons ev evs)
    obtain l1 where "on_event L ev l = Inr l1" using assms by blast
    with Cons.IH show ?case by simp
  qed simp
  obtain e s c where b: "byte_events U b (state p, scanState p) = (e, s, c)" by (metis prod_cases3)
  obtain l' where "fold_result (on_event L) e (listener p) = Inr l'" using total by blast
  with b show ?thesis by (simp add: process_deliver deliver_def)
qed

lemma parseBulkText_no_fault:
  fixes L :: "'l EventListener" and p :: "('u, 'l) Parser"
  assumes contract: "scan_contract U" and "\<And>ev l. \<exists>l'. on_event L ev l = Inr l'"
  shows "\<exists>r. parseBulkText U L data p = Inr r"
proof -
  have e: "emit L ev q \<noteq> Inl x" for ev x and q :: "('u, 'l) Parser"
    using assms(2) [of ev "listener q"] by (auto simp: emit_def)
  obtain st nx cells s f where
    "scan_text U (scanState p) data (maxBulkTextSequenceWidth L (listener p)) = (st, nx, cells, s, f)"
    by (metis prod_cases5)
  moreover from this contract have "s \<le> f" "f \<le> length data" "nx \<le> length data"
      "cells \<le> maxBulkTextSequenceWidth L (listener p)"
    unfolding scan_contract_def by blast+
  ultimately show ?thesis
    by (simp add: parseBulkText_def Let_def bind_result_def e split: sum.splits)
qed

text \<open>
  C10. Parsing a fragment always returns: for every input and parser state, if the scanner keeps its
  contract and the listener does not fault, \<open>parseFragment\<close> ends with a parser, without reading
  past the fragment.
\<close>

theorem parseFragment_total:
  assumes contract: "scan_contract U"
    and listener: "\<And>ev l. \<exists>l'. on_event L ev l = Inr l'"
  shows "\<exists>p'. parseFragment U L data p = Some (Inr p')"
proof (induction "length data" arbitrary: data p rule: less_induct)
  case less
  show ?case
  proof (cases data)
    case Nil
    then show ?thesis by simp
  next
    case (Cons b bs)
    obtain k n p1 where bulk: "parseBulkText U L data p = Inr (k, n, p1)"
      using parseBulkText_no_fault [OF contract listener] by (metis prod_cases3)
    show ?thesis
    proof (cases k)
      case ContinueBulk
      with bulk Cons have n: "0 < n \<and> n \<le> length data"
        using parseBulkText_progress [OF contract] by blast
      then have "length (drop n data) < length data" by auto
      from less [OF this, of p1] n bulk Cons ContinueBulk show ?thesis
        by (subst parseFragment.simps) auto
    next
      case FallbackToFSM
      obtain p2 where "processOnceViaStateMachine U L b p1 = Inr p2"
        using process_no_fault [OF listener] by blast
      with less [of bs p2] bulk Cons FallbackToFSM show ?thesis
        by (subst parseFragment.simps) auto
    qed
  qed
qed

theorem parseFragment_total_witness:
  "scan_contract ascii_lib
   \<and> (\<exists>p'. parseFragment ascii_lib recorder (bytes ''hi'') (new_parser () []) = Some (Inr p'))"
  using parseFragment_total [OF ascii_contract, of recorder "bytes ''hi''" "new_parser () []"]
  by (simp add: ascii_contract)

text \<open>
  C11. Whatever bytes arrive, in whatever fragments, and however much text a listener takes at once:
  the calls it receives from a new parser, through the bulk path and through the state machine,
  follow the listener protocol. An OSC, DCS, APC or PM string is opened, filled and closed in that
  order, with nothing else in between but error reports, and the string that is open at the end is
  the one of the parser's state.
\<close>

theorem parse_control_strings_bracketed:
  assumes "scan_contract U"
  shows "\<exists>p. parseFragments U (bulk_recorder w) frags (new_parser u []) = Some (Inr p)
     \<and> monitor_run Outside (listener p) = Some (mode_of (state p))"
proof -
  obtain r where r: "parseFragments U (bulk_recorder w) frags (new_parser u []) = Some r"
      "bulk_protocol.good r"
    using bulk_protocol.parseFragments_good [OF assms, of "new_parser u []" w frags]
    by (auto simp: new_parser_def)
  then show ?thesis by (cases r) (simp_all add: bulk_protocol.good_def)
qed

theorem parse_control_strings_bracketed_witness:
  "scan_contract ascii_lib
   \<and> (\<exists>p. parseFragments ascii_lib (bulk_recorder (\<lambda>_. 80)) [bytes ''hi'', [0x1B, 0x5D, 0x30]] (new_parser () [])
        = Some (Inr p) \<and> monitor_run Outside (listener p) = Some (mode_of (state p)))"
  using ascii_contract parse_control_strings_bracketed
    [OF ascii_contract, of "\<lambda>_. 80" "[bytes ''hi'', [0x1B, 0x5D, 0x30]]" "()"] by simp

text \<open>
  C12. Every call carries a byte of the range its interface documents: CSI and DCS final bytes lie in
  0x40..0x7E, ESC finals in 0x30..0x7E, intermediates in 0x20..0x2F, leaders in 0x3C..0x3F, and
  parameter digits are digits.
\<close>

theorem parse_finals_in_range:
  assumes "parseFragment U recorder bs (new_parser u []) = Some (Inr p)"
    and "ev \<in> set (listener p)"
  shows "final_ok ev"
  using assms final_ok_stream [of Ground ev U bs "\<lparr>utf8 = u, lastCodepointHint = 0\<rparr>"]
  by (auto simp: parse_recorder new_parser_def split: prod.splits)

theorem parse_finals_in_range_witness:
  "parseFragment ascii_lib recorder [0x1B, 0x5B, 0x6D] (new_parser () []) = Some (Inr
     \<lparr>state = Ground, listener = [Ev_printEnd, Ev_clear, Ev_clear, Ev_dispatchCSI 0x6D],
      scanState = \<lparr>utf8 = (), lastCodepointHint = 0\<rparr>\<rparr>)
   \<and> final_ok (Ev_dispatchCSI 0x6D)"
proof -
  have run: "parseFragment ascii_lib recorder [0x1B, 0x5B, 0x6D] (new_parser () []) = Some (Inr
     \<lparr>state = Ground, listener = [Ev_printEnd, Ev_clear, Ev_clear, Ev_dispatchCSI 0x6D],
      scanState = \<lparr>utf8 = (), lastCodepointHint = 0\<rparr>\<rparr>)"
    by (simp add: parse_recorder new_parser_def byte_events_simps)
  show ?thesis using run parse_finals_in_range [OF run, of "Ev_dispatchCSI 0x6D"] by simp
qed

subsection \<open>Bulk text against the state machine\<close>

text \<open>
  What libunicode documents for US-ASCII input while no multi-byte character is pending: each byte is
  a code point of its own, and the scanner takes a prefix of the chunk without control characters
  and leaves no character pending.
\<close>

definition ascii_scanner :: "'u unicode_lib \<Rightarrow> 'u \<Rightarrow> bool" where
  "ascii_scanner U u0 \<longleftrightarrow>
     expectedLength U u0 = 0 \<and> (\<forall>b < 0x80. from_utf8 U u0 b = (u0, Success b)) \<and>
     (\<forall>st chunk n st' nx cells s e.
        utf8 st = u0 \<and> (\<forall>b \<in> set chunk. b < 0x80) \<and> scan_text U st chunk n = (st', nx, cells, s, e) \<longrightarrow>
        utf8 st' = u0 \<and> s = 0 \<and> e = nx \<and> (\<forall>b \<in> set (take nx chunk). 0x20 \<le> b))"

text \<open>A run of bulk text stands for the characters of the run.\<close>

fun as_prints :: "ParserEvent \<Rightarrow> ParserEvent list" where
  "as_prints (Ev_printText txt cells) = map Ev_print txt"
| "as_prints ev = [ev]"

lemma as_prints_action:
  "concat (map as_prints (fst (action_events U a b sc))) = fst (action_events U a b sc)"
  by (cases a) (auto split: prod.splits ConvertResult.splits)

lemma as_prints_byte:
  "concat (map as_prints (fst (byte_events U b c))) = fst (byte_events U b c)"
  by (cases c) (simp add: byte_events_def Let_def case_prod_beta as_prints_action)

text \<open>On US-ASCII input the events do not depend on the scanner's hint.\<close>

lemma action_events_ascii:
  assumes "ascii_scanner U u0" "b < 0x80" "utf8 sc = u0" "utf8 sc' = u0"
  shows "fst (action_events U a b sc) = fst (action_events U a b sc')"
    and "utf8 (snd (action_events U a b sc)) = u0"
  using assms by (cases a; simp add: ascii_scanner_def)+

lemma actions_events_ascii:
  assumes "ascii_scanner U u0" "b < 0x80" "utf8 sc = u0" "utf8 sc' = u0"
  shows "fst (actions_events U as b sc) = fst (actions_events U as b sc')"
    and "utf8 (snd (actions_events U as b sc)) = u0"
proof -
  have "fst (actions_events U as b sc) = fst (actions_events U as b sc') \<and> utf8 (snd (actions_events U as b sc)) = u0"
    using assms(3,4)
  proof (induction "as" arbitrary: sc sc')
    case (Cons a "as")
    note a = action_events_ascii [OF assms(1,2)]
    have "utf8 (snd (action_events U a b sc)) = u0" "utf8 (snd (action_events U a b sc')) = u0"
      using a(2) [of sc sc a] a(2) [of sc' sc' a] Cons.prems by simp_all
    from Cons.IH [OF this] a(1) [OF Cons.prems, of a] show ?case
      by (simp add: case_prod_beta Let_def)
  qed simp
  then show "fst (actions_events U as b sc) = fst (actions_events U as b sc')"
    and "utf8 (snd (actions_events U as b sc)) = u0" by simp_all
qed

lemma byte_events_ascii:
  assumes "ascii_scanner U u0" "b < 0x80" "utf8 sc = u0" "utf8 sc' = u0"
  shows "fst (byte_events U b (s, sc)) = fst (byte_events U b (s, sc'))"
    and "fst (snd (byte_events U b (s, sc))) = fst (snd (byte_events U b (s, sc')))"
    and "utf8 (snd (snd (byte_events U b (s, sc)))) = u0"
  using actions_events_ascii [OF assms, of "[exitEvents Table s, events Table s b, entryEvents Table (transitions Table s b)]"]
    action_events_ascii [OF assms, of "events Table s b"] assms(3,4)
  by (simp_all add: byte_events_def Let_def case_prod_beta)

text \<open>Text in the ground state: the state machine prints each byte and stays there.\<close>

lemma stream_events_text:
  assumes "ascii_scanner U u0"
  shows "\<lbrakk>utf8 sc = u0; \<forall>b \<in> set cs. 0x20 \<le> b \<and> b < 0x80\<rbrakk> \<Longrightarrow>
    \<exists>sc'. stream_events U cs (Ground, sc) = (map Ev_print cs, Ground, sc') \<and> utf8 sc' = u0"
proof (induction cs arbitrary: sc)
  case (Cons b cs)
  have "from_utf8 U u0 b = (u0, Success b)" using assms Cons.prems(2) by (simp add: ascii_scanner_def)
  then have "byte_events U b (Ground, sc) = ([Ev_print b], Ground, sc\<lparr>utf8 := u0, lastCodepointHint := b\<rparr>)"
    using Cons.prems by (simp add: byte_events_simps)
  with Cons.IH [of "sc\<lparr>utf8 := u0, lastCodepointHint := b\<rparr>"] Cons.prems(2) show ?case by auto
qed simp

lemma bulk_ascii:
  assumes "scan_contract U" "ascii_scanner U u0" "utf8 (scanState p) = u0" "\<forall>b \<in> set data. b < 0x80" "data \<noteq> []"
  obtains (fsm) p1 where "parseBulkText U (bulk_recorder w) data p = Inr (FallbackToFSM, 0, p1)"
      "utf8 (scanState p1) = u0" "state p1 = state p" "listener p1 = listener p"
  | (bulk) n p1 cells where "parseBulkText U (bulk_recorder w) data p = Inr (ContinueBulk, n, p1)"
      "utf8 (scanState p1) = u0" "state p = Ground" "state p1 = Ground" "0 < n" "n \<le> length data"
      "listener p1 = listener p @ [Ev_printText (take n data) cells]" "\<forall>b \<in> set (take n data). 0x20 \<le> b"
proof (cases "state p = Ground \<and> w (listener p) \<noteq> 0")
  case False
  with assms(3) fsm [of p] show ?thesis by (auto simp: parseBulkText_def)
next
  case True
  obtain st nx cells s e where scan: "scan_text U (scanState p) data (w (listener p)) = (st, nx, cells, s, e)"
    by (metis prod_cases5)
  have c: "nx \<le> length data" "cells \<le> w (listener p)" "hd data < 0x20 \<Longrightarrow> nx = 0"
    using assms(1,5) scan unfolding scan_contract_def by blast+
  have a: "utf8 st = u0" "s = 0" "e = nx" "\<forall>b \<in> set (take nx data). 0x20 \<le> b" "expectedLength U u0 = 0"
    using assms(2,3,4) scan unfolding ascii_scanner_def by blast+
  show ?thesis
  proof (cases "nx = 0")
    case nx: True
    with True scan a(1) fsm [of "p\<lparr>scanState := st\<rparr>"] show ?thesis by (simp add: parseBulkText_def Let_def)
  next
    case False
    with c(3) have "hd data \<noteq> 0x0A" by force
    with False True scan a c bulk [of nx "p\<lparr>scanState := st, listener := listener p @ [Ev_printText (take nx data) cells]\<rparr>" cells]
    show ?thesis using assms(5) by (simp add: parseBulkText_def Let_def emit_def)
  qed
qed

lemma parse_ascii:
  assumes "scan_contract U" "ascii_scanner U u0"
  shows "\<lbrakk>utf8 (scanState p) = u0; utf8 sc = u0; \<forall>b \<in> set data. b < 0x80\<rbrakk> \<Longrightarrow>
    \<exists>p' evs sc'. parseFragment U (bulk_recorder w) data p = Some (Inr p') \<and> utf8 (scanState p') = u0 \<and>
      stream_events U data (state p, sc) = (evs, state p', sc') \<and> utf8 sc' = u0 \<and>
      concat (map as_prints (listener p')) = concat (map as_prints (listener p)) @ evs"
proof (induction "length data" arbitrary: data p sc rule: less_induct)
  case less
  show ?case
  proof (cases "data = []")
    case True
    with less.prems show ?thesis by simp
  next
    case False
    show ?thesis
    proof (rule bulk_ascii [OF assms less.prems(1,3) False, of w])
      fix p1
      assume p1: "parseBulkText U (bulk_recorder w) data p = Inr (FallbackToFSM, 0, p1)"
        "utf8 (scanState p1) = u0" "state p1 = state p" "listener p1 = listener p"
      let ?e = "byte_events U (hd data) (state p, sc)"
      let ?e1 = "byte_events U (hd data) (state p1, scanState p1)"
      let ?p2 = "p1\<lparr>listener := listener p1 @ fst ?e1, state := fst (snd ?e1), scanState := snd (snd ?e1)\<rparr>"
      have hd: "hd data < 0x80" using less.prems(3) False by simp
      have step: "processOnceViaStateMachine U (bulk_recorder w) (hd data) p1 = Inr ?p2"
        by (simp add: process_deliver deliver_def case_prod_beta)
      note e1 = byte_events_ascii [OF assms(2) hd p1(2) less.prems(2), of "state p"]
      have e: "utf8 (snd (snd ?e)) = u0" by (rule byte_events_ascii(3) [OF assms(2) hd less.prems(2,2)])
      have prems: "utf8 (scanState ?p2) = u0" "utf8 (snd (snd ?e)) = u0" "\<forall>b \<in> set (tl data). b < 0x80"
        using e1(3) p1(3) e less.prems(3) False by (simp_all add: list.set_sel(2))
      have "length (tl data) < length data" using False by simp
      from less.hyps [OF this prems] obtain p' evs sc' where
        rest: "parseFragment U (bulk_recorder w) (tl data) ?p2 = Some (Inr p')" "utf8 (scanState p') = u0"
          "stream_events U (tl data) (state ?p2, snd (snd ?e)) = (evs, state p', sc')" "utf8 sc' = u0"
          "concat (map as_prints (listener p')) = concat (map as_prints (listener ?p2)) @ evs"
        by blast
      have run: "parseFragment U (bulk_recorder w) data p = Some (Inr p')"
        using False p1(1) step rest(1) by (subst parseFragment.simps) simp
      have st: "state ?p2 = fst (snd ?e)" using e1(2) p1(3) by simp
      have "stream_events U (hd data # tl data) (state p, sc) = (fst ?e @ evs, state p', sc')"
        using rest(3) unfolding st by (simp add: case_prod_beta Let_def)
      then have "stream_events U data (state p, sc) = (fst ?e @ evs, state p', sc')" using False by simp
      with run rest(2,4,5) p1(3,4) e1(1) show ?thesis by (simp add: as_prints_byte)
    next
      fix n p1 cells
      assume p1: "parseBulkText U (bulk_recorder w) data p = Inr (ContinueBulk, n, p1)"
        "utf8 (scanState p1) = u0" "state p = Ground" "state p1 = Ground" "0 < n" "n \<le> length data"
        "listener p1 = listener p @ [Ev_printText (take n data) cells]" "\<forall>b \<in> set (take n data). 0x20 \<le> b"
      have "\<forall>b \<in> set (take n data). 0x20 \<le> b \<and> b < 0x80"
        using p1(8) less.prems(3) by (auto dest: in_set_takeD)
      then obtain sc1 where sc1: "stream_events U (take n data) (Ground, sc) = (map Ev_print (take n data), Ground, sc1)"
          "utf8 sc1 = u0"
        using stream_events_text [OF assms(2) less.prems(2)] by blast
      have "\<forall>b \<in> set (drop n data). b < 0x80" using less.prems(3) by (auto dest: in_set_dropD)
      moreover have "length (drop n data) < length data" using p1(5,6) by simp
      ultimately obtain p' evs sc' where
        rest: "parseFragment U (bulk_recorder w) (drop n data) p1 = Some (Inr p')" "utf8 (scanState p') = u0"
          "stream_events U (drop n data) (Ground, sc1) = (evs, state p', sc')" "utf8 sc' = u0"
          "concat (map as_prints (listener p')) = concat (map as_prints (listener p1)) @ evs"
        using less.hyps [of "drop n data" p1 sc1] p1(2,4) sc1(2) by auto
      have run: "parseFragment U (bulk_recorder w) data p = Some (Inr p')"
        using False p1(1,6) rest(1) by (subst parseFragment.simps) simp
      have "stream_events U (take n data @ drop n data) (Ground, sc) = (map Ev_print (take n data) @ evs, state p', sc')"
        unfolding stream_events_append sc1(1) using rest(3) by simp
      with run rest(2,4,5) p1(3,7) show ?thesis by simp
    qed
  qed
qed

lemma parse_fragments_ascii:
  assumes "scan_contract U" "ascii_scanner U u0"
  shows "\<lbrakk>utf8 (scanState p) = u0; utf8 sc = u0; \<forall>b \<in> set (concat frags). b < 0x80\<rbrakk> \<Longrightarrow>
    \<exists>p' evs sc'. parseFragments U (bulk_recorder w) frags p = Some (Inr p') \<and>
      stream_events U (concat frags) (state p, sc) = (evs, state p', sc') \<and>
      concat (map as_prints (listener p')) = concat (map as_prints (listener p)) @ evs"
proof (induction frags arbitrary: p sc)
  case (Cons data rest)
  from Cons.prems(3) have ascii: "\<forall>b \<in> set data. b < 0x80" "\<forall>b \<in> set (concat rest). b < 0x80" by simp_all
  obtain p1 evs1 sc1 where 1: "parseFragment U (bulk_recorder w) data p = Some (Inr p1)" "utf8 (scanState p1) = u0"
      "stream_events U data (state p, sc) = (evs1, state p1, sc1)" "utf8 sc1 = u0"
      "concat (map as_prints (listener p1)) = concat (map as_prints (listener p)) @ evs1"
    using parse_ascii [OF assms Cons.prems(1,2) ascii(1), of w] by blast
  obtain p' evs sc' where 2: "parseFragments U (bulk_recorder w) rest p1 = Some (Inr p')"
      "stream_events U (concat rest) (state p1, sc1) = (evs, state p', sc')"
      "concat (map as_prints (listener p')) = concat (map as_prints (listener p1)) @ evs"
    using Cons.IH [OF 1(2,4) ascii(2)] by blast
  from 1(3) 2(2) have "stream_events U (data @ concat rest) (state p, sc) = (evs1 @ evs, state p', sc')"
    unfolding stream_events_append by simp
  with 1 2 show ?case by simp
qed simp

text \<open>
  C13. Bulk text is an optimisation only, and fragmentation does not matter: for US-ASCII input, cut
  into fragments in any way, a listener that takes text in runs of any width receives the calls
  that the state machine makes on the whole input byte by byte, a run of text standing for its
  characters, and the parser ends in the same state.
\<close>

theorem bulk_text_transparent:
  assumes "scan_contract U" "ascii_scanner U u0" "\<forall>b \<in> set (concat frags). b < 0x80"
  shows "\<exists>p q. parseFragments U (bulk_recorder w) frags (new_parser u0 []) = Some (Inr p) \<and>
    run_fsm U recorder (concat frags) (new_parser u0 []) = Inr q \<and>
    state p = state q \<and> concat (map as_prints (listener p)) = listener q"
  using parse_fragments_ascii [OF assms(1,2) _ _ assms(3), of "new_parser u0 []" "scanState (new_parser u0 [])" w]
  by (auto simp: new_parser_def run_fsm_deliver deliver_def)

lemma take_takeWhile_sat:
  "x \<in> set (take (min n (length (takeWhile P xs))) xs) \<Longrightarrow> P x"
  by (metis in_set_takeD min.commute set_takeWhileD take_take takeWhile_eq_take)

lemma ascii_scanner_lib: "ascii_scanner ascii_lib ()"
  by (auto simp: ascii_scanner_def ascii_lib_def Let_def dest!: take_takeWhile_sat)

theorem bulk_text_transparent_witness:
  "scan_contract ascii_lib \<and> ascii_scanner ascii_lib () \<and>
   (\<exists>p q. parseFragments ascii_lib (bulk_recorder (\<lambda>_. 2)) [[0x61, 0x62, 0x63, 0x1B], [0x5B, 0x6D, 0x64]] (new_parser () [])
        = Some (Inr p) \<and>
      run_fsm ascii_lib recorder [0x61, 0x62, 0x63, 0x1B, 0x5B, 0x6D, 0x64] (new_parser () []) = Inr q \<and>
      state p = state q \<and> concat (map as_prints (listener p)) = listener q)"
  using ascii_contract ascii_scanner_lib
    bulk_text_transparent [OF ascii_contract ascii_scanner_lib, of "[[0x61, 0x62, 0x63, 0x1B], [0x5B, 0x6D, 0x64]]" "\<lambda>_. 2"]
  by simp

subsection \<open>Recovery, and what the parser drops\<close>

lemma process_state:
  assumes "processOnceViaStateMachine U L b p = Inr p'" and "state p \<noteq> State_Undefined"
  shows "state p' = (if b = 0x18 \<or> b = 0x1A then Ground else if b = 0x1B then Escape
     else if next_state (state p) b = State_Undefined then state p else next_state (state p) b)"
proof -
  obtain e s c where b: "byte_events U b (state p, scanState p) = (e, s, c)" by (metis prod_cases3)
  with assms(1) have "state p' = s" by (auto simp: process_deliver dest: state_deliver)
  with b next_state_cases [OF assms(2), of U b "scanState p"] show ?thesis by simp
qed

text \<open>
  C14. Recovery: from every state, CAN, SUB or the string terminator ESC backslash lead back to the
  ground state.
\<close>

theorem parse_recovers:
  assumes "state p \<noteq> State_Undefined"
    and "run_fsm U L bs p = Inr p'" and "bs \<in> {[0x18], [0x1A], [0x1B, 0x5C]}"
  shows "state p' = Ground"
proof -
  have one: "state q' = Ground"
    if "processOnceViaStateMachine U L b p = Inr q'" and "b = 0x18 \<or> b = 0x1A" for b q'
    using process_state [OF that(1) assms(1)] that(2) by auto
  have two: "state q' = Ground"
    if "processOnceViaStateMachine U L 0x1B p = Inr q"
      and "processOnceViaStateMachine U L 0x5C q = Inr q'" for q q'
    using process_state [OF that(1) assms(1)] process_state [OF that(2)] by simp
  show ?thesis
    using assms(2,3) by (auto simp: run_fsm_def bind_result_eq_Inr intro: one two)
qed

theorem parse_recovers_witness:
  "run_fsm ascii_lib recorder [0x18] (new_parser () []) = Inr
     \<lparr>state = Ground, listener = [Ev_printEnd], scanState = \<lparr>utf8 = (), lastCodepointHint = 0\<rparr>\<rparr>
   \<and> state (\<lparr>state = Ground, listener = [Ev_printEnd],
       scanState = \<lparr>utf8 = (), lastCodepointHint = 0\<rparr>\<rparr> :: (unit, ParserEvent list) Parser) = Ground"
proof -
  have run: "run_fsm ascii_lib recorder [0x18] (new_parser () []) = Inr
     \<lparr>state = Ground, listener = [Ev_printEnd], scanState = \<lparr>utf8 = (), lastCodepointHint = 0\<rparr>\<rparr>"
    by (simp add: run_fsm_deliver deliver_def new_parser_def byte_events_simps)
  show ?thesis using run parse_recovers [OF _ run] by (simp add: new_parser_def)
qed

text \<open>
  The line feed shortcut of \<open>parseBulkText\<close> is dead code: with a scanner that keeps its contract the
  bulk path hands over at most one run of text and never executes a control character.
\<close>

theorem bulk_text_never_executes:
  assumes "scan_contract U" and "chunk \<noteq> []"
    and "parseBulkText U (recorder\<lparr>maxBulkTextSequenceWidth := w\<rparr>) chunk p = Inr (k, n, p')"
  shows "listener p' = listener p \<or> (\<exists>txt cells. listener p' = listener p @ [Ev_printText txt cells])"
proof -
  let ?L = "recorder\<lparr>maxBulkTextSequenceWidth := w\<rparr>"
  obtain st nx cells s e where scan:
    "scan_text U (scanState p) chunk (w (listener p)) = (st, nx, cells, s, e)"
    by (metis prod_cases5)
  with assms(1,2) have "hd chunk < 0x20 \<Longrightarrow> nx = 0"
    unfolding scan_contract_def by blast
  then have "nx = 0 \<or> hd chunk \<noteq> 0x0A" by force
  with assms(3) scan show ?thesis
    by (auto simp: parseBulkText_def Let_def emit_def recorder_def split: if_splits)
qed

theorem bulk_text_never_executes_witness:
  "scan_contract ascii_lib
   \<and> parseBulkText ascii_lib (recorder\<lparr>maxBulkTextSequenceWidth := \<lambda>_. 80\<rparr>) (bytes ''hi'') (new_parser () [])
     = Inr (ContinueBulk, 2, \<lparr>state = Ground, listener = [Ev_printText (bytes ''hi'') 2],
              scanState = \<lparr>utf8 = (), lastCodepointHint = 0\<rparr>\<rparr>)
   \<and> (\<exists>txt cells. [Ev_printText (bytes ''hi'') 2] = [] @ [Ev_printText txt cells])"
proof -
  have run: "parseBulkText ascii_lib (recorder\<lparr>maxBulkTextSequenceWidth := \<lambda>_. 80\<rparr>) (bytes ''hi'')
       (new_parser () [])
     = Inr (ContinueBulk, 2, \<lparr>state = Ground, listener = [Ev_printText (bytes ''hi'') 2],
              scanState = \<lparr>utf8 = (), lastCodepointHint = 0\<rparr>\<rparr>)"
    by (simp add: parseBulkText_def ascii_lib_def new_parser_def emit_def recorder_def Let_def)
  show ?thesis
    using run ascii_contract bulk_text_never_executes [OF ascii_contract _ run]
    by (simp add: new_parser_def)
qed

text \<open>
  An intermediate byte after the parameters of a device control string is dropped: the parser moves
  on without telling the listener (in a control sequence the same byte is collected).
\<close>

theorem dcs_param_drops_intermediate:
  assumes "state p = DCS_Param" and "0x20 \<le> b" and "b \<le> 0x2F"
  shows "processOnceViaStateMachine U L b p = Inr (p\<lparr>state := DCS_Intermediate\<rparr>)"
  using assms by (simp add: processOnceViaStateMachine_def Table_transitions Table_events
      Table_exitEvents Table_entryEvents Let_def is_C0_def)

theorem dcs_param_drops_intermediate_witness:
  "processOnceViaStateMachine ascii_lib recorder 0x24 ((new_parser () [])\<lparr>state := DCS_Param\<rparr>)
   = Inr ((new_parser () [])\<lparr>state := DCS_Intermediate\<rparr>)"
  using dcs_param_drops_intermediate [of "(new_parser () [])\<lparr>state := DCS_Param\<rparr>" "0x24" ascii_lib recorder]
  by (simp add: new_parser_def)

end
