(* ===== verification/Crispy_Sort.thy ===== *)
theory Crispy_Sort
  imports Main "HOL-Library.Multiset"
begin

text \<open>
  \<open>src/src/crispy/sort.h\<close>: quicksort on a random access container with a three-way comparison.
  The container is a list; \<open>partition\<close> and \<open>sort\<close> work on the index range \<open>low..high\<close> in place.
\<close>

subsection \<open>The code\<close>

definition swap_at :: "'a list \<Rightarrow> nat \<Rightarrow> nat \<Rightarrow> 'a list" where
  "swap_at xs i j = xs[i := xs ! j, j := xs ! i]"

text \<open>
  The loop of \<open>partition\<close>. The code's \<open>i\<close> starts at \<open>low - 1\<close>, which wraps around for \<open>low = 0\<close>, and is
  incremented before every use; the model keeps \<open>i + 1\<close>.
\<close>

function partition_loop ::
  "('a \<Rightarrow> 'a \<Rightarrow> int) \<Rightarrow> nat \<Rightarrow> nat \<Rightarrow> nat \<Rightarrow> 'a list \<Rightarrow> nat \<times> 'a list" where
  "partition_loop compare high i1 j container =
     (if j < high
      then if compare (container ! j) (container ! high) \<le> 0
           then partition_loop compare high (Suc i1) (Suc j) (swap_at container i1 j)
           else partition_loop compare high i1 (Suc j) container
      else (i1, container))"
  by pat_completeness auto
termination
  by (relation "measure (\<lambda>(compare, high, i1, j, container). high - j)") auto

declare partition_loop.simps [simp del]

lemma partition_loop_simps [simp]:
  "\<not> j < high \<Longrightarrow> partition_loop cmp high i1 j xs = (i1, xs)"
  "j < high \<Longrightarrow> cmp (xs ! j) (xs ! high) \<le> 0 \<Longrightarrow>
     partition_loop cmp high i1 j xs = partition_loop cmp high (Suc i1) (Suc j) (swap_at xs i1 j)"
  "j < high \<Longrightarrow> \<not> cmp (xs ! j) (xs ! high) \<le> 0 \<Longrightarrow>
     partition_loop cmp high i1 j xs = partition_loop cmp high i1 (Suc j) xs"
  by (simp_all add: partition_loop.simps [of cmp high i1 j xs])

definition partition_range :: "('a \<Rightarrow> 'a \<Rightarrow> int) \<Rightarrow> nat \<Rightarrow> nat \<Rightarrow> 'a list \<Rightarrow> nat \<times> 'a list" where
  "partition_range compare low high container =
     (let (i, xs) = partition_loop compare high low low container in (i, swap_at xs i high))"

lemma partition_loop_index:
  "i1 \<le> j \<Longrightarrow> j \<le> high \<Longrightarrow>
     i1 \<le> fst (partition_loop cmp high i1 j xs) \<and> fst (partition_loop cmp high i1 j xs) \<le> high"
proof (induction cmp high i1 j xs rule: partition_loop.induct)
  case (1 cmp high i1 j xs)
  show ?case
  proof (cases "j < high")
    case True
    then show ?thesis
      using "1.IH" "1.prems" by (cases "cmp (xs ! j) (xs ! high) \<le> 0") fastforce+
  next
    case False
    with "1.prems" show ?thesis by simp
  qed
qed

lemma partition_range_index:
  "low \<le> high \<Longrightarrow> low \<le> fst (partition_range cmp low high xs) \<and> fst (partition_range cmp low high xs) \<le> high"
  using partition_loop_index [of low low high cmp xs]
  by (simp add: partition_range_def case_prod_beta Let_def)

function sort_range :: "('a \<Rightarrow> 'a \<Rightarrow> int) \<Rightarrow> nat \<Rightarrow> nat \<Rightarrow> 'a list \<Rightarrow> 'a list" where
  "sort_range compare low high container =
     (if low < high
      then let r = partition_range compare low high container;
               xs = (if 0 < fst r then sort_range compare low (fst r - 1) (snd r) else snd r)
           in sort_range compare (Suc (fst r)) high xs
      else container)"
  by pat_completeness auto
termination
proof (relation "measure (\<lambda>(cmp, low, high, xs). Suc high - low)", goal_cases)
  case 1
  then show ?case by simp
next
  case (2 cmp low high xs r)
  then show ?case using partition_range_index [of low high cmp xs] by auto
next
  case (3 cmp low high xs r)
  then show ?case using partition_range_index [of low high cmp xs] by auto
qed

declare sort_range.simps [simp del]

definition crispy_sort :: "('a \<Rightarrow> 'a \<Rightarrow> int) \<Rightarrow> 'a list \<Rightarrow> 'a list" where
  "crispy_sort compare container =
     (if 1 < length container then sort_range compare 0 (length container - 1) container else container)"

text \<open>The overload without a comparison orders by \<open>operator<\<close>.\<close>

definition crispy_sort_default :: "'a :: linorder list \<Rightarrow> 'a list" where
  "crispy_sort_default = crispy_sort (\<lambda>a b. if a < b then -1 else if b < a then 1 else 0)"

subsection \<open>Permutation of a range\<close>

definition same_outside :: "nat \<Rightarrow> nat \<Rightarrow> 'a list \<Rightarrow> 'a list \<Rightarrow> bool" where
  "same_outside low high xs ys \<longleftrightarrow>
     length ys = length xs \<and> mset ys = mset xs \<and> (\<forall>k. k < low \<or> high < k \<longrightarrow> ys ! k = xs ! k)"

lemma same_outside_refl [simp]: "same_outside low high xs xs"
  by (simp add: same_outside_def)

lemma same_outside_trans:
  "same_outside l h xs ys \<Longrightarrow> same_outside l' h' ys zs \<Longrightarrow> l \<le> l' \<Longrightarrow> h' \<le> h \<Longrightarrow> same_outside l h xs zs"
  by (auto simp: same_outside_def)

lemma same_outside_swap:
  assumes "low \<le> i" "i \<le> j" "j \<le> high" "high < length xs"
  shows "same_outside low high xs (swap_at xs i j)"
proof -
  have "mset (xs[i := xs ! j, j := xs ! i]) = mset xs"
    using assms by (intro mset_swap) auto
  with assms show ?thesis by (auto simp: same_outside_def swap_at_def nth_list_update)
qed

definition slice :: "nat \<Rightarrow> nat \<Rightarrow> 'a list \<Rightarrow> 'a list" where
  "slice low high xs = drop low (take (Suc high) xs)"

lemma same_outside_slice:
  assumes "same_outside low high xs ys" and "low \<le> Suc high"
  shows "mset (slice low high ys) = mset (slice low high xs)"
proof -
  have len: "length ys = length xs" and perm: "mset ys = mset xs"
    and out: "\<And>k. k < low \<or> high < k \<Longrightarrow> ys ! k = xs ! k"
    using assms(1) by (auto simp: same_outside_def)
  have t: "take low ys = take low xs"
    by (rule nth_equalityI) (simp_all add: len out)
  have d: "drop (Suc high) ys = drop (Suc high) xs"
    by (rule nth_equalityI) (simp_all add: len out)
  have split: "mset zs = mset (take low zs) + mset (slice low high zs) + mset (drop (Suc high) zs)"
    for zs :: "'a list"
  proof -
    have "take low (take (Suc high) zs) = take low zs" using assms(2) by (simp add: min_absorb1)
    then have "take (Suc high) zs = take low zs @ slice low high zs"
      by (metis append_take_drop_id slice_def)
    then show ?thesis by (metis append_take_drop_id mset_append)
  qed
  have "mset (take low ys) + mset (slice low high ys) + mset (drop (Suc high) ys)
      = mset (take low xs) + mset (slice low high xs) + mset (drop (Suc high) xs)"
    using perm split [of xs] split [of ys] by simp
  with t d show ?thesis by simp
qed

lemma same_outside_elem:
  assumes "same_outside low high xs ys" and "low \<le> k" "k \<le> high" "high < length xs"
  shows "\<exists>m. low \<le> m \<and> m \<le> high \<and> ys ! k = xs ! m"
proof -
  have "ys ! k = slice low high ys ! (k - low)" and "k - low < length (slice low high ys)"
    using assms by (auto simp: slice_def same_outside_def)
  then have "ys ! k \<in> set (slice low high ys)" by (metis nth_mem)
  also have "\<dots> = set (slice low high xs)"
    using same_outside_slice [OF assms(1)] assms(2,3) by (metis le_SucI le_trans set_mset_mset)
  finally obtain m where "m < length (slice low high xs)" and "ys ! k = slice low high xs ! m"
    by (metis in_set_conv_nth)
  then show ?thesis using assms(4) by (intro exI [of _ "low + m"]) (auto simp: slice_def)
qed

subsection \<open>Correctness\<close>

lemma swap_at_nth:
  "i < length xs \<Longrightarrow> j < length xs \<Longrightarrow>
     swap_at xs i j ! k = (if k = i then xs ! j else if k = j then xs ! i else xs ! k)"
  by (auto simp: swap_at_def nth_list_update)

lemma length_swap_at [simp]: "length (swap_at xs i j) = length xs"
  by (simp add: swap_at_def)

lemma partition_loop_spec:
  assumes "low \<le> i1" "i1 \<le> j" "j \<le> high" "high < length xs"
    and "\<And>k. low \<le> k \<Longrightarrow> k < i1 \<Longrightarrow> cmp (xs ! k) (xs ! high) \<le> 0"
    and "\<And>k. i1 \<le> k \<Longrightarrow> k < j \<Longrightarrow> \<not> cmp (xs ! k) (xs ! high) \<le> 0"
    and "partition_loop cmp high i1 j xs = (i, ys)"
  shows "same_outside low high xs ys \<and> ys ! high = xs ! high \<and> low \<le> i \<and> i \<le> high
    \<and> (\<forall>k. low \<le> k \<longrightarrow> k < i \<longrightarrow> cmp (ys ! k) (ys ! high) \<le> 0)
    \<and> (\<forall>k. i \<le> k \<longrightarrow> k < high \<longrightarrow> \<not> cmp (ys ! k) (ys ! high) \<le> 0)"
  using assms
proof (induction cmp high i1 j xs rule: partition_loop.induct)
  case (1 cmp high i1 j xs)
  show ?case
  proof (cases "j < high")
    case False
    with 1 show ?thesis by auto
  next
    case j: True
    show ?thesis
    proof (cases "cmp (xs ! j) (xs ! high) \<le> 0")
      case le: True
      let ?xs = "swap_at xs i1 j"
      have nth: "?xs ! k = (if k = i1 then xs ! j else if k = j then xs ! i1 else xs ! k)" for k
        using "1.prems" j by (intro swap_at_nth) auto
      have low: "cmp (?xs ! k) (?xs ! high) \<le> 0" if "low \<le> k" "k < Suc i1" for k
        using that le j "1.prems"(2,5) by (auto simp: nth)
      have high: "\<not> cmp (?xs ! k) (?xs ! high) \<le> 0" if "Suc i1 \<le> k" "k < Suc j" for k
        using that j "1.prems"(2,6) by (auto simp: nth)
      have res: "same_outside low high ?xs ys \<and> ys ! high = ?xs ! high \<and> low \<le> i \<and> i \<le> high
        \<and> (\<forall>k. low \<le> k \<longrightarrow> k < i \<longrightarrow> cmp (ys ! k) (ys ! high) \<le> 0)
        \<and> (\<forall>k. i \<le> k \<longrightarrow> k < high \<longrightarrow> \<not> cmp (ys ! k) (ys ! high) \<le> 0)"
        using j le "1.prems" by (intro "1.IH"(1) low high) simp_all
      moreover have "same_outside low high xs ?xs"
        using "1.prems" j by (intro same_outside_swap) auto
      moreover have "?xs ! high = xs ! high" using j "1.prems"(2) by (simp add: nth)
      ultimately show ?thesis by (auto dest: same_outside_trans)
    next
      case gt: False
      have "\<not> cmp (xs ! k) (xs ! high) \<le> 0" if "i1 \<le> k" "k < Suc j" for k
        using that gt "1.prems"(6) by (cases "k = j") auto
      then show ?thesis using j gt "1.prems" by (intro "1.IH"(2)) simp_all
    qed
  qed
qed

lemma partition_range_spec:
  assumes "low \<le> high" "high < length xs" and "partition_range cmp low high xs = (i, ys)"
  shows "same_outside low high xs ys \<and> low \<le> i \<and> i \<le> high
    \<and> (\<forall>k. low \<le> k \<longrightarrow> k < i \<longrightarrow> cmp (ys ! k) (ys ! i) \<le> 0)
    \<and> (\<forall>k. i < k \<longrightarrow> k \<le> high \<longrightarrow> \<not> cmp (ys ! k) (ys ! i) \<le> 0)"
proof -
  obtain zs where loop: "partition_loop cmp high low low xs = (i, zs)" and ys: "ys = swap_at zs i high"
    using assms(3) by (auto simp: partition_range_def Let_def split: prod.splits)
  have l: "same_outside low high xs zs \<and> zs ! high = xs ! high \<and> low \<le> i \<and> i \<le> high
    \<and> (\<forall>k. low \<le> k \<longrightarrow> k < i \<longrightarrow> cmp (zs ! k) (zs ! high) \<le> 0)
    \<and> (\<forall>k. i \<le> k \<longrightarrow> k < high \<longrightarrow> \<not> cmp (zs ! k) (zs ! high) \<le> 0)"
    using assms(1,2) by (intro partition_loop_spec [OF _ _ _ _ _ _ loop]) auto
  then have len: "length zs = length xs" by (simp add: same_outside_def)
  have nth: "ys ! k = (if k = i then zs ! high else if k = high then zs ! i else zs ! k)" for k
    unfolding ys using l assms(2) len by (intro swap_at_nth) auto
  have "same_outside low high zs ys"
    unfolding ys using l assms(2) len by (intro same_outside_swap) auto
  with l have "same_outside low high xs ys" by (auto dest: same_outside_trans)
  with l show ?thesis by (auto simp: nth)
qed

text \<open>
  What the sort relies on: a three-way comparison whose \<open>\<le> 0\<close> is a total preorder.
\<close>

locale comparison =
  fixes cmp :: "'a \<Rightarrow> 'a \<Rightarrow> int"
  assumes total: "cmp a b \<le> 0 \<or> cmp b a \<le> 0"
    and trans: "cmp a b \<le> 0 \<Longrightarrow> cmp b c \<le> 0 \<Longrightarrow> cmp a c \<le> 0"
begin

definition ordered :: "nat \<Rightarrow> nat \<Rightarrow> 'a list \<Rightarrow> bool" where
  "ordered low high xs \<longleftrightarrow> (\<forall>a b. low \<le> a \<longrightarrow> a < b \<longrightarrow> b \<le> high \<longrightarrow> cmp (xs ! a) (xs ! b) \<le> 0)"

lemma ordered_join:
  assumes i: "low \<le> i" "i \<le> high"
    and left: "\<And>a b. low \<le> a \<Longrightarrow> a < b \<Longrightarrow> b < i \<Longrightarrow> cmp (xs ! a) (xs ! b) \<le> 0"
    and right: "ordered (Suc i) high xs"
    and le: "\<And>a. low \<le> a \<Longrightarrow> a < i \<Longrightarrow> cmp (xs ! a) (xs ! i) \<le> 0"
    and gt: "\<And>b. i < b \<Longrightarrow> b \<le> high \<Longrightarrow> \<not> cmp (xs ! b) (xs ! i) \<le> 0"
  shows "ordered low high xs"
proof -
  have ge: "cmp (xs ! i) (xs ! b) \<le> 0" if "i < b" "b \<le> high" for b
    using gt [OF that] total by blast
  have "cmp (xs ! a) (xs ! b) \<le> 0" if ab: "low \<le> a" "a < b" "b \<le> high" for a b
  proof -
    consider "b < i" | "b = i" | "a = i" | "i < a" | "a < i" "i < b" using ab by linarith
    then show ?thesis
    proof cases
      case 5
      then show ?thesis using trans [OF le ge] ab by simp
    next
      case 4
      then show ?thesis using right ab by (simp add: ordered_def)
    qed (use ab left le ge in auto)
  qed
  then show ?thesis by (simp add: ordered_def)
qed

text \<open>Sorting the part left of the pivot, or nothing when the pivot is the first element.\<close>

lemma left_part:
  assumes IH: "0 < i \<longrightarrow> same_outside low (i - 1) ys (sort_range cmp low (i - 1) ys)
      \<and> ordered low (i - 1) (sort_range cmp low (i - 1) ys)"
    and bounds: "low \<le> i" "i < length ys"
    and le: "\<And>a. low \<le> a \<Longrightarrow> a < i \<Longrightarrow> cmp (ys ! a) (ys ! i) \<le> 0"
    and zs: "zs = (if 0 < i then sort_range cmp low (i - 1) ys else ys)"
  shows "length zs = length ys" "mset zs = mset ys" "\<And>k. k < low \<or> i \<le> k \<Longrightarrow> zs ! k = ys ! k"
    "\<And>a. low \<le> a \<Longrightarrow> a < i \<Longrightarrow> cmp (zs ! a) (zs ! i) \<le> 0"
    "\<And>a b. low \<le> a \<Longrightarrow> a < b \<Longrightarrow> b < i \<Longrightarrow> cmp (zs ! a) (zs ! b) \<le> 0"
proof -
  have so: "0 < i \<Longrightarrow> same_outside low (i - 1) ys zs" and ord: "0 < i \<Longrightarrow> ordered low (i - 1) zs"
    using IH zs by auto
  show "length zs = length ys" and "mset zs = mset ys"
    using so zs by (cases "0 < i"; simp add: same_outside_def)+
  show out: "zs ! k = ys ! k" if "k < low \<or> i \<le> k" for k
    using so zs that by (cases "0 < i") (auto simp: same_outside_def)
  show "cmp (zs ! a) (zs ! i) \<le> 0" if "low \<le> a" "a < i" for a
  proof -
    have h: "same_outside low (i - 1) ys zs" "low \<le> a" "a \<le> i - 1" "i - 1 < length ys"
      using so that bounds by auto
    obtain m where "low \<le> m" "m \<le> i - 1" "zs ! a = ys ! m"
      using same_outside_elem [OF h] by blast
    then show ?thesis using le [of m] that out [of i] by simp
  qed
  show "cmp (zs ! a) (zs ! b) \<le> 0" if "low \<le> a" "a < b" "b < i" for a b
    using ord that by (simp add: ordered_def)
qed

lemma sort_range_spec:
  "high < length xs \<Longrightarrow>
     same_outside low high xs (sort_range cmp low high xs) \<and> ordered low high (sort_range cmp low high xs)"
proof (induction "Suc high - low" arbitrary: low high xs rule: less_induct)
  case less
  show ?case
  proof (cases "low < high")
    case False
    then show ?thesis by (simp add: sort_range.simps [of cmp low high xs] ordered_def)
  next
    case True
    obtain i ys where part: "partition_range cmp low high xs = (i, ys)" by fastforce
    define zs where "zs = (if 0 < i then sort_range cmp low (i - 1) ys else ys)"
    define us where "us = sort_range cmp (Suc i) high zs"
    have res: "sort_range cmp low high xs = us"
      using True by (simp add: sort_range.simps [of cmp low high xs] part Let_def zs_def us_def)
    note p = partition_range_spec [OF less_imp_le [OF True] less.prems part]
    from p have i: "low \<le> i" "i \<le> high" and leny: "length ys = length xs"
      by (auto simp: same_outside_def)
    have IH1: "0 < i \<longrightarrow> same_outside low (i - 1) ys (sort_range cmp low (i - 1) ys)
        \<and> ordered low (i - 1) (sort_range cmp low (i - 1) ys)"
      using less.prems i leny True by (intro impI less.hyps) auto
    have "i < length ys" using i less.prems leny by simp
    note left_raw = left_part [OF IH1 i(1) this _ zs_def]
    have "\<And>a. low \<le> a \<Longrightarrow> a < i \<Longrightarrow> cmp (ys ! a) (ys ! i) \<le> 0" using p by blast
    note left = left_raw [OF this]
    have IH2: "same_outside (Suc i) high zs us \<and> ordered (Suc i) high us"
      unfolding us_def using less.prems i leny left(1) by (intro less.hyps) auto
    have same: "us ! k = zs ! k" if "k \<le> i" for k using IH2 that by (simp add: same_outside_def)
    have gt: "\<not> cmp (us ! b) (us ! i) \<le> 0" if "i < b" "b \<le> high" for b
    proof -
      have h: "Suc i \<le> b" "b \<le> high" "high < length zs" using that less.prems leny left(1) by auto
      obtain m where m: "Suc i \<le> m" "m \<le> high" "us ! b = zs ! m"
        using same_outside_elem [OF conjunct1 [OF IH2] h] by blast
      then show ?thesis using p same [of i] left(3) [of m] left(3) [of i] by auto
    qed
    have "ordered low high us"
      using i left(4,5) IH2 gt by (intro ordered_join [of low i high]) (simp_all add: same)
    moreover have "same_outside low high xs us"
      using p IH2 left(1-3) i by (auto simp: same_outside_def)
    ultimately show ?thesis by (simp add: res)
  qed
qed

lemma sort_permutes: "mset (crispy_sort cmp xs) = mset xs"
  using sort_range_spec [of "length xs - 1" xs 0] by (auto simp: crispy_sort_def same_outside_def)

lemma sort_sorts: "sorted_wrt (\<lambda>a b. cmp a b \<le> 0) (crispy_sort cmp xs)"
proof (cases "1 < length xs")
  case True
  then have "same_outside 0 (length xs - 1) xs (crispy_sort cmp xs)"
    and "ordered 0 (length xs - 1) (crispy_sort cmp xs)"
    using sort_range_spec [of "length xs - 1" xs 0] by (auto simp: crispy_sort_def)
  then show ?thesis by (auto simp: sorted_wrt_iff_nth_less ordered_def same_outside_def)
next
  case False
  then have "length xs = 0 \<or> length xs = 1" by linarith
  then show ?thesis by (auto simp: crispy_sort_def length_Suc_conv)
qed

end

subsection \<open>The default order\<close>

interpretation default_comparison:
  comparison "\<lambda>a b :: 'a :: linorder. if a < b then - 1 else if b < a then 1 else 0"
  by unfold_locales (auto split: if_splits)

text \<open>
  C15. \<open>crispy::sort\<close> with the default comparison is the sorting function: on every container it
  returns the sorted permutation of its elements.
\<close>

theorem crispy_sort_default_eq: "crispy_sort_default xs = sort xs"
proof (rule properties_for_sort [symmetric])
  show "mset (crispy_sort_default xs) = mset xs"
    using default_comparison.sort_permutes by (simp add: crispy_sort_default_def)
  have le: "((if a < b then - 1 else if b < a then 1 else 0) \<le> (0 :: int)) = (a \<le> b)" for a b :: 'a
    by auto
  show "sorted (crispy_sort_default xs)"
    using default_comparison.sort_sorts [of xs]
    by (simp add: crispy_sort_default_def le)
qed

end
