(* ===== verification/VT_Functions.thy ===== *)
theory VT_Functions
  imports Prelude Crispy_Sort
begin

unbundle bit_operations_syntax

text \<open>
  The VT functions of \<open>src/src/vtbackend/Functions.h\<close> and \<open>Functions.cpp\<close>: the table of all
  functions the terminal knows, the order the table is kept in, the set of currently supported
  sequences (\<open>SupportedSequences\<close>), and the binary search that maps a parsed sequence to its
  function (\<open>select\<close>).

  Of the documentation strings only the mnemonic is kept.
\<close>

subsection \<open>Functions\<close>

datatype FunctionCategory = C0 | ESC | CSI | OSC | DCS

fun category_value :: "FunctionCategory \<Rightarrow> nat" where
  "category_value C0 = 0"
| "category_value ESC = 1"
| "category_value CSI = 2"
| "category_value OSC = 3"
| "category_value DCS = 4"

datatype VTType = VT100 | VT220 | VT240 | VT330 | VT340 | VT320 | VT420 | VT510 | VT520 | VT525

fun vttype_value :: "VTType \<Rightarrow> nat" where
  "vttype_value VT100 = 0"
| "vttype_value VT220 = 1"
| "vttype_value VT240 = 2"
| "vttype_value VT330 = 18"
| "vttype_value VT340 = 19"
| "vttype_value VT320 = 24"
| "vttype_value VT420 = 41"
| "vttype_value VT510 = 61"
| "vttype_value VT520 = 64"
| "vttype_value VT525 = 65"

datatype VTExtension = Ext_None | Ext_Unknown | Ext_XTerm | Ext_Contour

record Function =
  category :: FunctionCategory
  leader :: byte
  intermediate :: byte
  finalSymbol :: byte
  minimumParameters :: nat
  maximumParameters :: nat
  conformanceLevel :: VTType
  extension :: VTExtension
  mnemonic :: string

text \<open>The byte string that invokes a function with the given parameters (\<open>Function::operator()\<close>).\<close>

fun category_prefix :: "FunctionCategory \<Rightarrow> bytes" where
  "category_prefix C0 = []"
| "category_prefix ESC = [0x1B]"
| "category_prefix CSI = [0x1B, 0x5B]"
| "category_prefix OSC = [0x1B, 0x5D]"
| "category_prefix DCS = [0x1B, 0x50]"

definition invoke :: "Function \<Rightarrow> nat list \<Rightarrow> bytes result" where
  "invoke f args =
     (if minimumParameters f \<le> length args \<and> length args \<le> maximumParameters f
      then Inr (category_prefix (category f)
        @ (if leader f \<noteq> 0 then [leader f] else [])
        @ (if args \<noteq> [] then butlast (concat (map (\<lambda>a. decimal a @ [0x3B]) args)) else [])
        @ (if intermediate f \<noteq> 0 then [intermediate f] else [])
        @ [finalSymbol f])
      else Inl AssertionFailed)"

definition function_id :: "Function \<Rightarrow> 32 word" where
  "function_id f =
     (let maskCat = push_bit 0 (of_nat (category_value (category f)));
          maskLeader = (if leader f = 0 then 0 else push_bit 3 (of_int (schar (leader f)) - 0x3C));
          maskInterm = (if intermediate f = 0 then 0
                        else push_bit (3 + 3) (of_int (schar (intermediate f)) - 0x20 + 1));
          maskFinalS = (if finalSymbol f = 0 then 0
                        else push_bit (3 + 3 + 4) (of_int (schar (finalSymbol f)) - 0x40));
          maskMinPar = push_bit (3 + 3 + 4 + 7) (of_nat (minimumParameters f));
          maskMaxPar = push_bit (3 + 3 + 4 + 7 + 4) (of_nat (maximumParameters f))
      in maskCat OR maskLeader OR maskInterm OR maskFinalS OR maskMinPar OR maskMaxPar)"

definition compare :: "Function \<Rightarrow> Function \<Rightarrow> int" where
  "compare a b =
     (if category a \<noteq> category b
      then int (category_value (category a)) - int (category_value (category b))
      else if finalSymbol a \<noteq> finalSymbol b then schar (finalSymbol a) - schar (finalSymbol b)
      else if leader a \<noteq> leader b then schar (leader a) - schar (leader b)
      else if intermediate a \<noteq> intermediate b then schar (intermediate a) - schar (intermediate b)
      else if minimumParameters a \<noteq> minimumParameters b
      then int (minimumParameters a) - int (minimumParameters b)
      else int (maximumParameters a) - int (maximumParameters b))"

record FunctionSelector =
  sel_category :: FunctionCategory
  sel_leader :: byte
  sel_argc :: int
  sel_intermediate :: byte
  sel_finalSymbol :: byte

definition compare_selector :: "FunctionSelector \<Rightarrow> Function \<Rightarrow> int" where
  "compare_selector a b =
     (if sel_category a \<noteq> category b
      then int (category_value (sel_category a)) - int (category_value (category b))
      else if sel_finalSymbol a \<noteq> finalSymbol b then schar (sel_finalSymbol a) - schar (finalSymbol b)
      else if sel_leader a \<noteq> leader b then schar (sel_leader a) - schar (leader b)
      else if sel_intermediate a \<noteq> intermediate b
      then schar (sel_intermediate a) - schar (intermediate b)
      else if sel_category a = OSC then sel_argc a - int (maximumParameters b)
      else if sel_argc a < int (minimumParameters b) then -1
      else if sel_argc a > int (maximumParameters b) then 1
      else 0)"

subsection \<open>The table\<close>

definition mk_C0 :: "byte \<Rightarrow> string \<Rightarrow> VTType \<Rightarrow> Function" where
  "mk_C0 finalCharacter name vt =
     \<lparr>category = C0, leader = 0, intermediate = 0, finalSymbol = finalCharacter,
      minimumParameters = 0, maximumParameters = 0, conformanceLevel = vt, extension = Ext_None,
      mnemonic = name\<rparr>"

definition mk_OSC :: "nat \<Rightarrow> VTExtension \<Rightarrow> string \<Rightarrow> Function" where
  "mk_OSC code ext name =
     \<lparr>category = OSC, leader = 0, intermediate = 0, finalSymbol = 0,
      minimumParameters = 0, maximumParameters = code, conformanceLevel = VT100, extension = ext,
      mnemonic = name\<rparr>"

definition mk_ESC :: "byte \<Rightarrow> byte \<Rightarrow> VTType \<Rightarrow> string \<Rightarrow> Function" where
  "mk_ESC interm finalCharacter vt name =
     \<lparr>category = ESC, leader = 0, intermediate = interm, finalSymbol = finalCharacter,
      minimumParameters = 0, maximumParameters = 0, conformanceLevel = vt, extension = Ext_None,
      mnemonic = name\<rparr>"

definition mk_CSI ::
  "byte \<Rightarrow> nat \<Rightarrow> nat \<Rightarrow> byte \<Rightarrow> byte \<Rightarrow> VTType \<Rightarrow> string \<Rightarrow> Function" where
  "mk_CSI lead argc0 argc1 interm finalCharacter vt name =
     \<lparr>category = CSI, leader = lead, intermediate = interm, finalSymbol = finalCharacter,
      minimumParameters = argc0, maximumParameters = argc1, conformanceLevel = vt,
      extension = Ext_None, mnemonic = name\<rparr>"

definition mk_CSI_ext ::
  "byte \<Rightarrow> nat \<Rightarrow> nat \<Rightarrow> byte \<Rightarrow> byte \<Rightarrow> VTExtension \<Rightarrow> string \<Rightarrow> Function" where
  "mk_CSI_ext lead argc0 argc1 interm finalCharacter ext name =
     \<lparr>category = CSI, leader = lead, intermediate = interm, finalSymbol = finalCharacter,
      minimumParameters = argc0, maximumParameters = argc1, conformanceLevel = VT100,
      extension = ext, mnemonic = name\<rparr>"

definition mk_DCS ::
  "byte \<Rightarrow> nat \<Rightarrow> nat \<Rightarrow> byte \<Rightarrow> byte \<Rightarrow> VTType \<Rightarrow> string \<Rightarrow> Function" where
  "mk_DCS lead argc0 argc1 interm finalCharacter vt name =
     \<lparr>category = DCS, leader = lead, intermediate = interm, finalSymbol = finalCharacter,
      minimumParameters = argc0, maximumParameters = argc1, conformanceLevel = vt,
      extension = Ext_None, mnemonic = name\<rparr>"

definition mk_DCS_ext ::
  "byte \<Rightarrow> nat \<Rightarrow> nat \<Rightarrow> byte \<Rightarrow> byte \<Rightarrow> VTExtension \<Rightarrow> string \<Rightarrow> Function" where
  "mk_DCS_ext lead argc0 argc1 interm finalCharacter ext name =
     \<lparr>category = DCS, leader = lead, intermediate = interm, finalSymbol = finalCharacter,
      minimumParameters = argc0, maximumParameters = argc1, conformanceLevel = VT100,
      extension = ext, mnemonic = name\<rparr>"

text \<open>The largest number of parameters.\<close>

definition ArgsMax :: nat where
  "ArgsMax = 127"

abbreviation EOT :: Function where
  "EOT \<equiv> mk_C0 4 ''EOT'' VT100"

abbreviation BEL :: Function where
  "BEL \<equiv> mk_C0 7 ''BEL'' VT100"

abbreviation BS :: Function where
  "BS \<equiv> mk_C0 8 ''BS'' VT100"

abbreviation TAB :: Function where
  "TAB \<equiv> mk_C0 9 ''TAB'' VT100"

abbreviation LF :: Function where
  "LF \<equiv> mk_C0 10 ''LF'' VT100"

abbreviation VT :: Function where
  "VT \<equiv> mk_C0 11 ''VT'' VT100"

abbreviation FF :: Function where
  "FF \<equiv> mk_C0 12 ''FF'' VT100"

abbreviation CR :: Function where
  "CR \<equiv> mk_C0 13 ''CR'' VT100"

abbreviation LS1 :: Function where
  "LS1 \<equiv> mk_C0 14 ''LS1'' VT220"

abbreviation LS0 :: Function where
  "LS0 \<equiv> mk_C0 15 ''LS0'' VT220"

abbreviation DECALN :: Function where
  "DECALN \<equiv> mk_ESC 35 56 VT100 ''DECALN''"

abbreviation DECBI :: Function where
  "DECBI \<equiv> mk_ESC 0 54 VT100 ''DECBI''"

abbreviation DECFI :: Function where
  "DECFI \<equiv> mk_ESC 0 57 VT100 ''DECFI''"

abbreviation DECKPAM :: Function where
  "DECKPAM \<equiv> mk_ESC 0 61 VT100 ''DECKPAM''"

abbreviation DECKPNM :: Function where
  "DECKPNM \<equiv> mk_ESC 0 62 VT100 ''DECKPNM''"

abbreviation DECRS :: Function where
  "DECRS \<equiv> mk_ESC 0 56 VT100 ''DECRS''"

abbreviation DECSC :: Function where
  "DECSC \<equiv> mk_ESC 0 55 VT100 ''DECSC''"

abbreviation HTS :: Function where
  "HTS \<equiv> mk_ESC 0 72 VT100 ''HTS''"

abbreviation IND :: Function where
  "IND \<equiv> mk_ESC 0 68 VT100 ''IND''"

abbreviation NEL :: Function where
  "NEL \<equiv> mk_ESC 0 69 VT100 ''NEL''"

abbreviation RI :: Function where
  "RI \<equiv> mk_ESC 0 77 VT100 ''RI''"

abbreviation RIS :: Function where
  "RIS \<equiv> mk_ESC 0 99 VT100 ''RIS''"

abbreviation SCS_G0_SPECIAL :: Function where
  "SCS_G0_SPECIAL \<equiv> mk_ESC 40 48 VT100 ''SCS_G0_SPECIAL''"

abbreviation SCS_G0_USASCII :: Function where
  "SCS_G0_USASCII \<equiv> mk_ESC 40 66 VT100 ''SCS_G0_USASCII''"

abbreviation SCS_G1_SPECIAL :: Function where
  "SCS_G1_SPECIAL \<equiv> mk_ESC 41 48 VT100 ''SCS_G1_SPECIAL''"

abbreviation SCS_G1_USASCII :: Function where
  "SCS_G1_USASCII \<equiv> mk_ESC 41 66 VT100 ''SCS_G1_USASCII''"

abbreviation SS2 :: Function where
  "SS2 \<equiv> mk_ESC 0 78 VT220 ''SS2''"

abbreviation SS3 :: Function where
  "SS3 \<equiv> mk_ESC 0 79 VT220 ''SS3''"

abbreviation ANSIDSR :: Function where
  "ANSIDSR \<equiv> mk_CSI 0 1 1 0 110 VT100 ''DSR''"

abbreviation ANSISYSSC :: Function where
  "ANSISYSSC \<equiv> mk_CSI 0 0 0 0 117 VT100 ''ANSISYSSC''"

abbreviation CBT :: Function where
  "CBT \<equiv> mk_CSI 0 0 1 0 90 VT100 ''CBT''"

abbreviation CHA :: Function where
  "CHA \<equiv> mk_CSI 0 0 1 0 71 VT100 ''CHA''"

abbreviation CHT :: Function where
  "CHT \<equiv> mk_CSI 0 0 1 0 73 VT100 ''CHT''"

abbreviation CNL :: Function where
  "CNL \<equiv> mk_CSI 0 0 1 0 69 VT100 ''CNL''"

abbreviation CPL :: Function where
  "CPL \<equiv> mk_CSI 0 0 1 0 70 VT100 ''CPL''"

abbreviation CSIUENHCE :: Function where
  "CSIUENHCE \<equiv> mk_CSI_ext 61 1 2 0 117 Ext_Unknown ''CSIUENHCE''"

abbreviation CSIUENTER :: Function where
  "CSIUENTER \<equiv> mk_CSI_ext 62 0 1 0 117 Ext_Unknown ''CSIUENTER''"

abbreviation CSIULEAVE :: Function where
  "CSIULEAVE \<equiv> mk_CSI_ext 60 0 1 0 117 Ext_Unknown ''CSIULEAVE''"

abbreviation CSIUQUERY :: Function where
  "CSIUQUERY \<equiv> mk_CSI_ext 63 0 0 0 117 Ext_Unknown ''CSIUQUERY''"

abbreviation CUB :: Function where
  "CUB \<equiv> mk_CSI 0 0 1 0 68 VT100 ''CUB''"

abbreviation CUD :: Function where
  "CUD \<equiv> mk_CSI 0 0 1 0 66 VT100 ''CUD''"

abbreviation CUF :: Function where
  "CUF \<equiv> mk_CSI 0 0 1 0 67 VT100 ''CUF''"

abbreviation CUP :: Function where
  "CUP \<equiv> mk_CSI 0 0 2 0 72 VT100 ''CUP''"

abbreviation CUU :: Function where
  "CUU \<equiv> mk_CSI 0 0 1 0 65 VT100 ''CUU''"

abbreviation DA1 :: Function where
  "DA1 \<equiv> mk_CSI 0 0 1 0 99 VT100 ''DA1''"

abbreviation DA2 :: Function where
  "DA2 \<equiv> mk_CSI 62 0 1 0 99 VT100 ''DA2''"

abbreviation DA3 :: Function where
  "DA3 \<equiv> mk_CSI 61 0 1 0 99 VT100 ''DA3''"

abbreviation DCH :: Function where
  "DCH \<equiv> mk_CSI 0 0 1 0 80 VT100 ''DCH''"

abbreviation DECCARA :: Function where
  "DECCARA \<equiv> mk_CSI 0 5 ArgsMax 36 114 VT420 ''DECCARA''"

abbreviation DECCRA :: Function where
  "DECCRA \<equiv> mk_CSI 0 0 8 36 118 VT420 ''DECCRA''"

abbreviation DECDC :: Function where
  "DECDC \<equiv> mk_CSI 0 0 1 39 126 VT420 ''DECDC''"

abbreviation DECERA :: Function where
  "DECERA \<equiv> mk_CSI 0 0 4 36 122 VT420 ''DECERA''"

abbreviation DECFRA :: Function where
  "DECFRA \<equiv> mk_CSI 0 0 5 36 120 VT420 ''DECFRA''"

abbreviation DECIC :: Function where
  "DECIC \<equiv> mk_CSI 0 0 1 39 125 VT420 ''DECIC''"

abbreviation DECPS :: Function where
  "DECPS \<equiv> mk_CSI 0 3 18 44 126 VT520 ''DECPS''"

abbreviation DECRM :: Function where
  "DECRM \<equiv> mk_CSI 63 1 ArgsMax 0 108 VT100 ''DECRM''"

abbreviation DECRQM :: Function where
  "DECRQM \<equiv> mk_CSI 63 1 1 36 112 VT100 ''DECRQM''"

abbreviation DECRQM_ANSI :: Function where
  "DECRQM_ANSI \<equiv> mk_CSI 0 1 1 36 112 VT100 ''DECRQM_ANSI''"

abbreviation DECRQPSR :: Function where
  "DECRQPSR \<equiv> mk_CSI 0 1 1 36 119 VT320 ''DECRQPSR''"

abbreviation DECSASD :: Function where
  "DECSASD \<equiv> mk_CSI 0 0 1 36 125 VT420 ''DECSASD''"

abbreviation DECSCA :: Function where
  "DECSCA \<equiv> mk_CSI 0 0 1 34 113 VT240 ''DECSCA''"

abbreviation DECSCL :: Function where
  "DECSCL \<equiv> mk_CSI 0 2 2 34 112 VT220 ''DECSCL''"

abbreviation DECSCPP :: Function where
  "DECSCPP \<equiv> mk_CSI 0 0 1 36 124 VT100 ''DECSCPP''"

abbreviation DECSCUSR :: Function where
  "DECSCUSR \<equiv> mk_CSI 0 0 1 32 113 VT520 ''DECSCUSR''"

abbreviation DECSED :: Function where
  "DECSED \<equiv> mk_CSI 63 0 1 0 74 VT240 ''DECSED''"

abbreviation DECSEL :: Function where
  "DECSEL \<equiv> mk_CSI 63 0 1 0 75 VT240 ''DECSEL''"

abbreviation DECSERA :: Function where
  "DECSERA \<equiv> mk_CSI 0 0 4 36 123 VT240 ''DECSERA''"

abbreviation DECSLRM :: Function where
  "DECSLRM \<equiv> mk_CSI 0 0 2 0 115 VT420 ''DECSLRM''"

abbreviation DECSM :: Function where
  "DECSM \<equiv> mk_CSI 63 1 ArgsMax 0 104 VT100 ''DECSM''"

abbreviation DECSNLS :: Function where
  "DECSNLS \<equiv> mk_CSI 0 0 1 42 124 VT420 ''DECSNLS''"

abbreviation DECSSCLS :: Function where
  "DECSSCLS \<equiv> mk_CSI 0 0 1 32 112 VT510 ''DECSSCLS''"

abbreviation DECSSDT :: Function where
  "DECSSDT \<equiv> mk_CSI 0 0 1 36 126 VT320 ''DECSSDT''"

abbreviation DECSTBM :: Function where
  "DECSTBM \<equiv> mk_CSI 0 0 2 0 114 VT100 ''DECSTBM''"

abbreviation DECSTR :: Function where
  "DECSTR \<equiv> mk_CSI 0 0 0 33 112 VT100 ''DECSTR''"

abbreviation DECXCPR :: Function where
  "DECXCPR \<equiv> mk_CSI 0 0 0 0 54 VT100 ''DECXCPR''"

abbreviation DL :: Function where
  "DL \<equiv> mk_CSI 0 0 1 0 77 VT100 ''DL''"

abbreviation DSR :: Function where
  "DSR \<equiv> mk_CSI 63 1 1 0 110 VT100 ''DSR''"

abbreviation ECH :: Function where
  "ECH \<equiv> mk_CSI 0 0 1 0 88 VT420 ''ECH''"

abbreviation ED :: Function where
  "ED \<equiv> mk_CSI 0 0 ArgsMax 0 74 VT100 ''ED''"

abbreviation EL :: Function where
  "EL \<equiv> mk_CSI 0 0 1 0 75 VT100 ''EL''"

abbreviation HPA :: Function where
  "HPA \<equiv> mk_CSI 0 1 1 0 96 VT100 ''HPA''"

abbreviation HPR :: Function where
  "HPR \<equiv> mk_CSI 0 1 1 0 97 VT100 ''HPR''"

abbreviation HVP :: Function where
  "HVP \<equiv> mk_CSI 0 0 2 0 102 VT100 ''HVP''"

abbreviation ICH :: Function where
  "ICH \<equiv> mk_CSI 0 0 1 0 64 VT420 ''ICH''"

abbreviation IL :: Function where
  "IL \<equiv> mk_CSI 0 0 1 0 76 VT100 ''IL''"

abbreviation REP :: Function where
  "REP \<equiv> mk_CSI 0 1 1 0 98 VT100 ''REP''"

abbreviation RM :: Function where
  "RM \<equiv> mk_CSI 0 1 ArgsMax 0 108 VT100 ''RM''"

abbreviation SCOSC :: Function where
  "SCOSC \<equiv> mk_CSI 0 0 0 0 115 VT100 ''SCOSC''"

abbreviation SD :: Function where
  "SD \<equiv> mk_CSI 0 0 1 0 84 VT100 ''SD''"

abbreviation SETMARK :: Function where
  "SETMARK \<equiv> mk_CSI_ext 62 0 0 0 77 Ext_Contour ''SETMARK''"

abbreviation SGR :: Function where
  "SGR \<equiv> mk_CSI 0 0 ArgsMax 0 109 VT100 ''SGR''"

abbreviation SM :: Function where
  "SM \<equiv> mk_CSI 0 1 ArgsMax 0 104 VT100 ''SM''"

abbreviation SU :: Function where
  "SU \<equiv> mk_CSI 0 0 1 0 83 VT100 ''SU''"

abbreviation TBC :: Function where
  "TBC \<equiv> mk_CSI 0 0 1 0 103 VT100 ''TBC''"

abbreviation VPA :: Function where
  "VPA \<equiv> mk_CSI 0 0 1 0 100 VT100 ''VPA''"

abbreviation WINMANIP :: Function where
  "WINMANIP \<equiv> mk_CSI_ext 0 1 3 0 116 Ext_XTerm ''WINMANIP''"

abbreviation XTCAPTURE :: Function where
  "XTCAPTURE \<equiv> mk_CSI_ext 62 0 2 0 116 Ext_Contour ''XTCAPTURE''"

abbreviation XTPOPCOLORS :: Function where
  "XTPOPCOLORS \<equiv> mk_CSI_ext 0 0 ArgsMax 35 81 Ext_XTerm ''XTPOPCOLORS''"

abbreviation XTPUSHCOLORS :: Function where
  "XTPUSHCOLORS \<equiv> mk_CSI_ext 0 0 ArgsMax 35 80 Ext_XTerm ''XTPUSHCOLORS''"

abbreviation SGRRESTORE :: Function where
  "SGRRESTORE \<equiv> mk_CSI_ext 0 0 0 35 125 Ext_XTerm ''SGRRESTORE''"

abbreviation SGRSAVE :: Function where
  "SGRSAVE \<equiv> mk_CSI_ext 0 0 0 35 123 Ext_XTerm ''SGRSAVE''"

abbreviation XTREPORTCOLORS :: Function where
  "XTREPORTCOLORS \<equiv> mk_CSI_ext 0 0 0 35 82 Ext_XTerm ''XTREPORTCOLORS''"

abbreviation XTRESTORE :: Function where
  "XTRESTORE \<equiv> mk_CSI_ext 63 0 ArgsMax 0 114 Ext_XTerm ''XTRESTORE''"

abbreviation XTSAVE :: Function where
  "XTSAVE \<equiv> mk_CSI_ext 63 0 ArgsMax 0 115 Ext_XTerm ''XTSAVE''"

abbreviation XTSHIFTESCAPE :: Function where
  "XTSHIFTESCAPE \<equiv> mk_CSI_ext 62 0 1 0 115 Ext_XTerm ''XTSHIFTESCAPE''"

abbreviation XTSMGRAPHICS :: Function where
  "XTSMGRAPHICS \<equiv> mk_CSI_ext 63 2 4 0 83 Ext_XTerm ''XTSMGRAPHICS''"

abbreviation XTVERSION :: Function where
  "XTVERSION \<equiv> mk_CSI_ext 62 0 1 0 113 Ext_XTerm ''XTVERSION''"

abbreviation DECRQSS :: Function where
  "DECRQSS \<equiv> mk_DCS 0 0 0 36 113 VT420 ''DECRQSS''"

abbreviation DECSIXEL :: Function where
  "DECSIXEL \<equiv> mk_DCS 0 0 3 0 113 VT330 ''DECSIXEL''"

abbreviation STP :: Function where
  "STP \<equiv> mk_DCS_ext 0 0 0 36 112 Ext_Contour ''STP''"

abbreviation XTGETTCAP :: Function where
  "XTGETTCAP \<equiv> mk_DCS_ext 0 0 0 43 113 Ext_XTerm ''XTGETTCAP''"

abbreviation CLIPBOARD :: Function where
  "CLIPBOARD \<equiv> mk_OSC 52 Ext_XTerm ''CLIPBOARD''"

abbreviation COLORBG :: Function where
  "COLORBG \<equiv> mk_OSC 11 Ext_XTerm ''COLORBG''"

abbreviation COLORCURSOR :: Function where
  "COLORCURSOR \<equiv> mk_OSC 12 Ext_XTerm ''COLORCURSOR''"

abbreviation COLORFG :: Function where
  "COLORFG \<equiv> mk_OSC 10 Ext_XTerm ''COLORFG''"

abbreviation COLORMOUSEBG :: Function where
  "COLORMOUSEBG \<equiv> mk_OSC 14 Ext_XTerm ''COLORMOUSEBG''"

abbreviation COLORMOUSEFG :: Function where
  "COLORMOUSEFG \<equiv> mk_OSC 13 Ext_XTerm ''COLORMOUSEFG''"

abbreviation COLORSPECIAL :: Function where
  "COLORSPECIAL \<equiv> mk_OSC 106 Ext_XTerm ''COLORSPECIAL''"

abbreviation DUMPSTATE :: Function where
  "DUMPSTATE \<equiv> mk_OSC 888 Ext_Contour ''DUMPSTATE''"

abbreviation HYPERLINK :: Function where
  "HYPERLINK \<equiv> mk_OSC 8 Ext_Unknown ''HYPERLINK''"

abbreviation NOTIFY :: Function where
  "NOTIFY \<equiv> mk_OSC 777 Ext_XTerm ''NOTIFY''"

abbreviation RCOLORBG :: Function where
  "RCOLORBG \<equiv> mk_OSC 111 Ext_XTerm ''RCOLORBG''"

abbreviation RCOLORCURSOR :: Function where
  "RCOLORCURSOR \<equiv> mk_OSC 112 Ext_XTerm ''RCOLORCURSOR''"

abbreviation RCOLORFG :: Function where
  "RCOLORFG \<equiv> mk_OSC 110 Ext_XTerm ''RCOLORFG''"

abbreviation RCOLORHIGHLIGHTBG :: Function where
  "RCOLORHIGHLIGHTBG \<equiv> mk_OSC 117 Ext_XTerm ''RCOLORHIGHLIGHTBG''"

abbreviation RCOLORHIGHLIGHTFG :: Function where
  "RCOLORHIGHLIGHTFG \<equiv> mk_OSC 119 Ext_XTerm ''RCOLORHIGHLIGHTFG''"

abbreviation RCOLORMOUSEBG :: Function where
  "RCOLORMOUSEBG \<equiv> mk_OSC 114 Ext_XTerm ''RCOLORMOUSEBG''"

abbreviation RCOLORMOUSEFG :: Function where
  "RCOLORMOUSEFG \<equiv> mk_OSC 113 Ext_XTerm ''RCOLORMOUSEFG''"

abbreviation RCOLPAL :: Function where
  "RCOLPAL \<equiv> mk_OSC 104 Ext_XTerm ''RCOLPAL''"

abbreviation SETCOLPAL :: Function where
  "SETCOLPAL \<equiv> mk_OSC 4 Ext_XTerm ''SETCOLPAL''"

abbreviation SETCWD :: Function where
  "SETCWD \<equiv> mk_OSC 7 Ext_XTerm ''SETCWD''"

abbreviation SETFONT :: Function where
  "SETFONT \<equiv> mk_OSC 50 Ext_XTerm ''SETFONT''"

abbreviation SETFONTALL :: Function where
  "SETFONTALL \<equiv> mk_OSC 60 Ext_Contour ''SETFONTALL''"

abbreviation SETICON :: Function where
  "SETICON \<equiv> mk_OSC 1 Ext_XTerm ''SETICON''"

abbreviation SETTITLE :: Function where
  "SETTITLE \<equiv> mk_OSC 0 Ext_XTerm ''SETTITLE''"

abbreviation SETWINTITLE :: Function where
  "SETWINTITLE \<equiv> mk_OSC 2 Ext_XTerm ''SETWINTITLE''"

abbreviation SETXPROP :: Function where
  "SETXPROP \<equiv> mk_OSC 3 Ext_XTerm ''SETXPROP''"

definition allFunctionsArray :: "Function list" where
  "allFunctionsArray =
     [EOT, BEL, BS, TAB, LF, VT, FF, CR, LS0, LS1, DECALN, DECBI, DECFI, DECKPAM, DECKPNM,
      DECRS, DECSC, HTS, IND, NEL, RI, RIS, SCS_G0_SPECIAL, SCS_G0_USASCII, SCS_G1_SPECIAL,
      SCS_G1_USASCII, SS2, SS3, ANSISYSSC, XTCAPTURE, CBT, CHA, CHT, CNL, CPL, CUB, CUD, CUF,
      CUP, CUU, DA1, DA2, DA3, DCH, DECCARA, DECCRA, DECDC, DECERA, DECFRA, DECIC, DECSCA,
      DECSED, DECSERA, DECSEL, ANSIDSR, DSR, XTRESTORE, XTSAVE, DECPS, CSIUENTER, CSIUQUERY,
      CSIUENHCE, CSIULEAVE, DECRM, DECRQM, DECRQM_ANSI, DECRQPSR, DECSASD, DECSCL, DECSCPP,
      DECSCUSR, DECSLRM, DECSSCLS, DECSM, DECSNLS, DECSSDT, DECSTBM, DECSTR, DECXCPR, DL,
      ECH, ED, EL, HPA, HPR, HVP, ICH, IL, REP, RM, SCOSC, SD, SETMARK, SGR, SGRRESTORE,
      SGRSAVE, SM, SU, TBC, VPA, WINMANIP, XTPOPCOLORS, XTPUSHCOLORS, XTREPORTCOLORS,
      XTSHIFTESCAPE, XTSMGRAPHICS, XTVERSION, STP, DECRQSS, DECSIXEL, XTGETTCAP, SETICON,
      SETTITLE, SETWINTITLE, SETXPROP, SETCOLPAL, SETCWD, HYPERLINK, COLORFG, COLORBG,
      COLORCURSOR, COLORMOUSEFG, COLORMOUSEBG, SETFONT, SETFONTALL, CLIPBOARD, RCOLPAL,
      COLORSPECIAL, RCOLORFG, RCOLORBG, RCOLORCURSOR, RCOLORMOUSEFG, RCOLORMOUSEBG,
      RCOLORHIGHLIGHTFG, RCOLORHIGHLIGHTBG, NOTIFY, DUMPSTATE]"

definition allFunctions :: "Function list" where
  "allFunctions = crispy_sort compare allFunctionsArray"


subsection \<open>Supported sequences\<close>

record SupportedSequences =
  supportedSequences :: "Function list"
  lastIndex :: nat

definition newSupportedSequences :: SupportedSequences where
  "newSupportedSequences = \<lparr>supportedSequences = allFunctions, lastIndex = length allFunctions\<rparr>"

definition allSequences :: "SupportedSequences \<Rightarrow> Function list" where
  "allSequences s = supportedSequences s"

definition activeSequences :: "SupportedSequences \<Rightarrow> Function list" where
  "activeSequences s = take (lastIndex s) (supportedSequences s)"

text \<open>
  \<open>std::partition\<close> leaves the order inside both parts open; the active part is sorted right
  afterwards, and no property below depends on the order of the disabled part.
\<close>

definition resetSequences :: "VTType \<Rightarrow> SupportedSequences \<Rightarrow> SupportedSequences" where
  "resetSequences vt s =
     (let ok = (\<lambda>f. vttype_value (conformanceLevel f) \<le> vttype_value vt);
          yes = filter ok (supportedSequences s); no = filter (\<lambda>f. \<not> ok f) (supportedSequences s)
      in \<lparr>supportedSequences = crispy_sort compare yes @ no, lastIndex = length yes\<rparr>)"

text \<open>\<open>std::find\<close> with \<open>operator==\<close>, which is \<open>compare(a, b) == 0\<close>: the offset of the first match.\<close>

fun find_function :: "Function \<Rightarrow> Function list \<Rightarrow> nat option" where
  "find_function f [] = None"
| "find_function f (g # gs) =
     (if compare g f = 0 then Some 0 else map_option Suc (find_function f gs))"

definition disableSequence :: "Function \<Rightarrow> SupportedSequences \<Rightarrow> SupportedSequences" where
  "disableSequence f s =
     (case find_function f (activeSequences s) of
        None \<Rightarrow> s
      | Some i \<Rightarrow> s\<lparr>supportedSequences := take i (supportedSequences s)
            @ drop (Suc i) (supportedSequences s) @ [supportedSequences s ! i],
          lastIndex := lastIndex s - 1\<rparr>)"

definition enableSequence :: "Function \<Rightarrow> SupportedSequences \<Rightarrow> SupportedSequences" where
  "enableSequence f s =
     (case find_function f (drop (lastIndex s) (supportedSequences s)) of
        None \<Rightarrow> s
      | Some i \<Rightarrow>
          (let xs = swap_at (supportedSequences s) (lastIndex s) (lastIndex s + i);
               n = Suc (lastIndex s)
           in s\<lparr>supportedSequences := crispy_sort compare (take n xs) @ drop n xs, lastIndex := n\<rparr>))"

subsection \<open>Selection\<close>

function select_loop :: "FunctionSelector \<Rightarrow> Function list \<Rightarrow> nat \<Rightarrow> nat \<Rightarrow> Function option" where
  "select_loop selector defs a b =
     (if a \<le> b
      then let i = (a + b) div 2; rel = compare_selector selector (defs ! i)
           in if 0 < rel then select_loop selector defs (i + 1) b
              else if rel < 0
              then if i = 0 then None else select_loop selector defs a (i - 1)
              else Some (defs ! i)
      else None)"
  by pat_completeness auto
termination
  by (relation "measure (\<lambda>(selector, defs, a, b). Suc b - a)") (auto simp: less_Suc_eq_le Suc_diff_le)

declare select_loop.simps [simp del]

text \<open>
  On an empty span \<open>size() - 1\<close> wraps around, and the first probe lies outside of the span.
\<close>

definition select :: "FunctionSelector \<Rightarrow> Function list \<Rightarrow> Function option result" where
  "select selector defs =
     (if defs = [] then Inl OutOfBounds
      else Inr (select_loop selector defs 0 (length defs - 1)))"

definition selectEscape :: "byte \<Rightarrow> byte \<Rightarrow> Function list \<Rightarrow> Function option result" where
  "selectEscape interm finalCharacter defs =
     select \<lparr>sel_category = ESC, sel_leader = 0, sel_argc = 0, sel_intermediate = interm,
             sel_finalSymbol = finalCharacter\<rparr> defs"

definition selectControl ::
  "byte \<Rightarrow> int \<Rightarrow> byte \<Rightarrow> byte \<Rightarrow> Function list \<Rightarrow> Function option result" where
  "selectControl lead argc interm finalCharacter defs =
     select \<lparr>sel_category = CSI, sel_leader = lead, sel_argc = argc, sel_intermediate = interm,
             sel_finalSymbol = finalCharacter\<rparr> defs"

definition selectOSCommand :: "int \<Rightarrow> Function list \<Rightarrow> Function option result" where
  "selectOSCommand code defs =
     select \<lparr>sel_category = OSC, sel_leader = 0, sel_argc = code, sel_intermediate = 0,
             sel_finalSymbol = 0\<rparr> defs"

end
