(* ===== verification/VT_Sequence.thy ===== *)
theory VT_Sequence
  imports VT_Functions Crispy_Escape
begin

unbundle bit_operations_syntax

text \<open>
  VT sequences as they are collected from the parser's events: \<open>SequenceParameters\<close>,
  \<open>SequenceParameterBuilder\<close> and \<open>Sequence\<close> of \<open>src/src/vtbackend/Sequence.h\<close> and
  \<open>Sequence.cpp\<close>.

  The parameters are a fixed array of sixteen 16-bit values; which of them are sub-parameters is
  kept in a 16-bit word. While a sequence is collected, the word holds the flag of the newest
  parameter in its highest bit; \<open>fixiate\<close> shifts it so that bit \<open>i\<close> belongs to parameter \<open>i\<close>.
  The builder's iterator is the offset it points to, from 0 to 16 (\<open>end()\<close>); writing through it at
  16 is a fault.
\<close>

subsection \<open>Parameters\<close>

record SequenceParameters =
  par_values :: "nat list"
  par_subParameterTest :: "16 word"
  par_count :: nat

definition MaxParameters :: nat where
  "MaxParameters = 16"

definition newSequenceParameters :: SequenceParameters where
  "newSequenceParameters =
     \<lparr>par_values = replicate MaxParameters 0, par_subParameterTest = 0, par_count = 0\<rparr>"

definition at :: "SequenceParameters \<Rightarrow> nat \<Rightarrow> nat result" where
  "at p index = (if index < MaxParameters then Inr (par_values p ! index) else Inl OutOfBounds)"

definition isSubParameter :: "SequenceParameters \<Rightarrow> nat \<Rightarrow> bool" where
  "isSubParameter p index \<longleftrightarrow> bit (par_subParameterTest p) index"

function sub_run :: "SequenceParameters \<Rightarrow> nat \<Rightarrow> nat" where
  "sub_run p index = (if index < 16 \<and> isSubParameter p index then sub_run p (index + 1) else index)"
  by pat_completeness auto
termination
  by (relation "measure (\<lambda>(p, index). 16 - index)") auto

declare sub_run.simps [simp del]

definition subParameterCount :: "SequenceParameters \<Rightarrow> nat \<Rightarrow> nat" where
  "subParameterCount p index =
     (if \<not> isSubParameter p index then let start = index + 1 in sub_run p start - start else 0)"

definition clearParameters :: "SequenceParameters \<Rightarrow> SequenceParameters" where
  "clearParameters p = p\<lparr>par_values := (par_values p)[0 := 0], par_subParameterTest := 0, par_count := 0\<rparr>"

definition range_parameters :: "SequenceParameters \<Rightarrow> nat list" where
  "range_parameters p = take (par_count p) (par_values p)"

fun str_loop :: "SequenceParameters \<Rightarrow> nat list \<Rightarrow> bytes \<Rightarrow> bytes" where
  "str_loop p [] s = s"
| "str_loop p (i # is) s =
     (let s1 = (if s \<noteq> [] then s @ [if isSubParameter p i then 0x3A else 0x3B] else s)
      in if isSubParameter p i \<and> par_values p ! i = 0 then str_loop p is s1
         else str_loop p is (s1 @ decimal (par_values p ! i)))"

definition str :: "SequenceParameters \<Rightarrow> bytes" where
  "str p = str_loop p [0..<par_count p] []"

subsection \<open>Building parameters\<close>

record SequenceParameterBuilder =
  bld_parameters :: SequenceParameters
  bld_current :: nat

definition resetBuilder :: "SequenceParameterBuilder \<Rightarrow> SequenceParameterBuilder" where
  "resetBuilder b = b\<lparr>bld_parameters := clearParameters (bld_parameters b), bld_current := 0\<rparr>"

definition write_current :: "nat \<Rightarrow> SequenceParameterBuilder \<Rightarrow> SequenceParameterBuilder result" where
  "write_current v b =
     (if bld_current b < MaxParameters
      then Inr (b\<lparr>bld_parameters := (bld_parameters b)
                   \<lparr>par_values := (par_values (bld_parameters b))[bld_current b := v]\<rparr>\<rparr>)
      else Inl OutOfBounds)"

definition set_sub_test :: "16 word \<Rightarrow> SequenceParameterBuilder \<Rightarrow> SequenceParameterBuilder" where
  "set_sub_test w b = b\<lparr>bld_parameters := (bld_parameters b)\<lparr>par_subParameterTest := w\<rparr>\<rparr>"

definition nextParameter :: "SequenceParameterBuilder \<Rightarrow> SequenceParameterBuilder result" where
  "nextParameter b =
     (if bld_current b \<noteq> MaxParameters
      then bind_result (write_current 0 (b\<lparr>bld_current := bld_current b + 1\<rparr>))
             (\<lambda>b1. Inr (set_sub_test (drop_bit 1 (par_subParameterTest (bld_parameters b1))) b1))
      else Inr b)"

definition nextSubParameter :: "SequenceParameterBuilder \<Rightarrow> SequenceParameterBuilder result" where
  "nextSubParameter b =
     (if bld_current b \<noteq> MaxParameters
      then bind_result (write_current 0 (b\<lparr>bld_current := bld_current b + 1\<rparr>))
             (\<lambda>b1. Inr (set_sub_test
                (drop_bit 1 (par_subParameterTest (bld_parameters b1)) OR push_bit 15 1) b1))
      else Inr b)"

definition multiplyBy10AndAdd :: "nat \<Rightarrow> SequenceParameterBuilder \<Rightarrow> SequenceParameterBuilder result" where
  "multiplyBy10AndAdd value b =
     bind_result (at (bld_parameters b) (bld_current b))
       (\<lambda>v. write_current (wrap16 (v * 10 + value)) b)"

definition apply_value :: "nat \<Rightarrow> SequenceParameterBuilder \<Rightarrow> SequenceParameterBuilder result" where
  "apply_value value b =
     bind_result (if 10 \<le> value then multiplyBy10AndAdd (wrap8 (value div 10)) b else Inr b)
       (multiplyBy10AndAdd (wrap8 (value mod 10)))"

definition set_value :: "nat \<Rightarrow> SequenceParameterBuilder \<Rightarrow> SequenceParameterBuilder result" where
  "set_value value b = write_current value b"

definition count_builder :: "SequenceParameterBuilder \<Rightarrow> nat" where
  "count_builder b =
     (let result = bld_current b + 1
      in if \<not> (result = 1 \<and> par_values (bld_parameters b) ! 0 = 0) then result else 0)"

text \<open>The builder's own flag test, which no caller uses, counts from the newest parameter.\<close>

definition isSubParameter_builder :: "SequenceParameterBuilder \<Rightarrow> nat \<Rightarrow> bool result" where
  "isSubParameter_builder b index =
     (if index < count_builder b
      then Inr (bit (par_subParameterTest (bld_parameters b)) (count_builder b - 1 - index))
      else Inl ShiftOutOfRange)"

definition fixiate :: "SequenceParameterBuilder \<Rightarrow> SequenceParameterBuilder result" where
  "fixiate b =
     (let n = count_builder b; p = bld_parameters b
      in if n \<le> 16
         then Inr (b\<lparr>bld_parameters := p\<lparr>par_count := n,
                       par_subParameterTest := drop_bit (16 - n) (par_subParameterTest p)\<rparr>\<rparr>)
         else Inl ShiftOutOfRange)"

subsection \<open>Sequences\<close>

record Sequence =
  seq_category :: FunctionCategory
  seq_leaderSymbol :: byte
  seq_parameters :: SequenceParameters
  seq_intermediateCharacters :: bytes
  seq_finalChar :: byte
  seq_dataString :: bytes

definition MaxOscLength :: nat where
  "MaxOscLength = 512"

definition newSequence :: Sequence where
  "newSequence = \<lparr>seq_category = C0, seq_leaderSymbol = 0, seq_parameters = newSequenceParameters,
     seq_intermediateCharacters = [], seq_finalChar = 0, seq_dataString = []\<rparr>"

definition parameterCount :: "Sequence \<Rightarrow> nat" where
  "parameterCount s = par_count (seq_parameters s)"

definition clearExceptParameters :: "Sequence \<Rightarrow> Sequence" where
  "clearExceptParameters s = s\<lparr>seq_category := C0, seq_leaderSymbol := 0,
     seq_intermediateCharacters := [], seq_finalChar := 0, seq_dataString := []\<rparr>"

definition clearSequence :: "Sequence \<Rightarrow> Sequence" where
  "clearSequence s =
     (let s1 = clearExceptParameters s in s1\<lparr>seq_parameters := clearParameters (seq_parameters s1)\<rparr>)"

definition param_opt :: "Sequence \<Rightarrow> nat \<Rightarrow> nat option result" where
  "param_opt s i =
     (if i < par_count (seq_parameters s)
      then bind_result (at (seq_parameters s) i) (\<lambda>v. Inr (Some v))
      else Inr None)"

definition param_or :: "Sequence \<Rightarrow> nat \<Rightarrow> nat \<Rightarrow> nat result" where
  "param_or s i defaultValue =
     bind_result (param_opt s i) (\<lambda>v. Inr (case v of Some x \<Rightarrow> x | None \<Rightarrow> defaultValue))"

definition param :: "Sequence \<Rightarrow> nat \<Rightarrow> nat result" where
  "param s i = (if i < par_count (seq_parameters s) then at (seq_parameters s) i else Inl AssertionFailed)"

definition subparam :: "Sequence \<Rightarrow> nat \<Rightarrow> nat \<Rightarrow> nat result" where
  "subparam s i k = param s (i + k)"

fun contains_loop :: "SequenceParameters \<Rightarrow> nat \<Rightarrow> nat list \<Rightarrow> bool result" where
  "contains_loop p value [] = Inr False"
| "contains_loop p value (i # is) =
     bind_result (at p i) (\<lambda>v. if v = value then Inr True else contains_loop p value is)"

definition containsParameter :: "Sequence \<Rightarrow> nat \<Rightarrow> bool result" where
  "containsParameter s value = contains_loop (seq_parameters s) value [0..<parameterCount s]"

text \<open>The OSC code is the first parameter, read as an unsigned number and converted to \<open>int\<close>.\<close>

definition selector :: "Sequence \<Rightarrow> FunctionSelector result" where
  "selector s =
     (if seq_category s = OSC
      then bind_result (if parameterCount s \<noteq> 0 then param s 0 else Inr 0)
             (\<lambda>code. Inr \<lparr>sel_category = OSC, sel_leader = 0, sel_argc = int code,
                sel_intermediate = 0, sel_finalSymbol = 0\<rparr>)
      else Inr \<lparr>sel_category = seq_category s, sel_leader = seq_leaderSymbol s,
             sel_argc = int (parameterCount s),
             sel_intermediate =
               (if length (seq_intermediateCharacters s) = 1 then hd (seq_intermediateCharacters s) else 0),
             sel_finalSymbol = seq_finalChar s\<rparr>)"

definition functionDefinition :: "Sequence \<Rightarrow> Function list \<Rightarrow> Function option result" where
  "functionDefinition s availableDefinitions =
     bind_result (selector s) (\<lambda>sel. select sel availableDefinitions)"

text \<open>\<open>Sequence::raw\<close>, the bytes of a sequence.\<close>

fun raw_prefix :: "FunctionCategory \<Rightarrow> bytes" where
  "raw_prefix C0 = []"
| "raw_prefix ESC = [0x1B]"
| "raw_prefix CSI = [0x1B, 0x5B]"
| "raw_prefix DCS = [0x1B, 0x50]"
| "raw_prefix OSC = [0x1B, 0x5D]"

fun raw_subs :: "Sequence \<Rightarrow> nat \<Rightarrow> nat list \<Rightarrow> bytes result" where
  "raw_subs s i [] = Inr []"
| "raw_subs s i (k # ks) = bind_result (subparam s i k) (\<lambda>v.
     bind_result (raw_subs s i ks) (\<lambda>r. Inr (0x3A # decimal v @ r)))"

fun raw_params :: "Sequence \<Rightarrow> nat list \<Rightarrow> bytes result" where
  "raw_params s [] = Inr []"
| "raw_params s (i # is) = bind_result (param s i) (\<lambda>v.
     bind_result (raw_subs s i [1..<subParameterCount (seq_parameters s) i]) (\<lambda>subs.
     bind_result (raw_params s is) (\<lambda>r. Inr ((if i \<noteq> 0 then [0x3B] else []) @ decimal v @ subs @ r))))"

definition raw :: "Sequence \<Rightarrow> bytes result" where
  "raw s = bind_result (raw_params s [0..<parameterCount s]) (\<lambda>ps.
     Inr (raw_prefix (seq_category s) @ ps @ seq_intermediateCharacters s
          @ (if seq_finalChar s \<noteq> 0 then [seq_finalChar s] else [])
          @ (if seq_dataString s \<noteq> [] then seq_dataString s @ [0x1B, 0x5C] else [])))"

text \<open>\<open>ControlCode::to_short_string\<close> and the names of the categories.\<close>

definition C0_names :: "string list" where
  "C0_names = [''NUL'', ''SOH'', ''STX'', ''ETX'', ''EOT'', ''ENQ'', ''ACK'', ''BEL'', ''BS'', ''HT'',
     ''LF'', ''VT'', ''FF'', ''CR'', ''SO'', ''SI'', ''DLE'', ''DC1'', ''DC2'', ''DC3'', ''DC4'', ''NAK'',
     ''SYN'', ''ETB'', ''CAN'', ''EM'', ''SUB'', ''ESC'', ''FS'', ''GS'', ''RS'', ''US'', ''SP'']"

definition to_short_string :: "byte \<Rightarrow> bytes" where
  "to_short_string code =
     (if code < length C0_names then bytes (C0_names ! code)
      else if code = 0x7F then bytes ''DEL'' else bytes ''?'')"

fun format_category :: "FunctionCategory \<Rightarrow> bytes" where
  "format_category C0 = bytes ''C0''"
| "format_category ESC = bytes ''ESC''"
| "format_category CSI = bytes ''CSI''"
| "format_category OSC = bytes ''OSC''"
| "format_category DCS = bytes ''DCS''"

definition seq_text :: "Sequence \<Rightarrow> bytes result" where
  "seq_text s =
     (if seq_category s = C0 then Inr (to_short_string (seq_finalChar s))
      else bind_result
        (if 1 < parameterCount s then Inr True
         else if parameterCount s = 1 then bind_result (at (seq_parameters s) 0) (\<lambda>v. Inr (v \<noteq> 0))
         else Inr False)
        (\<lambda>show_params.
           Inr (format_category (seq_category s)
             @ (if seq_leaderSymbol s \<noteq> 0 then [0x20, seq_leaderSymbol s] else [])
             @ (if show_params then 0x20 # str (seq_parameters s) else [])
             @ (if seq_intermediateCharacters s \<noteq> [] then 0x20 # seq_intermediateCharacters s else [])
             @ (if seq_finalChar s \<noteq> 0 then [0x20, seq_finalChar s] else [])
             @ (if seq_dataString s \<noteq> []
                then [0x20, 0x22] @ escape Hex (seq_dataString s) @ bytes ''\" ST'' else []))))"

subsection \<open>What the builder has collected\<close>

text \<open>
  The builder holds the parameters \<open>ps\<close>, each with a flag that tells a sub-parameter: the iterator
  points to the last one, and the flags occupy the highest bits of the word, newest first.
\<close>

definition collected :: "(bool \<times> nat) list \<Rightarrow> SequenceParameterBuilder \<Rightarrow> bool" where
  "collected ps b \<longleftrightarrow>
     ps \<noteq> [] \<and> length ps \<le> 16 \<and> \<not> fst (ps ! 0) \<and>
     length (par_values (bld_parameters b)) = 16 \<and> bld_current b + 1 = length ps \<and>
     (\<forall>j < length ps. par_values (bld_parameters b) ! j = snd (ps ! j)) \<and>
     (\<forall>i < 16. bit (par_subParameterTest (bld_parameters b)) i \<longleftrightarrow>
        16 \<le> length ps + i \<and> fst (ps ! (length ps + i - 16)))"

lemma collected_reset:
  "length (par_values (bld_parameters b)) = 16 \<Longrightarrow> collected [(False, 0)] (resetBuilder b)"
  by (auto simp: collected_def resetBuilder_def clearParameters_def nth_Cons')

lemma collected_digit:
  assumes "collected (ps @ [(s, v)]) b"
  shows "\<exists>b'. multiplyBy10AndAdd d b = Inr b' \<and> collected (ps @ [(s, wrap16 (v * 10 + d))]) b'"
proof -
  have n: "length ps < 16" "bld_current b = length ps" using assms by (auto simp: collected_def)
  have v: "par_values (bld_parameters b) ! length ps = v" using assms by (auto simp: collected_def)
  have same: "fst ((ps @ [(s, w)]) ! j) = fst ((ps @ [(s, v)]) ! j)" if "j \<le> length ps" for j w
    using that by (cases "j = length ps") (auto simp: nth_append)
  let ?p = "bld_parameters b"
  let ?b = "b\<lparr>bld_parameters := ?p\<lparr>par_values := (par_values ?p)[length ps := wrap16 (v * 10 + d)]\<rparr>\<rparr>"
  have "multiplyBy10AndAdd d b = Inr ?b"
    using n v by (simp add: multiplyBy10AndAdd_def at_def write_current_def MaxParameters_def)
  moreover have "collected (ps @ [(s, wrap16 (v * 10 + d))]) ?b"
    unfolding collected_def
  proof (intro conjI allI impI)
    show "bit (par_subParameterTest (bld_parameters ?b)) i \<longleftrightarrow>
        16 \<le> length (ps @ [(s, wrap16 (v * 10 + d))]) + i \<and>
        fst ((ps @ [(s, wrap16 (v * 10 + d))]) ! (length (ps @ [(s, wrap16 (v * 10 + d))]) + i - 16))"
      if "i < 16" for i
    proof -
      have "bit (par_subParameterTest ?p) i \<longleftrightarrow>
          16 \<le> length (ps @ [(s, v)]) + i \<and> fst ((ps @ [(s, v)]) ! (length (ps @ [(s, v)]) + i - 16))"
        using assms that unfolding collected_def by blast
      moreover have "length (ps @ [(s, v)]) + i - 16 \<le> length ps" using that n by simp
      note same [OF this, of "wrap16 (v * 10 + d)"]
      ultimately show ?thesis by (simp del: nth_append)
    qed
    show "par_values (bld_parameters ?b) ! j = snd ((ps @ [(s, wrap16 (v * 10 + d))]) ! j)"
      if "j < length (ps @ [(s, wrap16 (v * 10 + d))])" for j
    proof (cases "j = length ps")
      case True
      then show ?thesis using n assms by (simp add: collected_def)
    next
      case False
      with that have j: "j < length ps" by simp
      then have "par_values ?p ! j = snd ((ps @ [(s, v)]) ! j)" using assms unfolding collected_def by simp
      with j False show ?thesis by (simp add: nth_append)
    qed
    show "\<not> fst ((ps @ [(s, wrap16 (v * 10 + d))]) ! 0)"
      using assms same [of 0 "wrap16 (v * 10 + d)"] by (simp add: collected_def)
  qed (use assms in \<open>simp_all add: collected_def\<close>)
  ultimately show ?thesis by blast
qed

lemma next_bit:
  fixes w :: "16 word"
  assumes "\<forall>i < 16. bit w i \<longleftrightarrow> 16 \<le> length ps + i \<and> fst (ps ! (length ps + i - 16))"
    and "length ps < 16" "i < 16"
  shows "bit (if s then drop_bit 1 w OR push_bit 15 1 else drop_bit 1 w) i \<longleftrightarrow>
     16 \<le> length (ps @ [(s, x)]) + i \<and> fst ((ps @ [(s, x)]) ! (length (ps @ [(s, x)]) + i - 16))"
proof -
  have top: "\<not> bit w 16" using bit_imp_le_length [of w 16] by auto
  have "bit (push_bit 15 (1 :: 16 word)) i \<longleftrightarrow> i = 15"
    unfolding bit_push_bit_iff bit_1_iff using assms(3) by auto
  then have "bit (if s then drop_bit 1 w OR push_bit 15 1 else drop_bit 1 w) i \<longleftrightarrow> bit w (1 + i) \<or> s \<and> i = 15"
    unfolding if_distrib [of "\<lambda>x. bit x i"] bit_or_iff bit_drop_bit_eq by simp
  also have "\<dots> \<longleftrightarrow> 16 \<le> length (ps @ [(s, x)]) + i \<and> fst ((ps @ [(s, x)]) ! (length (ps @ [(s, x)]) + i - 16))"
  proof (cases "i = 15")
    case True
    then show ?thesis using top by simp
  next
    case False
    with assms have "bit w (1 + i) \<longleftrightarrow> 16 \<le> length ps + (1 + i) \<and> fst (ps ! (length ps + (1 + i) - 16))"
      by simp
    with False assms(2,3) show ?thesis by (auto simp: nth_append)
  qed
  finally show ?thesis .
qed

lemma collected_next:
  assumes "collected ps b" and "length ps < 16"
  shows "\<exists>b'. (if s then nextSubParameter b else nextParameter b) = Inr b' \<and> collected (ps @ [(s, 0)]) b'"
proof -
  let ?p = "bld_parameters b" and ?n = "length ps"
  let ?w = "par_subParameterTest ?p"
  let ?w' = "if s then drop_bit 1 ?w OR push_bit 15 1 else drop_bit 1 ?w"
  let ?b = "b\<lparr>bld_current := ?n, bld_parameters := ?p\<lparr>par_values := (par_values ?p)[?n := 0],
      par_subParameterTest := ?w'\<rparr>\<rparr>"
  have cur: "Suc (bld_current b) = ?n" using assms by (simp add: collected_def)
  have "(if s then nextSubParameter b else nextParameter b) = Inr ?b"
    using cur assms(2)
    by (simp add: nextSubParameter_def nextParameter_def write_current_def MaxParameters_def set_sub_test_def)
  moreover have "collected (ps @ [(s, 0)]) ?b"
    unfolding collected_def
  proof (intro conjI allI impI)
    show "bit (par_subParameterTest (bld_parameters ?b)) i \<longleftrightarrow>
        16 \<le> length (ps @ [(s, 0)]) + i \<and> fst ((ps @ [(s, 0)]) ! (length (ps @ [(s, 0)]) + i - 16))"
      if "i < 16" for i
      using next_bit [of ?w ps i s 0] assms that by (simp add: collected_def)
    show "par_values (bld_parameters ?b) ! j = snd ((ps @ [(s, 0)]) ! j)"
      if "j < length (ps @ [(s, 0)])" for j
      using that assms by (auto simp: collected_def nth_append nth_list_update)
  qed (use assms in \<open>auto simp: collected_def nth_append\<close>)
  ultimately show ?thesis by blast
qed

lemma collected_full:
  assumes "collected ps b" and "length ps = 16"
  shows "nextParameter b = Inl OutOfBounds" "nextSubParameter b = Inl OutOfBounds"
  using assms
  by (simp_all add: collected_def nextParameter_def nextSubParameter_def write_current_def MaxParameters_def)

lemma collected_fixiate:
  assumes "collected ps b"
  shows "\<exists>p. fixiate b = Inr (b\<lparr>bld_parameters := p\<rparr>)
    \<and> par_count p = (if length ps = 1 \<and> snd (ps ! 0) = 0 then 0 else length ps)
    \<and> par_values p = par_values (bld_parameters b)
    \<and> (\<forall>j < length ps. isSubParameter p j = fst (ps ! j))
    \<and> (\<forall>j \<ge> length ps. \<not> isSubParameter p j)"
proof -
  let ?p = "bld_parameters b" and ?n = "count_builder b"
  have n: "?n = (if length ps = 1 \<and> snd (ps ! 0) = 0 then 0 else length ps)"
    using assms by (auto simp: count_builder_def collected_def Let_def)
  have le: "length ps \<le> 16" using assms by (simp add: collected_def)
  let ?q = "?p\<lparr>par_count := ?n, par_subParameterTest := drop_bit (16 - ?n) (par_subParameterTest ?p)\<rparr>"
  have "fixiate b = Inr (b\<lparr>bld_parameters := ?q\<rparr>)"
    using n le by (simp add: fixiate_def Let_def)
  moreover have "isSubParameter ?q j = fst (ps ! j)" if "j < length ps" for j
  proof (cases "?n = 0")
    case True
    with n that have "j = 0" by (auto split: if_splits)
    then show ?thesis using True assms
      by (auto simp: isSubParameter_def collected_def bit_simps dest: bit_imp_le_length)
  next
    case False
    with n have "?n = length ps" by (auto split: if_splits)
    then show ?thesis using that le assms
      by (auto simp: isSubParameter_def collected_def bit_simps)
  qed
  moreover have "\<not> isSubParameter ?q j" if "length ps \<le> j" for j
    using that n le by (auto simp: isSubParameter_def bit_simps dest: bit_imp_le_length)
  ultimately show ?thesis using n by (intro exI [of _ ?q]) simp
qed

end
