(* ===== verification/VT_SequenceBuilder.thy ===== *)
theory VT_SequenceBuilder
  imports VT_Parser VT_Sequence
begin

text \<open>
  The semantic layer between the parser and the terminal: \<open>SequenceBuilder\<close> of
  \<open>src/src/vtbackend/SequenceBuilder.h\<close>. It implements the listener of the parser, assembles a
  \<open>Sequence\<close> from its calls and passes it, the text and the control codes on to a handler.

  The handler (\<open>SequenceHandlerConcept\<close>) is an argument: step functions on its own state. While it
  processes a sequence it may hook a parser extension (\<open>hookParser\<close>), which then receives the
  bytes of the device control string; that, too, is part of the result of \<open>processSequence\<close>. The
  instruction counter is the running total of its increments.
\<close>

subsection \<open>State and operations\<close>

record ('h, 'x) SequenceHandler =
  executeControlCode :: "byte \<Rightarrow> 'h \<Rightarrow> 'h result"
  processSequence :: "Sequence \<Rightarrow> 'h \<Rightarrow> ('h \<times> 'x option) result"
  writeText :: "codepoint \<Rightarrow> 'h \<Rightarrow> 'h result"
  writeBulkText :: "bytes \<Rightarrow> nat \<Rightarrow> 'h \<Rightarrow> 'h result"
  writeTextEnd :: "'h \<Rightarrow> 'h result"
  handlerBulkWidth :: "'h \<Rightarrow> nat"
  pass :: "byte \<Rightarrow> 'x \<Rightarrow> 'h \<Rightarrow> ('x \<times> 'h) result"
  finalize :: "'x \<Rightarrow> 'h \<Rightarrow> 'h result"

record ('h, 'x) SequenceBuilder =
  sb_sequence :: Sequence
  sb_current :: nat
  sb_instructions :: nat
  sb_handler :: 'h
  sb_hookedParser :: "'x option"

definition newSequenceBuilder :: "'h \<Rightarrow> ('h, 'x) SequenceBuilder" where
  "newSequenceBuilder h = \<lparr>sb_sequence = newSequence, sb_current = 0, sb_instructions = 0,
     sb_handler = h, sb_hookedParser = None\<rparr>"

text \<open>The parameter builder works on the parameters of the sequence.\<close>

definition parameterBuilder :: "('h, 'x) SequenceBuilder \<Rightarrow> SequenceParameterBuilder" where
  "parameterBuilder b = \<lparr>bld_parameters = seq_parameters (sb_sequence b), bld_current = sb_current b\<rparr>"

definition with_parameters ::
  "SequenceParameterBuilder \<Rightarrow> ('h, 'x) SequenceBuilder \<Rightarrow> ('h, 'x) SequenceBuilder" where
  "with_parameters pb b =
     b\<lparr>sb_sequence := (sb_sequence b)\<lparr>seq_parameters := bld_parameters pb\<rparr>, sb_current := bld_current pb\<rparr>"

definition on_parameters ::
  "(SequenceParameterBuilder \<Rightarrow> SequenceParameterBuilder result)
     \<Rightarrow> ('h, 'x) SequenceBuilder \<Rightarrow> ('h, 'x) SequenceBuilder result" where
  "on_parameters f b = bind_result (f (parameterBuilder b)) (\<lambda>pb. Inr (with_parameters pb b))"

definition on_handler ::
  "('h \<Rightarrow> 'h result) \<Rightarrow> ('h, 'x) SequenceBuilder \<Rightarrow> ('h, 'x) SequenceBuilder result" where
  "on_handler f b = bind_result (f (sb_handler b)) (\<lambda>h. Inr (b\<lparr>sb_handler := h\<rparr>))"

definition incrementInstructionCounter ::
  "nat \<Rightarrow> ('h, 'x) SequenceBuilder \<Rightarrow> ('h, 'x) SequenceBuilder" where
  "incrementInstructionCounter n b = b\<lparr>sb_instructions := sb_instructions b + n\<rparr>"

definition sb_clear :: "('h, 'x) SequenceBuilder \<Rightarrow> ('h, 'x) SequenceBuilder" where
  "sb_clear b =
     (let b1 = b\<lparr>sb_sequence := clearExceptParameters (sb_sequence b)\<rparr>
      in with_parameters (resetBuilder (parameterBuilder b1)) b1)"

definition sb_print ::
  "('h, 'x) SequenceHandler \<Rightarrow> codepoint \<Rightarrow> ('h, 'x) SequenceBuilder \<Rightarrow> ('h, 'x) SequenceBuilder result" where
  "sb_print H cp b = on_handler (writeText H cp) (incrementInstructionCounter 1 b)"

definition sb_printText ::
  "('h, 'x) SequenceHandler \<Rightarrow> bytes \<Rightarrow> nat \<Rightarrow> ('h, 'x) SequenceBuilder \<Rightarrow> ('h, 'x) SequenceBuilder result" where
  "sb_printText H chars cellCount b =
     (if chars = [] then Inl AssertionFailed
      else on_handler (writeBulkText H chars cellCount) (incrementInstructionCounter cellCount b))"

definition collect :: "byte \<Rightarrow> ('h, 'x) SequenceBuilder \<Rightarrow> ('h, 'x) SequenceBuilder" where
  "collect ch b = b\<lparr>sb_sequence := (sb_sequence b)
     \<lparr>seq_intermediateCharacters := seq_intermediateCharacters (sb_sequence b) @ [ch]\<rparr>\<rparr>"

definition collectLeader :: "byte \<Rightarrow> ('h, 'x) SequenceBuilder \<Rightarrow> ('h, 'x) SequenceBuilder" where
  "collectLeader lead b = b\<lparr>sb_sequence := (sb_sequence b)\<lparr>seq_leaderSymbol := lead\<rparr>\<rparr>"

definition paramDigit :: "byte \<Rightarrow> ('h, 'x) SequenceBuilder \<Rightarrow> ('h, 'x) SequenceBuilder result" where
  "paramDigit ch = on_parameters (multiplyBy10AndAdd (nat ((schar ch - 48) mod 256)))"

definition paramSeparator :: "('h, 'x) SequenceBuilder \<Rightarrow> ('h, 'x) SequenceBuilder result" where
  "paramSeparator = on_parameters nextParameter"

definition paramSubSeparator :: "('h, 'x) SequenceBuilder \<Rightarrow> ('h, 'x) SequenceBuilder result" where
  "paramSubSeparator = on_parameters nextSubParameter"

definition sb_param :: "byte \<Rightarrow> ('h, 'x) SequenceBuilder \<Rightarrow> ('h, 'x) SequenceBuilder result" where
  "sb_param ch b =
     (if ch = 0x3B then paramSeparator b
      else if ch = 0x3A then paramSubSeparator b
      else if is_digit ch then paramDigit ch b
      else Inl Unreachable)"

definition handleSequence ::
  "('h, 'x) SequenceHandler \<Rightarrow> ('h, 'x) SequenceBuilder \<Rightarrow> ('h, 'x) SequenceBuilder result" where
  "handleSequence H b =
     bind_result (on_parameters fixiate b) (\<lambda>b1.
       bind_result (processSequence H (sb_sequence b1) (sb_handler b1)) (\<lambda>(h, hooked).
         Inr (b1\<lparr>sb_handler := h,
                 sb_hookedParser := (case hooked of None \<Rightarrow> sb_hookedParser b1 | Some x \<Rightarrow> Some x)\<rparr>)))"

definition set_final ::
  "FunctionCategory \<Rightarrow> byte \<Rightarrow> ('h, 'x) SequenceBuilder \<Rightarrow> ('h, 'x) SequenceBuilder" where
  "set_final cat ch b = b\<lparr>sb_sequence := (sb_sequence b)\<lparr>seq_category := cat, seq_finalChar := ch\<rparr>\<rparr>"

definition dispatchESC ::
  "('h, 'x) SequenceHandler \<Rightarrow> byte \<Rightarrow> ('h, 'x) SequenceBuilder \<Rightarrow> ('h, 'x) SequenceBuilder result" where
  "dispatchESC H finalChar b = handleSequence H (set_final ESC finalChar b)"

definition dispatchCSI ::
  "('h, 'x) SequenceHandler \<Rightarrow> byte \<Rightarrow> ('h, 'x) SequenceBuilder \<Rightarrow> ('h, 'x) SequenceBuilder result" where
  "dispatchCSI H finalChar b = handleSequence H (set_final CSI finalChar b)"

definition startOSC :: "('h, 'x) SequenceBuilder \<Rightarrow> ('h, 'x) SequenceBuilder" where
  "startOSC b = b\<lparr>sb_sequence := (sb_sequence b)\<lparr>seq_category := OSC\<rparr>\<rparr>"

definition putOSC :: "byte \<Rightarrow> ('h, 'x) SequenceBuilder \<Rightarrow> ('h, 'x) SequenceBuilder" where
  "putOSC ch b =
     (if length (seq_intermediateCharacters (sb_sequence b)) + 1 < MaxOscLength then collect ch b else b)"

definition dispatchOSC ::
  "('h, 'x) SequenceHandler \<Rightarrow> ('h, 'x) SequenceBuilder \<Rightarrow> ('h, 'x) SequenceBuilder result" where
  "dispatchOSC H b =
     bind_result (extractCodePrefix (seq_intermediateCharacters (sb_sequence b))) (\<lambda>(code, skipCount).
       bind_result (on_parameters (set_value (to_u16 code)) b) (\<lambda>b1.
         bind_result (handleSequence H (b1\<lparr>sb_sequence := (sb_sequence b1)\<lparr>seq_intermediateCharacters :=
             drop skipCount (seq_intermediateCharacters (sb_sequence b1))\<rparr>\<rparr>))
           (\<lambda>b2. Inr (sb_clear b2))))"

definition hook ::
  "('h, 'x) SequenceHandler \<Rightarrow> byte \<Rightarrow> ('h, 'x) SequenceBuilder \<Rightarrow> ('h, 'x) SequenceBuilder result" where
  "hook H finalChar b = handleSequence H (set_final DCS finalChar (incrementInstructionCounter 1 b))"

definition put ::
  "('h, 'x) SequenceHandler \<Rightarrow> byte \<Rightarrow> ('h, 'x) SequenceBuilder \<Rightarrow> ('h, 'x) SequenceBuilder result" where
  "put H ch b =
     (case sb_hookedParser b of
        None \<Rightarrow> Inr b
      | Some x \<Rightarrow> bind_result (pass H ch x (sb_handler b))
          (\<lambda>(x', h). Inr (b\<lparr>sb_hookedParser := Some x', sb_handler := h\<rparr>)))"

definition unhook ::
  "('h, 'x) SequenceHandler \<Rightarrow> ('h, 'x) SequenceBuilder \<Rightarrow> ('h, 'x) SequenceBuilder result" where
  "unhook H b =
     (case sb_hookedParser b of
        None \<Rightarrow> Inr b
      | Some x \<Rightarrow> bind_result (finalize H x (sb_handler b))
          (\<lambda>h. Inr (b\<lparr>sb_hookedParser := None, sb_handler := h\<rparr>)))"

fun sb_event ::
  "('h, 'x) SequenceHandler \<Rightarrow> ParserEvent \<Rightarrow> ('h, 'x) SequenceBuilder \<Rightarrow> ('h, 'x) SequenceBuilder result" where
  "sb_event H Ev_error b = Inr b"
| "sb_event H (Ev_print cp) b = sb_print H cp b"
| "sb_event H (Ev_printText chars n) b = sb_printText H chars n b"
| "sb_event H Ev_printEnd b = on_handler (writeTextEnd H) b"
| "sb_event H (Ev_execute ch) b = on_handler (executeControlCode H ch) b"
| "sb_event H Ev_clear b = Inr (sb_clear b)"
| "sb_event H (Ev_collect ch) b = Inr (collect ch b)"
| "sb_event H (Ev_collectLeader ch) b = Inr (collectLeader ch b)"
| "sb_event H (Ev_param ch) b = sb_param ch b"
| "sb_event H (Ev_paramDigit ch) b = paramDigit ch b"
| "sb_event H Ev_paramSeparator b = paramSeparator b"
| "sb_event H Ev_paramSubSeparator b = paramSubSeparator b"
| "sb_event H (Ev_dispatchESC ch) b = dispatchESC H ch b"
| "sb_event H (Ev_dispatchCSI ch) b = dispatchCSI H ch b"
| "sb_event H Ev_startOSC b = Inr (startOSC b)"
| "sb_event H (Ev_putOSC ch) b = Inr (putOSC ch b)"
| "sb_event H Ev_dispatchOSC b = dispatchOSC H b"
| "sb_event H (Ev_hook ch) b = hook H ch b"
| "sb_event H (Ev_put ch) b = put H ch b"
| "sb_event H Ev_unhook b = unhook H b"
| "sb_event H Ev_startAPC b = Inr b"
| "sb_event H (Ev_putAPC ch) b = Inr b"
| "sb_event H Ev_dispatchAPC b = Inr b"
| "sb_event H Ev_startPM b = Inr b"
| "sb_event H (Ev_putPM ch) b = Inr b"
| "sb_event H Ev_dispatchPM b = Inr b"

definition sequence_listener ::
  "('h, 'x) SequenceHandler \<Rightarrow> ('h, 'x) SequenceBuilder EventListener" where
  "sequence_listener H = \<lparr>on_event = sb_event H,
     maxBulkTextSequenceWidth = (\<lambda>b. handlerBulkWidth H (sb_handler b))\<rparr>"

subsection \<open>The builder as a listener\<close>

text \<open>
  The invariant of the parameters, and the faults of the operations on them: moving on from the
  sixteenth parameter is the only way to leave the array.
\<close>

definition parameters_ok :: "SequenceParameterBuilder \<Rightarrow> bool" where
  "parameters_ok pb \<longleftrightarrow>
     length (par_values (bld_parameters pb)) = 16 \<and> bld_current pb < 16 \<and>
     (\<forall>v \<in> set (par_values (bld_parameters pb)). v < 65536) \<and> par_count (bld_parameters pb) \<le> 16"

lemma write_current_ok:
  "length (par_values (bld_parameters pb)) = 16 \<Longrightarrow> par_count (bld_parameters pb) \<le> 16 \<Longrightarrow>
   (\<forall>v \<in> set (par_values (bld_parameters pb)). v < 65536) \<Longrightarrow> v < 65536 \<Longrightarrow>
   result_in {OutOfBounds} parameters_ok (write_current v pb)"
  using set_update_subset_insert [of "par_values (bld_parameters pb)" "bld_current pb" v]
  by (auto simp: parameters_ok_def write_current_def MaxParameters_def)

lemma multiply_ok: "parameters_ok pb \<Longrightarrow> result_in {} parameters_ok (multiplyBy10AndAdd d pb)"
  using write_current_ok [of pb "wrap16 (par_values (bld_parameters pb) ! bld_current pb * 10 + d)"]
  by (auto simp: parameters_ok_def multiplyBy10AndAdd_def at_def write_current_def MaxParameters_def)

lemma set_value_ok: "parameters_ok pb \<Longrightarrow> v < 65536 \<Longrightarrow> result_in {} parameters_ok (set_value v pb)"
  using write_current_ok [of pb v]
  by (auto simp: parameters_ok_def set_value_def write_current_def MaxParameters_def)

lemma set_sub_test_ok: "parameters_ok pb \<Longrightarrow> parameters_ok (set_sub_test w pb)"
  by (simp add: parameters_ok_def set_sub_test_def)

lemma next_ok:
  assumes "parameters_ok pb"
  shows "result_in {OutOfBounds} parameters_ok (nextParameter pb)"
    and "result_in {OutOfBounds} parameters_ok (nextSubParameter pb)"
proof -
  have "result_in {OutOfBounds} parameters_ok (write_current 0 (pb\<lparr>bld_current := bld_current pb + 1\<rparr>))"
    using assms by (intro write_current_ok) (simp_all add: parameters_ok_def)
  then show "result_in {OutOfBounds} parameters_ok (nextParameter pb)"
    and "result_in {OutOfBounds} parameters_ok (nextSubParameter pb)"
    using assms unfolding nextParameter_def nextSubParameter_def
    by (auto intro!: result_in_bind intro: set_sub_test_ok)
qed

lemma fixiate_ok: "parameters_ok pb \<Longrightarrow> result_in {} parameters_ok (fixiate pb)"
  by (auto simp: parameters_ok_def fixiate_def count_builder_def Let_def)

lemma resetBuilder_ok: "parameters_ok pb \<Longrightarrow> parameters_ok (resetBuilder pb)"
  using set_update_subset_insert [of "par_values (bld_parameters pb)" 0 0]
  by (auto simp: parameters_ok_def resetBuilder_def clearParameters_def)

text \<open>
  A handler hooks parser extensions only while it processes a device control string; then none is
  hooked outside of such a string.
\<close>

definition hooks_in_dcs :: "('h, 'x) SequenceHandler \<Rightarrow> bool" where
  "hooks_in_dcs H \<longleftrightarrow>
     (\<forall>s h h' x. processSequence H s h = Inr (h', Some x) \<longrightarrow> seq_category s = DCS)"

definition builder_inv :: "('h, 'x) SequenceHandler \<Rightarrow> Mode \<Rightarrow> ('h, 'x) SequenceBuilder \<Rightarrow> bool" where
  "builder_inv H m b \<longleftrightarrow> parameters_ok (parameterBuilder b) \<and>
     (m = In_OSC \<longrightarrow> seq_category (sb_sequence b) = OSC) \<and>
     (hooks_in_dcs H \<longrightarrow> m \<noteq> In_DCS \<longrightarrow> sb_hookedParser b = None)"

definition handler_faults :: "('h, 'x) SequenceHandler \<Rightarrow> fault set" where
  "handler_faults H =
     {e. (\<exists>ch h. executeControlCode H ch h = Inl e) \<or> (\<exists>s h. processSequence H s h = Inl e)
       \<or> (\<exists>cp h. writeText H cp h = Inl e) \<or> (\<exists>t n h. writeBulkText H t n h = Inl e)
       \<or> (\<exists>h. writeTextEnd H h = Inl e) \<or> (\<exists>ch x h. pass H ch x h = Inl e)
       \<or> (\<exists>x h. finalize H x h = Inl e)}"

definition builder_faults :: "('h, 'x) SequenceHandler \<Rightarrow> fault set" where
  "builder_faults H = {OutOfBounds, SignedOverflow} \<union> handler_faults H"

lemma parameterBuilder_simps [simp]:
  "parameterBuilder (with_parameters pb b) = pb"
  "sb_hookedParser (with_parameters pb b) = sb_hookedParser b"
  "sb_handler (with_parameters pb b) = sb_handler b"
  "seq_category (sb_sequence (with_parameters pb b)) = seq_category (sb_sequence b)"
  "parameterBuilder (b\<lparr>sb_handler := h\<rparr>) = parameterBuilder b"
  "parameterBuilder (b\<lparr>sb_hookedParser := x\<rparr>) = parameterBuilder b"
  "parameterBuilder (incrementInstructionCounter n b) = parameterBuilder b"
  "sb_hookedParser (incrementInstructionCounter n b) = sb_hookedParser b"
  "sb_handler (incrementInstructionCounter n b) = sb_handler b"
  "parameterBuilder (set_final cat ch b) = parameterBuilder b"
  "sb_hookedParser (set_final cat ch b) = sb_hookedParser b"
  "sb_handler (set_final cat ch b) = sb_handler b"
  "seq_category (sb_sequence (set_final cat ch b)) = cat"
  "parameterBuilder (collect ch b) = parameterBuilder b"
  "sb_hookedParser (collect ch b) = sb_hookedParser b"
  "parameterBuilder (collectLeader ch b) = parameterBuilder b"
  "sb_hookedParser (collectLeader ch b) = sb_hookedParser b"
  "parameterBuilder (startOSC b) = parameterBuilder b"
  "sb_hookedParser (startOSC b) = sb_hookedParser b"
  "seq_category (sb_sequence (collect ch b)) = seq_category (sb_sequence b)"
  "seq_category (sb_sequence (startOSC b)) = OSC"
  by (simp_all add: parameterBuilder_def with_parameters_def incrementInstructionCounter_def
      set_final_def collect_def collectLeader_def startOSC_def)

lemma sb_clear_simps [simp]:
  "parameterBuilder (sb_clear b) = resetBuilder (parameterBuilder b)"
  "sb_hookedParser (sb_clear b) = sb_hookedParser b"
  "sb_handler (sb_clear b) = sb_handler b"
  by (simp_all add: sb_clear_def Let_def parameterBuilder_def clearExceptParameters_def with_parameters_def)

lemma on_parameters_inv:
  assumes "builder_inv H m b" and "result_in F parameters_ok (f (parameterBuilder b))" "F \<subseteq> builder_faults H"
  shows "result_in (builder_faults H) (\<lambda>b'. builder_inv H m b'
      \<and> seq_category (sb_sequence b') = seq_category (sb_sequence b)) (on_parameters f b)"
  using assms unfolding on_parameters_def
  by (cases "f (parameterBuilder b)") (auto simp: builder_inv_def)

lemma on_handler_inv:
  assumes "builder_inv H m b" and "\<And>e. f (sb_handler b) = Inl e \<Longrightarrow> e \<in> handler_faults H"
  shows "result_in (builder_faults H) (builder_inv H m) (on_handler f b)"
  using assms unfolding on_handler_def
  by (cases "f (sb_handler b)") (auto simp: builder_inv_def builder_faults_def)

lemma sb_clear_inv: "builder_inv H m b \<Longrightarrow> m \<noteq> In_OSC \<Longrightarrow> builder_inv H m (sb_clear b)"
  by (auto simp: builder_inv_def intro: resetBuilder_ok)

lemma handleSequence_inv:
  assumes "builder_inv H m b" and "seq_category (sb_sequence b) = DCS \<longrightarrow> m' = In_DCS"
    and "m' = In_DCS \<or> m \<noteq> In_DCS \<and> m' = Outside"
  shows "result_in (builder_faults H) (builder_inv H m') (handleSequence H b)"
  unfolding handleSequence_def
proof (rule result_in_bind)
  show "result_in (builder_faults H) (\<lambda>b'. builder_inv H m b'
      \<and> seq_category (sb_sequence b') = seq_category (sb_sequence b)) (on_parameters fixiate b)"
    using assms(1) by (intro on_parameters_inv) (auto simp: builder_inv_def intro!: fixiate_ok)
  fix b1
  assume b1: "builder_inv H m b1 \<and> seq_category (sb_sequence b1) = seq_category (sb_sequence b)"
  show "result_in (builder_faults H) (builder_inv H m')
     (bind_result (processSequence H (sb_sequence b1) (sb_handler b1)) (\<lambda>(h, hooked).
         Inr (b1\<lparr>sb_handler := h,
                 sb_hookedParser := (case hooked of None \<Rightarrow> sb_hookedParser b1 | Some x \<Rightarrow> Some x)\<rparr>)))"
  proof (cases "processSequence H (sb_sequence b1) (sb_handler b1)")
    case (Inl e)
    then show ?thesis by (auto simp: builder_faults_def handler_faults_def)
  next
    case (Inr r)
    obtain h hk where r: "r = (h, hk)" by fastforce
    have "hooks_in_dcs H \<Longrightarrow> hk = Some x \<Longrightarrow> m' = In_DCS" for x
      using assms(2) Inr r b1 unfolding hooks_in_dcs_def by metis
    then show ?thesis
      using b1 assms(3) Inr r by (auto simp: builder_inv_def split: option.splits)
  qed
qed


lemma scan_digits_fault: "scan_digits ds c = Inl e \<Longrightarrow> e = SignedOverflow"
  by (induction ds arbitrary: c) (auto simp: bind_result_def split: if_splits sum.splits prod.splits)

lemma extractCodePrefix_fault: "extractCodePrefix s = Inl e \<Longrightarrow> e = SignedOverflow"
  by (auto simp: extractCodePrefix_def Let_def bind_result_def dest: scan_digits_fault split: sum.splits prod.splits if_splits)

lemma dispatchOSC_inv:
  assumes "builder_inv H In_OSC b"
  shows "result_in (builder_faults H) (builder_inv H Outside) (dispatchOSC H b)"
proof (cases "extractCodePrefix (seq_intermediateCharacters (sb_sequence b))")
  case (Inl e)
  then show ?thesis by (auto simp: dispatchOSC_def builder_faults_def dest: extractCodePrefix_fault)
next
  case (Inr r)
  obtain code skip where r: "r = (code, skip)" by fastforce
  let ?cut = "\<lambda>b1. b1\<lparr>sb_sequence := (sb_sequence b1)\<lparr>seq_intermediateCharacters :=
             drop skip (seq_intermediateCharacters (sb_sequence b1))\<rparr>\<rparr>"
  have osc: "seq_category (sb_sequence b) = OSC" using assms by (simp add: builder_inv_def)
  show ?thesis unfolding dispatchOSC_def Inr r bind_result_simps prod.case
  proof (rule result_in_bind)
    show "result_in (builder_faults H) (\<lambda>b'. builder_inv H In_OSC b' \<and>
        seq_category (sb_sequence b') = seq_category (sb_sequence b)) (on_parameters (set_value (to_u16 code)) b)"
      using assms by (intro on_parameters_inv [where F = "{}"])
        (auto simp: builder_inv_def intro!: set_value_ok)
  next
    fix b1
    assume b1: "builder_inv H In_OSC b1 \<and> seq_category (sb_sequence b1) = seq_category (sb_sequence b)"
    have "result_in (builder_faults H) (builder_inv H Outside) (handleSequence H (?cut b1))"
      using b1 osc by (intro handleSequence_inv [where m = In_OSC]) (auto simp: builder_inv_def parameterBuilder_def)
    then show "result_in (builder_faults H) (builder_inv H Outside)
        (bind_result (handleSequence H (?cut b1)) (\<lambda>b2. Inr (sb_clear b2)))"
      by (rule result_in_bind) (simp add: sb_clear_inv)
  qed
qed

lemma put_inv:
  assumes "builder_inv H In_DCS b"
  shows "result_in (builder_faults H) (builder_inv H In_DCS) (put H ch b)"
proof (cases "sb_hookedParser b")
  case None
  with assms show ?thesis by (simp add: put_def)
next
  case (Some x)
  with assms show ?thesis
    by (cases "pass H ch x (sb_handler b)")
      (auto simp: put_def builder_inv_def builder_faults_def handler_faults_def)
qed

lemma unhook_inv:
  assumes "builder_inv H In_DCS b"
  shows "result_in (builder_faults H) (builder_inv H Outside) (unhook H b)"
proof (cases "sb_hookedParser b")
  case None
  with assms show ?thesis by (simp add: unhook_def builder_inv_def)
next
  case (Some x)
  with assms show ?thesis
    by (cases "finalize H x (sb_handler b)")
      (auto simp: unhook_def builder_inv_def builder_faults_def handler_faults_def)
qed

lemma builder_mode:
  "builder_inv H Outside b \<Longrightarrow> m \<noteq> In_OSC \<Longrightarrow> builder_inv H m b"
  "builder_inv H m b \<Longrightarrow> m \<noteq> In_DCS \<Longrightarrow> builder_inv H Outside b"
  by (auto simp: builder_inv_def)

lemma collect_inv:
  assumes "builder_inv H Outside b"
  shows "builder_inv H Outside (collect ch b)" "builder_inv H Outside (collectLeader ch b)"
  using assms by (simp_all add: builder_inv_def)

lemma param_events_inv:
  assumes "builder_inv H Outside b"
  shows "result_in (builder_faults H) (builder_inv H Outside) (paramDigit ch b)"
    and "result_in (builder_faults H) (builder_inv H Outside) (paramSeparator b)"
    and "result_in (builder_faults H) (builder_inv H Outside) (paramSubSeparator b)"
proof -
  have ok: "parameters_ok (parameterBuilder b)" using assms by (simp add: builder_inv_def)
  have drop: "result_in (builder_faults H) (builder_inv H Outside) (on_parameters f b)"
    if "result_in F parameters_ok (f (parameterBuilder b))" "F \<subseteq> builder_faults H" for F f
    using on_parameters_inv [of H Outside b F f, OF assms that] by (rule result_in_mono) auto
  show "result_in (builder_faults H) (builder_inv H Outside) (paramDigit ch b)"
    unfolding paramDigit_def by (rule drop, rule multiply_ok [OF ok]) auto
  show "result_in (builder_faults H) (builder_inv H Outside) (paramSeparator b)"
    unfolding paramSeparator_def by (rule drop, rule next_ok(1) [OF ok]) (auto simp: builder_faults_def)
  show "result_in (builder_faults H) (builder_inv H Outside) (paramSubSeparator b)"
    unfolding paramSubSeparator_def by (rule drop, rule next_ok(2) [OF ok]) (auto simp: builder_faults_def)
qed

lemma text_events_inv:
  assumes "builder_inv H Outside b"
  shows "result_in (builder_faults H) (builder_inv H Outside) (sb_print H cp b)"
    and "t \<noteq> [] \<Longrightarrow> result_in (builder_faults H) (builder_inv H Outside) (sb_printText H t n b)"
    and "result_in (builder_faults H) (builder_inv H Outside) (on_handler (writeTextEnd H) b)"
    and "result_in (builder_faults H) (builder_inv H Outside) (on_handler (executeControlCode H ch) b)"
proof -
  have "builder_inv H Outside (incrementInstructionCounter k b)" for k
    using assms by (simp add: builder_inv_def)
  then show "result_in (builder_faults H) (builder_inv H Outside) (sb_print H cp b)"
    and "t \<noteq> [] \<Longrightarrow> result_in (builder_faults H) (builder_inv H Outside) (sb_printText H t n b)"
    unfolding sb_print_def sb_printText_def by (auto intro!: on_handler_inv simp: handler_faults_def)
  show "result_in (builder_faults H) (builder_inv H Outside) (on_handler (writeTextEnd H) b)"
    and "result_in (builder_faults H) (builder_inv H Outside) (on_handler (executeControlCode H ch) b)"
    using assms by (auto intro!: on_handler_inv simp: handler_faults_def)
qed

lemma dispatch_events_inv:
  assumes "builder_inv H Outside b"
  shows "result_in (builder_faults H) (builder_inv H Outside) (dispatchESC H ch b)"
    and "result_in (builder_faults H) (builder_inv H Outside) (dispatchCSI H ch b)"
    and "result_in (builder_faults H) (builder_inv H In_DCS) (hook H ch b)"
proof -
  have "builder_inv H Outside (set_final cat ch b')" if "builder_inv H Outside b'" for cat and b' :: "('a, 'b) SequenceBuilder"
    using that by (simp add: builder_inv_def)
  moreover have "builder_inv H Outside (incrementInstructionCounter 1 b)"
    using assms by (simp add: builder_inv_def)
  ultimately show "result_in (builder_faults H) (builder_inv H Outside) (dispatchESC H ch b)"
    and "result_in (builder_faults H) (builder_inv H Outside) (dispatchCSI H ch b)"
    and "result_in (builder_faults H) (builder_inv H In_DCS) (hook H ch b)"
    unfolding dispatchESC_def dispatchCSI_def hook_def
    using assms by (auto intro!: handleSequence_inv [where m = Outside])
qed

lemma sb_event_inv:
  assumes "builder_inv H m b" and "monitor m ev = Some m'" and "final_ok ev"
  shows "result_in (builder_faults H) (builder_inv H m') (sb_event H ev b)"
proof (cases ev)
  case (Ev_param ch)
  with assms show ?thesis
    using param_events_inv [of H b]
    by (auto simp: expect_def sb_param_def final_ok_def split: if_splits)
next
  case (Ev_putOSC ch)
  with assms show ?thesis
    by (auto simp: expect_def putOSC_def builder_inv_def split: if_splits)
next
  case Ev_startOSC
  with assms show ?thesis
    by (auto simp: expect_def builder_inv_def split: if_splits)
qed (use assms in \<open>auto simp: expect_def final_ok_def split: if_splits
      intro: param_events_inv text_events_inv dispatch_events_inv dispatchOSC_inv put_inv unhook_inv
        sb_clear_inv collect_inv builder_mode\<close>)

interpretation builder_listener: parser_listener "sequence_listener H" "builder_inv H" "builder_faults H" for H
  by unfold_locales (simp add: sequence_listener_def sb_event_inv)

end
