(* ===== verification/VT_FunctionTable.thy ===== *)
theory VT_FunctionTable
  imports VT_Functions "HOL-Library.Product_Lexorder"
begin

text \<open>
  The table of VT functions and the selection of a function for a parsed sequence: the order that
  \<open>compare\<close> defines, the binary search of \<open>select\<close>, the facts of the concrete table both rely on,
  and the set of active sequences that \<open>SupportedSequences\<close> maintains under \<open>reset\<close>,
  \<open>enableSequence\<close> and \<open>disableSequence\<close>.
\<close>


subsection \<open>The order of the table\<close>

definition order_key :: "Function \<Rightarrow> int \<times> int \<times> int \<times> int \<times> nat \<times> nat" where
  "order_key f = (int (category_value (category f)), schar (finalSymbol f), schar (leader f),
     schar (intermediate f), minimumParameters f, maximumParameters f)"

lemma category_value_inj [simp]: "category_value a = category_value b \<longleftrightarrow> a = b"
  by (cases a; cases b) simp_all

lemma compare_le_iff: "compare a b \<le> 0 \<longleftrightarrow> order_key a \<le> order_key b"
  by (auto simp: compare_def order_key_def)

lemma compare_eq_iff: "compare a b = 0 \<longleftrightarrow> order_key a = order_key b"
  by (auto simp: compare_def order_key_def)

interpretation fn_order: comparison compare
  by unfold_locales (auto simp: compare_le_iff)

subsection \<open>Binary search\<close>

text \<open>
  What the search relies on: along the list the selector's comparison does not increase in sign.
\<close>

definition search_ordered :: "('a \<Rightarrow> int) \<Rightarrow> 'a list \<Rightarrow> bool" where
  "search_ordered rel xs \<longleftrightarrow>
     (\<forall>i j. i < j \<longrightarrow> j < length xs \<longrightarrow>
        (rel (xs ! i) < 0 \<longrightarrow> rel (xs ! j) < 0) \<and> (0 < rel (xs ! j) \<longrightarrow> 0 < rel (xs ! i)))"

lemma select_loop_unfold:
  "b < a \<Longrightarrow> select_loop sel defs a b = None"
  "a \<le> b \<Longrightarrow> 0 < compare_selector sel (defs ! ((a + b) div 2)) \<Longrightarrow>
     select_loop sel defs a b = select_loop sel defs ((a + b) div 2 + 1) b"
  "a \<le> b \<Longrightarrow> compare_selector sel (defs ! ((a + b) div 2)) < 0 \<Longrightarrow>
     select_loop sel defs a b =
       (if (a + b) div 2 = 0 then None else select_loop sel defs a ((a + b) div 2 - 1))"
  "a \<le> b \<Longrightarrow> compare_selector sel (defs ! ((a + b) div 2)) = 0 \<Longrightarrow>
     select_loop sel defs a b = Some (defs ! ((a + b) div 2))"
  by (simp_all add: select_loop.simps [of sel defs a b] Let_def)

lemma select_loop_sound:
  "b < length defs \<Longrightarrow> select_loop sel defs a b = Some f \<Longrightarrow>
     f \<in> set defs \<and> compare_selector sel f = 0"
proof (induction "Suc b - a" arbitrary: a b rule: less_induct)
  case less
  let ?i = "(a + b) div 2" and ?r = "compare_selector sel (defs ! ((a + b) div 2))"
  have ab: "a \<le> b" using less.prems(2) select_loop_unfold(1) by (metis linorder_not_le option.distinct(1))
  then have i: "a \<le> ?i" "?i \<le> b" by auto
  consider "0 < ?r" | "?r < 0" | "?r = 0" by linarith
  then show ?case
  proof cases
    case 1
    have "f \<in> set defs \<and> compare_selector sel f = 0"
      using 1 ab i less.prems by (intro less.hyps [of b "?i + 1"]) (auto simp: select_loop_unfold)
    then show ?thesis .
  next
    case 2
    with ab less.prems(2) have "?i \<noteq> 0" and "select_loop sel defs a (?i - 1) = Some f"
      by (auto simp: select_loop_unfold split: if_splits)
    then show ?thesis using ab i less.prems(1) by (intro less.hyps [of "?i - 1" a]) auto
  next
    case 3
    with ab i less.prems show ?thesis by (auto simp: select_loop_unfold)
  qed
qed

lemma select_loop_complete:
  assumes "search_ordered (compare_selector sel) defs"
  shows "b < length defs \<Longrightarrow> a \<le> k \<Longrightarrow> k \<le> b \<Longrightarrow> compare_selector sel (defs ! k) = 0 \<Longrightarrow>
     \<exists>f. select_loop sel defs a b = Some f"
proof (induction "Suc b - a" arbitrary: a b rule: less_induct)
  case less
  let ?i = "(a + b) div 2" and ?r = "compare_selector sel (defs ! ((a + b) div 2))"
  from less.prems have ab: "a \<le> b" by simp
  then have i: "a \<le> ?i" "?i \<le> b" by auto
  have mono: "\<And>x y. x < y \<Longrightarrow> y < length defs \<Longrightarrow>
      (compare_selector sel (defs ! x) < 0 \<longrightarrow> compare_selector sel (defs ! y) < 0)
      \<and> (0 < compare_selector sel (defs ! y) \<longrightarrow> 0 < compare_selector sel (defs ! x))"
    using assms by (auto simp: search_ordered_def)
  consider "0 < ?r" | "?r < 0" | "?r = 0" by linarith
  then show ?case
  proof cases
    case 1
    have "?i < k"
    proof (rule ccontr)
      assume "\<not> ?i < k"
      then have "k = ?i \<or> k < ?i" by linarith
      with mono [of k ?i] 1 i less.prems show False by auto
    qed
    then have "\<exists>f. select_loop sel defs (?i + 1) b = Some f"
      using i less.prems by (intro less.hyps) auto
    with 1 ab show ?thesis by (simp add: select_loop_unfold)
  next
    case 2
    have "k < ?i"
    proof (rule ccontr)
      assume "\<not> k < ?i"
      then have "k = ?i \<or> ?i < k" by linarith
      with mono [of ?i k] 2 less.prems show False by auto
    qed
    then have "\<exists>f. select_loop sel defs a (?i - 1) = Some f"
      using i less.prems by (intro less.hyps) auto
    with 2 ab \<open>k < ?i\<close> show ?thesis by (simp add: select_loop_unfold)
  next
    case 3
    with ab show ?thesis by (simp add: select_loop_unfold)
  qed
qed

text \<open>
  A sorted table in which no parameter range is nested in another range of the same syntax is
  ordered for every selector.
\<close>

definition no_nesting :: "Function \<Rightarrow> Function \<Rightarrow> bool" where
  "no_nesting f g \<longleftrightarrow>
     (category f = category g \<longrightarrow> finalSymbol f = finalSymbol g \<longrightarrow> leader f = leader g \<longrightarrow>
      intermediate f = intermediate g \<longrightarrow> minimumParameters f \<le> minimumParameters g \<longrightarrow>
      compare f g \<le> 0 \<longrightarrow> maximumParameters f \<le> maximumParameters g)"

definition head_key :: "Function \<Rightarrow> int \<times> int \<times> int \<times> int" where
  "head_key f = (int (category_value (category f)), schar (finalSymbol f), schar (leader f),
     schar (intermediate f))"

definition selector_head :: "FunctionSelector \<Rightarrow> int \<times> int \<times> int \<times> int" where
  "selector_head s = (int (category_value (sel_category s)), schar (sel_finalSymbol s),
     schar (sel_leader s), schar (sel_intermediate s))"

definition argc_compare :: "FunctionSelector \<Rightarrow> Function \<Rightarrow> int" where
  "argc_compare s f =
     (if sel_category s = OSC then sel_argc s - int (maximumParameters f)
      else if sel_argc s < int (minimumParameters f) then -1
      else if sel_argc s > int (maximumParameters f) then 1 else 0)"

lemma compare_selector_neg:
  "compare_selector s f < 0 \<longleftrightarrow>
     selector_head s < head_key f \<or> selector_head s = head_key f \<and> argc_compare s f < 0"
  by (auto simp: compare_selector_def selector_head_def head_key_def argc_compare_def le_less)

lemma compare_selector_pos:
  "0 < compare_selector s f \<longleftrightarrow>
     head_key f < selector_head s \<or> selector_head s = head_key f \<and> 0 < argc_compare s f"
  by (auto simp: compare_selector_def selector_head_def head_key_def argc_compare_def le_less)

lemma compare_head:
  "compare f g \<le> 0 \<Longrightarrow> head_key f < head_key g \<or>
     head_key f = head_key g \<and> minimumParameters f \<le> minimumParameters g"
  by (auto simp: compare_le_iff order_key_def head_key_def)

lemma argc_mono:
  assumes "minimumParameters f \<le> minimumParameters g" "maximumParameters f \<le> maximumParameters g"
  shows "argc_compare s f < 0 \<longrightarrow> argc_compare s g < 0" "0 < argc_compare s g \<longrightarrow> 0 < argc_compare s f"
  using assms by (auto simp: argc_compare_def)

lemma selector_mono:
  assumes "compare f g \<le> 0" and "no_nesting f g"
  shows "compare_selector sel f < 0 \<longrightarrow> compare_selector sel g < 0"
    and "0 < compare_selector sel g \<longrightarrow> 0 < compare_selector sel f"
proof -
  from compare_head [OF assms(1)] consider
    "head_key f < head_key g" |
    "head_key f = head_key g" "minimumParameters f \<le> minimumParameters g"
      "maximumParameters f \<le> maximumParameters g"
    using assms by (auto simp: no_nesting_def head_key_def)
  then have "(compare_selector sel f < 0 \<longrightarrow> compare_selector sel g < 0)
    \<and> (0 < compare_selector sel g \<longrightarrow> 0 < compare_selector sel f)"
  proof cases
    case 1
    then show ?thesis
      unfolding compare_selector_neg compare_selector_pos by (metis order_less_trans)
  next
    case 2
    then show ?thesis
      unfolding compare_selector_neg compare_selector_pos using argc_mono [of f g sel] by auto
  qed
  then show "compare_selector sel f < 0 \<longrightarrow> compare_selector sel g < 0"
    and "0 < compare_selector sel g \<longrightarrow> 0 < compare_selector sel f" by blast+
qed

lemma table_search_ordered:
  assumes "sorted_wrt (\<lambda>a b. compare a b \<le> 0) defs"
    and "\<And>f g. f \<in> set defs \<Longrightarrow> g \<in> set defs \<Longrightarrow> no_nesting f g"
  shows "search_ordered (compare_selector sel) defs"
  unfolding search_ordered_def
proof (intro allI impI)
  fix i j
  assume "i < j" "j < length defs"
  then have "compare (defs ! i) (defs ! j) \<le> 0" and "no_nesting (defs ! i) (defs ! j)"
    using assms by (auto simp: sorted_wrt_iff_nth_less)
  from selector_mono [OF this, of sel]
  show "(compare_selector sel (defs ! i) < 0 \<longrightarrow> compare_selector sel (defs ! j) < 0) \<and>
        (0 < compare_selector sel (defs ! j) \<longrightarrow> 0 < compare_selector sel (defs ! i))" by blast
qed

subsection \<open>Facts of the table\<close>

lemmas function_makers =
  mk_C0_def mk_ESC_def mk_CSI_def mk_CSI_ext_def mk_DCS_def mk_DCS_ext_def mk_OSC_def ArgsMax_def

text \<open>
  The syntax of a function as one number, and the table's rows as numbers. The facts of the table
  are read off this list.
\<close>

definition syntax_code :: "Function \<Rightarrow> nat" where
  "syntax_code f =
     ((category_value (category f) * 256 + finalSymbol f) * 256 + leader f) * 256 + intermediate f"

definition row_code :: "Function \<Rightarrow> FunctionCategory \<times> nat \<times> nat \<times> nat" where
  "row_code f = (category f, syntax_code f, minimumParameters f, maximumParameters f)"

definition table_rows :: "(FunctionCategory \<times> nat \<times> nat \<times> nat) list" where
  "table_rows = [
      (C0, 262144, 0, 0), (C0, 458752, 0, 0), (C0, 524288, 0, 0), (C0, 589824, 0, 0),
      (C0, 655360, 0, 0), (C0, 720896, 0, 0), (C0, 786432, 0, 0), (C0, 851968, 0, 0),
      (C0, 983040, 0, 0), (C0, 917504, 0, 0), (ESC, 20447267, 0, 0), (ESC, 20316160, 0, 0),
      (ESC, 20512768, 0, 0), (ESC, 20774912, 0, 0), (ESC, 20840448, 0, 0), (ESC, 20447232, 0, 0),
      (ESC, 20381696, 0, 0), (ESC, 21495808, 0, 0), (ESC, 21233664, 0, 0), (ESC, 21299200, 0, 0),
      (ESC, 21823488, 0, 0), (ESC, 23265280, 0, 0), (ESC, 19922984, 0, 0), (ESC, 21102632, 0, 0),
      (ESC, 19922985, 0, 0), (ESC, 21102633, 0, 0), (ESC, 21889024, 0, 0), (ESC, 21954560, 0, 0),
      (CSI, 41222144, 0, 0), (CSI, 41172480, 0, 2), (CSI, 39452672, 0, 1), (CSI, 38207488, 0, 1),
      (CSI, 38338560, 0, 1), (CSI, 38076416, 0, 1), (CSI, 38141952, 0, 1), (CSI, 38010880, 0, 1),
      (CSI, 37879808, 0, 1), (CSI, 37945344, 0, 1), (CSI, 38273024, 0, 2), (CSI, 37814272, 0, 1),
      (CSI, 40042496, 0, 1), (CSI, 40058368, 0, 1), (CSI, 40058112, 0, 1), (CSI, 38797312, 0, 1),
      (CSI, 41025572, 5, 127), (CSI, 41287716, 0, 8), (CSI, 41812007, 0, 1), (CSI, 41549860, 0, 4),
      (CSI, 41418788, 0, 5), (CSI, 41746471, 0, 1), (CSI, 40960034, 0, 1), (CSI, 38420224, 0, 1),
      (CSI, 41615396, 0, 4), (CSI, 38485760, 0, 1), (CSI, 40763392, 1, 1), (CSI, 40779520, 1, 1),
      (CSI, 41041664, 0, 127), (CSI, 41107200, 0, 127), (CSI, 41812012, 3, 18),
      (CSI, 41238016, 0, 1), (CSI, 41238272, 0, 0), (CSI, 41237760, 1, 2), (CSI, 41237504, 0, 1),
      (CSI, 40648448, 1, 127), (CSI, 40910628, 1, 1), (CSI, 40894500, 1, 1), (CSI, 41353252, 1, 1),
      (CSI, 41746468, 0, 1), (CSI, 40894498, 2, 2), (CSI, 41680932, 0, 1), (CSI, 40960032, 0, 1),
      (CSI, 41091072, 0, 2), (CSI, 40894496, 0, 1), (CSI, 40386304, 1, 127), (CSI, 41680938, 0, 1),
      (CSI, 41812004, 0, 1), (CSI, 41025536, 0, 2), (CSI, 40894497, 0, 0), (CSI, 37093376, 0, 0),
      (CSI, 38600704, 0, 1), (CSI, 39321600, 0, 1), (CSI, 38404096, 0, 127), (CSI, 38469632, 0, 1),
      (CSI, 39845888, 1, 1), (CSI, 39911424, 1, 1), (CSI, 40239104, 0, 2), (CSI, 37748736, 0, 1),
      (CSI, 38535168, 0, 1), (CSI, 39976960, 1, 1), (CSI, 40632320, 1, 127), (CSI, 41091072, 0, 0),
      (CSI, 39059456, 0, 1), (CSI, 38616576, 0, 0), (CSI, 40697856, 0, 127), (CSI, 41746467, 0, 0),
      (CSI, 41615395, 0, 0), (CSI, 40370176, 1, 127), (CSI, 38993920, 0, 1), (CSI, 40304640, 0, 1),
      (CSI, 40108032, 0, 1), (CSI, 41156608, 1, 3), (CSI, 38862883, 0, 127),
      (CSI, 38797347, 0, 127), (CSI, 38928419, 0, 0), (CSI, 41106944, 0, 1), (CSI, 39010048, 2, 4),
      (CSI, 40975872, 0, 1), (DCS, 74448932, 0, 0), (DCS, 74514468, 0, 0), (DCS, 74514432, 0, 3),
      (DCS, 74514475, 0, 0), (OSC, 50331648, 0, 1), (OSC, 50331648, 0, 0), (OSC, 50331648, 0, 2),
      (OSC, 50331648, 0, 3), (OSC, 50331648, 0, 4), (OSC, 50331648, 0, 7), (OSC, 50331648, 0, 8),
      (OSC, 50331648, 0, 10), (OSC, 50331648, 0, 11), (OSC, 50331648, 0, 12),
      (OSC, 50331648, 0, 13), (OSC, 50331648, 0, 14), (OSC, 50331648, 0, 50),
      (OSC, 50331648, 0, 60), (OSC, 50331648, 0, 52), (OSC, 50331648, 0, 104),
      (OSC, 50331648, 0, 106), (OSC, 50331648, 0, 110), (OSC, 50331648, 0, 111),
      (OSC, 50331648, 0, 112), (OSC, 50331648, 0, 113), (OSC, 50331648, 0, 114),
      (OSC, 50331648, 0, 119), (OSC, 50331648, 0, 117), (OSC, 50331648, 0, 777),
      (OSC, 50331648, 0, 888)]"

lemma map_row_code: "map row_code allFunctionsArray = table_rows"
  unfolding allFunctionsArray_def table_rows_def
  by (simp only: list.map function_makers row_code_def syntax_code_def
        Function.simps category_value.simps) simp

lemma row_codes_distinct: "distinct (map row_code allFunctionsArray)"
  unfolding map_row_code table_rows_def by simp

lemma table_distinct: "distinct allFunctionsArray"
  using row_codes_distinct by (simp add: distinct_map)

lemma row_code_inj:
  "f \<in> set allFunctionsArray \<Longrightarrow> g \<in> set allFunctionsArray \<Longrightarrow> row_code f = row_code g \<Longrightarrow> f = g"
  using row_codes_distinct by (auto simp: distinct_map inj_on_def)

lemma table_all: "list_all P table_rows \<Longrightarrow> f \<in> set allFunctionsArray \<Longrightarrow> P (row_code f)"
  unfolding map_row_code [symmetric] by (simp add: list_all_iff)

lemma osc_rows:
  "f \<in> set allFunctionsArray \<Longrightarrow> category f = OSC \<Longrightarrow>
     finalSymbol f = 0 \<and> leader f = 0 \<and> intermediate f = 0 \<and> minimumParameters f = 0"
proof -
  have "list_all (\<lambda>(c, s, l, u). c = OSC \<longrightarrow> s = 50331648 \<and> l = 0) table_rows"
    unfolding table_rows_def by simp
  then show "f \<in> set allFunctionsArray \<Longrightarrow> category f = OSC \<Longrightarrow>
     finalSymbol f = 0 \<and> leader f = 0 \<and> intermediate f = 0 \<and> minimumParameters f = 0"
    by (drule_tac table_all) (auto simp: row_code_def syntax_code_def)
qed

lemma scosc_rows:
  assumes "f \<in> set allFunctionsArray" "syntax_code f = syntax_code SCOSC"
  shows "f = SCOSC \<or> f = DECSLRM"
proof -
  have t: "SCOSC \<in> set allFunctionsArray" "DECSLRM \<in> set allFunctionsArray"
    by (simp_all add: allFunctionsArray_def)
  have r: "row_code SCOSC = (CSI, 41091072, 0, 0)" "row_code DECSLRM = (CSI, 41091072, 0, 2)"
    by (simp_all add: row_code_def syntax_code_def function_makers)
  have "list_all (\<lambda>r. fst (snd r) = 41091072 \<longrightarrow> r = (CSI, 41091072, 0, 0) \<or> r = (CSI, 41091072, 0, 2)) table_rows"
    unfolding table_rows_def by simp
  from table_all [OF this assms(1)] r assms(2) have "row_code f = row_code SCOSC \<or> row_code f = row_code DECSLRM"
    by (simp add: row_code_def)
  with t assms(1) show ?thesis by (blast intro: row_code_inj)
qed

lemma other_rows_distinct:
  "distinct (map (fst \<circ> snd) (filter (\<lambda>r. fst r \<noteq> OSC \<and> r \<noteq> (CSI, 41091072, 0, 0)) table_rows))"
  unfolding table_rows_def by simp

lemma fst_row_code: "fst (row_code f) = category f"
  by (simp add: row_code_def)

lemma same_syntax:
  assumes "f \<in> set allFunctionsArray" "g \<in> set allFunctionsArray"
    and "category f = category g" "category f \<noteq> OSC" "syntax_code f = syntax_code g"
  shows "f = g \<or> {f, g} = {SCOSC, DECSLRM}"
proof (cases "f = SCOSC \<or> g = SCOSC")
  case True
  with assms scosc_rows [of f] scosc_rows [of g] show ?thesis by auto
next
  case False
  have "SCOSC \<in> set allFunctionsArray" by (simp add: allFunctionsArray_def)
  moreover have scosc: "row_code SCOSC = (CSI, 41091072, 0, 0)"
    by (simp add: row_code_def syntax_code_def function_makers)
  ultimately have no: "row_code f \<noteq> (CSI, 41091072, 0, 0)" "row_code g \<noteq> (CSI, 41091072, 0, 0)"
    using False assms(1,2) row_code_inj by metis+
  let ?rs = "filter (\<lambda>r. fst r \<noteq> OSC \<and> r \<noteq> (CSI, 41091072, 0, 0)) table_rows"
  have "row_code f \<in> set ?rs" "row_code g \<in> set ?rs"
    using assms no unfolding map_row_code [symmetric] by (simp_all add: fst_row_code)
  moreover have "(fst \<circ> snd) (row_code f) = (fst \<circ> snd) (row_code g)"
    using assms by (simp add: row_code_def)
  ultimately have "row_code f = row_code g"
    using other_rows_distinct unfolding distinct_map by (blast dest: inj_onD)
  with assms row_code_inj show ?thesis by blast
qed

lemma scosc_range: "minimumParameters SCOSC = 0" "maximumParameters SCOSC = 0"
    "minimumParameters DECSLRM = 0" "maximumParameters DECSLRM = 2"
  by (simp_all add: function_makers)

lemma table_no_nesting:
  assumes "f \<in> set allFunctionsArray" "g \<in> set allFunctionsArray"
  shows "no_nesting f g"
  unfolding no_nesting_def
proof (intro impI)
  assume h: "category f = category g" "finalSymbol f = finalSymbol g" "leader f = leader g"
    "intermediate f = intermediate g" "compare f g \<le> 0"
  then have s: "syntax_code f = syntax_code g" by (simp add: syntax_code_def)
  have "minimumParameters f = minimumParameters g"
  proof (cases "category f = OSC")
    case True
    with h osc_rows assms show ?thesis by simp
  next
    case False
    with same_syntax [OF assms h(1) False s] show ?thesis by (auto simp: doubleton_eq_iff scosc_range)
  qed
  with h show "maximumParameters f \<le> maximumParameters g" by (auto simp: compare_def)
qed

lemma table_compare_eq:
  assumes "f \<in> set allFunctionsArray" "g \<in> set allFunctionsArray"
  shows "compare f g = 0 \<longleftrightarrow> f = g"
proof
  assume "compare f g = 0"
  then have "row_code f = row_code g"
    by (auto simp: compare_eq_iff order_key_def row_code_def syntax_code_def schar_inj)
  with assms row_code_inj show "f = g" by blast
qed (simp add: compare_eq_iff)

subsection \<open>Supported sequences\<close>

text \<open>
  The array is always a permutation of the table, and its active part is sorted. All three
  operations keep this.
\<close>

definition sequences_ok :: "SupportedSequences \<Rightarrow> bool" where
  "sequences_ok s \<longleftrightarrow>
     mset (supportedSequences s) = mset allFunctionsArray \<and>
     lastIndex s \<le> length (supportedSequences s) \<and>
     sorted_wrt (\<lambda>a b. compare a b \<le> 0) (activeSequences s)"

inductive reachable_sequences :: "SupportedSequences \<Rightarrow> bool" where
  rs_new: "reachable_sequences newSupportedSequences"
| rs_reset: "reachable_sequences s \<Longrightarrow> reachable_sequences (resetSequences vt s)"
| rs_disable: "reachable_sequences s \<Longrightarrow> reachable_sequences (disableSequence f s)"
| rs_enable: "reachable_sequences s \<Longrightarrow> reachable_sequences (enableSequence f s)"

lemma find_function_Some:
  "find_function f xs = Some i \<Longrightarrow> i < length xs \<and> compare (xs ! i) f = 0"
  by (induction xs arbitrary: i) (auto split: if_splits)

lemma find_function_None: "find_function f xs = None \<longleftrightarrow> (\<forall>g \<in> set xs. compare g f \<noteq> 0)"
  by (induction xs) auto

lemma sequences_ok_set:
  assumes "sequences_ok s"
  shows "set (supportedSequences s) = set allFunctionsArray" "distinct (supportedSequences s)"
    "length (supportedSequences s) = length allFunctionsArray"
  using assms table_distinct mset_eq_imp_distinct_iff [of "supportedSequences s" allFunctionsArray]
    mset_eq_setD [of "supportedSequences s" allFunctionsArray]
    mset_eq_length [of "supportedSequences s" allFunctionsArray]
  by (auto simp: sequences_ok_def)

lemma active_in_table: "sequences_ok s \<Longrightarrow> f \<in> set (activeSequences s) \<Longrightarrow> f \<in> set allFunctionsArray"
  using sequences_ok_set(1) by (auto simp: activeSequences_def dest: in_set_takeD)

lemma fn_sort_set [simp]: "set (crispy_sort compare xs) = set xs"
  using fn_order.sort_permutes by (rule mset_eq_setD)

lemma fn_sort_length [simp]: "length (crispy_sort compare xs) = length xs"
  using fn_order.sort_permutes by (rule mset_eq_length)

lemma new_ok: "sequences_ok newSupportedSequences"
  by (simp add: sequences_ok_def newSupportedSequences_def activeSequences_def allFunctions_def
      fn_order.sort_permutes fn_order.sort_sorts)

lemma reset_ok: "sequences_ok s \<Longrightarrow> sequences_ok (resetSequences vt s)"
  by (auto simp: sequences_ok_def resetSequences_def activeSequences_def Let_def
      fn_order.sort_permutes fn_order.sort_sorts)

lemma reset_active:
  "sequences_ok s \<Longrightarrow> set (activeSequences (resetSequences vt s)) =
     {f \<in> set allFunctionsArray. vttype_value (conformanceLevel f) \<le> vttype_value vt}"
  using sequences_ok_set(1)
  by (auto simp: resetSequences_def activeSequences_def Let_def)


lemma remove_nth_active:
  assumes "i < n" "n \<le> length xs"
  shows "take (n - 1) (take i xs @ drop (Suc i) xs @ [xs ! i]) = take i xs @ drop (Suc i) (take n xs)"
proof -
  have "take (n - 1) (take i xs @ drop (Suc i) xs @ [xs ! i])
    = take i xs @ take (n - Suc i) (drop (Suc i) xs)"
    using assms by simp
  also have "take (n - Suc i) (drop (Suc i) xs) = drop (Suc i) (take n xs)"
    by (simp add: drop_take)
  finally show ?thesis .
qed

lemma set_remove_nth:
  assumes "distinct xs" "i < length xs"
  shows "set (take i xs @ drop (Suc i) xs) = set xs - {xs ! i}"
proof -
  have e: "take i xs @ xs ! i # drop (Suc i) xs = xs"
    using assms(2) by (rule id_take_nth_drop [symmetric])
  have "distinct (take i xs @ xs ! i # drop (Suc i) xs)"
    and "set (take i xs @ xs ! i # drop (Suc i) xs) = set xs"
    unfolding e using assms(1) by simp_all
  then show ?thesis by auto
qed

lemma disable_result:
  assumes ok: "sequences_ok s" and i: "find_function f (activeSequences s) = Some i"
  defines "xs \<equiv> supportedSequences s" and "n \<equiv> lastIndex s"
  shows "activeSequences (disableSequence f s) = take i xs @ drop (Suc i) (take n xs)"
    and "mset (supportedSequences (disableSequence f s)) = mset xs"
    and "lastIndex (disableSequence f s) = n - 1" and "i < n" "n \<le> length xs"
proof -
  show n: "n \<le> length xs" using ok by (simp add: sequences_ok_def n_def xs_def)
  then show i': "i < n"
    using find_function_Some [OF i] by (simp add: activeSequences_def n_def xs_def)
  show "activeSequences (disableSequence f s) = take i xs @ drop (Suc i) (take n xs)"
    using remove_nth_active [OF i' n] i
    by (simp add: disableSequence_def activeSequences_def [of "_ \<lparr>supportedSequences := _, lastIndex := _\<rparr>"] n_def xs_def)
  have "mset (take i xs @ xs ! i # drop (Suc i) xs) = mset xs"
    using id_take_nth_drop [of i xs] i' n by simp
  then show "mset (supportedSequences (disableSequence f s)) = mset xs"
    using i by (simp add: disableSequence_def xs_def)
  show "lastIndex (disableSequence f s) = n - 1"
    using i by (simp add: disableSequence_def n_def)
qed


lemma disable_ok: "sequences_ok s \<Longrightarrow> sequences_ok (disableSequence f s)"
proof (cases "find_function f (activeSequences s)")
  case None
  then show "sequences_ok s \<Longrightarrow> ?thesis" by (simp add: disableSequence_def)
next
  case (Some i)
  assume ok: "sequences_ok s"
  note r = disable_result [OF ok Some]
  have "sorted_wrt (\<lambda>a b. compare a b \<le> 0) (take (lastIndex s) (supportedSequences s))"
    using ok by (simp add: sequences_ok_def activeSequences_def)
  moreover have "take (lastIndex s) (supportedSequences s) = take i (supportedSequences s)
    @ take (lastIndex s) (supportedSequences s) ! i # drop (Suc i) (take (lastIndex s) (supportedSequences s))"
    using r(4,5) id_take_nth_drop [of i "take (lastIndex s) (supportedSequences s)"] by (simp add: min.absorb1)
  ultimately have "sorted_wrt (\<lambda>a b. compare a b \<le> 0)
      (take i (supportedSequences s) @ drop (Suc i) (take (lastIndex s) (supportedSequences s)))"
    by (metis (no_types, lifting) sorted_wrt_append list.set_intros(2) sorted_wrt.simps(2))
  with ok r mset_eq_length [OF r(2)] show ?thesis by (simp add: sequences_ok_def)
qed

lemma disable_active:
  assumes ok: "sequences_ok s" and f: "f \<in> set allFunctionsArray"
  shows "set (activeSequences (disableSequence f s)) = set (activeSequences s) - {f}"
proof (cases "find_function f (activeSequences s)")
  case None
  then have "f \<notin> set (activeSequences s)"
    using f table_compare_eq by (auto simp: find_function_None)
  with None show ?thesis by (simp add: disableSequence_def)
next
  case (Some i)
  from find_function_Some [OF Some]
  have i: "i < length (activeSequences s)" "compare (activeSequences s ! i) f = 0" by simp_all
  then have "activeSequences s ! i = f"
    using table_compare_eq f active_in_table [OF ok] by (auto dest: nth_mem)
  moreover have "distinct (activeSequences s)"
    using sequences_ok_set(2) [OF ok] by (simp add: activeSequences_def)
  moreover have "activeSequences (disableSequence f s)
      = take i (activeSequences s) @ drop (Suc i) (activeSequences s)"
    using disable_result(1,4) [OF ok Some] by (simp add: activeSequences_def min.absorb1)
  ultimately show ?thesis using set_remove_nth i(1) by metis
qed

lemma take_swapped:
  assumes "n + i < length xs"
  shows "take (Suc n) (swap_at xs n (n + i)) = take n xs @ [xs ! (n + i)]"
  using assms by (auto intro!: nth_equalityI simp: swap_at_nth nth_append swap_at_def nth_list_update)

lemma enable_result:
  assumes ok: "sequences_ok s" and i: "find_function f (drop (lastIndex s) (supportedSequences s)) = Some i"
  defines "xs \<equiv> supportedSequences s" and "n \<equiv> lastIndex s"
  shows "activeSequences (enableSequence f s) = crispy_sort compare (take n xs @ [xs ! (n + i)])"
    and "mset (supportedSequences (enableSequence f s)) = mset xs"
    and "lastIndex (enableSequence f s) = Suc n" and "n + i < length xs"
proof -
  show ni: "n + i < length xs" using find_function_Some [OF i] by (auto simp: xs_def n_def)
  show "activeSequences (enableSequence f s) = crispy_sort compare (take n xs @ [xs ! (n + i)])"
    using i take_swapped [OF ni] ni
    by (simp add: enableSequence_def activeSequences_def Let_def xs_def n_def)
  have "mset (crispy_sort compare (take (Suc n) (swap_at xs n (n + i))) @ drop (Suc n) (swap_at xs n (n + i)))
      = mset (take (Suc n) (swap_at xs n (n + i)) @ drop (Suc n) (swap_at xs n (n + i)))"
    by (simp only: mset_append fn_order.sort_permutes)
  also have "\<dots> = mset xs"
    using ni by (simp only: append_take_drop_id swap_at_def) (simp add: mset_swap)
  finally show "mset (supportedSequences (enableSequence f s)) = mset xs"
    using i by (simp add: enableSequence_def Let_def xs_def n_def)
  show "lastIndex (enableSequence f s) = Suc n"
    using i by (simp add: enableSequence_def Let_def n_def)
qed


lemma enable_ok: "sequences_ok s \<Longrightarrow> sequences_ok (enableSequence f s)"
proof (cases "find_function f (drop (lastIndex s) (supportedSequences s))")
  case None
  then show "sequences_ok s \<Longrightarrow> ?thesis" by (simp add: enableSequence_def)
next
  case (Some i)
  assume ok: "sequences_ok s"
  note r = enable_result [OF ok Some]
  from ok r(2-4) mset_eq_length [OF r(2)] show ?thesis
    by (simp add: sequences_ok_def r(1) fn_order.sort_sorts)
qed

lemma enable_active:
  assumes ok: "sequences_ok s" and f: "f \<in> set allFunctionsArray"
  shows "set (activeSequences (enableSequence f s)) = insert f (set (activeSequences s))"
proof (cases "find_function f (drop (lastIndex s) (supportedSequences s))")
  case None
  then have "f \<notin> set (drop (lastIndex s) (supportedSequences s))"
    using f table_compare_eq by (auto simp: find_function_None)
  moreover have "f \<in> set (take (lastIndex s) (supportedSequences s) @ drop (lastIndex s) (supportedSequences s))"
    using f sequences_ok_set(1) [OF ok] by (simp only: append_take_drop_id)
  ultimately have "f \<in> set (activeSequences s)" unfolding set_append activeSequences_def by blast
  with None show ?thesis by (simp add: enableSequence_def insert_absorb)
next
  case (Some i)
  note r = enable_result [OF ok Some]
  have t: "supportedSequences s ! (lastIndex s + i) \<in> set allFunctionsArray"
    using nth_mem [OF r(4)] sequences_ok_set(1) [OF ok] by simp
  have "compare (supportedSequences s ! (lastIndex s + i)) f = 0"
    using find_function_Some [OF Some] r(4) by simp
  then have "supportedSequences s ! (lastIndex s + i) = f" by (simp add: table_compare_eq [OF t f])
  with r(1) show ?thesis by (simp add: activeSequences_def)
qed

lemma reachable_ok: "reachable_sequences s \<Longrightarrow> sequences_ok s"
  by (induction rule: reachable_sequences.induct) (auto intro: new_ok reset_ok disable_ok enable_ok)

lemma reset_nonempty: "sequences_ok s \<Longrightarrow> activeSequences (resetSequences vt s) \<noteq> []"
proof -
  assume "sequences_ok s"
  moreover have "EOT \<in> set allFunctionsArray" by (simp add: allFunctionsArray_def)
  moreover have "vttype_value (conformanceLevel EOT) \<le> vttype_value vt"
    by (cases vt) (simp_all add: mk_C0_def)
  ultimately have "EOT \<in> set (activeSequences (resetSequences vt s))" by (simp add: reset_active)
  then show ?thesis by auto
qed

subsection \<open>Selection from the active sequences\<close>

lemma active_search_ordered:
  assumes "sequences_ok s"
  shows "search_ordered (compare_selector sel) (activeSequences s)"
  using assms active_in_table [OF assms] table_no_nesting
  by (intro table_search_ordered) (auto simp: sequences_ok_def)

lemma select_active:
  assumes "sequences_ok s" "activeSequences s \<noteq> []"
  obtains r where "select sel (activeSequences s) = Inr r"
    and "\<And>f. r = Some f \<Longrightarrow> f \<in> set (activeSequences s) \<and> compare_selector sel f = 0"
    and "r = None \<Longrightarrow> \<forall>f \<in> set (activeSequences s). compare_selector sel f \<noteq> 0"
proof
  let ?r = "select_loop sel (activeSequences s) 0 (length (activeSequences s) - 1)"
  show "select sel (activeSequences s) = Inr ?r" using assms(2) by (simp add: select_def)
  show "f \<in> set (activeSequences s) \<and> compare_selector sel f = 0" if "?r = Some f" for f
    using assms(2) by (intro select_loop_sound [OF _ that]) simp
  show "\<forall>f \<in> set (activeSequences s). compare_selector sel f \<noteq> 0" if "?r = None"
  proof (intro ballI notI)
    fix f
    assume "f \<in> set (activeSequences s)" "compare_selector sel f = 0"
    then obtain k where "k < length (activeSequences s)" "compare_selector sel (activeSequences s ! k) = 0"
      by (auto simp: in_set_conv_nth)
    then have "\<exists>f. ?r = Some f"
      by (intro select_loop_complete [OF active_search_ordered [OF assms(1)], of _ 0 k]) auto
    with that show False by simp
  qed
qed

text \<open>The sequences a selector matches, as the documentation of \<open>FunctionSelector\<close> describes them.\<close>

definition selector_matches :: "FunctionSelector \<Rightarrow> Function \<Rightarrow> bool" where
  "selector_matches sel f \<longleftrightarrow>
     category f = sel_category sel \<and> leader f = sel_leader sel \<and>
     intermediate f = sel_intermediate sel \<and> finalSymbol f = sel_finalSymbol sel \<and>
     (if category f = OSC then sel_argc sel = int (maximumParameters f)
      else int (minimumParameters f) \<le> sel_argc sel \<and> sel_argc sel \<le> int (maximumParameters f))"

lemma compare_selector_eq: "compare_selector sel f = 0 \<longleftrightarrow> selector_matches sel f"
  by (auto simp: compare_selector_def selector_matches_def)

lemma matches_unique:
  assumes "f \<in> set allFunctionsArray" "g \<in> set allFunctionsArray"
    and "selector_matches sel f" "selector_matches sel g"
  shows "f = g \<or> {f, g} = {SCOSC, DECSLRM}"
proof (cases "category f = OSC")
  case True
  with assms have "row_code f = row_code g"
    using osc_rows [of f] osc_rows [of g]
    by (auto simp: selector_matches_def row_code_def syntax_code_def)
  with assms row_code_inj show ?thesis by blast
next
  case False
  with assms show ?thesis
    by (intro same_syntax) (auto simp: selector_matches_def syntax_code_def)
qed

lemma select_exact_lemma:
  assumes "reachable_sequences s" and "f \<in> set (activeSequences s)" and "selector_matches sel f"
    and "\<not> {SCOSC, DECSLRM} \<subseteq> set (activeSequences s) \<or> f \<notin> {SCOSC, DECSLRM}"
  shows "select sel (activeSequences s) = Inr (Some f)"
proof -
  note ok = reachable_ok [OF assms(1)]
  have ne: "activeSequences s \<noteq> []" using assms(2) by auto
  obtain r where r: "select sel (activeSequences s) = Inr r"
    and some: "\<And>g. r = Some g \<Longrightarrow> g \<in> set (activeSequences s) \<and> compare_selector sel g = 0"
    and none: "r = None \<Longrightarrow> \<forall>g \<in> set (activeSequences s). compare_selector sel g \<noteq> 0"
    using select_active [OF ok ne] by blast
  obtain g where g: "r = Some g" "g \<in> set (activeSequences s)" "selector_matches sel g"
    using some none assms(2,3) by (cases r) (auto simp: compare_selector_eq)
  have "f = g \<or> {f, g} = {SCOSC, DECSLRM}"
    by (intro matches_unique [OF _ _ assms(3) g(3)] active_in_table [OF ok] assms(2) g(2))
  with assms(2,4) g r show ?thesis by auto
qed

lemma function_ids_distinct: "distinct (map (unat \<circ> function_id) allFunctionsArray)"
  by (simp add: function_id_def schar_def allFunctionsArray_def function_makers)

subsection \<open>Properties\<close>

text \<open>
  C7. After any history of resets, enabled and disabled sequences, the binary search over the active
  sequences is exact: it returns a function only if that function is active and matches the
  category, characters and argument count of the selector, and it returns nothing only if no active
  function matches.
\<close>

theorem select_decides:
  assumes "reachable_sequences s" and "activeSequences s \<noteq> []"
  shows "(\<exists>f. select sel (activeSequences s) = Inr (Some f) \<and> f \<in> set (activeSequences s)
              \<and> selector_matches sel f) \<or>
         select sel (activeSequences s) = Inr None
              \<and> (\<forall>f \<in> set (activeSequences s). \<not> selector_matches sel f)"
proof -
  obtain r where "select sel (activeSequences s) = Inr r"
    and "\<And>f. r = Some f \<Longrightarrow> f \<in> set (activeSequences s) \<and> compare_selector sel f = 0"
    and "r = None \<Longrightarrow> \<forall>f \<in> set (activeSequences s). compare_selector sel f \<noteq> 0"
    using select_active [OF reachable_ok [OF assms(1)] assms(2)] by blast
  then show ?thesis by (cases r) (auto simp: compare_selector_eq)
qed

theorem select_decides_witness:
  "reachable_sequences (resetSequences VT100 newSupportedSequences)
   \<and> activeSequences (resetSequences VT100 newSupportedSequences) \<noteq> []
   \<and> (\<exists>f. selectControl 0 1 0 65 (activeSequences (resetSequences VT100 newSupportedSequences)) = Inr (Some f)
          \<and> selector_matches \<lparr>sel_category = CSI, sel_leader = 0, sel_argc = 1, sel_intermediate = 0,
                               sel_finalSymbol = 65\<rparr> f)"
proof -
  let ?s = "resetSequences VT100 newSupportedSequences"
  have r: "reachable_sequences ?s" by (intro rs_reset rs_new)
  have n: "activeSequences ?s \<noteq> []" by (intro reset_nonempty reachable_ok rs_new)
  have "CUU \<in> set (activeSequences ?s)"
    by (simp add: reset_active [OF reachable_ok [OF rs_new]] allFunctionsArray_def)
      (simp add: mk_CSI_def)
  moreover have "selector_matches \<lparr>sel_category = CSI, sel_leader = 0, sel_argc = 1,
      sel_intermediate = 0, sel_finalSymbol = 65\<rparr> CUU"
    by (simp add: selector_matches_def mk_CSI_def)
  ultimately show ?thesis
    using select_decides [OF r n, of "\<lparr>sel_category = CSI, sel_leader = 0, sel_argc = 1,
      sel_intermediate = 0, sel_finalSymbol = 65\<rparr>"] r n
    unfolding selectControl_def by blast
qed

text \<open>
  C8. The search finds exactly the function that matches: an active function is selected by every
  selector that matches it. The only two functions of the table that one selector can both match are
  SCOSC and DECSLRM (\<open>CSI s\<close> without parameters), so for these two the other one must have been
  disabled, which is what switching the left-right margin mode does.
\<close>

theorem select_exact:
  assumes "reachable_sequences s" and "f \<in> set (activeSequences s)" and "selector_matches sel f"
    and "\<not> {SCOSC, DECSLRM} \<subseteq> set (activeSequences s) \<or> f \<notin> {SCOSC, DECSLRM}"
  shows "select sel (activeSequences s) = Inr (Some f)"
  using assms by (rule select_exact_lemma)

theorem select_exact_witness:
  "selectOSCommand 8 (activeSequences newSupportedSequences) = Inr (Some HYPERLINK)"
proof -
  have "HYPERLINK \<in> set (activeSequences newSupportedSequences)"
    by (simp add: newSupportedSequences_def activeSequences_def allFunctions_def)
      (simp add: allFunctionsArray_def)
  then show ?thesis
    unfolding selectOSCommand_def
    by (intro select_exact [OF rs_new])
      (simp_all add: selector_matches_def function_makers)
qed

text \<open>
  C9. The array of supported sequences always stays a permutation of the whole table, and its active
  part tracks a set: \<open>reset\<close> makes exactly the sequences up to the conformance level active,
  \<open>enableSequence\<close> adds its argument and \<open>disableSequence\<close> removes it, all others staying as they
  were.
\<close>

theorem supported_sequences_track:
  assumes "reachable_sequences s" and "f \<in> set allFunctionsArray"
  shows "set (activeSequences (enableSequence f s)) = insert f (set (activeSequences s))
       \<and> set (activeSequences (disableSequence f s)) = set (activeSequences s) - {f}
       \<and> set (activeSequences (resetSequences vt s))
           = {g \<in> set allFunctionsArray. vttype_value (conformanceLevel g) \<le> vttype_value vt}
       \<and> mset (allSequences s) = mset allFunctionsArray
       \<and> sorted_wrt (\<lambda>a b. compare a b \<le> 0) (activeSequences s)"
  using enable_active disable_active reset_active assms reachable_ok [OF assms(1)]
  by (simp add: sequences_ok_def allSequences_def)

theorem supported_sequences_track_witness:
  "set (activeSequences (disableSequence SCOSC newSupportedSequences))
     = set (activeSequences newSupportedSequences) - {SCOSC}"
proof -
  have "SCOSC \<in> set allFunctionsArray" by (simp add: allFunctionsArray_def)
  with supported_sequences_track [OF rs_new] show ?thesis by blast
qed

text \<open>
  The identifier \<open>Function::id\<close> packs into 32 bits, which \<open>std::hash<Function>\<close> uses as its
  value, is collision free on the table.
\<close>

theorem function_id_injective: "inj_on function_id (set allFunctionsArray)"
proof -
  have "inj_on (unat \<circ> function_id) (set allFunctionsArray)"
    using function_ids_distinct unfolding distinct_map by blast
  then show ?thesis by (rule inj_on_imageI2)
qed

end
