(* ===== verification/VT_Dispatch.thy ===== *)
theory VT_Dispatch
  imports VT_SequenceBuilder VT_FunctionTable
begin

text \<open>
  From bytes to functions: what the parser, the sequence builder and the function table do together.
  A control sequence that is received byte by byte reaches the handler as one \<open>Sequence\<close> with its
  leader, parameters, intermediate and final character, and the function table finds the function
  that was meant. The other direction, the byte string of a function (\<open>Function::operator()\<close>), is
  its inverse.
\<close>

subsection \<open>Parameter strings\<close>

definition is_param_char :: "byte \<Rightarrow> bool" where
  "is_param_char c \<longleftrightarrow> is_digit c \<or> c = 0x3A \<or> c = 0x3B"

definition param_event :: "byte \<Rightarrow> ParserEvent" where
  "param_event c = (if c = 0x3B then Ev_paramSeparator else if c = 0x3A then Ev_paramSubSeparator
     else Ev_paramDigit c)"

text \<open>The meaning of a parameter string: values modulo \<open>2 ^ 16\<close>, with their sub-parameter flags.\<close>

definition param_step :: "(bool \<times> nat) list \<Rightarrow> byte \<Rightarrow> (bool \<times> nat) list" where
  "param_step ps c =
     (if is_digit c then butlast ps @ [(fst (last ps), wrap16 (snd (last ps) * 10 + (c - 48)))]
      else ps @ [(c = 0x3A, 0)])"

definition read_params :: "bytes \<Rightarrow> (bool \<times> nat) list" where
  "read_params cs = foldl param_step [(False, 0)] cs"

lemma param_step_length:
  "ps \<noteq> [] \<Longrightarrow> length (param_step ps c) = (if is_digit c then length ps else Suc (length ps))"
  "ps \<noteq> [] \<Longrightarrow> param_step ps c \<noteq> []"
  by (auto simp: param_step_def)

lemma foldl_param_step_length: "ps \<noteq> [] \<Longrightarrow> length ps \<le> length (foldl param_step ps cs)"
proof (induction cs arbitrary: ps)
  case (Cons c cs)
  have "length (param_step ps c) \<le> length (foldl param_step (param_step ps c) cs)"
    using Cons.IH [OF param_step_length(2) [OF Cons.prems]] .
  then show ?case using Cons.prems by (simp add: param_step_length split: if_splits)
qed simp

text \<open>The builder collects what the string means, up to sixteen parameters, and faults beyond.\<close>

lemma digit_value_u8: "is_digit c \<Longrightarrow> nat ((schar c - 48) mod 256) = c - 48"
  by (auto simp: is_digit_def nat_diff_distrib)

lemma with_parameters_simps [simp]:
  "with_parameters pb (with_parameters pb' b) = with_parameters pb b"
  "with_parameters (parameterBuilder b) b = b"
  by (simp_all add: with_parameters_def parameterBuilder_def)

lemma param_event_collects:
  assumes "collected ps (parameterBuilder b)" and "is_param_char c"
  shows "if length (param_step ps c) \<le> 16
    then \<exists>pb. sb_event H (param_event c) b = Inr (with_parameters pb b) \<and> collected (param_step ps c) pb
    else sb_event H (param_event c) b = Inl OutOfBounds"
proof (cases "is_digit c")
  case True
  have ne: "ps \<noteq> []" "length ps \<le> 16" using assms(1) by (auto simp: collected_def)
  then obtain qs s v where ps: "ps = qs @ [(s, v)]" by (metis rev_exhaust surj_pair)
  from collected_digit [OF assms(1) [unfolded ps], of "c - 48"] obtain pb where
    "multiplyBy10AndAdd (c - 48) (parameterBuilder b) = Inr pb"
    "collected (qs @ [(s, wrap16 (v * 10 + (c - 48)))]) pb" by blast
  moreover have "c \<noteq> 0x3A \<and> c \<noteq> 0x3B" using True by (auto simp: is_digit_def)
  ultimately show ?thesis
    using True ne ps digit_value_u8 [OF True]
    by (auto simp: param_event_def paramDigit_def on_parameters_def param_step_def)
next
  case False
  with assms(2) have c: "c = 0x3A \<or> c = 0x3B" by (auto simp: is_param_char_def)
  show ?thesis
  proof (cases "length ps < 16")
    case True
    from collected_next [OF assms(1) True, of "c = 0x3A"] obtain pb where
      "(if c = 0x3A then nextSubParameter (parameterBuilder b) else nextParameter (parameterBuilder b)) = Inr pb"
      "collected (ps @ [(c = 0x3A, 0)]) pb" by blast
    with c False True show ?thesis
      by (auto simp: param_event_def paramSeparator_def paramSubSeparator_def on_parameters_def param_step_def)
  next
    case full: False
    with assms(1) have "length ps = 16" by (simp add: collected_def)
    with collected_full [OF assms(1)] c False show ?thesis
      by (auto simp: param_event_def paramSeparator_def paramSubSeparator_def on_parameters_def param_step_def)
  qed
qed

lemma param_events_collect:
  assumes "collected ps (parameterBuilder b)" and "\<And>c. c \<in> set cs \<Longrightarrow> is_param_char c"
  shows "if length (foldl param_step ps cs) \<le> 16
    then \<exists>pb. fold_result (sb_event H) (map param_event cs) b = Inr (with_parameters pb b)
            \<and> collected (foldl param_step ps cs) pb
    else fold_result (sb_event H) (map param_event cs) b = Inl OutOfBounds"
  using assms
proof (induction cs arbitrary: ps b)
  case Nil
  then show ?case by (auto simp: collected_def intro!: exI [of _ "parameterBuilder b"])
next
  case (Cons c cs)
  have ne: "ps \<noteq> []" using Cons.prems(1) by (simp add: collected_def)
  note step = param_event_collects [OF Cons.prems(1), of c H]
  show ?case
  proof (cases "length (param_step ps c) \<le> 16")
    case True
    with step Cons.prems(2) obtain pb where pb: "sb_event H (param_event c) b = Inr (with_parameters pb b)"
      "collected (param_step ps c) pb" by auto
    from Cons.IH [of "param_step ps c" "with_parameters pb b"] pb Cons.prems(2) show ?thesis
      by (simp split: if_splits)
  next
    case False
    with foldl_param_step_length [of "param_step ps c" cs] ne have "\<not> length (foldl param_step ps (c # cs)) \<le> 16"
      by (simp add: param_step_length split: if_splits)
    with step False Cons.prems(2) show ?thesis by simp
  qed
qed

subsection \<open>Control sequences\<close>

lemma csi_bytes:
  "is_digit c \<Longrightarrow> byte_events U c (CSI_Entry, sc) = ([Ev_paramDigit c], CSI_Param, sc)"
  "is_digit c \<Longrightarrow> byte_events U c (CSI_Param, sc) = ([Ev_paramDigit c], CSI_Param, sc)"
  "byte_events U 0x3B (CSI_Entry, sc) = ([Ev_paramSeparator], CSI_Param, sc)"
  "byte_events U 0x3B (CSI_Param, sc) = ([Ev_paramSeparator], CSI_Param, sc)"
  "byte_events U 0x3A (CSI_Param, sc) = ([Ev_paramSubSeparator], CSI_Param, sc)"
  "0x3C \<le> l \<Longrightarrow> l \<le> 0x3F \<Longrightarrow> byte_events U l (CSI_Entry, sc) = ([Ev_collectLeader l], CSI_Param, sc)"
  "0x20 \<le> i \<Longrightarrow> i \<le> 0x2F \<Longrightarrow> byte_events U i (CSI_Entry, sc) = ([Ev_collect i], CSI_Intermediate, sc)"
  "0x20 \<le> i \<Longrightarrow> i \<le> 0x2F \<Longrightarrow> byte_events U i (CSI_Param, sc) = ([Ev_collect i], CSI_Intermediate, sc)"
  "0x40 \<le> f \<Longrightarrow> f \<le> 0x7E \<Longrightarrow> byte_events U f (CSI_Entry, sc)
     = ([Ev_dispatchCSI f], Ground, sc\<lparr>lastCodepointHint := 0\<rparr>)"
  "0x40 \<le> f \<Longrightarrow> f \<le> 0x7E \<Longrightarrow> byte_events U f (CSI_Param, sc)
     = ([Ev_dispatchCSI f], Ground, sc\<lparr>lastCodepointHint := 0\<rparr>)"
  "0x40 \<le> f \<Longrightarrow> f \<le> 0x7E \<Longrightarrow> byte_events U f (CSI_Intermediate, sc)
     = ([Ev_dispatchCSI f], Ground, sc\<lparr>lastCodepointHint := 0\<rparr>)"
  by (simp_all add: byte_events_simps is_digit_def)

lemma csi_param_stream:
  assumes "\<And>c. c \<in> set cs \<Longrightarrow> is_param_char c" and "s = CSI_Param \<or> s = CSI_Entry \<and> (cs = [] \<or> hd cs \<noteq> 0x3A)"
  shows "stream_events U cs (s, sc) = (map param_event cs, if cs = [] then s else CSI_Param, sc)"
  using assms
proof (induction cs arbitrary: s)
  case (Cons c cs)
  have c: "is_digit c \<and> c \<noteq> 0x3A \<and> c \<noteq> 0x3B \<or> c = 0x3A \<or> c = 0x3B"
    using Cons.prems(1) [of c] by (auto simp: is_param_char_def is_digit_def)
  have "byte_events U c (s, sc) = ([param_event c], CSI_Param, sc)"
    using Cons.prems(2) c by (elim disjE) (simp_all add: csi_bytes param_event_def)
  with Cons.IH [of CSI_Param] Cons.prems(1) show ?case by simp
qed simp

text \<open>The bytes of a control sequence, and the calls they make the parser emit.\<close>

definition opt_byte :: "byte \<Rightarrow> bytes" where
  "opt_byte b = (if b = 0 then [] else [b])"

definition csi_tail :: "byte \<Rightarrow> bytes \<Rightarrow> byte \<Rightarrow> byte \<Rightarrow> bytes" where
  "csi_tail lead cs interm fin = opt_byte lead @ cs @ opt_byte interm @ [fin]"

definition csi_ok :: "byte \<Rightarrow> bytes \<Rightarrow> byte \<Rightarrow> byte \<Rightarrow> bool" where
  "csi_ok lead cs interm fin \<longleftrightarrow>
     (lead = 0 \<or> 0x3C \<le> lead \<and> lead \<le> 0x3F) \<and> (\<forall>c \<in> set cs. is_param_char c) \<and>
     (lead = 0 \<longrightarrow> cs = [] \<or> hd cs \<noteq> 0x3A) \<and>
     (interm = 0 \<or> 0x20 \<le> interm \<and> interm \<le> 0x2F) \<and> 0x40 \<le> fin \<and> fin \<le> 0x7E"

lemma csi_stream:
  assumes "csi_ok lead cs interm fin"
  shows "stream_events U (csi_tail lead cs interm fin) (CSI_Entry, sc) =
    ((if lead = 0 then [] else [Ev_collectLeader lead]) @ map param_event cs
       @ (if interm = 0 then [] else [Ev_collect interm]) @ [Ev_dispatchCSI fin],
     Ground, sc\<lparr>lastCodepointHint := 0\<rparr>)"
proof -
  let ?s = "if lead = 0 then CSI_Entry else CSI_Param"
  let ?t = "if cs = [] then ?s else CSI_Param"
  have 1: "stream_events U (opt_byte lead) (CSI_Entry, sc)
      = (if lead = 0 then [] else [Ev_collectLeader lead], ?s, sc)"
    using assms by (auto simp: csi_ok_def opt_byte_def csi_bytes)
  have 2: "stream_events U cs (?s, sc) = (map param_event cs, ?t, sc)"
    using assms csi_param_stream [of cs ?s U sc] by (auto simp: csi_ok_def)
  have t: "?t = CSI_Entry \<or> ?t = CSI_Param" by simp
  have 3: "stream_events U (opt_byte interm @ [fin]) (?t, sc) =
      ((if interm = 0 then [] else [Ev_collect interm]) @ [Ev_dispatchCSI fin], Ground, sc\<lparr>lastCodepointHint := 0\<rparr>)"
    using assms t by (elim disjE) (auto simp: csi_ok_def opt_byte_def csi_bytes)
  show ?thesis
    unfolding csi_tail_def stream_events_append [of U "opt_byte lead"] 1 prod.case
      stream_events_append [of U cs] 2 3 by simp
qed


text \<open>The parameters of a sequence are the ones of a parameter string.\<close>

definition params_are :: "(bool \<times> nat) list \<Rightarrow> SequenceParameters \<Rightarrow> bool" where
  "params_are ps p \<longleftrightarrow>
     par_count p = (if ps = [(False, 0)] then 0 else length ps) \<and>
     (\<forall>j < length ps. par_values p ! j = snd (ps ! j) \<and> isSubParameter p j = fst (ps ! j)) \<and>
     (\<forall>j \<ge> length ps. \<not> isSubParameter p j)"

lemma collected_params_are:
  assumes "collected ps pb"
  obtains p where "fixiate pb = Inr (pb\<lparr>bld_parameters := p\<rparr>)" "params_are ps p"
    "length (par_values p) = 16"
proof -
  have "length ps = 1 \<and> snd (ps ! 0) = 0 \<longleftrightarrow> ps = [(False, 0)]"
    using assms by (cases ps) (auto simp: collected_def prod_eq_iff)
  with collected_fixiate [OF assms] assms that show thesis
    unfolding params_are_def collected_def by fastforce
qed

definition csi_sequence :: "byte \<Rightarrow> SequenceParameters \<Rightarrow> byte \<Rightarrow> byte \<Rightarrow> Sequence" where
  "csi_sequence lead p interm fin = \<lparr>seq_category = CSI, seq_leaderSymbol = lead, seq_parameters = p,
     seq_intermediateCharacters = opt_byte interm, seq_finalChar = fin, seq_dataString = []\<rparr>"

text \<open>A builder that has handled a sequence, with the handler's outcome.\<close>

definition handled ::
  "Sequence \<Rightarrow> nat \<Rightarrow> ('h, 'x) SequenceBuilder \<Rightarrow> 'h \<times> 'x option \<Rightarrow> ('h, 'x) SequenceBuilder" where
  "handled s cur b = (\<lambda>(h, hk). b\<lparr>sb_sequence := s, sb_current := cur, sb_handler := h,
     sb_hookedParser := (case hk of None \<Rightarrow> sb_hookedParser b | Some x \<Rightarrow> Some x)\<rparr>)"

lemma handled_cong:
  "sb_instructions b = sb_instructions b' \<Longrightarrow> sb_hookedParser b = sb_hookedParser b' \<Longrightarrow>
   handled x y b r = handled x y b' r"
  by (cases b; cases b'; cases r) (simp add: handled_def split: option.split)

lemma dispatch_handled:
  assumes "collected ps (parameterBuilder b)"
  obtains p where "params_are ps p" "length (par_values p) = 16"
    "\<And>H cat ch. handleSequence H (set_final cat ch b) =
       bind_result (processSequence H ((sb_sequence b)\<lparr>seq_category := cat, seq_finalChar := ch, seq_parameters := p\<rparr>) (sb_handler b))
         (\<lambda>r. Inr (handled ((sb_sequence b)\<lparr>seq_category := cat, seq_finalChar := ch, seq_parameters := p\<rparr>) (sb_current b) b r))"
proof -
  obtain p where p: "fixiate (parameterBuilder b) = Inr ((parameterBuilder b)\<lparr>bld_parameters := p\<rparr>)"
    "params_are ps p" "length (par_values p) = 16"
    using collected_params_are [OF assms] by blast
  let ?s = "\<lambda>cat ch. (sb_sequence b)\<lparr>seq_category := cat, seq_finalChar := ch, seq_parameters := p\<rparr>"
  have "handleSequence H (set_final cat ch b) =
      bind_result (processSequence H (?s cat ch) (sb_handler b))
        (\<lambda>r. Inr (handled (?s cat ch) (sb_current b) b r))" for H cat ch
    unfolding handleSequence_def on_parameters_def parameterBuilder_simps p(1) bind_result_simps
    by (simp add: with_parameters_def set_final_def parameterBuilder_def handled_def case_prod_unfold)
  with p show thesis by (intro that)
qed


lemma builder_csi:
  assumes "length (par_values (seq_parameters (sb_sequence b))) = 16"
    and "csi_ok lead cs interm fin" and "length (read_params cs) \<le> 16"
  shows "\<exists>p cur. params_are (read_params cs) p \<and> length (par_values p) = 16 \<and>
    fold_result (sb_event H) ([Ev_clear] @ (if lead = 0 then [] else [Ev_collectLeader lead])
      @ map param_event cs @ (if interm = 0 then [] else [Ev_collect interm]) @ [Ev_dispatchCSI fin]) b
    = bind_result (processSequence H (csi_sequence lead p interm fin) (sb_handler b))
        (\<lambda>r. Inr (handled (csi_sequence lead p interm fin) cur b r))"
proof -
  let ?b1 = "if lead = 0 then sb_clear b else collectLeader lead (sb_clear b)"
  have 1: "bind_result (fold_result (sb_event H) [Ev_clear] b)
      (fold_result (sb_event H) (if lead = 0 then [] else [Ev_collectLeader lead])) = Inr ?b1"
    by simp
  have "collected [(False, 0)] (parameterBuilder ?b1)"
    using assms(1) by (auto simp: parameterBuilder_def [of b] intro!: collected_reset)
  from param_events_collect [OF this, of cs H] assms(2,3) obtain pb where
    2: "fold_result (sb_event H) (map param_event cs) ?b1 = Inr (with_parameters pb ?b1)"
    and pb: "collected (read_params cs) pb"
    by (auto simp: csi_ok_def read_params_def)
  let ?b2 = "if interm = 0 then with_parameters pb ?b1 else collect interm (with_parameters pb ?b1)"
  have 3: "fold_result (sb_event H) (if interm = 0 then [] else [Ev_collect interm]) (with_parameters pb ?b1) = Inr ?b2"
    by simp
  have "collected (read_params cs) (parameterBuilder ?b2)" using pb by simp
  from dispatch_handled [OF this] obtain p where p: "params_are (read_params cs) p" "length (par_values p) = 16"
    and d: "\<And>H cat ch. handleSequence H (set_final cat ch ?b2) =
       bind_result (processSequence H ((sb_sequence ?b2)\<lparr>seq_category := cat, seq_finalChar := ch, seq_parameters := p\<rparr>) (sb_handler ?b2))
         (\<lambda>r. Inr (handled ((sb_sequence ?b2)\<lparr>seq_category := cat, seq_finalChar := ch, seq_parameters := p\<rparr>) (sb_current ?b2) ?b2 r))"
    by blast
  have s: "(sb_sequence ?b2)\<lparr>seq_category := CSI, seq_finalChar := fin, seq_parameters := p\<rparr>
      = csi_sequence lead p interm fin"
    by (simp add: csi_sequence_def opt_byte_def with_parameters_def collect_def collectLeader_def
        sb_clear_def clearExceptParameters_def Let_def)
  have h: "sb_handler ?b2 = sb_handler b" "handled x cur ?b2 r = handled x cur b r" for x cur r
    by (auto simp: handled_def with_parameters_def collect_def collectLeader_def sb_clear_def Let_def
        split: prod.splits option.splits)
  have "fold_result (sb_event H) [Ev_dispatchCSI fin] ?b2
      = bind_result (processSequence H (csi_sequence lead p interm fin) (sb_handler b))
          (\<lambda>r. Inr (handled (csi_sequence lead p interm fin) (sb_current ?b2) b r))"
    using d [of H CSI fin] unfolding s h by (simp add: dispatchCSI_def bind_result_assoc)
  then have "fold_result (sb_event H) ([Ev_clear] @ (if lead = 0 then [] else [Ev_collectLeader lead])
      @ map param_event cs @ (if interm = 0 then [] else [Ev_collect interm]) @ [Ev_dispatchCSI fin]) b
    = bind_result (processSequence H (csi_sequence lead p interm fin) (sb_handler b))
        (\<lambda>r. Inr (handled (csi_sequence lead p interm fin) (sb_current ?b2) b r))"
    unfolding append_assoc [symmetric] fold_result_append 1 2 3 bind_result_simps .
  with p show ?thesis by blast
qed


subsection \<open>Fragments that are control sequences\<close>

text \<open>A control sequence is not bulk text: the state machine handles it byte by byte.\<close>

lemma bulk_control:
  assumes "scan_contract U" and "b < 0x20"
  shows "\<exists>sc. parseBulkText U L (b # bs) p = Inr (FallbackToFSM, 0, p\<lparr>scanState := sc\<rparr>)"
proof -
  obtain st nx cells s e where scan:
    "scan_text U (scanState p) (b # bs) (maxBulkTextSequenceWidth L (listener p)) = (st, nx, cells, s, e)"
    by (metis prod_cases5)
  with assms have "nx = 0" unfolding scan_contract_def by fastforce
  with scan show ?thesis
    by (auto simp: parseBulkText_def Let_def intro: exI [of _ "scanState p"] exI [of _ st])
qed

lemma parseFragment_not_ground:
  "state p \<noteq> Ground \<Longrightarrow> parseFragment U L (b # bs) p =
     (case processOnceViaStateMachine U L b p of Inl e \<Rightarrow> Some (Inl e) | Inr p' \<Rightarrow> parseFragment U L bs p')"
  by (subst parseFragment.simps) (simp add: parseBulkText_def split: sum.split)

definition csi_state :: "State \<Rightarrow> bool" where
  "csi_state s \<longleftrightarrow> s \<in> {CSI_Entry, CSI_Param, CSI_Intermediate, CSI_Ignore}"

lemma csi_state_step:
  assumes "processOnceViaStateMachine U L b p = Inr p'" and "csi_state (state p)" "0x20 \<le> b" "b \<le> 0x3F"
  shows "csi_state (state p')"
  using process_state [OF assms(1)] assms(2-4) by (auto simp: csi_state_def split: if_splits)

lemma csi_fsm:
  assumes "csi_state (state p)" and "\<And>b. b \<in> set xs \<Longrightarrow> 0x20 \<le> b \<and> b \<le> 0x3F"
  shows "parseFragment U L (xs @ [f]) p = Some (run_fsm U L (xs @ [f]) p)"
  using assms
proof (induction xs arbitrary: p)
  case Nil
  then have "state p \<noteq> Ground" by (auto simp: csi_state_def)
  then show ?case
    by (simp add: parseFragment_not_ground run_fsm_def split: sum.splits)
next
  case (Cons b xs)
  then have ng: "state p \<noteq> Ground" by (auto simp: csi_state_def)
  show ?case
  proof (cases "processOnceViaStateMachine U L b p")
    case (Inl e)
    with ng show ?thesis by (simp add: parseFragment_not_ground run_fsm_def)
  next
    case (Inr p')
    with Cons.prems csi_state_step [OF Inr] have "csi_state (state p')" by simp
    with Cons.IH [OF this] Cons.prems(2) Inr ng show ?thesis
      by (simp add: parseFragment_not_ground run_fsm_def)
  qed
qed

lemma csi_fragment:
  assumes "scan_contract U" and "state p = Ground" and "\<And>b. b \<in> set xs \<Longrightarrow> 0x20 \<le> b \<and> b \<le> 0x3F"
  shows "\<exists>sc. parseFragment U L (0x1B # 0x5B # xs @ [f]) p
     = Some (run_fsm U L (0x1B # 0x5B # xs @ [f]) (p\<lparr>scanState := sc\<rparr>))"
proof -
  obtain sc where sc: "parseBulkText U L (0x1B # 0x5B # xs @ [f]) p = Inr (FallbackToFSM, 0, p\<lparr>scanState := sc\<rparr>)"
    using bulk_control [OF assms(1), of "0x1B" L "0x5B # xs @ [f]" p] by auto
  let ?p = "p\<lparr>scanState := sc\<rparr>"
  have "parseFragment U L (0x1B # 0x5B # xs @ [f]) p = Some (run_fsm U L (0x1B # 0x5B # xs @ [f]) ?p)"
  proof (cases "processOnceViaStateMachine U L 0x1B ?p")
    case (Inl e)
    then show ?thesis by (subst parseFragment.simps) (simp add: sc run_fsm_def)
  next
    case (Inr p1)
    from process_state [OF this] assms(2) have e: "state p1 = Escape" by simp
    show ?thesis
    proof (cases "processOnceViaStateMachine U L 0x5B p1")
      case (Inl e')
      with e Inr show ?thesis
        by (subst parseFragment.simps) (simp add: sc run_fsm_def parseFragment_not_ground)
    next
      case (Inr p2)
      from process_state [OF this] e have "csi_state (state p2)" by (simp add: csi_state_def)
      from csi_fsm [OF this assms(3)] Inr \<open>processOnceViaStateMachine U L 0x1B ?p = Inr p1\<close> e
      show ?thesis
        by (subst parseFragment.simps) (simp add: sc run_fsm_def parseFragment_not_ground)
    qed
  qed
  then show ?thesis by blast
qed

lemma csi_parse:
  assumes "scan_contract U" and "state p = Ground"
    and "length (par_values (seq_parameters (sb_sequence (listener p)))) = 16"
    and "csi_ok lead cs interm fin" and "length (read_params cs) \<le> 16"
    and "writeTextEnd H (sb_handler (listener p)) = Inr h"
  shows "\<exists>q cur sc. params_are (read_params cs) q \<and> length (par_values q) = 16 \<and>
     parseFragment U (sequence_listener H) ([0x1B, 0x5B] @ csi_tail lead cs interm fin) p =
       Some (bind_result (processSequence H (csi_sequence lead q interm fin) h)
         (\<lambda>r. Inr (p\<lparr>listener := handled (csi_sequence lead q interm fin) cur (listener p) r,
                    scanState := sc\<rparr>)))"
proof -
  let ?L = "sequence_listener H" and ?tail = "csi_tail lead cs interm fin"
  let ?b = "sb_clear ((listener p)\<lparr>sb_handler := h\<rparr>)"
  have "\<exists>xs. ?tail = xs @ [fin] \<and> (\<forall>b \<in> set xs. 0x20 \<le> b \<and> b \<le> 0x3F)"
    using assms(4)
    by (intro exI [of _ "opt_byte lead @ cs @ opt_byte interm"])
      (auto simp: csi_tail_def csi_ok_def opt_byte_def is_param_char_def is_digit_def split: if_splits)
  then obtain xs where xs: "?tail = xs @ [fin]" "\<And>b. b \<in> set xs \<Longrightarrow> 0x20 \<le> b \<and> b \<le> 0x3F" by blast
  obtain sc where run: "parseFragment U ?L (0x1B # 0x5B # ?tail) p
      = Some (run_fsm U ?L (0x1B # 0x5B # ?tail) (p\<lparr>scanState := sc\<rparr>))"
    using csi_fragment [OF assms(1,2) xs(2)] unfolding xs(1) by blast
  have esc: "byte_events U 0x1B (Ground, sc) = ([Ev_printEnd, Ev_clear], Escape, sc)"
    "byte_events U 0x5B (Escape, sc) = ([Ev_clear], CSI_Entry, sc)"
    by (simp_all add: byte_events_simps)
  let ?evs = "(if lead = 0 then [] else [Ev_collectLeader lead]) @ map param_event cs
       @ (if interm = 0 then [] else [Ev_collect interm]) @ [Ev_dispatchCSI fin]"
  have stream: "stream_events U (0x1B # 0x5B # ?tail) (Ground, sc)
      = ([Ev_printEnd, Ev_clear] @ [Ev_clear] @ ?evs, Ground, sc\<lparr>lastCodepointHint := 0\<rparr>)"
    using csi_stream [OF assms(4), of U sc] esc by simp
  have "length (par_values (seq_parameters (sb_sequence ?b))) = 16"
    using assms(3) by (simp add: sb_clear_def Let_def with_parameters_def resetBuilder_def
        clearParameters_def parameterBuilder_def clearExceptParameters_def)
  from builder_csi [OF this assms(4,5), of H] obtain q cur where q: "params_are (read_params cs) q"
    "length (par_values q) = 16"
    and b: "fold_result (sb_event H) ([Ev_clear] @ ?evs) ?b
    = bind_result (processSequence H (csi_sequence lead q interm fin) (sb_handler ?b))
        (\<lambda>r. Inr (handled (csi_sequence lead q interm fin) cur ?b r))"
    by blast
  have "fold_result (sb_event H) [Ev_printEnd, Ev_clear] (listener p) = Inr ?b"
    using assms(6) by (simp add: on_handler_def)
  with b have fold: "fold_result (sb_event H) ([Ev_printEnd, Ev_clear] @ [Ev_clear] @ ?evs) (listener p)
    = bind_result (processSequence H (csi_sequence lead q interm fin) h)
        (\<lambda>r. Inr (handled (csi_sequence lead q interm fin) cur ?b r))"
    unfolding fold_result_append [of _ "[Ev_printEnd, Ev_clear]"] by simp
  have hb: "handled x y ?b r = handled x y (listener p) r" for x y r
    by (rule handled_cong) (simp_all add: sb_clear_def Let_def with_parameters_def)
  have pg: "p\<lparr>listener := l, state := Ground, scanState := sc'\<rparr> = p\<lparr>listener := l, scanState := sc'\<rparr>" for l sc'
    using assms(2) by (cases p) simp
  have "run_fsm U ?L (0x1B # 0x5B # ?tail) (p\<lparr>scanState := sc\<rparr>)
    = bind_result (processSequence H (csi_sequence lead q interm fin) h)
        (\<lambda>r. Inr (p\<lparr>listener := handled (csi_sequence lead q interm fin) cur ?b r,
               scanState := sc\<lparr>lastCodepointHint := 0\<rparr>\<rparr>))"
    using assms(2) fold
    by (simp add: pg run_fsm_deliver deliver_def stream sequence_listener_def bind_result_assoc
        del: fold_result.simps stream_events.simps)
  with run q hb show ?thesis by auto
qed


subsection \<open>Printed parameters read back\<close>

lemma foldl_digits:
  assumes "\<And>c. c \<in> set ds \<Longrightarrow> is_digit c" and "v < 65536"
  shows "foldl param_step (ps @ [(s, v)]) ds = ps @ [(s, wrap16 (read_decimal v ds))]"
  using assms
proof (induction ds arbitrary: v)
  case (Cons d ds)
  have hom: "wrap16 (read_decimal (wrap16 x) ds) = wrap16 (read_decimal x ds)" for x
  proof (induction ds arbitrary: x)
    case (Cons e es)
    have "wrap16 (wrap16 x * 10 + (e - 48)) = wrap16 (x * 10 + (e - 48))"
      unfolding wrap16_def by (metis mod_add_left_eq mod_mult_left_eq)
    then show ?case using Cons [of "wrap16 x * 10 + (e - 48)"] Cons [of "x * 10 + (e - 48)"] by simp
  qed (simp add: wrap16_def)
  have "param_step (ps @ [(s, v)]) d = ps @ [(s, wrap16 (v * 10 + (d - 48)))]"
    using Cons.prems(1) by (simp add: param_step_def)
  with Cons.IH [of "wrap16 (v * 10 + (d - 48))"] Cons.prems(1) hom show ?case by simp
qed simp

lemma foldl_decimal:
  "n < 65536 \<Longrightarrow> foldl param_step (ps @ [(s, 0)]) (decimal n) = ps @ [(s, n)]"
  using foldl_digits [of "decimal n" 0 ps s] by (simp add: decimal_digits)

fun join_params :: "nat list \<Rightarrow> bytes" where
  "join_params [] = []"
| "join_params [a] = decimal a"
| "join_params (a # as) = decimal a @ 0x3B # join_params as"

lemma join_params_eq:
  "args \<noteq> [] \<Longrightarrow> butlast (concat (map (\<lambda>a. decimal a @ [0x3B]) args)) = join_params args"
proof (induction args rule: join_params.induct)
  case (3 a b as)
  have "concat (map (\<lambda>a. decimal a @ [0x3B]) (b # as)) \<noteq> []" by simp
  with 3 show ?case by (simp add: butlast_append)
qed simp_all

lemma foldl_join:
  "args \<noteq> [] \<Longrightarrow> \<forall>a \<in> set args. a < 65536 \<Longrightarrow>
   foldl param_step (ps @ [(False, 0)]) (join_params args) = ps @ map (Pair False) args"
proof (induction args arbitrary: ps rule: join_params.induct)
  case (3 a b as)
  have "param_step (ps @ [(False, a)]) 0x3B = (ps @ [(False, a)]) @ [(False, 0)]"
    by (simp add: param_step_def is_digit_def)
  with 3 "3.IH" [of "ps @ [(False, a)]"] show ?case by (simp add: foldl_decimal)
qed (simp_all add: foldl_decimal)

lemma read_join: "args \<noteq> [] \<Longrightarrow> \<forall>a \<in> set args. a < 65536 \<Longrightarrow> read_params (join_params args) = map (Pair False) args"
  using foldl_join [of args "[]"] by (simp add: read_params_def)

lemma join_params_chars: "c \<in> set (join_params args) \<Longrightarrow> is_param_char c"
  by (induction args rule: join_params.induct)
    (auto simp: is_param_char_def dest: decimal_digits)

lemma join_params_hd:
  assumes "args \<noteq> []"
  shows "join_params args \<noteq> [] \<and> hd (join_params args) \<noteq> 0x3A"
proof -
  obtain ds where ds: "join_params args = decimal (hd args) @ ds"
    using assms by (cases args rule: join_params.cases) simp_all
  have "is_digit (hd (decimal (hd args)))" by (rule decimal_digits [OF hd_in_set [OF decimal_nonempty]])
  with ds show ?thesis by (simp add: is_digit_def hd_append)
qed

lemma table_syntax:
  "f \<in> set allFunctionsArray \<Longrightarrow>
     (leader f = 0 \<or> 0x3C \<le> leader f \<and> leader f \<le> 0x3F) \<and>
     (intermediate f = 0 \<or> 0x20 \<le> intermediate f \<and> intermediate f \<le> 0x2F) \<and> finalSymbol f \<le> 0x7E"
proof -
  have "list_all (\<lambda>f. (leader f = 0 \<or> 0x3C \<le> leader f \<and> leader f \<le> 0x3F) \<and>
     (intermediate f = 0 \<or> 0x20 \<le> intermediate f \<and> intermediate f \<le> 0x2F) \<and> finalSymbol f \<le> 0x7E)
     allFunctionsArray"
    unfolding allFunctionsArray_def by (simp add: function_makers)
  then show "f \<in> set allFunctionsArray \<Longrightarrow> ?thesis" by (simp add: list_all_iff)
qed


lemma str_loop_read:
  assumes "\<forall>i < n. par_values p ! i < 65536" and "s \<noteq> []" and "foldl param_step [(False, 0)] s = ps"
  shows "k \<le> n \<Longrightarrow> foldl param_step [(False, 0)] (str_loop p [k..<n] s)
     = ps @ map (\<lambda>i. (isSubParameter p i, par_values p ! i)) [k..<n]"
  using assms(2,3)
proof (induction "n - k" arbitrary: k s ps)
  case (Suc m)
  then have kn: "k < n" "[k..<n] = k # [Suc k..<n]" by (simp_all add: upt_conv_Cons)
  let ?sep = "if isSubParameter p k then 0x3A else 0x3B :: byte"
  let ?t = "s @ [?sep] @ (if isSubParameter p k \<and> par_values p ! k = 0 then [] else decimal (par_values p ! k))"
  have "foldl param_step [(False, 0)] (s @ [?sep]) = ps @ [(isSubParameter p k, 0)]"
    using Suc.prems(3) by (simp add: param_step_def is_digit_def)
  then have "foldl param_step [(False, 0)] ?t = ps @ [(isSubParameter p k, par_values p ! k)]"
    using assms(1) kn(1) foldl_decimal [of "par_values p ! k" ps] by (auto simp: foldl_append)
  with Suc.hyps(1) [of "Suc k" ?t] Suc.hyps(2) Suc.prems kn show ?case by (auto simp: Let_def)
qed simp

lemma str_read:
  assumes "\<forall>i < par_count p. par_values p ! i < 65536" and "\<not> isSubParameter p 0" "0 < par_count p"
  shows "read_params (str p) = map (\<lambda>i. (isSubParameter p i, par_values p ! i)) [0..<par_count p]"
proof -
  have "[0..<par_count p] = 0 # [1..<par_count p]" using assms(3) by (simp add: upt_conv_Cons)
  moreover have "foldl param_step [(False, 0)] (decimal (par_values p ! 0)) = [(False, par_values p ! 0)]"
    using assms foldl_decimal [of "par_values p ! 0" "[]" False] by simp
  note str_loop_read [OF assms(1) decimal_nonempty this, of 1]
  ultimately show ?thesis using assms(2,3) by (simp add: str_def read_params_def Let_def)
qed

lemma sub_run_none: "par_subParameterTest p = 0 \<Longrightarrow> subParameterCount p i = 0"
  by (simp add: subParameterCount_def isSubParameter_def sub_run.simps)

lemma raw_params_join:
  assumes "par_subParameterTest (seq_parameters s) = 0" "parameterCount s \<le> 16"
    "length (par_values (seq_parameters s)) = 16"
  shows "k < parameterCount s \<Longrightarrow> raw_params s [k..<parameterCount s] =
     Inr ((if k = 0 then [] else [0x3B]) @ join_params (drop k (range_parameters (seq_parameters s))))"
proof (induction "parameterCount s - Suc k" arbitrary: k)
  case 0
  then have k: "[k..<parameterCount s] = [k]" by (simp add: upt_conv_Cons)
  have "par_count (seq_parameters s) = Suc k" using 0 by (simp add: parameterCount_def)
  then have "drop k (range_parameters (seq_parameters s)) = [par_values (seq_parameters s) ! k]"
    using assms by (simp add: range_parameters_def parameterCount_def drop_take flip: Cons_nth_drop_Suc)
  with 0 assms k show ?case
    by (simp add: sub_run_none param_def at_def MaxParameters_def parameterCount_def)
next
  case (Suc m)
  then have k: "[k..<parameterCount s] = k # [Suc k..<parameterCount s]" by (simp add: upt_conv_Cons)
  let ?r = "range_parameters (seq_parameters s)"
  have len: "length ?r = parameterCount s" using assms by (simp add: range_parameters_def parameterCount_def)
  have "drop k ?r = par_values (seq_parameters s) ! k # drop (Suc k) ?r"
    using Suc.prems len Cons_nth_drop_Suc [of k ?r] by (simp add: range_parameters_def parameterCount_def)
  moreover have "drop (Suc k) ?r \<noteq> []" using Suc.hyps(2) len by simp
  ultimately have j: "join_params (drop k ?r) = decimal (par_values (seq_parameters s) ! k) @ 0x3B # join_params (drop (Suc k) ?r)"
    by (cases "drop (Suc k) ?r") simp_all
  have "raw_params s [Suc k..<parameterCount s] = Inr (0x3B # join_params (drop (Suc k) ?r))"
    using Suc.hyps(1) [of "Suc k"] Suc.hyps(2) by simp
  with Suc.prems assms k j show ?case
    by (simp add: sub_run_none param_def at_def MaxParameters_def parameterCount_def)
qed

lemma selector_csi:
  "selector (csi_sequence lead q interm fin) = Inr \<lparr>sel_category = CSI, sel_leader = lead,
     sel_argc = int (par_count q), sel_intermediate = interm, sel_finalSymbol = fin\<rparr>"
  by (simp add: selector_def csi_sequence_def parameterCount_def opt_byte_def)

text \<open>The number of parameters that the builder counts for a list of arguments.\<close>

definition counted :: "nat list \<Rightarrow> nat" where
  "counted args = (if args = [0] then 0 else length args)"

definition args_bytes :: "nat list \<Rightarrow> bytes" where
  "args_bytes args = (if args = [] then [] else join_params args)"

lemma read_args:
  assumes "\<forall>a \<in> set args. a < 65536"
  shows "read_params (args_bytes args) = (if args = [] then [(False, 0)] else map (Pair False) args)"
  using assms read_join by (simp add: args_bytes_def read_params_def)

lemma params_are_args:
  assumes "\<forall>a \<in> set args. a < 65536" and "params_are (read_params (args_bytes args)) q"
    and "length (par_values q) = 16" "length args \<le> 16"
  shows "par_count q = counted args" and "range_parameters q = take (counted args) args"
proof -
  show n: "par_count q = counted args"
    using assms(2) unfolding params_are_def read_args [OF assms(1)] counted_def by auto
  have "par_values q ! j = args ! j" if "j < length args" for j
    using assms(2) that unfolding params_are_def read_args [OF assms(1)] by (auto split: if_splits)
  then show "range_parameters q = take (counted args) args"
    using n assms(3,4) by (intro nth_equalityI) (auto simp: range_parameters_def counted_def split: if_splits)
qed

lemma invoke_csi:
  assumes "category f = CSI" "minimumParameters f \<le> length args" "length args \<le> maximumParameters f"
  shows "invoke f args = Inr ([0x1B, 0x5B] @ csi_tail (leader f) (args_bytes args) (intermediate f) (finalSymbol f))"
  using assms join_params_eq [of args]
  by (auto simp: invoke_def csi_tail_def opt_byte_def args_bytes_def)

lemma csi_ok_table:
  assumes "f \<in> set allFunctionsArray" and "0x40 \<le> finalSymbol f"
  shows "csi_ok (leader f) (args_bytes args) (intermediate f) (finalSymbol f)"
  using table_syntax [OF assms(1)] assms(2) join_params_chars [of _ args] join_params_hd [of args]
  by (auto simp: csi_ok_def args_bytes_def)

text \<open>
  What the handler gets for the bytes of an invocation: one sequence with the arguments as its
  parameters, for which the table finds the function.
\<close>

lemma invoke_parse_lemma:
  assumes unicode: "scan_contract U"
    and ground: "state p = Ground" "builder_inv H Outside (listener p)"
    and handler: "writeTextEnd H (sb_handler (listener p)) = Inr h"
    and table: "reachable_sequences s" "f \<in> set (activeSequences s)"
      "\<not> {SCOSC, DECSLRM} \<subseteq> set (activeSequences s) \<or> f \<notin> {SCOSC, DECSLRM}"
    and f: "category f = CSI" "0x40 \<le> finalSymbol f"
    and args: "minimumParameters f \<le> counted args" "length args \<le> maximumParameters f"
      "length args \<le> 16" "\<forall>a \<in> set args. a < 65536"
  shows "\<exists>bs sq cur sc. invoke f args = Inr bs
     \<and> parseFragment U (sequence_listener H) bs p =
         Some (bind_result (processSequence H sq h)
           (\<lambda>r. Inr (p\<lparr>listener := handled sq cur (listener p) r, scanState := sc\<rparr>)))
     \<and> range_parameters (seq_parameters sq) = take (counted args) args
     \<and> functionDefinition sq (activeSequences s) = Inr (Some f)
     \<and> par_count (seq_parameters sq) = counted args \<and> length (par_values (seq_parameters sq)) = 16"
proof -
  let ?bs = "[0x1B, 0x5B] @ csi_tail (leader f) (args_bytes args) (intermediate f) (finalSymbol f)"
  have tab: "f \<in> set allFunctionsArray" using active_in_table [OF reachable_ok [OF table(1)] table(2)] .
  have len: "length (par_values (seq_parameters (sb_sequence (listener p)))) = 16"
    using ground(2) by (simp add: builder_inv_def parameters_ok_def parameterBuilder_def)
  have "length (read_params (args_bytes args)) \<le> 16" using args by (simp add: read_args)
  from csi_parse [OF unicode ground(1) len csi_ok_table [OF tab f(2)] this handler]
  obtain q cur sc where q: "params_are (read_params (args_bytes args)) q" "length (par_values q) = 16"
    and parse: "parseFragment U (sequence_listener H) ?bs p =
       Some (bind_result (processSequence H (csi_sequence (leader f) q (intermediate f) (finalSymbol f)) h)
         (\<lambda>r. Inr (p\<lparr>listener := handled (csi_sequence (leader f) q (intermediate f) (finalSymbol f)) cur
            (listener p) r, scanState := sc\<rparr>)))"
    by blast
  let ?sq = "csi_sequence (leader f) q (intermediate f) (finalSymbol f)"
  have le: "counted args \<le> length args" by (simp add: counted_def)
  have n: "par_count q = counted args" and r: "range_parameters q = take (counted args) args"
    using params_are_args [OF args(4) q args(3)] by blast+
  have "functionDefinition ?sq (activeSequences s) = Inr (Some f)"
    unfolding functionDefinition_def selector_csi bind_result_simps
  proof (rule select_exact_lemma [OF table(1,2) _ table(3)])
    show "selector_matches \<lparr>sel_category = CSI, sel_leader = leader f, sel_argc = int (par_count q),
        sel_intermediate = intermediate f, sel_finalSymbol = finalSymbol f\<rparr> f"
      using f n args(1,2) le by (simp add: selector_matches_def)
  qed
  moreover have "invoke f args = Inr ?bs" using f args le by (intro invoke_csi) simp_all
  ultimately show ?thesis using parse r n q(2) by (intro exI [of _ ?bs] exI [of _ ?sq] exI [of _ cur] exI [of _ sc])
      (simp add: csi_sequence_def)
qed

subsection \<open>Properties\<close>

text \<open>
  C1. Invoking and parsing are inverse to each other: the byte string that \<open>Function::operator()\<close>
  produces for a control function and up to sixteen 16-bit arguments is delivered to the handler,
  by a parser in its ground state, as exactly one sequence, whose parameters are the arguments and
  for which the function table finds that function again. (A single argument 0 counts as no argument,
  so the function must then accept none; SCOSC and DECSLRM share their syntax and must not both be
  active; a final character below 0x40, which DECXCPR has, is no final character of a control
  sequence.)
\<close>

theorem invoke_parse_roundtrip:
  assumes unicode: "scan_contract U"
    and ground: "state p = Ground" "builder_inv H Outside (listener p)"
    and handler: "writeTextEnd H (sb_handler (listener p)) = Inr h"
    and table: "reachable_sequences s" "f \<in> set (activeSequences s)"
      "\<not> {SCOSC, DECSLRM} \<subseteq> set (activeSequences s) \<or> f \<notin> {SCOSC, DECSLRM}"
    and f: "category f = CSI" "0x40 \<le> finalSymbol f"
    and args: "minimumParameters f \<le> counted args" "length args \<le> maximumParameters f"
      "length args \<le> 16" "\<forall>a \<in> set args. a < 65536"
  shows "\<exists>bs sq cur sc. invoke f args = Inr bs
     \<and> parseFragment U (sequence_listener H) bs p =
         Some (bind_result (processSequence H sq h)
           (\<lambda>r. Inr (p\<lparr>listener := handled sq cur (listener p) r, scanState := sc\<rparr>)))
     \<and> range_parameters (seq_parameters sq) = take (counted args) args
     \<and> functionDefinition sq (activeSequences s) = Inr (Some f)"
  using invoke_parse_lemma [OF assms] by blast

text \<open>A handler that records the sequences it gets, for the examples.\<close>

definition log_handler :: "(Sequence list, unit) SequenceHandler" where
  "log_handler = \<lparr>executeControlCode = (\<lambda>_. Inr), processSequence = (\<lambda>s l. Inr (l @ [s], None)),
     writeText = (\<lambda>_. Inr), writeBulkText = (\<lambda>_ _. Inr), writeTextEnd = Inr,
     handlerBulkWidth = (\<lambda>_. 80), pass = (\<lambda>_ x l. Inr (x, l)), finalize = (\<lambda>_. Inr)\<rparr>"

lemma new_builder_inv: "builder_inv H Outside (newSequenceBuilder h)"
  by (simp add: builder_inv_def newSequenceBuilder_def parameterBuilder_def parameters_ok_def newSequence_def
      newSequenceParameters_def MaxParameters_def)

lemma fresh_simps:
  "state (new_parser u b) = Ground" "listener (new_parser u b) = b"
  "sb_handler (newSequenceBuilder h) = h" "writeTextEnd log_handler l = Inr l"
  by (simp_all add: new_parser_def newSequenceBuilder_def log_handler_def)

theorem invoke_parse_roundtrip_witness:
  "\<exists>bs sq cur sc. invoke CUP [3, 40] = Inr bs
     \<and> parseFragment ascii_lib (sequence_listener log_handler) bs (new_parser () (newSequenceBuilder [])) =
         Some (bind_result (processSequence log_handler sq [])
           (\<lambda>r. Inr ((new_parser () (newSequenceBuilder []))\<lparr>listener :=
              handled sq cur (listener (new_parser () (newSequenceBuilder []))) r, scanState := sc\<rparr>)))
     \<and> range_parameters (seq_parameters sq) = [3, 40]
     \<and> functionDefinition sq (activeSequences newSupportedSequences) = Inr (Some CUP)"
proof -
  have act: "CUP \<in> set (activeSequences newSupportedSequences)"
    by (simp add: newSupportedSequences_def activeSequences_def allFunctions_def)
      (simp add: allFunctionsArray_def)
  have cup: "category CUP = CSI" "finalSymbol CUP = 72" "minimumParameters CUP = 0"
      "maximumParameters CUP = 2" "CUP \<noteq> SCOSC" "CUP \<noteq> DECSLRM"
    by (simp_all add: function_makers)
  let ?p = "new_parser () (newSequenceBuilder []) :: (unit, (Sequence list, unit) SequenceBuilder) Parser"
  have p: "state ?p = Ground" "builder_inv log_handler Outside (listener ?p)"
      "writeTextEnd log_handler (sb_handler (listener ?p)) = Inr []"
    by (simp_all add: fresh_simps new_builder_inv)
  have args: "minimumParameters CUP \<le> counted [3, 40]" "length [3, 40 :: nat] \<le> maximumParameters CUP"
      "length [3, 40 :: nat] \<le> 16" "\<forall>a \<in> set [3, 40 :: nat]. a < 65536" "0x40 \<le> finalSymbol CUP"
      "\<not> {SCOSC, DECSLRM} \<subseteq> set (activeSequences newSupportedSequences) \<or> CUP \<notin> {SCOSC, DECSLRM}"
      "take (counted [3, 40]) [3, 40 :: nat] = [3, 40]"
    using cup by (simp_all add: counted_def)
  show ?thesis
    using invoke_parse_roundtrip [OF ascii_contract p rs_new act args(6) cup(1) args(5,1,2,3,4)]
    unfolding args(7) .
qed

text \<open>
  C2. The parser and the builder stay within their data for every byte string: whatever is received,
  parsing ends, and it either leaves all parameters within their array and their 16 bits, at most
  sixteen of them counted, with no parser extension hooked outside of a device control string (if the
  handler hooks extensions for device control strings only), or it stops with a fault of the
  handler, an overflowing OSC code, or an access past the parameter array; never with a failed
  assertion or in unreachable code.
\<close>

theorem builder_stays_valid:
  assumes "scan_contract U"
  shows "\<exists>r. parseFragment U (sequence_listener H) bs (new_parser u (newSequenceBuilder h)) = Some r
    \<and> result_in ({OutOfBounds, SignedOverflow} \<union> handler_faults H)
        (\<lambda>p. builder_inv H (mode_of (state p)) (listener p)) r"
proof -
  obtain r where r: "parseFragment U (sequence_listener H) bs (new_parser u (newSequenceBuilder h)) = Some r"
    and good: "builder_listener.good H r"
    using builder_listener.parseFragment_good [OF assms, of "new_parser u (newSequenceBuilder h)" H bs]
      new_builder_inv [of H h] by (auto simp: fresh_simps)
  have "result_in ({OutOfBounds, SignedOverflow} \<union> handler_faults H)
      (\<lambda>p. builder_inv H (mode_of (state p)) (listener p)) r"
    using good unfolding builder_listener.good_def
    by (rule result_in_mono) (auto simp: builder_faults_def)
  with r show ?thesis by blast
qed

theorem builder_stays_valid_witness:
  "scan_contract ascii_lib \<and> handler_faults log_handler = {}
   \<and> (\<exists>r. parseFragment ascii_lib (sequence_listener log_handler) [0x1B, 0x50, 0x71, 0x1B, 0x5C]
           (new_parser () (newSequenceBuilder [])) = Some r
       \<and> result_in {OutOfBounds, SignedOverflow}
           (\<lambda>p. builder_inv log_handler (mode_of (state p)) (listener p)) r)"
proof -
  have nf: "handler_faults log_handler = {}" by (simp add: handler_faults_def log_handler_def)
  show ?thesis
    using builder_stays_valid [OF ascii_contract, of log_handler "[0x1B, 0x50, 0x71, 0x1B, 0x5C]" "()" "[]"]
      ascii_contract nf by simp
qed

text \<open>
  C6. A control sequence with more than sixteen parameters makes the parameter builder write past the
  end of its array: the guard of \<open>nextParameter\<close> and \<open>nextSubParameter\<close> compares the iterator with
  the end before it is advanced, not after. The documentation has further parameters ignored.
\<close>

theorem too_many_parameters_fault:
  assumes unicode: "scan_contract U"
    and ground: "state p = Ground" "builder_inv H Outside (listener p)"
    and handler: "writeTextEnd H (sb_handler (listener p)) = Inr h"
    and cs: "\<forall>c \<in> set cs. is_param_char c" "cs \<noteq> []" "hd cs \<noteq> 0x3A" "16 < length (read_params cs)"
    and fin: "0x40 \<le> fin" "fin \<le> 0x7E"
  shows "parseFragment U (sequence_listener H) ([0x1B, 0x5B] @ cs @ [fin]) p = Some (Inl OutOfBounds)"
proof -
  let ?L = "sequence_listener H" and ?b = "sb_clear (sb_clear ((listener p)\<lparr>sb_handler := h\<rparr>))"
  have ok: "csi_ok 0 cs 0 fin" using cs fin by (simp add: csi_ok_def)
  have range: "0x20 \<le> b \<and> b \<le> 0x3F" if "b \<in> set cs" for b
    using cs(1) that by (auto simp: is_param_char_def is_digit_def)
  obtain sc where run: "parseFragment U ?L (0x1B # 0x5B # cs @ [fin]) p
      = Some (run_fsm U ?L (0x1B # 0x5B # cs @ [fin]) (p\<lparr>scanState := sc\<rparr>))"
    using csi_fragment [OF unicode ground(1) range] by blast
  have esc: "byte_events U 0x1B (Ground, sc) = ([Ev_printEnd, Ev_clear], Escape, sc)"
    "byte_events U 0x5B (Escape, sc) = ([Ev_clear], CSI_Entry, sc)"
    by (simp_all add: byte_events_simps)
  have stream: "stream_events U (0x1B # 0x5B # cs @ [fin]) (Ground, sc)
      = ([Ev_printEnd, Ev_clear, Ev_clear] @ map param_event cs @ [Ev_dispatchCSI fin], Ground,
         sc\<lparr>lastCodepointHint := 0\<rparr>)"
    using csi_stream [OF ok, of U sc] esc by (simp add: csi_tail_def opt_byte_def)
  have col: "collected [(False, 0)] (parameterBuilder ?b)"
    using ground(2) unfolding sb_clear_simps
    by (intro collected_reset) (simp add: builder_inv_def parameters_ok_def resetBuilder_def clearParameters_def)
  have over: "fold_result (sb_event H) (map param_event cs) ?b = Inl OutOfBounds"
    using param_events_collect [OF col, of cs H] cs(1,4) by (simp add: read_params_def)
  have "fold_result (sb_event H) [Ev_printEnd, Ev_clear, Ev_clear] (listener p) = Inr ?b"
    using handler by (simp add: on_handler_def)
  with over have "fold_result (sb_event H)
      ([Ev_printEnd, Ev_clear, Ev_clear] @ map param_event cs @ [Ev_dispatchCSI fin]) (listener p) = Inl OutOfBounds"
    unfolding fold_result_append by simp
  then show ?thesis
    using run ground(1)
    by (simp add: run_fsm_deliver deliver_def stream sequence_listener_def
        del: fold_result.simps stream_events.simps)
qed

theorem too_many_parameters_fault_witness:
  "parseFragment ascii_lib (sequence_listener log_handler) ([0x1B, 0x5B] @ replicate 16 0x3B @ [0x6D])
     (new_parser () (newSequenceBuilder [])) = Some (Inl OutOfBounds)"
proof -
  have "length (read_params (replicate 16 0x3B)) = 17"
    by (simp add: read_params_def param_step_def is_digit_def numeral_eq_Suc)
  then show ?thesis
    by (intro too_many_parameters_fault [OF ascii_contract, where h = "[]"])
      (simp_all add: fresh_simps new_builder_inv is_param_char_def)
qed


text \<open>
  Printing parameters and reading them is the identity: the text of \<open>SequenceParameters::str\<close>, sent
  as the parameters of a control sequence, has the same values and sub-parameter flags.
\<close>

theorem str_roundtrip:
  assumes "\<forall>i < par_count p. par_values p ! i < 65536" and "\<not> isSubParameter p 0"
    and "0 < par_count p" and "par_count p = 1 \<longrightarrow> par_values p ! 0 \<noteq> 0"
    and "\<forall>j \<ge> par_count p. \<not> isSubParameter p j"
  shows "params_are (read_params (str p)) p"
proof -
  have "map (\<lambda>i. (isSubParameter p i, par_values p ! i)) [0..<par_count p] \<noteq> [(False, 0)]"
  proof
    assume h: "map (\<lambda>i. (isSubParameter p i, par_values p ! i)) [0..<par_count p] = [(False, 0)]"
    have "length (map (\<lambda>i. (isSubParameter p i, par_values p ! i)) [0..<par_count p]) = 1"
      unfolding h by simp
    then have n: "par_count p = 1" by simp
    with h assms(4) show False by simp
  qed
  with assms(5) show ?thesis by (simp add: params_are_def str_read [OF assms(1-3)])
qed

theorem str_roundtrip_witness:
  "str \<lparr>par_values = [4, 3, 38] @ replicate 13 0, par_subParameterTest = 2, par_count = 3\<rparr>
     = [0x34, 0x3A, 0x33, 0x3B, 0x33, 0x38]
   \<and> params_are (read_params [0x34, 0x3A, 0x33, 0x3B, 0x33, 0x38])
       \<lparr>par_values = [4, 3, 38] @ replicate 13 0, par_subParameterTest = 2, par_count = 3\<rparr>"
proof -
  let ?p = "\<lparr>par_values = [4, 3, 38] @ replicate 13 0, par_subParameterTest = 2, par_count = 3\<rparr>"
  have sub: "\<not> isSubParameter ?p 0" "isSubParameter ?p 1" "\<not> isSubParameter ?p 2"
    by (simp_all add: isSubParameter_def bit_numeral_rec)
  have dec: "decimal 4 = [0x34]" "decimal 3 = [0x33]" "decimal 38 = [0x33, 0x38]"
    by (simp_all add: decimal.simps)
  have upt: "[0..<3] = [0, 1, 2 :: nat]" by (simp add: upt_rec)
  have str: "str ?p = [0x34, 0x3A, 0x33, 0x3B, 0x33, 0x38]"
    using sub dec upt by (simp add: str_def)
  have "\<forall>i \<in> set [0..<3]. par_values ?p ! i < 65536" unfolding upt by simp
  then have "\<forall>i < par_count ?p. par_values ?p ! i < 65536" by simp
  moreover have "\<forall>j \<ge> par_count ?p. \<not> isSubParameter ?p j"
    by (auto simp: isSubParameter_def bit_2_iff)
  ultimately show ?thesis using str_roundtrip [of ?p] sub(1) str by simp
qed

text \<open>
  The byte string of \<open>Sequence::raw\<close> for a control sequence without sub-parameters is the control
  sequence with its parameters, intermediate and final character, except for the leader: a private
  sequence loses its leader.
\<close>

theorem raw_csi:
  assumes "par_subParameterTest q = 0" "par_count q \<le> 16" "length (par_values q) = 16" and "fin \<noteq> 0"
  shows "raw (csi_sequence lead q interm fin) =
     Inr ([0x1B, 0x5B] @ csi_tail 0 (args_bytes (range_parameters q)) interm fin)"
proof (cases "par_count q = 0")
  case True
  with assms(4) show ?thesis
    by (simp add: raw_def csi_sequence_def parameterCount_def csi_tail_def opt_byte_def args_bytes_def
        range_parameters_def)
next
  case False
  let ?s = "csi_sequence lead q interm fin"
  have s: "seq_parameters ?s = q" "parameterCount ?s = par_count q"
    by (simp_all add: csi_sequence_def parameterCount_def)
  have "range_parameters q \<noteq> []" using False assms(3) by (auto simp: range_parameters_def)
  moreover have "raw_params ?s [0..<parameterCount ?s] = Inr (join_params (range_parameters q))"
    using raw_params_join [of ?s 0] assms False s by simp
  ultimately show ?thesis
    using assms(4) unfolding raw_def
    by (simp add: csi_tail_def opt_byte_def args_bytes_def csi_sequence_def)
qed

theorem raw_csi_witness:
  "raw (csi_sequence 0x3F \<lparr>par_values = 25 # replicate 15 0, par_subParameterTest = 0, par_count = 1\<rparr> 0 0x68)
   = Inr [0x1B, 0x5B, 0x32, 0x35, 0x68]"
  using raw_csi [of "\<lparr>par_values = 25 # replicate 15 0, par_subParameterTest = 0, par_count = 1\<rparr>" "0x68" "0x3F" 0]
  by (simp add: csi_tail_def opt_byte_def args_bytes_def range_parameters_def decimal.simps)

end
