(* ===== verification/VT_SGR.thy ===== *)
theory VT_SGR
  imports VT_Dispatch VT_Cell
begin

text \<open>
  Select graphic rendition: \<open>parseColor\<close> and \<open>applySGR\<close> of \<open>src/vtbackend/Screen.cpp\<close>, which read the
  parameters of a collected sequence and set flags and colours of a target. The target is a
  template parameter: the screen's cursor attributes, or a cell for the rectangular operations; here
  it is a record of the four setters.
\<close>

subsection \<open>Colours in parameters\<close>

text \<open>The switch over the sub-parameters; \<open>None\<close> is falling through to the older syntax.\<close>

definition sub_color :: "Sequence \<Rightarrow> nat \<Rightarrow> (Color \<times> nat) option result" where
  "sub_color s i =
    (let len = subParameterCount (seq_parameters s) i in
     if len \<ge> 1
     then bind_result (param s (i + 1)) (\<lambda>kind.
       if kind = 2 then
         if len = 4 \<or> len = 5
         then bind_result (subparam s i (len - 2)) (\<lambda>r.
              bind_result (subparam s i (len - 1)) (\<lambda>g.
              bind_result (subparam s i len) (\<lambda>b.
                if r \<le> 255 \<and> g \<le> 255 \<and> b \<le> 255
                then Inr (Some (color_of_rgb \<lparr>rgb_red = word_of_nat r, rgb_green = word_of_nat g,
                       rgb_blue = word_of_nat b\<rparr>, i + len))
                else Inr None)))
         else Inr None
       else if kind = 5 then
         bind_result (subparam s i 2) (\<lambda>p.
           if p \<le> 255 then Inr (Some (color_of_indexed (word_of_nat p), i + len)) else Inr None)
       else Inr None)
     else Inr None)"

text \<open>
  The colour at parameter \<open>i\<close> and the parameter to continue behind. In the older syntax the test
  \<open>i <= 255\<close> is on the position, not on the value.
\<close>

definition parseColor_seq :: "Sequence \<Rightarrow> nat \<Rightarrow> (Color \<times> nat) result" where
  "parseColor_seq s i =
    bind_result (sub_color s i) (\<lambda>r. case r of Some res \<Rightarrow> Inr res | None \<Rightarrow>
      if i + 1 < parameterCount s
      then let i = i + 1 in
        bind_result (param s i) (\<lambda>mode.
          if mode = 5 then
            if i + 1 < parameterCount s
            then let i = i + 1 in
              bind_result (param s i) (\<lambda>v.
                if i \<le> 255 then Inr (color_of_indexed (word_of_nat v), i) else Inr (newColor, i + 1))
            else Inr (newColor, i + 1)
          else if mode = 2 then
            if i + 3 < parameterCount s
            then
              bind_result (param s (i + 1)) (\<lambda>r.
              bind_result (param s (i + 2)) (\<lambda>g.
              bind_result (param s (i + 3)) (\<lambda>b.
                let i = i + 3 in
                if r \<le> 255 \<and> g \<le> 255 \<and> b \<le> 255
                then Inr (color_of_rgb \<lparr>rgb_red = word_of_nat r, rgb_green = word_of_nat g,
                       rgb_blue = word_of_nat b\<rparr>, i)
                else Inr (newColor, i + 1))))
            else Inr (newColor, i + 1)
          else Inr (newColor, i + 1))
      else Inr (newColor, i + 1))"

subsection \<open>Applying the parameters\<close>

record 't SgrTarget =
  setGraphicsRendition :: "GraphicsRendition \<Rightarrow> 't \<Rightarrow> 't"
  setForegroundColor :: "Color \<Rightarrow> 't \<Rightarrow> 't"
  setBackgroundColor :: "Color \<Rightarrow> 't \<Rightarrow> 't"
  setUnderlineColor :: "Color \<Rightarrow> 't \<Rightarrow> 't"

text \<open>The screen's setters work on the attributes of the cursor.\<close>

definition screen_target :: "GraphicsAttributes SgrTarget" where
  "screen_target =
    \<lparr>setGraphicsRendition = (\<lambda>g a. if g = GR_Reset then defaultAttributes
       else a\<lparr>ga_flags := makeCellFlags g (ga_flags a)\<rparr>),
     setForegroundColor = (\<lambda>c a. a\<lparr>ga_foregroundColor := c\<rparr>),
     setBackgroundColor = (\<lambda>c a. a\<lparr>ga_backgroundColor := c\<rparr>),
     setUnderlineColor = (\<lambda>c a. a\<lparr>ga_underlineColor := c\<rparr>)\<rparr>"

definition cell_target :: "CompactCell SgrTarget" where
  "cell_target =
    \<lparr>setGraphicsRendition = cc_setGraphicsRendition, setForegroundColor = cc_setForegroundColor,
     setBackgroundColor = cc_setBackgroundColor, setUnderlineColor = cc_setUnderlineColor\<rparr>"

datatype sgr_action =
    Rendition GraphicsRendition
  | SetFg Color
  | SetBg Color

primrec do_action :: "('t, 'm) SgrTarget_scheme \<Rightarrow> sgr_action \<Rightarrow> 't \<Rightarrow> 't" where
  "do_action T (Rendition g) t = setGraphicsRendition T g t"
| "do_action T (SetFg c) t = setForegroundColor T c t"
| "do_action T (SetBg c) t = setBackgroundColor T c t"

text \<open>The cases of the switch that set one attribute.\<close>

definition sgr_table :: "(nat \<times> sgr_action) list" where
  "sgr_table =
    [(0, Rendition GR_Reset), (1, Rendition GR_Bold), (2, Rendition GR_Faint), (3, Rendition GR_Italic),
     (5, Rendition GR_Blinking), (6, Rendition GR_RapidBlinking), (7, Rendition GR_Inverse),
     (8, Rendition GR_Hidden), (9, Rendition GR_CrossedOut), (21, Rendition GR_DoublyUnderlined),
     (22, Rendition GR_Normal), (23, Rendition GR_NoItalic), (24, Rendition GR_NoUnderline),
     (25, Rendition GR_NoBlinking), (27, Rendition GR_NoInverse), (28, Rendition GR_NoHidden),
     (29, Rendition GR_NoCrossedOut)]
    @ map (\<lambda>k. (30 + k, SetFg (color_of_indexed (word_of_nat k)))) [0..<8]
    @ [(39, SetFg DefaultColor)]
    @ map (\<lambda>k. (40 + k, SetBg (color_of_indexed (word_of_nat k)))) [0..<8]
    @ [(49, SetBg DefaultColor), (51, Rendition GR_Framed), (53, Rendition GR_Overline),
       (54, Rendition GR_NoFramed), (55, Rendition GR_NoOverline)]
    @ map (\<lambda>k. (90 + k, SetFg (color_of_bright (word_of_nat k)))) [0..<8]
    @ map (\<lambda>k. (100 + k, SetBg (color_of_bright (word_of_nat k)))) [0..<8]"

definition underline_style :: "nat \<Rightarrow> GraphicsRendition" where
  "underline_style v =
    (if v = 0 then GR_NoUnderline else if v = 1 then GR_Underline else if v = 2 then GR_DoublyUnderlined
     else if v = 3 then GR_CurlyUnderlined else if v = 4 then GR_DottedUnderline
     else if v = 5 then GR_DashedUnderline else GR_Underline)"

text \<open>One round of the loop: the new target and the index of the last parameter it used.\<close>

definition sgr_step :: "('t, 'm) SgrTarget_scheme \<Rightarrow> Sequence \<Rightarrow> nat \<Rightarrow> 't \<Rightarrow> ('t \<times> nat) result" where
  "sgr_step T s i t =
    bind_result (param s i) (\<lambda>v.
      if v = 4 then
        if subParameterCount (seq_parameters s) i = 1
        then bind_result (subparam s i 1) (\<lambda>k. Inr (setGraphicsRendition T (underline_style k) t, i + 1))
        else Inr (setGraphicsRendition T GR_Underline t, i)
      else if v = 38 then bind_result (parseColor_seq s i) (\<lambda>(c, i). Inr (setForegroundColor T c t, i))
      else if v = 48 then bind_result (parseColor_seq s i) (\<lambda>(c, i). Inr (setBackgroundColor T c t, i))
      else if v = 58 then bind_result (parseColor_seq s i) (\<lambda>(c, i). Inr (setUnderlineColor T c t, i))
      else case map_of sgr_table v of
        Some a \<Rightarrow> Inr (do_action T a t, i)
      | None \<Rightarrow> Inr (t, i))"

lemma sub_color_advances: "sub_color s i = Inr (Some (c, j)) \<Longrightarrow> i \<le> j"
  by (auto simp: sub_color_def Let_def bind_result_eq_Inr split: if_splits)

lemma parseColor_seq_advances: "parseColor_seq s i = Inr (c, j) \<Longrightarrow> i \<le> j"
  by (auto simp: parseColor_seq_def Let_def bind_result_eq_Inr dest: sub_color_advances
      split: if_splits option.splits)

lemma sgr_step_advances: "sgr_step T s i t = Inr (t', j) \<Longrightarrow> i \<le> j"
  by (auto simp: sgr_step_def Let_def bind_result_eq_Inr dest: parseColor_seq_advances
      split: if_splits option.splits prod.splits)

function sgr_loop :: "('t, 'm) SgrTarget_scheme \<Rightarrow> Sequence \<Rightarrow> nat \<Rightarrow> nat \<Rightarrow> 't \<Rightarrow> 't result" where
  "sgr_loop T s e i t =
    (if i < e then bind_result (sgr_step T s i t) (\<lambda>r. sgr_loop T s e (snd r + 1) (fst r)) else Inr t)"
  by pat_completeness auto
termination
  by (relation "measure (\<lambda>(T, s, e, i, t). e - i)") (auto dest!: sgr_step_advances)

declare sgr_loop.simps [simp del]

definition applySGR :: "('t, 'm) SgrTarget_scheme \<Rightarrow> Sequence \<Rightarrow> nat \<Rightarrow> nat \<Rightarrow> 't \<Rightarrow> 't result" where
  "applySGR T s parameterStart parameterEnd t =
    (if parameterStart = parameterEnd then Inr (setGraphicsRendition T GR_Reset t)
     else sgr_loop T s parameterEnd parameterStart t)"

subsection \<open>Rendition items\<close>

text \<open>
  What the parameters of a rendition can say, and how each item is written: attributes, underline
  styles, and colours in the syntax with semicolons or with colons, where an RGB colour may name a
  colour space.
\<close>

datatype color_slot = ForegroundSlot | BackgroundSlot | UnderlineSlot
datatype color_syntax = Semicolons | Colons | ColonsWithSpace nat
datatype sgr_color = IndexedValue u8 | RGBValue RGBColor

datatype sgr_item =
    Attribute nat
  | PlainUnderline
  | UnderlineStyle nat
  | ColorItem color_slot color_syntax sgr_color

primrec slot_code :: "color_slot \<Rightarrow> nat" where
  "slot_code ForegroundSlot = 38"
| "slot_code BackgroundSlot = 48"
| "slot_code UnderlineSlot = 58"

primrec set_slot :: "('t, 'm) SgrTarget_scheme \<Rightarrow> color_slot \<Rightarrow> Color \<Rightarrow> 't \<Rightarrow> 't" where
  "set_slot T ForegroundSlot = setForegroundColor T"
| "set_slot T BackgroundSlot = setBackgroundColor T"
| "set_slot T UnderlineSlot = setUnderlineColor T"

primrec sgr_color_value :: "sgr_color \<Rightarrow> Color" where
  "sgr_color_value (IndexedValue n) = color_of_indexed n"
| "sgr_color_value (RGBValue c) = color_of_rgb c"

primrec encode_color :: "color_syntax \<Rightarrow> sgr_color \<Rightarrow> (bool \<times> nat) list" where
  "encode_color syn (IndexedValue n) = map (Pair (syn \<noteq> Semicolons)) [5, unat n]"
| "encode_color syn (RGBValue c) = map (Pair (syn \<noteq> Semicolons))
    ([2] @ (case syn of ColonsWithSpace space \<Rightarrow> [space] | _ \<Rightarrow> [])
     @ [unat (rgb_red c), unat (rgb_green c), unat (rgb_blue c)])"

primrec encode_item :: "sgr_item \<Rightarrow> (bool \<times> nat) list" where
  "encode_item (Attribute v) = [(False, v)]"
| "encode_item PlainUnderline = [(False, 4)]"
| "encode_item (UnderlineStyle k) = [(False, 4), (True, k)]"
| "encode_item (ColorItem slot syn c) = (False, slot_code slot) # encode_color syn c"

primrec item_ok :: "sgr_item \<Rightarrow> bool" where
  "item_ok (Attribute v) \<longleftrightarrow> v \<notin> {4, 38, 48, 58}"
| "item_ok PlainUnderline \<longleftrightarrow> True"
| "item_ok (UnderlineStyle k) \<longleftrightarrow> True"
| "item_ok (ColorItem slot syn c) \<longleftrightarrow> True"

primrec item_effect :: "('t, 'm) SgrTarget_scheme \<Rightarrow> sgr_item \<Rightarrow> 't \<Rightarrow> 't" where
  "item_effect T (Attribute v) t = (case map_of sgr_table v of Some a \<Rightarrow> do_action T a t | None \<Rightarrow> t)"
| "item_effect T PlainUnderline t = setGraphicsRendition T GR_Underline t"
| "item_effect T (UnderlineStyle k) t = setGraphicsRendition T (underline_style k) t"
| "item_effect T (ColorItem slot syn c) t = set_slot T slot (sgr_color_value c) t"

subsection \<open>Reading the items back\<close>

text \<open>A sequence whose parameters are \<open>ps\<close>, in number and in place.\<close>

definition seq_has :: "(bool \<times> nat) list \<Rightarrow> Sequence \<Rightarrow> bool" where
  "seq_has ps s \<longleftrightarrow> params_are ps (seq_parameters s) \<and> length ps \<le> 16 \<and>
    length (par_values (seq_parameters s)) = 16 \<and> parameterCount s = length ps"

lemma seq_has_param:
  "seq_has ps s \<Longrightarrow> i < length ps \<Longrightarrow> param s i = Inr (snd (ps ! i))"
  by (auto simp: seq_has_def params_are_def param_def at_def parameterCount_def MaxParameters_def)

lemma seq_has_sub:
  "seq_has ps s \<Longrightarrow> isSubParameter (seq_parameters s) i \<longleftrightarrow> i < length ps \<and> fst (ps ! i)"
  by (cases "i < length ps") (auto simp: seq_has_def params_are_def)

lemma sub_run_takeWhile:
  assumes "seq_has ps s" "i \<le> length ps"
  shows "sub_run (seq_parameters s) i = i + length (takeWhile fst (drop i ps))"
  using assms(2)
proof (induction "length ps - i" arbitrary: i)
  case 0
  then show ?case using assms by (subst sub_run.simps) (simp add: seq_has_sub)
next
  case (Suc n)
  then have i: "i < length ps" "n = length ps - Suc i" by simp_all
  have "i < 16" using i assms(1) by (simp add: seq_has_def)
  with Suc.hyps(1) [OF i(2)] i show ?case
    using assms(1) by (subst sub_run.simps) (simp add: seq_has_sub Cons_nth_drop_Suc [symmetric])
qed

lemma subParameterCount_takeWhile:
  assumes "seq_has ps s" "i < length ps" "\<not> fst (ps ! i)"
  shows "subParameterCount (seq_parameters s) i = length (takeWhile fst (drop (i + 1) ps))"
  using assms sub_run_takeWhile [OF assms(1), of "i + 1"]
  by (simp add: subParameterCount_def seq_has_sub Let_def)

definition starts_item :: "(bool \<times> nat) list \<Rightarrow> bool" where
  "starts_item post \<longleftrightarrow> post = [] \<or> \<not> fst (hd post)"

lemma takeWhile_post: "starts_item post \<Longrightarrow> takeWhile fst post = []"
  by (cases post) (auto simp: starts_item_def)

lemma seq_has_at:
  assumes "seq_has (pre @ q @ post) s" "i < length q"
  shows "param s (length pre + i) = Inr (snd (q ! i))"
  using seq_has_param [OF assms(1), of "length pre + i"] assms(2) by (simp add: nth_append)

lemma seq_has_subs:
  assumes "seq_has (pre @ (False, v) # q @ post) s" "starts_item post"
  shows "subParameterCount (seq_parameters s) (length pre) = length (takeWhile fst (q @ post))"
  using subParameterCount_takeWhile [OF assms(1), of "length pre"] by simp

lemma parseColor_item:
  assumes "seq_has (pre @ (False, v) # encode_color syn c @ post) s" "starts_item post"
  shows "parseColor_seq s (length pre) = Inr (sgr_color_value c, length pre + length (encode_color syn c))"
proof -
  let ?q = "(False, v) # encode_color syn c" and ?n = "length pre"
  have has: "seq_has (pre @ ?q @ post) s" using assms(1) by simp
  have count: "parameterCount s = ?n + length ?q + length post"
    using assms(1) by (simp add: seq_has_def)
  have small: "?n + length ?q \<le> 16" using assms(1) by (simp add: seq_has_def)
  note at = seq_has_at [OF has]
  note subs = seq_has_subs [OF assms]
  have byte: "unat (x :: u8) \<le> 255" for x using unsigned_less [of x, where ?'a = nat] by simp
  show ?thesis
  proof (cases c)
    case (IndexedValue n)
    show ?thesis
      using at [of 1] at [of 2] count small subs byte [of n] takeWhile_post [OF assms(2)]
      by (cases syn)
        (simp_all add: IndexedValue parseColor_seq_def sub_color_def subparam_def Let_def)
  next
    case (RGBValue k)
    have eta: "\<lparr>rgb_red = rgb_red k, rgb_green = rgb_green k, rgb_blue = rgb_blue k\<rparr> = k" by simp
    have four: "4 + ?n = Suc (Suc (Suc (Suc ?n)))" by simp
    show ?thesis
      using at [of 1] at [of 2] at [of 3] at [of 4] at [of "Suc (Suc 0)"] at [of "Suc (Suc (Suc 0))"]
        at [of "Suc (Suc (Suc (Suc 0)))"] at [of "Suc (Suc (Suc (Suc (Suc 0))))"] count small subs takeWhile_post [OF assms(2)]
        byte [of "rgb_red k"] byte [of "rgb_green k"] byte [of "rgb_blue k"]
      by (cases syn)
        (simp_all add: RGBValue parseColor_seq_def sub_color_def subparam_def Let_def eta four)
  qed
qed

lemma sgr_step_item:
  assumes "seq_has (pre @ encode_item it @ post) s" "starts_item post" "item_ok it"
  shows "sgr_step T s (length pre) t
    = Inr (item_effect T it t, length pre + length (encode_item it) - 1)"
proof (cases it)
  case (Attribute v)
  then show ?thesis
    using assms seq_has_at [OF assms(1), of 0] by (auto simp: sgr_step_def split: option.split)
next
  case PlainUnderline
  then show ?thesis
    using assms seq_has_at [OF assms(1), of 0] seq_has_subs [of pre 4 "[]" post s] takeWhile_post [OF assms(2)]
    by (simp add: sgr_step_def)
next
  case (UnderlineStyle k)
  then show ?thesis
    using assms seq_has_at [OF assms(1), of 0] seq_has_at [OF assms(1), of 1]
      seq_has_subs [of pre 4 "[(True, k)]" post s] takeWhile_post [OF assms(2)]
    by (simp add: sgr_step_def subparam_def)
next
  case (ColorItem slot syn c)
  then show ?thesis
    using assms seq_has_at [OF assms(1), of 0] parseColor_item [of pre "slot_code slot" syn c post s]
    by (cases slot) (simp_all add: sgr_step_def)
qed

lemma encode_item_nonempty [simp]: "encode_item it \<noteq> []"
  by (cases it) simp_all

lemma starts_item_encoded: "starts_item (concat (map encode_item its))"
proof (cases its)
  case (Cons it its')
  have "\<not> fst (hd (encode_item it))" by (cases it) simp_all
  with Cons show ?thesis by (simp add: starts_item_def)
qed (simp add: starts_item_def)

lemma sgr_loop_items:
  assumes "seq_has (pre @ concat (map encode_item its)) s" "\<forall>it \<in> set its. item_ok it"
  shows "sgr_loop T s (parameterCount s) (length pre) t = Inr (fold (item_effect T) its t)"
  using assms
proof (induction its arbitrary: pre t)
  case Nil
  then show ?case by (subst sgr_loop.simps) (simp add: seq_has_def)
next
  case (Cons it its)
  let ?rest = "concat (map encode_item its)"
  have has: "seq_has (pre @ encode_item it @ ?rest) s" using Cons.prems(1) by simp
  have step: "sgr_step T s (length pre) t
      = Inr (item_effect T it t, length pre + length (encode_item it) - 1)"
    using sgr_step_item [OF has starts_item_encoded] Cons.prems(2) by simp
  have len: "0 < length (encode_item it)" by simp
  have "parameterCount s = length (pre @ encode_item it @ ?rest)" using has by (simp add: seq_has_def)
  with len have "length pre < parameterCount s" by simp
  moreover have "sgr_loop T s (parameterCount s) (length (pre @ encode_item it)) (item_effect T it t)
      = Inr (fold (item_effect T) its (item_effect T it t))"
    using Cons.IH [of "pre @ encode_item it"] Cons.prems by simp
  ultimately show ?case using step len by (subst sgr_loop.simps) simp
qed

subsection \<open>Properties\<close>

lemma applySGR_items:
  assumes "params_are (concat (map encode_item its)) (seq_parameters s)"
    and "length (par_values (seq_parameters s)) = 16" "length (concat (map encode_item its)) \<le> 16"
    and "its \<noteq> []" "\<forall>it \<in> set its. item_ok it"
  shows "applySGR T s 0 (parameterCount s) t = Inr (fold (item_effect T) its t)"
proof (cases "concat (map encode_item its) = [(False, 0)]")
  case True
  have "its = [Attribute 0]"
  proof -
    obtain it its' where its: "its = it # its'" using assms(4) by (cases its) auto
    have "length (encode_item it) \<le> 1" using True its by (cases its') (auto simp: append_eq_Cons_conv)
    with True its have it: "encode_item it = [(False, 0)]" and rest: "concat (map encode_item its') = []"
      by (cases "encode_item it"; simp)+
    have code: "slot_code slot \<noteq> 0" for slot by (cases slot) simp_all
    have "it = Attribute 0" using it by (cases it) (auto simp del: neq0_conv simp: code)
    moreover have "its' = []" using rest by (cases its') simp_all
    ultimately show ?thesis by (simp add: its)
  qed
  moreover have "parameterCount s = 0"
    using assms(1) True by (simp add: params_are_def parameterCount_def)
  ultimately show ?thesis by (simp add: applySGR_def sgr_table_def)
next
  case False
  then have count: "parameterCount s = length (concat (map encode_item its))"
    using assms(1) by (simp add: params_are_def parameterCount_def)
  have "0 < length (concat (map encode_item its))" using assms(4) by (cases its) simp_all
  moreover have "seq_has ([] @ concat (map encode_item its)) s"
    using assms count by (simp add: seq_has_def)
  ultimately show ?thesis
    using sgr_loop_items [of "[]" its s T t] assms(5) count by (simp add: applySGR_def)
qed

text \<open>
  C40. A rendition sequence does what its parameters say. For every parameter string that reads as
  a list of items (attributes, underline styles, and indexed or RGB colours, separated by
  semicolons or colons), at most sixteen parameters long, the bytes from \<open>ESC [\<close> to the final \<open>m\<close> are
  delivered to the handler as one sequence, and \<open>applySGR\<close> on it has the effect of the items, in
  order, on every target.
\<close>

theorem sgr_end_to_end:
  assumes unicode: "scan_contract U"
    and ground: "state p = Ground" "builder_inv H Outside (listener p)"
    and handler: "writeTextEnd H (sb_handler (listener p)) = Inr h"
    and cs: "csi_ok 0 cs 0 0x6D" "read_params cs = concat (map encode_item its)"
    and its: "its \<noteq> []" "\<forall>it \<in> set its. item_ok it" "length (concat (map encode_item its)) \<le> 16"
  shows "\<exists>sq cur sc. parseFragment U (sequence_listener H) ([0x1B, 0x5B] @ cs @ [0x6D]) p =
         Some (bind_result (processSequence H sq h)
           (\<lambda>r. Inr (p\<lparr>listener := handled sq cur (listener p) r, scanState := sc\<rparr>)))
     \<and> (\<forall>(T :: ('t, 'm) SgrTarget_scheme) t.
           applySGR T sq 0 (parameterCount sq) t = Inr (fold (item_effect T) its t))"
proof -
  have len: "length (par_values (seq_parameters (sb_sequence (listener p)))) = 16"
    using ground(2) by (simp add: builder_inv_def parameters_ok_def parameterBuilder_def)
  have "length (read_params cs) \<le> 16" using cs(2) its(3) by simp
  from csi_parse [OF unicode ground(1) len cs(1) this handler]
  obtain q cur sc where q: "params_are (read_params cs) q" "length (par_values q) = 16"
    and parse: "parseFragment U (sequence_listener H) ([0x1B, 0x5B] @ csi_tail 0 cs 0 0x6D) p =
       Some (bind_result (processSequence H (csi_sequence 0 q 0 0x6D) h)
         (\<lambda>r. Inr (p\<lparr>listener := handled (csi_sequence 0 q 0 0x6D) cur (listener p) r, scanState := sc\<rparr>)))"
    by blast
  let ?sq = "csi_sequence 0 q 0 0x6D"
  have "seq_parameters ?sq = q" by (simp add: csi_sequence_def)
  then have "applySGR T ?sq 0 (parameterCount ?sq) t = Inr (fold (item_effect T) its t)"
    for T :: "('t, 'm) SgrTarget_scheme" and t
    using q cs(2) its by (intro applySGR_items) simp_all
  moreover have "csi_tail 0 cs 0 0x6D = cs @ [0x6D]" by (simp add: csi_tail_def opt_byte_def)
  ultimately show ?thesis using parse by (intro exI [of _ ?sq] exI [of _ cur] exI [of _ sc]) simp
qed
theorem sgr_end_to_end_witness:
  "\<exists>sq cur sc. parseFragment ascii_lib (sequence_listener log_handler)
       ([0x1B, 0x5B] @ [0x31, 0x3B, 0x33, 0x38, 0x3A, 0x35, 0x3A, 0x39] @ [0x6D])
       (new_parser () (newSequenceBuilder [])) =
     Some (bind_result (processSequence log_handler sq [])
       (\<lambda>r. Inr ((new_parser () (newSequenceBuilder []))\<lparr>listener :=
          handled sq cur (listener (new_parser () (newSequenceBuilder []))) r, scanState := sc\<rparr>)))
   \<and> (\<forall>(T :: ('t, 'm) SgrTarget_scheme) t. applySGR T sq 0 (parameterCount sq) t
       = Inr (setForegroundColor T (color_of_indexed 9) (setGraphicsRendition T GR_Bold t)))"
proof -
  let ?cs = "[0x31, 0x3B, 0x33, 0x38, 0x3A, 0x35, 0x3A, 0x39]"
  let ?its = "[Attribute 1, ColorItem ForegroundSlot Colons (IndexedValue 9)]"
  let ?p = "new_parser () (newSequenceBuilder []) :: (unit, (Sequence list, unit) SequenceBuilder) Parser"
  have p: "state ?p = Ground" "builder_inv log_handler Outside (listener ?p)"
      "writeTextEnd log_handler (sb_handler (listener ?p)) = Inr []"
    by (simp_all add: fresh_simps new_builder_inv)
  have cs: "csi_ok 0 ?cs 0 0x6D" by (simp add: csi_ok_def is_param_char_def is_digit_def)
  have read: "read_params ?cs = concat (map encode_item ?its)"
    by (simp add: read_params_def param_step_def is_digit_def wrap16_def)
  have its: "?its \<noteq> []" "\<forall>it \<in> set ?its. item_ok it" "length (concat (map encode_item ?its)) \<le> 16"
    by simp_all
  have effect: "fold (item_effect T) ?its t
      = setForegroundColor T (color_of_indexed 9) (setGraphicsRendition T GR_Bold t)"
    for T :: "('t, 'm) SgrTarget_scheme" and t
    by (simp add: sgr_table_def)
  show ?thesis using sgr_end_to_end [where ?'t = 't and ?'m = 'm, OF ascii_contract p cs read its] unfolding effect .
qed

text \<open>
  The older syntax does not check the colour index: the index of \<open>38;5;v\<close> is cut to eight bits,
  because the range test is on the parameter's position. With colons, an index above 255 falls
  through to the same code.
\<close>

theorem sgr_index_truncated:
  assumes "seq_has (pre @ [(False, code), (sub, 5), (sub, v)] @ post) s" "starts_item post" "255 < v"
  shows "parseColor_seq s (length pre) = Inr (color_of_indexed (word_of_nat v), length pre + 2)"
proof -
  have has: "seq_has (pre @ [(False, code), (sub, 5), (sub, v)] @ post) s" using assms(1) .
  have count: "parameterCount s = length pre + 3 + length post" "length pre + 3 \<le> 16"
    using assms(1) by (simp_all add: seq_has_def)
  have "seq_has (pre @ (False, code) # [(sub, 5), (sub, v)] @ post) s" using assms(1) by simp
  note subs = seq_has_subs [OF this assms(2)]
  show ?thesis
    using seq_has_at [OF has, of 1] seq_has_at [OF has, of 2] count subs assms(3) takeWhile_post [OF assms(2)]
    by (cases sub) (simp_all add: parseColor_seq_def sub_color_def subparam_def Let_def)
qed

definition example_params :: "nat list \<Rightarrow> Sequence" where
  "example_params vs = csi_sequence 0
    \<lparr>par_values = vs @ replicate (16 - length vs) 0, par_subParameterTest = 0, par_count = length vs\<rparr> 0 0x6D"

lemma example_params_has:
  assumes "length vs \<le> 16" "vs \<noteq> [0]"
  shows "seq_has (map (Pair False) vs) (example_params vs)"
proof -
  have "map (Pair False) vs \<noteq> [(False, 0)]" using assms(2) by (cases vs) auto
  with assms(1) show ?thesis
    by (auto simp: seq_has_def params_are_def example_params_def csi_sequence_def parameterCount_def
        isSubParameter_def nth_append)
qed

theorem sgr_index_truncated_witness:
  "parseColor_seq (example_params [38, 5, 300]) 0 = Inr (color_of_indexed 44, 2)"
proof -
  have "seq_has ([] @ [(False, 38), (False, 5), (False, 300)] @ []) (example_params [38, 5, 300])"
    using example_params_has [of "[38, 5, 300]"] by simp
  from sgr_index_truncated [OF this]
  have "parseColor_seq (example_params [38, 5, 300]) 0 = Inr (color_of_indexed (word_of_nat 300), 2)"
    by (simp add: starts_item_def)
  moreover have "word_of_nat 300 = (44 :: u8)" by simp
  ultimately show ?thesis by (simp only:)
qed

text \<open>
  A colour with an unknown kind is not skipped alone: besides the kind, the parameter after it
  is dropped, and the colour becomes undefined. An indexed colour written with colons but without
  its index, as the last parameter, reads past the parameters and fails the assertion there.
\<close>

theorem sgr_invalid_color:
  assumes "seq_has (pre @ [(False, code), (False, kind), (False, v)] @ post) s" "starts_item post"
    and "kind \<noteq> 2" "kind \<noteq> 5"
    and "seq_has (pre' @ [(False, code'), (True, 5)]) s'"
  shows "parseColor_seq s (length pre) = Inr (UndefinedColor, length pre + 2) \<and>
    parseColor_seq s' (length pre') = Inl AssertionFailed"
proof
  have has: "seq_has (pre @ [(False, code), (False, kind), (False, v)] @ post) s" using assms(1) .
  have count: "parameterCount s = length pre + 3 + length post" "length pre + 3 \<le> 16"
    using assms(1) by (simp_all add: seq_has_def)
  have "seq_has (pre @ (False, code) # [(False, kind), (False, v)] @ post) s" using assms(1) by simp
  note subs = seq_has_subs [OF this assms(2)]
  show "parseColor_seq s (length pre) = Inr (UndefinedColor, length pre + 2)"
    using seq_has_at [OF has, of 1] count subs assms(3,4) newColor_undefined
    by (simp add: parseColor_seq_def sub_color_def subparam_def Let_def)
next
  have has: "seq_has (pre' @ [(False, code'), (True, 5)] @ []) s'" using assms(5) by simp
  have count: "par_count (seq_parameters s') = length pre' + 2"
    using assms(5) by (simp add: seq_has_def parameterCount_def)
  have "seq_has (pre' @ (False, code') # [(True, 5)] @ []) s'" using assms(5) by simp
  note subs = seq_has_subs [OF this]
  show "parseColor_seq s' (length pre') = Inl AssertionFailed"
    using seq_has_at [OF has, of 1] count subs
    by (simp add: parseColor_seq_def sub_color_def subparam_def Let_def starts_item_def param_def)
qed

theorem sgr_invalid_color_witness:
  "\<exists>s'. parseColor_seq (example_params [38, 9, 1]) 0 = Inr (UndefinedColor, 2) \<and>
    parseColor_seq s' 0 = Inl AssertionFailed"
proof -
  let ?s' = "csi_sequence 0
    \<lparr>par_values = [38, 5] @ replicate 14 0, par_subParameterTest = 2, par_count = 2\<rparr> 0 0x6D"
  have s: "seq_has ([] @ [(False, 38), (False, 9), (False, 1)] @ []) (example_params [38, 9, 1])"
    using example_params_has [of "[38, 9, 1]"] by simp
  have s': "seq_has ([] @ [(False, 38), (True, 5)]) ?s'"
    by (auto simp: seq_has_def params_are_def csi_sequence_def parameterCount_def isSubParameter_def
        nth_Cons' bit_2_iff)
  have "parseColor_seq (example_params [38, 9, 1]) 0 = Inr (UndefinedColor, 2) \<and>
      parseColor_seq ?s' 0 = Inl AssertionFailed"
    using sgr_invalid_color [OF s _ _ _ s'] by (simp add: starts_item_def)
  then show ?thesis by blast
qed

end
