(* ===== verification/VT_ScreenApply.thy ===== *)
theory VT_ScreenApply
  imports VT_ScreenText VT_SGR
begin

text \<open>
  Control functions on the screen: \<open>Screen::apply\<close> for the functions that work on the grid, the
  cursor, the margins and the tab stops, in the order of the code, with their parameters read from the
  sequence. The result is \<open>None\<close> for the functions that are carried out by the terminal: modes,
  colours, reports, titles, the status line and hooks. The table of functions is that of
  \<open>VT_Functions\<close>. After a function was applied, the state is verified.
\<close>

subsection \<open>Results and parameters\<close>

datatype ApplyResult = Apply_Ok | Apply_Invalid | Apply_Unsupported

type_synonym 'c applied = "(ApplyResult \<times> 'c Screen) result option"

definition is_fn :: "Function \<Rightarrow> Function \<Rightarrow> bool" where
  "is_fn f g \<longleftrightarrow> function_id f = function_id g"

definition done_with :: "'c Screen \<Rightarrow> 'c applied" where
  "done_with s = Some (Inr (Apply_Ok, s))"

definition done_by :: "'c Screen result \<Rightarrow> 'c applied" where
  "done_by r = Some (bind_result r (\<lambda>s. Inr (Apply_Ok, s)))"

definition count_param :: "Sequence \<Rightarrow> (nat \<Rightarrow> 'c Screen result) \<Rightarrow> 'c applied" where
  "count_param sq f = done_by (bind_result (param_or sq 0 1) f)"

definition int_param_or :: "Sequence \<Rightarrow> nat \<Rightarrow> int \<Rightarrow> int result" where
  "int_param_or sq i d =
    bind_result (param_opt sq i) (\<lambda>v. Inr (case v of Some x \<Rightarrow> int x | None \<Rightarrow> d))"

definition decr :: "nat option \<Rightarrow> int option" where
  "decr v = (case v of Some n \<Rightarrow> Some (int n - 1) | None \<Rightarrow> None)"

subsection \<open>The functions, in the order of the code\<close>

definition apply_c0_esc ::
  "'c CellOps \<Rightarrow> ('d, 'm) TextLib_scheme \<Rightarrow> Function \<Rightarrow> 'c Screen \<Rightarrow> 'c applied" where
  "apply_c0_esc K T f s =
    (if is_fn f BS then done_with (backspace s)
     else if is_fn f TAB then done_with (moveCursorToNextTab s)
     else if is_fn f LF then done_by (linefeed K T s)
     else if is_fn f VT \<or> is_fn f FF then done_by (index K T s)
     else if is_fn f CR then done_with (setCurrentColumn 0 s)
     else if is_fn f SCS_G0_SPECIAL then done_with (designateCharset G0 Special s)
     else if is_fn f SCS_G0_USASCII then done_with (designateCharset G0 USASCII s)
     else if is_fn f SCS_G1_SPECIAL then done_with (designateCharset G1 Special s)
     else if is_fn f SCS_G1_USASCII then done_with (designateCharset G1 USASCII s)
     else if is_fn f DECALN then done_by (screenAlignmentPattern K T s)
     else if is_fn f DECBI then done_with (backIndex s)
     else if is_fn f DECFI then done_by (forwardIndex K T s)
     else if is_fn f DECRS then done_by (restoreCursor s)
     else if is_fn f DECSC then done_with (saveCursor s)
     else if is_fn f HTS then done_with (setTabUnderCursor s)
     else if is_fn f IND then done_by (index K T s)
     else if is_fn f NEL then done_by (moveCursorToNextLine 1 s)
     else if is_fn f RI then done_by (reverseIndex K T s)
     else if is_fn f SS2 then done_with (singleShiftSelect G2 s)
     else if is_fn f SS3 then done_with (singleShiftSelect G3 s)
     else None)"

definition apply_csi_cursor ::
  "'c CellOps \<Rightarrow> ('d, 'm) TextLib_scheme \<Rightarrow> Function \<Rightarrow> Sequence \<Rightarrow> 'c Screen \<Rightarrow> 'c applied" where
  "apply_csi_cursor K T f sq s =
    (if is_fn f ANSISYSSC then done_by (restoreCursor s)
     else if is_fn f CBT then count_param sq (\<lambda>n. Inr (cursorBackwardTab n s))
     else if is_fn f CHA then count_param sq (\<lambda>n. Inr (setCurrentColumn (int n - 1) s))
     else if is_fn f CHT then count_param sq (\<lambda>n. Inr (cursorForwardTab n s))
     else if is_fn f CNL then count_param sq (\<lambda>n. moveCursorToNextLine (int n) s)
     else if is_fn f CPL then count_param sq (\<lambda>n. moveCursorToPrevLine (int n) s)
     else if is_fn f CUB then count_param sq (\<lambda>n. Inr (moveCursorBackward (int n) s))
     else if is_fn f CUD then count_param sq (\<lambda>n. moveCursorDown (int n) s)
     else if is_fn f CUF then count_param sq (\<lambda>n. Inr (moveCursorForward (int n) s))
     else if is_fn f CUP
     then count_param sq (\<lambda>y. bind_result (param_or sq 1 1) (\<lambda>x. moveCursorTo (int y - 1) (int x - 1) s))
     else if is_fn f CUU then count_param sq (\<lambda>n. moveCursorUp (int n) s)
     else if is_fn f DCH then count_param sq (\<lambda>n. deleteCharacters K T (int n) s)
     else None)"

text \<open>The corner of an area: the parameters at \<open>i\<close> and \<open>i + 1\<close>, from one, or the origin.\<close>

definition corner_param :: "Sequence \<Rightarrow> nat \<Rightarrow> 'c Screen \<Rightarrow> CellLocation result" where
  "corner_param sq i s =
    bind_result (int_param_or sq i (cl_line (origin s) + 1)) (\<lambda>y.
    bind_result (int_param_or sq (i + 1) (cl_column (origin s) + 1)) (\<lambda>x.
      Inr \<lparr>cl_line = y - 1, cl_column = x - 1\<rparr>))"

definition area_to :: "CellLocation \<Rightarrow> int \<Rightarrow> int \<Rightarrow> Rect" where
  "area_to p bottom right = \<lparr>rc_top = cl_line p, rc_left = cl_column p, rc_bottom = bottom, rc_right = right\<rparr>"

definition applySGR_area ::
  "'c CellOps \<Rightarrow> ('d, 'm) TextLib_scheme \<Rightarrow> ('c, 'n) SgrTarget_scheme \<Rightarrow> Sequence \<Rightarrow> Rect \<Rightarrow> 'c Screen
    \<Rightarrow> 'c Screen result" where
  "applySGR_area K T C sq area s =
    fold_result (\<lambda>row. fold_result (\<lambda>column. on_line row (change_cell K T column (applySGR C sq 4 (parameterCount sq))))
      [rc_left area..rc_right area]) [rc_top area..rc_bottom area] s"

definition apply_csi_area ::
  "'c CellOps \<Rightarrow> ('d, 'm) TextLib_scheme \<Rightarrow> ('c, 'n) SgrTarget_scheme \<Rightarrow> Function \<Rightarrow> Sequence \<Rightarrow> 'c Screen \<Rightarrow> 'c applied" where
  "apply_csi_area K T C f sq s =
    (let rows = int (screen_lines s); columns = int (screen_columns s) in
     if is_fn f DECCARA
     then done_by (
       bind_result (corner_param sq 0 s) (\<lambda>p.
       bind_result (int_param_or sq 2 rows) (\<lambda>bottom.
       bind_result (int_param_or sq 3 columns) (\<lambda>right.
         applySGR_area K T C sq (area_to p (bottom - 1) (right - 1)) s))))
     else if is_fn f DECCRA
     then done_by (
       bind_result (corner_param sq 0 s) (\<lambda>p.
       bind_result (int_param_or sq 2 rows) (\<lambda>bottom.
       bind_result (int_param_or sq 3 columns) (\<lambda>right.
       bind_result (corner_param sq 5 s) (\<lambda>target.
         copyArea K T (area_to p (bottom - 1) (right - 1)) target s)))))
     else if is_fn f DECERA
     then done_by (
       bind_result (corner_param sq 0 s) (\<lambda>p.
       bind_result (int_param_or sq 2 rows) (\<lambda>bottom.
       bind_result (int_param_or sq 3 columns) (\<lambda>right.
         eraseArea K T (area_to p (min bottom rows - 1) (min right columns - 1)) s))))
     else if is_fn f DECFRA
     then done_by (
       bind_result (param_or sq 0 0) (\<lambda>ch.
       bind_result (int_param_or sq 1 (cl_line (origin s))) (\<lambda>y.
       bind_result (int_param_or sq 2 (cl_column (origin s))) (\<lambda>x.
       bind_result (int_param_or sq 3 rows) (\<lambda>bottom.
       bind_result (int_param_or sq 4 columns) (\<lambda>right.
         fillArea K T ch (area_to \<lparr>cl_line = max 0 (y - 1), cl_column = max 0 (x - 1)\<rparr>
           (min bottom rows - 1) (min right columns - 1)) s))))))
     else None)"

definition set_protected :: "bool \<Rightarrow> 'c Screen \<Rightarrow> 'c Screen" where
  "set_protected b s =
    s\<lparr>scr_cursor := (scr_cursor s)\<lparr>cu_graphicsRendition := (rendition s)\<lparr>ga_flags :=
      (if b then ga_flags (rendition s) OR flag CF_CharacterProtected
       else ga_flags (rendition s) AND NOT (flag CF_CharacterProtected))\<rparr>\<rparr>\<rparr>"

definition mode_param ::
  "Sequence \<Rightarrow> ApplyResult \<Rightarrow> 'c Screen \<Rightarrow> (nat \<Rightarrow> 'c Screen result option) \<Rightarrow> 'c applied" where
  "mode_param sq unknown s f =
    Some (bind_result (param_or sq 0 0) (\<lambda>n.
      case f n of Some r \<Rightarrow> bind_result r (\<lambda>s. Inr (Apply_Ok, s)) | None \<Rightarrow> Inr (unknown, s)))"

definition apply_csi_select ::
  "'c CellOps \<Rightarrow> ('d, 'm) TextLib_scheme \<Rightarrow> Function \<Rightarrow> Sequence \<Rightarrow> 'c Screen \<Rightarrow> 'c applied" where
  "apply_csi_select K T f sq s =
    (if is_fn f DECDC then count_param sq (\<lambda>n. deleteColumns K T (int n) s)
     else if is_fn f DECIC then count_param sq (\<lambda>n. insertColumns K T (int n) s)
     else if is_fn f DECSCA
     then mode_param sq Apply_Invalid s (\<lambda>pc.
       if pc = 1 then Some (Inr (set_protected True s))
       else if pc = 0 \<or> pc = 2 then Some (Inr (set_protected False s)) else None)
     else if is_fn f DECSED
     then mode_param sq Apply_Unsupported s (\<lambda>n.
       if n = 0 then Some (selectiveEraseToEndOfScreen K T s)
       else if n = 1 then Some (selectiveEraseToBeginOfScreen K T s)
       else if n = 2 then Some (selectiveEraseScreen K T s) else None)
     else if is_fn f DECSERA
     then done_by (
       bind_result (int_param_or sq 0 1) (\<lambda>y.
       bind_result (int_param_or sq 1 1) (\<lambda>x.
       bind_result (int_param_or sq 2 (int (screen_lines s))) (\<lambda>bottom.
       bind_result (int_param_or sq 3 (int (screen_columns s))) (\<lambda>right.
         selectiveEraseArea K T (area_to \<lparr>cl_line = y - 1, cl_column = x - 1\<rparr> (bottom - 1) (right - 1)) s)))))
     else if is_fn f DECSEL
     then mode_param sq Apply_Invalid s (\<lambda>n.
       if n = 0 then Some (selectiveEraseToEndOfLine K T s)
       else if n = 1 then Some (selectiveEraseToBeginOfLine K T s)
       else if n = 2 then Some (selectiveEraseLine K T (cursor_line s) s) else None)
     else None)"

definition apply_csi_margin :: "Function \<Rightarrow> Sequence \<Rightarrow> 'c Screen \<Rightarrow> 'c applied" where
  "apply_csi_margin f sq s =
    (if is_fn f DECSLRM
     then
       if \<not> tm_leftRightMargin s then Some (Inr (Apply_Invalid, s))
       else done_by (
         bind_result (param_opt sq 0) (\<lambda>l.
         bind_result (param_opt sq 1) (\<lambda>r. moveCursorTo 0 0 (setLeftRightMargin (decr l) (decr r) s))))
     else if is_fn f DECSTBM
     then done_by (
       bind_result (param_opt sq 0) (\<lambda>t.
       bind_result (param_opt sq 1) (\<lambda>b. moveCursorTo 0 0 (setTopBottomMargin (decr t) (decr b) s))))
     else None)"

text \<open>\<open>ED\<close> takes its parameters one after another, up to the first unknown one.\<close>

fun ED_params ::
  "'c CellOps \<Rightarrow> ('d, 'm) TextLib_scheme \<Rightarrow> Sequence \<Rightarrow> nat list \<Rightarrow> 'c Screen \<Rightarrow> (ApplyResult \<times> 'c Screen) result" where
  "ED_params K T sq [] s = Inr (Apply_Ok, s)"
| "ED_params K T sq (i # is) s =
    bind_result (param sq i) (\<lambda>n.
      if n = 0 then bind_result (clearToEndOfScreen K T s) (ED_params K T sq is)
      else if n = 1 then bind_result (clearToBeginOfScreen K T s) (ED_params K T sq is)
      else if n = 2 then bind_result (clearScreen K T s) (ED_params K T sq is)
      else if n = 3
      then bind_result (clearHistory (scr_grid s)) (\<lambda>g. ED_params K T sq is (set_grid g s))
      else Inr (Apply_Invalid, s))"

text \<open>\<open>REP\<close>: the difference of columns is cast to an unsigned type, so that it is huge if negative.\<close>

definition repeat_char ::
  "'c CellOps \<Rightarrow> ('d, 'm) TextLib_scheme \<Rightarrow> nat \<Rightarrow> 'c Screen \<Rightarrow> 'c Screen result" where
  "repeat_char K T requestedCount s =
    (let n = mg_right (scr_margin s) - cursor_column s;
         effectiveCount = (if n < 0 then requestedCount else min requestedCount (nat n))
     in fold_result (\<lambda>i. writeTextInternal K T (tm_precedingGraphicCharacter s)) [0..<effectiveCount] s)"

definition impl_EL :: "'c CellOps \<Rightarrow> ('d, 'm) TextLib_scheme \<Rightarrow> Sequence \<Rightarrow> 'c Screen \<Rightarrow> 'c applied" where
  "impl_EL K T sq s =
    mode_param sq Apply_Invalid s (\<lambda>n.
      if n = 0 then Some (clearToEndOfLine K T s)
      else if n = 1 then Some (clearToBeginOfLine K T s)
      else if n = 2 then Some (clearLine s)
      else None)"

definition impl_TBC :: "Sequence \<Rightarrow> 'c Screen \<Rightarrow> 'c applied" where
  "impl_TBC sq s =
    (if parameterCount sq \<noteq> 1 then done_with (horizontalTabClear UnderCursor s)
     else mode_param sq Apply_Invalid s (\<lambda>n.
       if n = 0 then Some (Inr (horizontalTabClear UnderCursor s))
       else if n = 3 then Some (Inr (horizontalTabClear AllTabs s))
       else None))"

definition apply_csi_edit ::
  "'c CellOps \<Rightarrow> ('d, 'm) TextLib_scheme \<Rightarrow> Function \<Rightarrow> Sequence \<Rightarrow> 'c Screen \<Rightarrow> 'c applied" where
  "apply_csi_edit K T f sq s =
    (if is_fn f DL then count_param sq (\<lambda>n. deleteLines K T n s)
     else if is_fn f ECH then count_param sq (\<lambda>n. eraseCharacters K T (int n) s)
     else if is_fn f ED
     then
       if parameterCount sq = 0 then done_by (clearToEndOfScreen K T s)
       else Some (ED_params K T sq [0..<parameterCount sq] s)
     else if is_fn f EL
     then impl_EL K T sq s
     else if is_fn f HPA then done_by (bind_result (param sq 0) (\<lambda>n. Inr (setCurrentColumn (int n - 1) s)))
     else if is_fn f HPR then done_by (bind_result (param sq 0) (\<lambda>n. Inr (moveCursorForward (int n) s)))
     else if is_fn f HVP
     then count_param sq (\<lambda>y. bind_result (param_or sq 1 1) (\<lambda>x. moveCursorTo (int y - 1) (int x - 1) s))
     else if is_fn f ICH then count_param sq (\<lambda>n. insertCharacters K T (int n) s)
     else if is_fn f IL then count_param sq (\<lambda>n. insertLines K T n s)
     else if is_fn f REP
     then done_by (if tm_precedingGraphicCharacter s = 0 then Inr s
       else bind_result (param sq 0) (\<lambda>n. repeat_char K T n s))
     else None)"

definition apply_csi_last ::
  "'c CellOps \<Rightarrow> ('d, 'm) TextLib_scheme \<Rightarrow> Function \<Rightarrow> Sequence \<Rightarrow> 'c Screen \<Rightarrow> 'c applied" where
  "apply_csi_last K T f sq s =
    (if is_fn f SCOSC then done_with (saveCursor s)
     else if is_fn f SD then count_param sq (\<lambda>n. scr_scrollDown K T n (scr_margin s) s)
     else if is_fn f SETMARK then done_by (setMark s)
     else if is_fn f SGR
     then done_by (bind_result (applySGR screen_target sq 0 (parameterCount sq) (rendition s)) (\<lambda>a.
       Inr (s\<lparr>scr_cursor := (scr_cursor s)\<lparr>cu_graphicsRendition := a\<rparr>\<rparr>)))
     else if is_fn f SGRRESTORE then done_with (restoreGraphicsRendition s)
     else if is_fn f SGRSAVE then done_with (saveGraphicsRendition s)
     else if is_fn f SU then count_param sq (\<lambda>n. scr_scrollUp K T n (rendition s) (scr_margin s) s)
     else if is_fn f TBC then impl_TBC sq s
     else if is_fn f VPA then count_param sq (\<lambda>n. moveCursorToLine (int n - 1) s)
     else None)"

definition or_else :: "'a option \<Rightarrow> 'a option \<Rightarrow> 'a option" where
  "or_else x y = (case x of Some a \<Rightarrow> Some a | None \<Rightarrow> y)"

definition apply_function ::
  "'c CellOps \<Rightarrow> ('d, 'm) TextLib_scheme \<Rightarrow> ('c, 'n) SgrTarget_scheme \<Rightarrow> Function \<Rightarrow> Sequence \<Rightarrow> 'c Screen \<Rightarrow> 'c applied" where
  "apply_function K T C f sq s =
    or_else (apply_c0_esc K T f s)
    (or_else (apply_csi_cursor K T f sq s)
    (or_else (apply_csi_area K T C f sq s)
    (or_else (apply_csi_select K T f sq s)
    (or_else (apply_csi_margin f sq s)
    (or_else (apply_csi_edit K T f sq s)
      (apply_csi_last K T f sq s))))))"

text \<open>
  The checks of \<open>Terminal::verifyState\<close> on the current screen and its margins. Its checks on the mouse
  position, the status lines and the tab stops are left out.
\<close>

definition terminal_verifyState :: "'c Screen \<Rightarrow> 'c Screen result" where
  "terminal_verifyState s =
    bind_result (screen_verifyState s) (\<lambda>s.
    bind_result (require (0 \<le> mg_left (scr_margin s) \<and> mg_right (scr_margin s) < int (screen_columns s)) s) (\<lambda>s.
      require (0 \<le> mg_top (scr_margin s) \<and> mg_bottom (scr_margin s) < int (screen_lines s)) s))"

lemma terminal_verifyState_ok: "screen_ok s \<Longrightarrow> terminal_verifyState s = Inr s"
  using screen_okD(3) [of s] by (simp add: terminal_verifyState_def screen_verifyState_ok require_def margin_ok_def)

text \<open>
  \<open>processSequence\<close>: the function is looked up, an unknown one is ignored, and after a function was
  applied the state is verified.
\<close>

definition processSequence_screen ::
  "'c CellOps \<Rightarrow> ('d, 'm) TextLib_scheme \<Rightarrow> ('c, 'n) SgrTarget_scheme \<Rightarrow> Function list \<Rightarrow> Sequence \<Rightarrow> 'c Screen \<Rightarrow> 'c applied" where
  "processSequence_screen K T C active sq s =
    (case functionDefinition sq active of
       Inl e \<Rightarrow> Some (Inl e)
     | Inr None \<Rightarrow> Some (Inr (Apply_Ok, s))
     | Inr (Some f) \<Rightarrow>
         (case apply_function K T C f sq s of
            Some (Inr (Apply_Ok, s)) \<Rightarrow> Some (bind_result (terminal_verifyState s) (\<lambda>s. Inr (Apply_Ok, s)))
          | r \<Rightarrow> r))"

subsection \<open>The invariant\<close>

lemmas applied_defs = done_with_def done_by_def count_param_def mode_param_def bind_result_eq_Inr

lemma done_with_eq: "done_with s = Some (Inr (r, s')) \<longleftrightarrow> r = Apply_Ok \<and> s' = s"
  by (auto simp: done_with_def)

lemma done_by_eq: "done_by x = Some (Inr (r, s')) \<longleftrightarrow> r = Apply_Ok \<and> x = Inr s'"
  by (auto simp: done_by_def bind_result_eq_Inr)

lemma mode_param_eq:
  "mode_param sq u s f = Some (Inr (r, s')) \<longleftrightarrow>
    (\<exists>n. param_or sq 0 0 = Inr n \<and> (case f n of Some x \<Rightarrow> r = Apply_Ok \<and> x = Inr s' | None \<Rightarrow> r = u \<and> s' = s))"
  by (auto simp: mode_param_def bind_result_eq_Inr split: option.splits)

text \<open>
  The calls that can leave the page: a line feed in the last line below the margin, and column zero
  for \<open>CHA\<close> and \<open>HPA\<close>, which they do not clamp; no sequence has it, since the builder counts a single
  zero as no parameter. \<open>REP\<close> writes text, which is treated with the text.
\<close>

definition stays_in_page :: "Function \<Rightarrow> Sequence \<Rightarrow> 'c Screen \<Rightarrow> bool" where
  "stays_in_page f sq s \<longleftrightarrow> \<not> is_fn f REP \<and> (is_fn f LF \<longrightarrow> can_feed s) \<and>
    (is_fn f CHA \<or> is_fn f HPA \<longrightarrow> param_or sq 0 1 \<noteq> Inr 0)"

lemma apply_c0_esc_keeps:
  assumes "apply_c0_esc K T f s = Some (Inr (r, s'))" "screen_ok s" "is_fn f LF \<longrightarrow> can_feed s"
  shows "screen_ok s'"
  using assms
  by (auto simp: apply_c0_esc_def done_with_eq done_by_eq moveCursorToNextLine_def
      split: if_split_asm
      intro: backspace_keeps moveCursorToNextTab_keeps setCurrentColumn_keeps saves_keeps backIndex_keeps tabs_keeps
      dest: linefeed_keeps index_keeps screenAlignmentPattern_keeps forwardIndex_keeps restoreCursor_keeps
        moveCursorTo_keeps [OF _ ok_shape] reverseIndex_keeps)

lemma apply_csi_cursor_keeps:
  assumes "apply_csi_cursor K T f sq s = Some (Inr (r, s'))" "screen_ok s"
    and "is_fn f CHA \<longrightarrow> param_or sq 0 1 \<noteq> Inr 0"
  shows "screen_ok s'"
  using assms redrawn_ok [OF edits_redrawn(3) [OF screen_okD(1) [OF assms(2)]]]
  by (auto simp: apply_csi_cursor_def done_by_eq count_param_def bind_result_eq_Inr moveCursorToNextLine_def
      moveCursorToPrevLine_def moveCursorDown_def moveCursorUp_def Let_def
      split: if_split_asm
      intro: cursorBackwardTab_keeps cursorForwardTab_keeps setCurrentColumn_keeps moveCursorBackward_keeps moveCursorForward_keeps
      dest: restoreCursor_keeps moveCursorTo_keeps [OF _ ok_shape] moveCursorVertically_keeps)

lemma applySGR_area_redrawn:
  "applySGR_area K T C sq area s = Inr s' \<Longrightarrow> grid_ok (scr_grid s) \<Longrightarrow> redrawn s s'"
  unfolding applySGR_area_def
  by (erule (1) redrawn_fold, erule (1) redrawn_fold) (blast intro: on_line_redrawn change_cell_fits)

lemma apply_csi_area_keeps:
  assumes "apply_csi_area K T C f sq s = Some (Inr (r, s'))" "screen_ok s"
  shows "screen_ok s'"
proof -
  note ok = screen_okD(1) [OF assms(2)]
  show ?thesis
    using assms redrawn_ok [OF applySGR_area_redrawn [OF _ ok]] redrawn_ok [OF copyArea_redrawn [OF _ ok]]
      redrawn_ok [OF areas_redrawn(2) [OF ok]] redrawn_ok [OF areas_redrawn(3) [OF ok]]
    by (auto simp: apply_csi_area_def Let_def done_by_eq bind_result_eq_Inr split: if_split_asm)
qed

lemma set_protected_keeps: "screen_ok s \<Longrightarrow> screen_ok (set_protected b s)"
  unfolding set_protected_def by (erule cursor_fields_keeps) simp

lemma apply_csi_select_keeps:
  assumes "apply_csi_select K T f sq s = Some (Inr (r, s'))" "screen_ok s"
  shows "screen_ok s'"
proof -
  note ok = screen_okD(1) [OF assms(2)]
  note red = edits_redrawn(2) [OF ok] edits_redrawn(4) [OF ok] areas_redrawn(1) [OF ok]
    selectiveEraseToEndOfScreen_redrawn [OF _ assms(2)] selectiveEraseToBeginOfScreen_redrawn [OF _ ok]
    selectiveEraseScreen_redrawn [OF _ ok] selectiveEraseToEndOfLine_redrawn [OF _ assms(2)]
    selectiveEraseToBeginOfLine_redrawn [OF _ ok] selectiveEraseLine_redrawn [OF _ ok]
  show ?thesis
    using assms red [THEN redrawn_ok] set_protected_keeps [OF assms(2)]
    by (auto simp: apply_csi_select_def done_by_eq mode_param_eq count_param_def bind_result_eq_Inr
        split: if_split_asm option.splits)
qed

lemma apply_csi_margin_keeps:
  assumes "apply_csi_margin f sq s = Some (Inr (r, s'))" "screen_ok s"
  shows "screen_ok s'"
  using assms
  by (auto simp: apply_csi_margin_def done_by_eq bind_result_eq_Inr split: if_split_asm
      dest!: moveCursorTo_keeps [OF _ ok_shape [OF margins_keeps(1)]] moveCursorTo_keeps [OF _ ok_shape [OF margins_keeps(2)]])

lemma clearHistory_keeps:
  assumes "clearHistory (scr_grid s) = Inr g" "screen_ok s"
  shows "screen_ok (set_grid g s)"
proof -
  have "keeps (scr_grid s) g"
    by (rule grid_step_keeps [where a = ClearHistory, OF _ screen_okD(1,2) [OF assms(2)]]) (use assms(1) in simp_all)
  moreover have "rg_zero (gr_lines g) = rg_zero (gr_lines (scr_grid s))"
    using assms(1) by (auto simp: clearHistory_def require_def split: if_splits)
  ultimately have "redrawn s (set_grid g s)" by (simp add: redrawn_def redraws_def set_grid_def)
  then show ?thesis using assms(2) by (rule redrawn_ok)
qed

lemma ED_params_keeps: "ED_params K T sq is s = Inr (r, s') \<Longrightarrow> screen_ok s \<Longrightarrow> screen_ok s'"
proof (induction "is" arbitrary: s)
  case (Cons i "is")
  note ok = Cons.prems(2)
  from Cons.prems(1) obtain n where n: "param sq i = Inr n"
      "(if n = 0 then bind_result (clearToEndOfScreen K T s) (ED_params K T sq is)
        else if n = 1 then bind_result (clearToBeginOfScreen K T s) (ED_params K T sq is)
        else if n = 2 then bind_result (clearScreen K T s) (ED_params K T sq is)
        else if n = 3 then bind_result (clearHistory (scr_grid s)) (\<lambda>g. ED_params K T sq is (set_grid g s))
        else Inr (Apply_Invalid, s)) = Inr (r, s')"
    unfolding ED_params.simps bind_result_eq_Inr by (elim exE conjE) (rule that)
  show ?case
    using n Cons.IH ok redrawn_ok [OF clearToEndOfScreen_redrawn [OF _ ok] ok]
      redrawn_ok [OF clearToBeginOfScreen_redrawn [OF _ screen_okD(1) [OF ok]] ok] clearScreen_keeps [OF _ ok] clearHistory_keeps [OF _ ok]
    by (auto simp: bind_result_eq_Inr split: if_split_asm) blast+
qed simp

lemma apply_csi_edit_keeps:
  assumes "apply_csi_edit K T f sq s = Some (Inr (r, s'))" "screen_ok s"
    and "\<not> is_fn f REP" "is_fn f HPA \<longrightarrow> param_or sq 0 1 \<noteq> Inr 0"
  shows "screen_ok s'"
proof -
  note ok = screen_okD(1) [OF assms(2)]
  note red = eraseCharacters_redrawn [OF _ ok] clearToEndOfScreen_redrawn [OF _ assms(2)]
    clearToEndOfLine_redrawn [OF _ assms(2)] clearToBeginOfLine_redrawn [OF _ ok] clearLine_redrawn [OF _ ok]
    edits_redrawn(1) [OF ok]
  have par: "param_or sq 0 1 = Inr n" if "param sq 0 = Inr n" for n
    using that by (auto simp: param_def param_or_def param_opt_def split: if_splits)
  show ?thesis
    using assms red [THEN redrawn_ok] deleteLines_keeps [OF _ assms(2)] insertLines_keeps [OF _ assms(2)]
      moveCursorTo_keeps [OF _ ok_shape [OF assms(2)]] ED_params_keeps [OF _ assms(2)]
      setCurrentColumn_keeps [OF assms(2)] moveCursorForward_keeps [OF assms(2)]
    by (auto simp: apply_csi_edit_def impl_EL_def done_by_eq mode_param_eq count_param_def bind_result_eq_Inr
        split: if_split_asm option.splits dest!: par)
qed

lemma apply_csi_last_keeps:
  assumes "apply_csi_last K T f sq s = Some (Inr (r, s'))" "screen_ok s"
  shows "screen_ok s'"
proof -
  have sgr: "screen_ok (s\<lparr>scr_cursor := (scr_cursor s)\<lparr>cu_graphicsRendition := a\<rparr>\<rparr>)" for a
    by (rule cursor_fields_keeps [OF assms(2)]) simp
  show ?thesis
    using assms sgr saves_keeps [OF assms(2)] tabs_keeps [OF assms(2)]
      redrawn_ok [OF setMark_redrawn [OF _ screen_okD(1) [OF assms(2)]] assms(2)]
      scr_scrollUp_keeps [OF _ ok_shape [OF assms(2)] screen_okD(3) [OF assms(2)]]
      scr_scrollDown_keeps [OF _ ok_shape [OF assms(2)] screen_okD(3) [OF assms(2)]]
      moveCursorTo_keeps [OF _ ok_shape [OF assms(2)]]
    by (auto simp: apply_csi_last_def impl_TBC_def done_by_eq done_with_eq mode_param_eq count_param_def bind_result_eq_Inr moveCursorToLine_def
        simp del: horizontalTabClear.simps split: if_split_asm option.splits)
qed

lemma or_else_eq: "or_else x y = Some v \<longleftrightarrow> x = Some v \<or> x = None \<and> y = Some v"
  by (auto simp: or_else_def split: option.splits)

lemma apply_function_keeps:
  assumes "apply_function K T C f sq s = Some (Inr (r, s'))" "screen_ok s" "stays_in_page f sq s"
  shows "screen_ok s'"
  using assms(1) apply_c0_esc_keeps [of K T f s r s'] apply_csi_cursor_keeps [of K T f sq s r s']
    apply_csi_area_keeps [of K T C f sq s r s'] apply_csi_select_keeps [of K T f sq s r s']
    apply_csi_margin_keeps [of f sq s r s'] apply_csi_edit_keeps [of K T f sq s r s'] apply_csi_last_keeps [of K T f sq s r s']
    assms(2,3)
  unfolding apply_function_def or_else_eq stays_in_page_def by blast

end
