(* ===== verification/VT_ScreenProps.thy ===== *)
theory VT_ScreenProps
  imports VT_ScreenApply
begin

unbundle bit_operations_syntax

text \<open>
  Properties of the screen: its invariant on every reachable state, the cursor from the bytes of a
  control sequence to its new place, saving and restoring it, inserting and deleting characters, the
  default tab stops, selective erasing, and the operations that do not do what they are meant to.
\<close>

subsection \<open>Reachable screens\<close>

text \<open>
  The states a screen can get into: it is constructed and reset, control functions are applied, and
  characters are written, as long as no line feed or wrap leaves the page.
\<close>

inductive screen_reachable ::
  "'c CellOps \<Rightarrow> ('d, 'm) TextLib_scheme \<Rightarrow> ('c, 'n) SgrTarget_scheme \<Rightarrow> 'c Screen \<Rightarrow> bool"
  for K :: "'c CellOps" and T :: "('d, 'm) TextLib_scheme" and C :: "('c, 'n) SgrTarget_scheme" where
  construct: "newScreen ps rf (HistoryLimit n) = Inr s \<Longrightarrow> 0 < ps_lines ps \<Longrightarrow> 0 < ps_columns ps \<Longrightarrow>
    ps_lines ps + n < 2147483648 \<Longrightarrow> screen_reachable K T C s"
| control: "screen_reachable K T C s \<Longrightarrow> stays_in_page f sq s \<Longrightarrow>
    apply_function K T C f sq s = Some (Inr (r, s')) \<Longrightarrow> screen_reachable K T C s'"
| print: "screen_reachable K T C s \<Longrightarrow> can_write s \<Longrightarrow> print_char K T cp s = Inr s' \<Longrightarrow> screen_reachable K T C s'"
| reset: "screen_reachable K T C s \<Longrightarrow> hardReset s = Inr s' \<Longrightarrow> screen_reachable K T C s'"
| modes: "screen_reachable K T C s \<Longrightarrow>
    screen_reachable K T C (s\<lparr>scr_cursor := (scr_cursor s)\<lparr>cu_autoWrap := autoWrap, cu_originMode := originMode\<rparr>\<rparr>)"
| margin_mode: "screen_reachable K T C s \<Longrightarrow> ps_columns (tm_pageSize s) = screen_columns s \<Longrightarrow>
    screen_reachable K T C (setMode_LeftRightMargin enable s)"

context screen_cells
begin

lemma reachable_screen_ok:
  assumes "screen_reachable K T C s"
  shows "screen_ok s"
  using assms
proof (induction rule: screen_reachable.induct)
  case (construct ps rf n s)
  with newScreen_ok [of ps n rf] show ?case by (metis Inr_inject)
next
  case (control s f sq r s')
  then show ?case by (blast intro: apply_function_keeps)
next
  case (print s cp s')
  then obtain s1 where "writeTextInternal K T cp s = Inr s1" "s' = s1\<lparr>tm_precedingGraphicCharacter := cp\<rparr>"
    by (auto simp: print_char_def bind_result_eq_Inr)
  with print writeTextInternal_keeps [of T cp s s1] show ?case by (simp add: screen_ok_def screen_shape_def)
next
  case (reset s s')
  then show ?case using hardReset_ok [of s] by auto
next
  case (modes s autoWrap originMode)
  then show ?case by (intro cursor_fields_keeps) simp_all
next
  case (margin_mode s enable)
  then show ?case
    using screen_okD(3) [of s] grid_okD(5) [of "scr_grid s"]
    by (auto simp: setMode_LeftRightMargin_def screen_ok_def screen_shape_def margin_ok_def)
qed

end

text \<open>
  C4. The invariant of the screen holds in every reachable state: the grid is well formed, the
  margins lie within the page, the cursor and the position of the character written last are in the
  page, tab stops are not negative, and the pointer to the current line refers to the line of the
  cursor. States are reached by construction with a limited history, hard resets, every control
  function that works on the screen with any parameters, the modes for wrapping, origin and
  left and right margins, and characters with any width and segmentation; left out are line feeds and
  wraps in the last line below the bottom margin, which leave the page.
\<close>

theorem reachable_screens_well_formed:
  assumes "screen_reachable compact_ops T C s"
  shows "screen_ok s"
  using assms by (rule compact_screen.reachable_screen_ok)

lemma apply_CUP:
  "apply_function K T C CUP sq s =
    done_by (bind_result (param_or sq 0 1) (\<lambda>y. bind_result (param_or sq 1 1) (\<lambda>x. moveCursorTo (int y - 1) (int x - 1) s)))"
  by (simp add: apply_function_def or_else_def apply_c0_esc_def apply_csi_cursor_def is_fn_def function_id_def function_makers
      count_param_def done_by_def)

theorem reachable_screens_well_formed_witness:
  "\<exists>s s'. newScreen \<lparr>ps_lines = 3, ps_columns = 5\<rparr> True (HistoryLimit 10) = Inr s \<and>
    apply_function compact_ops byte_lib cell_target CUP (example_params [2, 4]) s = Some (Inr (Apply_Ok, s')) \<and>
    cu_position (scr_cursor s') = \<lparr>cl_line = 1, cl_column = 3\<rparr> \<and> screen_ok s'"
proof -
  obtain s :: "CompactCell Screen" where s: "newScreen \<lparr>ps_lines = 3, ps_columns = 5\<rparr> True (HistoryLimit 10) = Inr s" "screen_ok s"
      "scr_cursor s = newCursor" "gr_pageSize (scr_grid s) = \<lparr>ps_lines = 3, ps_columns = 5\<rparr>"
    using newScreen_ok [of "\<lparr>ps_lines = 3, ps_columns = 5\<rparr>" 10 True] by auto
  have r: "screen_reachable compact_ops byte_lib cell_target s"
    by (rule screen_reachable.construct [OF s(1)]) simp_all
  obtain s' where s': "moveCursorTo 1 3 s = Inr s'" "cu_position (scr_cursor s') = \<lparr>cl_line = 1, cl_column = 3\<rparr>"
    using moveCursorTo_ok [OF ok_shape [OF s(2)], of 1 3] s(3,4)
    by (auto simp: origin_def newCursor_def clampedLine_def clampedColumn_def std_clamp_def)
  have p: "param_or (example_params [2, 4]) 0 1 = Inr 2" "param_or (example_params [2, 4]) 1 1 = Inr 4"
    by (simp_all add: example_params_def csi_sequence_def param_or_def param_opt_def at_def MaxParameters_def)
  have app: "apply_function compact_ops byte_lib cell_target CUP (example_params [2, 4]) s = Some (Inr (Apply_Ok, s'))"
    by (simp add: apply_CUP done_by_def p s'(1) del: One_nat_def)
  have "stays_in_page CUP (example_params [2, 4]) s"
    by (simp add: stays_in_page_def is_fn_def function_id_def function_makers)
  from reachable_screens_well_formed [OF screen_reachable.control [OF r this app]] s(1) s'(2) app show ?thesis by blast
qed

subsection \<open>Placing the cursor\<close>

lemma sequence_params:
  assumes "range_parameters (seq_parameters sq) = args" "par_count (seq_parameters sq) = length args"
    and "length (par_values (seq_parameters sq)) = 16" "i < length args"
  shows "param_or sq i d = Inr (args ! i)"
proof -
  have args: "args = take (length args) (par_values (seq_parameters sq))" using assms(1,2) by (simp add: range_parameters_def)
  then have "length args = min (length args) 16" using assms(3) by (metis length_take min.commute)
  then have "i < 16" using assms(4) by linarith
  moreover have "par_values (seq_parameters sq) ! i = args ! i" using args assms(4) by (metis nth_take)
  ultimately show ?thesis using assms(2,4) by (simp add: param_or_def param_opt_def at_def MaxParameters_def)
qed

text \<open>
  C3. Placing the cursor, from the bytes to the screen. The bytes that the cursor position function
  produces for a line and a column make a parser in its ground state deliver one sequence, and
  processing it moves the cursor of any well-formed screen, with cells of either kind, to that line
  and column, counted from one: from the corner of the page, or of the margins in origin mode, and
  clamped to the page. A pending wrap is cancelled, the contents do not change.
\<close>

theorem cup_end_to_end:
  assumes unicode: "scan_contract U"
    and ground: "state p = Ground" "builder_inv H Outside (listener p)"
    and handler: "writeTextEnd H (sb_handler (listener p)) = Inr h"
    and table: "reachable_sequences ss" "CUP \<in> set (activeSequences ss)"
    and args: "y < 65536" "x < 65536"
  shows "\<exists>bs sq cur sc. invoke CUP [y, x] = Inr bs
     \<and> parseFragment U (sequence_listener H) bs p =
         Some (bind_result (processSequence H sq h)
           (\<lambda>r. Inr (p\<lparr>listener := handled sq cur (listener p) r, scanState := sc\<rparr>)))
     \<and> (\<forall>(K :: 'c CellOps) (T :: ('d, 'm) TextLib_scheme) (C :: ('c, 'n) SgrTarget_scheme) s. screen_ok s \<longrightarrow>
          (\<exists>s'. processSequence_screen K T C (activeSequences ss) sq s = Some (Inr (Apply_Ok, s')) \<and>
            screen_ok s' \<and> scr_grid s' = scr_grid s \<and> \<not> cu_wrapPending (scr_cursor s') \<and>
            cu_position (scr_cursor s') = clampToScreen s
              \<lparr>cl_line = int y - 1 + cl_line (origin s), cl_column = int x - 1 + cl_column (origin s)\<rparr>))"
proof -
  have cup: "category CUP = CSI" "0x40 \<le> finalSymbol CUP" "minimumParameters CUP \<le> counted [y, x]"
      "length [y, x] \<le> maximumParameters CUP" "length [y, x] \<le> 16" "\<forall>a \<in> set [y, x]. a < 65536"
      "\<not> {SCOSC, DECSLRM} \<subseteq> set (activeSequences ss) \<or> CUP \<notin> {SCOSC, DECSLRM}"
    using args by (simp_all add: function_makers counted_def)
  obtain bs sq cur sc where sq: "invoke CUP [y, x] = Inr bs"
      "parseFragment U (sequence_listener H) bs p = Some (bind_result (processSequence H sq h)
           (\<lambda>r. Inr (p\<lparr>listener := handled sq cur (listener p) r, scanState := sc\<rparr>)))"
      "range_parameters (seq_parameters sq) = take (counted [y, x]) [y, x]"
      "functionDefinition sq (activeSequences ss) = Inr (Some CUP)"
      "par_count (seq_parameters sq) = counted [y, x]" "length (par_values (seq_parameters sq)) = 16"
    using invoke_parse_lemma [OF unicode ground handler table cup(7) cup(1-6)] by blast
  have p: "param_or sq 0 1 = Inr y" "param_or sq 1 1 = Inr x"
    using sequence_params [of sq "[y, x]" 0] sequence_params [of sq "[y, x]" 1] sq(3,5,6) by (simp_all add: counted_def)
  have "\<exists>s'. processSequence_screen K T C (activeSequences ss) sq s = Some (Inr (Apply_Ok, s')) \<and>
      screen_ok s' \<and> scr_grid s' = scr_grid s \<and> \<not> cu_wrapPending (scr_cursor s') \<and>
      cu_position (scr_cursor s') = clampToScreen s
        \<lparr>cl_line = int y - 1 + cl_line (origin s), cl_column = int x - 1 + cl_column (origin s)\<rparr>"
    if "screen_ok s" for K :: "'c CellOps" and T :: "('d, 'm) TextLib_scheme" and C :: "('c, 'n) SgrTarget_scheme" and s
    using moveCursorTo_ok [OF ok_shape [OF that], of "int y - 1" "int x - 1"]
    by (auto simp: processSequence_screen_def sq(4) apply_CUP p done_by_def clampToScreen_def terminal_verifyState_ok
        simp del: One_nat_def)
  with sq(1,2) show ?thesis by blast
qed

theorem cup_end_to_end_witness:
  "\<exists>bs sq cur sc s s'. invoke CUP [2, 9] = Inr bs
     \<and> parseFragment VT_Parser.ascii_lib (sequence_listener log_handler) bs (new_parser () (newSequenceBuilder [])) =
         Some (bind_result (processSequence log_handler sq [])
           (\<lambda>r. Inr ((new_parser () (newSequenceBuilder []))\<lparr>listener :=
              handled sq cur (listener (new_parser () (newSequenceBuilder []))) r, scanState := sc\<rparr>)))
     \<and> newScreen \<lparr>ps_lines = 3, ps_columns = 5\<rparr> True (HistoryLimit 10) = Inr s
     \<and> processSequence_screen compact_ops byte_lib cell_target (activeSequences newSupportedSequences) sq s = Some (Inr (Apply_Ok, s'))
     \<and> cu_position (scr_cursor s') = \<lparr>cl_line = 1, cl_column = 4\<rparr>"
proof -
  have act: "CUP \<in> set (activeSequences newSupportedSequences)"
    by (simp add: newSupportedSequences_def activeSequences_def allFunctions_def)
      (simp add: allFunctionsArray_def)
  let ?p = "new_parser () (newSequenceBuilder []) :: (unit, (Sequence list, unit) SequenceBuilder) Parser"
  have p: "state ?p = Ground" "builder_inv log_handler Outside (listener ?p)"
      "writeTextEnd log_handler (sb_handler (listener ?p)) = Inr []"
    by (simp_all add: fresh_simps new_builder_inv)
  obtain s :: "CompactCell Screen" where s: "newScreen \<lparr>ps_lines = 3, ps_columns = 5\<rparr> True (HistoryLimit 10) = Inr s" "screen_ok s"
      "scr_cursor s = newCursor" "gr_pageSize (scr_grid s) = \<lparr>ps_lines = 3, ps_columns = 5\<rparr>"
    using newScreen_ok [of "\<lparr>ps_lines = 3, ps_columns = 5\<rparr>" 10 True] by auto
  have pos: "clampToScreen s \<lparr>cl_line = int 2 - 1 + cl_line (origin s), cl_column = int 9 - 1 + cl_column (origin s)\<rparr>
      = \<lparr>cl_line = 1, cl_column = 4\<rparr>"
    using s(3,4) by (simp add: clampToScreen_def clampedLine_def clampedColumn_def std_clamp_def origin_def newCursor_def)
  have lt: "2 < (65536 :: nat)" "9 < (65536 :: nat)" by simp_all
  from cup_end_to_end [where ?'c = CompactCell and ?'d = unit and ?'m = unit and ?'n = unit, OF ascii_contract p rs_new act lt]
  show ?thesis using s(1,2) pos by metis
qed

subsection \<open>Saving and restoring\<close>

text \<open>
  C32. A restored cursor is the saved one: its place, its rendition, its character sets, its hyperlink
  and its modes, whatever happened to the screen in between, as long as it stays well formed with a
  page of the same size and, in origin mode, with margins that reach as far as the saved place.
\<close>

theorem save_restore_roundtrip:
  assumes "screen_ok s" "screen_ok s'" "scr_savedCursor s' = scr_savedCursor (saveCursor s)"
    and "gr_pageSize (scr_grid s') = gr_pageSize (scr_grid s)"
    and "cu_originMode (scr_cursor s) \<Longrightarrow> cursor_line s \<le> mg_bottom (scr_margin s') \<and> cursor_column s \<le> mg_right (scr_margin s')"
  shows "\<exists>s''. restoreCursor s' = Inr s'' \<and> scr_cursor s'' = scr_cursor s \<and> scr_grid s'' = scr_grid s' \<and> screen_ok s''"
proof -
  note d = screen_okD [OF assms(1)]
  have saved: "scr_savedCursor s' = scr_cursor s" using assms(3) by (simp add: saveCursor_def)
  have "clampCoordinate (s'\<lparr>scr_cursor := scr_cursor s\<rparr>) (cu_position (scr_cursor s)) = cu_position (scr_cursor s)"
    using d(4-7) assms(4,5)
    by (auto simp: clampCoordinate_def clampToOrigin_def clampToScreen_def clampedLine_def clampedColumn_def std_clamp_def)
  with restoreCursor_ok [OF assms(2)] show ?thesis by (auto simp: saved)
qed

theorem save_restore_roundtrip_witness:
  "\<exists>(s :: CompactCell Screen) s1 s2. newScreen \<lparr>ps_lines = 3, ps_columns = 5\<rparr> True (HistoryLimit 10) = Inr s \<and>
    moveCursorTo 2 1 (saveCursor s) = Inr s1 \<and> cursor_line s1 = 2 \<and> restoreCursor s1 = Inr s2 \<and> scr_cursor s2 = newCursor"
proof -
  obtain s :: "CompactCell Screen" where s: "newScreen \<lparr>ps_lines = 3, ps_columns = 5\<rparr> True (HistoryLimit 10) = Inr s" "screen_ok s"
      "scr_cursor s = newCursor" "gr_pageSize (scr_grid s) = \<lparr>ps_lines = 3, ps_columns = 5\<rparr>"
    using newScreen_ok [of "\<lparr>ps_lines = 3, ps_columns = 5\<rparr>" 10 True] by auto
  have ok: "screen_ok (saveCursor s)" by (rule saves_keeps [OF s(2)])
  have same: "scr_grid (saveCursor s) = scr_grid s" "scr_cursor (saveCursor s) = newCursor" "origin (saveCursor s) = \<lparr>cl_line = 0, cl_column = 0\<rparr>"
    using s(3) by (simp_all add: saveCursor_def origin_def newCursor_def)
  obtain s1 where s1: "moveCursorTo 2 1 (saveCursor s) = Inr s1" "screen_ok s1" "scr_grid s1 = scr_grid s" "cursor_line s1 = 2"
    using moveCursorTo_ok [OF ok_shape [OF ok], of 2 1] s(4) same by (auto simp: clampedLine_def std_clamp_def)
  have saved: "scr_savedCursor s1 = scr_savedCursor (saveCursor s)"
    using s1(1) by (auto simp: moveCursorTo_def updateCursorIterator_def Let_def bind_result_eq_Inr set_position_def set_wrapPending_def)
  from save_restore_roundtrip [OF s(2) s1(2) saved] s1 s(1,3) show ?thesis by (auto simp: newCursor_def)
qed

subsection \<open>Where the code leaves the page or goes the wrong way\<close>

lemma ring_index_any:
  assumes "grid_ok g" "0 \<le> y" "y < 4294967296"
  shows "\<exists>k. ring_index (gr_lines g) y = Inr k"
  using grid_okD(1,2,8) [OF assms(1)] assms(2,3) by (auto simp: ring_index_def is_long_def Let_def ring_ok_def)

text \<open>
  C34. A line feed below the bottom margin leaves the page: with the cursor in the last line of the
  page and a bottom margin above it, \<open>linefeed\<close> neither scrolls nor stops, but puts the cursor into
  the line after the last one. The state that \<open>verifyState\<close> asks for is broken.
\<close>

theorem linefeed_leaves_page:
  assumes "screen_ok s" "cursor_line s = int (screen_lines s) - 1" "mg_bottom (scr_margin s) < cursor_line s"
  shows "\<exists>s'. linefeed K T s = Inr s' \<and> cursor_line s' = int (screen_lines s) \<and> screen_verifyState s' = Inl AssertionFailed"
proof -
  let ?x = "if tm_stdoutFastPipe s \<or> tm_automaticNewLine s then mg_left (scr_margin s) else cursor_column s"
  let ?s = "set_position (int (screen_lines s)) ?x (set_position (cursor_line s) ?x (set_wrapPending False s))"
  note ok = screen_okD(1) [OF assms(1)]
  have "int (screen_lines s) < 4294967296" using grid_okD(2,6,7) [OF ok] by linarith
  then obtain k where "ring_index (gr_lines (scr_grid s)) (int (screen_lines s)) = Inr k"
    using ring_index_any [OF ok, of "int (screen_lines s)"] by auto
  then have "linefeed K T s = Inr (?s\<lparr>scr_currentLine := k\<rparr>)"
    using assms(2,3) by (simp add: linefeed_def linefeed_to_def Let_def updateCursorIterator_def)
  moreover have "screen_verifyState (?s\<lparr>scr_currentLine := k\<rparr>) = Inl AssertionFailed"
    by (simp add: screen_verifyState_def require_def set_position_def)
  ultimately show ?thesis by (intro exI [of _ "?s\<lparr>scr_currentLine := k\<rparr>"]) (simp add: set_position_def)
qed

lemma margin_example:
  assumes "newScreen \<lparr>ps_lines = 3, ps_columns = 5\<rparr> True (HistoryLimit 10) = Inr (s :: 'c Screen)" "0 \<le> y" "y < 3" "0 \<le> x" "x < 5"
  shows "\<exists>s'. moveCursorTo y x (setLeftRightMargin (Some 1) (Some 3) (setTopBottomMargin None (Some 1) s)) = Inr s' \<and>
    screen_ok s' \<and> cursor_line s' = y \<and> cursor_column s' = x \<and> gr_pageSize (scr_grid s') = \<lparr>ps_lines = 3, ps_columns = 5\<rparr> \<and>
    scr_margin s' = \<lparr>mg_top = 0, mg_bottom = 1, mg_left = 1, mg_right = 3\<rparr>"
proof -
  obtain t :: "'c Screen" where "newScreen \<lparr>ps_lines = 3, ps_columns = 5\<rparr> True (HistoryLimit 10) = Inr t" "screen_ok t"
      "scr_cursor t = newCursor" "gr_pageSize (scr_grid t) = \<lparr>ps_lines = 3, ps_columns = 5\<rparr>"
      "scr_margin t = \<lparr>mg_top = 0, mg_bottom = 2, mg_left = 0, mg_right = 4\<rparr>"
    using newScreen_ok [of "\<lparr>ps_lines = 3, ps_columns = 5\<rparr>" 10 True] by auto
  with assms(1) have s: "screen_ok s" "scr_cursor s = newCursor" "gr_pageSize (scr_grid s) = \<lparr>ps_lines = 3, ps_columns = 5\<rparr>"
      "scr_margin s = \<lparr>mg_top = 0, mg_bottom = 2, mg_left = 0, mg_right = 4\<rparr>"
    by auto
  let ?s = "setLeftRightMargin (Some 1) (Some 3) (setTopBottomMargin None (Some 1) s)"
  have ok: "screen_ok ?s" by (intro margins_keeps s(1))
  have same: "scr_grid ?s = scr_grid s" "scr_cursor ?s = newCursor" "scr_margin ?s = \<lparr>mg_top = 0, mg_bottom = 1, mg_left = 1, mg_right = 3\<rparr>"
    using s(2-4) by (simp_all add: setLeftRightMargin_def setTopBottomMargin_def)
  obtain s' where s': "moveCursorTo y x ?s = Inr s'" "screen_ok s'" "scr_grid s' = scr_grid s" "cursor_line s' = y" "cursor_column s' = x"
    using moveCursorTo_ok [OF ok_shape [OF ok], of y x] assms(2-5) same s(3)
    by (auto simp: clampedLine_def clampedColumn_def std_clamp_def origin_def newCursor_def)
  moreover have "scr_margin s' = scr_margin ?s"
    using s'(1) by (auto simp: moveCursorTo_def updateCursorIterator_def Let_def bind_result_eq_Inr set_position_def set_wrapPending_def)
  ultimately show ?thesis using s(3) same(3) by auto
qed

lemma new_example: "\<exists>s :: CompactCell Screen. newScreen \<lparr>ps_lines = 3, ps_columns = 5\<rparr> True (HistoryLimit 10) = Inr s"
  using newScreen_ok [of "\<lparr>ps_lines = 3, ps_columns = 5\<rparr>" 10 True] by auto

theorem linefeed_leaves_page_witness:
  "\<exists>(s :: CompactCell Screen) s1 s2. newScreen \<lparr>ps_lines = 3, ps_columns = 5\<rparr> True (HistoryLimit 10) = Inr s \<and>
    moveCursorTo 2 0 (setLeftRightMargin (Some 1) (Some 3) (setTopBottomMargin None (Some 1) s)) = Inr s1 \<and>
    linefeed compact_ops byte_lib s1 = Inr s2 \<and> cursor_line s2 = 3 \<and> screen_verifyState s2 = Inl AssertionFailed"
proof -
  obtain s :: "CompactCell Screen" where s: "newScreen \<lparr>ps_lines = 3, ps_columns = 5\<rparr> True (HistoryLimit 10) = Inr s"
    using new_example by blast
  obtain s1 where s1: "moveCursorTo 2 0 (setLeftRightMargin (Some 1) (Some 3) (setTopBottomMargin None (Some 1) s)) = Inr s1"
      "screen_ok s1" "cursor_line s1 = 2" "gr_pageSize (scr_grid s1) = \<lparr>ps_lines = 3, ps_columns = 5\<rparr>"
      "scr_margin s1 = \<lparr>mg_top = 0, mg_bottom = 1, mg_left = 1, mg_right = 3\<rparr>"
    using margin_example [OF s, of 2 0] by auto
  have "cursor_line s1 = int (screen_lines s1) - 1" "mg_bottom (scr_margin s1) < cursor_line s1" using s1(3-5) by simp_all
  from linefeed_leaves_page [OF s1(2) this, of compact_ops byte_lib] s s1(1,4) show ?thesis by auto
qed

text \<open>
  C35. Two backward moves go forward. Outside of the horizontal margins \<open>moveCursorBackward\<close> moves the
  cursor to the right, up to the last column; inside of them \<open>backIndex\<close> (\<open>DECBI\<close>) moves it to the
  right unless it is at the left margin, where it does nothing instead of scrolling.
\<close>

theorem backward_moves_forward:
  assumes "screen_ok s"
  shows "(\<not> horizontal_contains (scr_margin s) (cursor_column s) \<and> 0 \<le> n \<longrightarrow>
      cursor_column (moveCursorBackward n s) = min (cursor_column s + n) (int (screen_columns s) - 1)) \<and>
    (mg_left (scr_margin s) < cursor_column s \<and> cursor_column s < mg_right (scr_margin s) \<longrightarrow>
      cursor_column (backIndex s) = cursor_column s + 1) \<and>
    (cursor_column s = mg_left (scr_margin s) \<longrightarrow> backIndex s = s)"
  using screen_okD(6,7) [OF assms]
  by (auto simp: moveCursorBackward_def backIndex_def moveCursorForward_def horizontal_contains_def clampedColumn_def std_clamp_def)

theorem backward_moves_forward_witness:
  "\<exists>(s :: CompactCell Screen) s1 s2. newScreen \<lparr>ps_lines = 3, ps_columns = 5\<rparr> True (HistoryLimit 10) = Inr s \<and>
    moveCursorTo 0 0 (setLeftRightMargin (Some 1) (Some 3) (setTopBottomMargin None (Some 1) s)) = Inr s1 \<and>
    cursor_column s1 = 0 \<and> cursor_column (moveCursorBackward 2 s1) = 2 \<and>
    moveCursorTo 0 2 (setLeftRightMargin (Some 1) (Some 3) (setTopBottomMargin None (Some 1) s)) = Inr s2 \<and>
    cursor_column s2 = 2 \<and> cursor_column (backIndex s2) = 3"
proof -
  let ?m = "\<lambda>s. setLeftRightMargin (Some 1) (Some 3) (setTopBottomMargin None (Some 1) s)"
  obtain s :: "CompactCell Screen" where s: "newScreen \<lparr>ps_lines = 3, ps_columns = 5\<rparr> True (HistoryLimit 10) = Inr s"
    using new_example by blast
  obtain s1 where s1: "moveCursorTo 0 0 (?m s) = Inr s1" "screen_ok s1" "cursor_column s1 = 0"
      "gr_pageSize (scr_grid s1) = \<lparr>ps_lines = 3, ps_columns = 5\<rparr>"
      "scr_margin s1 = \<lparr>mg_top = 0, mg_bottom = 1, mg_left = 1, mg_right = 3\<rparr>"
    using margin_example [OF s, of 0 0] by auto
  obtain s2 where s2: "moveCursorTo 0 2 (?m s) = Inr s2" "screen_ok s2" "cursor_column s2 = 2"
      "scr_margin s2 = \<lparr>mg_top = 0, mg_bottom = 1, mg_left = 1, mg_right = 3\<rparr>"
    using margin_example [OF s, of 0 2] by auto
  have "cursor_column (moveCursorBackward 2 s1) = 2"
    using backward_moves_forward [OF s1(2), of 2] s1(3-5) by (simp add: horizontal_contains_def)
  moreover have "cursor_column (backIndex s2) = 3"
    using backward_moves_forward [OF s2(2), of 0] s2(3,4) by simp
  ultimately show ?thesis using s s1(1,3) s2(1,3) by blast
qed

subsection \<open>Rows\<close>

definition in_rows :: "'c Screen \<Rightarrow> int \<Rightarrow> bool" where
  "in_rows s y \<longleftrightarrow> 0 \<le> y \<and> y < int (screen_lines s)"

lemma row_cellsE:
  assumes "row_cells K T s y = Inr cs"
  obtains l l1 where "lineAt (scr_grid s) y = Inr l" "inflatedBuffer K T l = Inr (cs, l1)" "line_storage l1 = InflatedBuffer cs"
proof -
  from assms obtain l l1 where l: "lineAt (scr_grid s) y = Inr l" "inflatedBuffer K T l = Inr (cs, l1)"
    by (auto simp: row_cells_def bind_result_eq_Inr)
  moreover have "line_storage l1 = InflatedBuffer cs"
    using l(2) by (auto simp: inflatedBuffer_def bind_result_eq_Inr split: LineStorage.splits)
  ultimately show thesis by (rule that)
qed

lemma row_cells_length:
  assumes "row_cells K T s y = Inr cs" "grid_ok (scr_grid s)"
  shows "length cs = screen_columns s"
proof -
  from assms(1) obtain l l1 where l: "lineAt (scr_grid s) y = Inr l" "inflatedBuffer K T l = Inr (cs, l1)" by (rule row_cellsE)
  have "line_fits (screen_columns s) l" using rows_get [OF _ grid_ok_rows [OF assms(2)], of y l] l(1) by (simp add: lineAt_def)
  then show ?thesis by (rule line_fits_inflated(2) [OF l(2)])
qed

text \<open>Setting a line of the ring changes that row only.\<close>

lemma set_row_rows:
  assumes "grid_ok g" "ring_set (gr_lines g) y l = Inr r" "0 \<le> y" "y < int (page_lines g)" "0 \<le> y'" "y' < int (page_lines g)"
  shows "lineAt (g\<lparr>gr_lines := r\<rparr>) y' = (if y' = y then Inr l else lineAt g y')"
proof -
  let ?r = "gr_lines g"
  obtain k where k: "ring_index ?r y = Inr k" "r = ?r\<lparr>rg_storage := (rg_storage ?r)[k := l]\<rparr>"
    using assms(2) by (auto simp: ring_set_def bind_result_eq_Inr)
  obtain j where j: "ring_index ?r y' = Inr j" using ring_index_total [OF assms(1,5,6)] by blast
  have len: "k < ring_size ?r" by (rule ring_index_less [OF k(1)])
  have cong: "ring_index r v = ring_index ?r v" for v by (rule ring_index_cong) (simp_all add: k(2))
  have "j = k \<longleftrightarrow> y' = y" using ring_index_inj [OF assms(1,5,6,3,4) j] k(1) j by auto
  with j len show ?thesis
    by (cases "y' = y") (simp_all add: lineAt_def ring_get_def cong, simp_all add: k(2))
qed

lemma ring_set_total: "ring_index r y = Inr k \<Longrightarrow> \<exists>r'. ring_set r y v = Inr r'"
  by (simp add: ring_set_def)

lemma on_line_rows:
  assumes "grid_ok (scr_grid s)" "in_rows s y" "lineAt (scr_grid s) y = Inr l" "f l = Inr l'"
  shows "\<exists>s'. on_line y f s = Inr s' \<and> s' = s\<lparr>scr_grid := scr_grid s'\<rparr> \<and>
    gr_pageSize (scr_grid s') = gr_pageSize (scr_grid s) \<and>
    (\<forall>y'. in_rows s y' \<longrightarrow> lineAt (scr_grid s') y' = (if y' = y then Inr l' else lineAt (scr_grid s) y'))"
proof -
  obtain k where "ring_index (gr_lines (scr_grid s)) y = Inr k"
    using ring_index_total [OF assms(1)] assms(2) by (auto simp: in_rows_def)
  from ring_set_total [OF this, of l'] obtain r where r: "ring_set (gr_lines (scr_grid s)) y l' = Inr r" by blast
  have "on_line y f s = Inr (set_lines r s)" by (simp add: on_line_def assms(3,4) r)
  then show ?thesis
    using set_row_rows [OF assms(1) r] assms(2)
    by (intro exI [of _ "set_lines r s"]) (simp add: set_lines_def in_rows_def)
qed

text \<open>A change of the cells of one row.\<close>

lemma on_line_cells:
  assumes "grid_ok (scr_grid s)" "in_rows s y" "row_cells K T s y = Inr cs" "fits_step f"
    and "\<forall>l l1. inflatedBuffer K T l = Inr (cs, l1) \<longrightarrow> (\<exists>l'. f l = Inr l' \<and> line_storage l' = InflatedBuffer cs')"
  shows "\<exists>s'. on_line y f s = Inr s' \<and> redrawn s s' \<and> row_cells K T s' y = Inr cs' \<and>
    (\<forall>y'. in_rows s y' \<longrightarrow> y' \<noteq> y \<longrightarrow> lineAt (scr_grid s') y' = lineAt (scr_grid s) y')"
proof -
  from assms(3) obtain l l1 where l: "lineAt (scr_grid s) y = Inr l" "inflatedBuffer K T l = Inr (cs, l1)" by (rule row_cellsE)
  then obtain l' where l': "f l = Inr l'" "line_storage l' = InflatedBuffer cs'" using assms(5) by blast
  from on_line_rows [where f = f, OF assms(1,2) l(1) l'(1)] obtain s' where s': "on_line y f s = Inr s'"
      "\<forall>y'. in_rows s y' \<longrightarrow> lineAt (scr_grid s') y' = (if y' = y then Inr l' else lineAt (scr_grid s) y')"
    by blast
  have "row_cells K T s' y = Inr cs'" using s'(2) assms(2) l'(2) by (simp add: row_cells_def inflatedBuffer_def)
  with s' on_line_redrawn [OF s'(1) assms(1,4)] show ?thesis by simp
qed

subsection \<open>Inserting and deleting characters\<close>

context screen_cells
begin

lemma write_spaces:
  "\<exists>ys. map_result (op_write K a 0x20 1) xs = Inr ys \<and> map (op_codepoints K) ys = replicate (length xs) [0x20]"
proof (induction xs)
  case (Cons x xs)
  obtain c where "op_write K a 0x20 1 x = Inr c" "op_codepoints K c = [0x20]"
    using write_ok [of "0x20" 1 a x] by auto
  with Cons show ?case by auto
qed simp

lemma rotate_then_blank:
  assumes "grid_ok (scr_grid s)" "in_rows s y" "row_cells K T s y = Inr cs" "a \<le> b" "b \<le> c" "c \<le> screen_columns s"
    and "i + n \<le> screen_columns s"
  shows "\<exists>s' ys. bind_result (on_line y (rotate_cells K T (int a) (int b) (int c)) s) (\<lambda>s.
      on_line y (change_range K T (int i) (int n) (op_write K (rendition s) 0x20 1)) s) = Inr s' \<and> redrawn s s' \<and>
    (let rot = take a cs @ drop b (take c cs) @ drop a (take b cs) @ drop c cs in
     row_cells K T s' y = Inr (take i rot @ ys @ drop (i + n) rot) \<and> map (op_codepoints K) ys = replicate n [0x20]) \<and>
    (\<forall>y'. in_rows s y' \<longrightarrow> y' \<noteq> y \<longrightarrow> lineAt (scr_grid s') y' = lineAt (scr_grid s) y')"
proof -
  define rot where "rot = take a cs @ drop b (take c cs) @ drop a (take b cs) @ drop c cs"
  have len: "length cs = screen_columns s" by (rule row_cells_length [OF assms(3,1)])
  have "\<forall>l l1. inflatedBuffer K T l = Inr (cs, l1) \<longrightarrow>
      (\<exists>l'. rotate_cells K T (int a) (int b) (int c) l = Inr l' \<and> line_storage l' = InflatedBuffer rot)"
    using len assms(4-6) by (simp add: rotate_cells_def rot_def)
  from on_line_cells [OF assms(1-3) rotate_cells_fits this] obtain s1 where
    s1: "on_line y (rotate_cells K T (int a) (int b) (int c)) s = Inr s1" "redrawn s s1" "row_cells K T s1 y = Inr rot"
      "\<forall>y'. in_rows s y' \<longrightarrow> y' \<noteq> y \<longrightarrow> lineAt (scr_grid s1) y' = lineAt (scr_grid s) y'"
    by blast
  have lines: "in_rows s1 = in_rows s" using redrawn_same(3) [OF s1(2)] by (intro ext) (simp add: in_rows_def)
  have len1: "length rot = screen_columns s" using len assms(4-6) by (simp add: rot_def)
  obtain ys where ys: "map_result (op_write K (rendition s1) 0x20 1) (take n (drop i rot)) = Inr ys"
      "map (op_codepoints K) ys = replicate n [0x20]"
    using write_spaces [of "rendition s1" "take n (drop i rot)"] len1 assms(7) by auto
  have "\<forall>l l1. inflatedBuffer K T l = Inr (rot, l1) \<longrightarrow>
      (\<exists>l'. change_range K T (int i) (int n) (op_write K (rendition s1) 0x20 1) l = Inr l' \<and>
        line_storage l' = InflatedBuffer (take i rot @ ys @ drop (i + n) rot))"
    using len1 assms(7) ys(1) by (simp add: change_range_def nat_add_distrib)
  from on_line_cells [OF redrawn_grid [OF s1(2)] _ s1(3) change_range_fits this] assms(2) obtain s2 where
    s2: "on_line y (change_range K T (int i) (int n) (op_write K (rendition s1) 0x20 1)) s1 = Inr s2" "redrawn s1 s2"
      "row_cells K T s2 y = Inr (take i rot @ ys @ drop (i + n) rot)"
      "\<forall>y'. in_rows s y' \<longrightarrow> y' \<noteq> y \<longrightarrow> lineAt (scr_grid s2) y' = lineAt (scr_grid s1) y'"
    unfolding lines by blast
  show ?thesis
    using s1 s2 ys(2) redrawn_trans [OF s1(2) s2(2)] by (intro exI [of _ s2] exI [of _ ys]) (simp add: Let_def rot_def [symmetric])
qed

text \<open>The texts of the rows: after deleting and after inserting \<open>n\<close> characters at \<open>x\<close>, up to column \<open>r\<close>.\<close>

lemma delete_row:
  assumes "screen_ok s" "isCursorInsideMargins s" "row_cells K T s (cursor_line s) = Inr cs" "t = map (op_codepoints K) cs"
    and "x = nat (cursor_column s)" "r = nat (mg_right (scr_margin s) + 1)" "x < r" "0 < n" "m = min n (r - x)"
  shows "\<exists>s' cs'. deleteCharacters K T (int n) s = Inr s' \<and> redrawn s s' \<and> row_cells K T s' (cursor_line s) = Inr cs' \<and>
    map (op_codepoints K) cs' = take x t @ drop (x + m) (take r t) @ replicate m [0x20] @ drop r t \<and>
    (\<forall>y. in_rows s y \<longrightarrow> y \<noteq> cursor_line s \<longrightarrow> lineAt (scr_grid s') y = lineAt (scr_grid s) y)"
proof -
  note d = screen_okD [OF assms(1)]
  have r: "int r = mg_right (scr_margin s) + 1" "r \<le> screen_columns s" using assms(6) d(3) by (auto simp: margin_ok_def)
  have x: "int x = cursor_column s" using assms(5) d(6) by simp
  have m: "x + m \<le> r" "r - m + m \<le> screen_columns s" "m \<le> r" using assms(7,9) r(2) by auto
  have row: "in_rows s (cursor_line s)" using d(4,5) by (simp add: in_rows_def)
  have len: "length cs = screen_columns s" by (rule row_cells_length [OF assms(3) d(1)])
  have mi: "min (int n) (mg_right (scr_margin s) + 1 - cursor_column s) = int m" using assms(7,9) r(1) x by auto
  have del: "deleteCharacters K T (int n) s = bind_result (on_line (cursor_line s) (rotate_cells K T (int x) (int (x + m)) (int r)) s) (\<lambda>s'.
      on_line (cursor_line s) (change_range K T (int (r - m)) (int m) (op_write K (rendition s') 0x20 1)) s')"
    using assms(2,8) mi r(1) x m by (simp add: deleteCharacters_def deleteChars_def Let_def of_nat_diff)
  from rotate_then_blank [OF d(1) row assms(3) le_add1 m(1) r(2) m(2)] obtain s' ys where s': "deleteCharacters K T (int n) s = Inr s'"
      "redrawn s s'"
      "row_cells K T s' (cursor_line s) = Inr (take (r - m) (take x cs @ drop (x + m) (take r cs) @ drop x (take (x + m) cs) @ drop r cs)
        @ ys @ drop (r - m + m) (take x cs @ drop (x + m) (take r cs) @ drop x (take (x + m) cs) @ drop r cs))"
      "map (op_codepoints K) ys = replicate m [0x20]"
      "\<forall>y. in_rows s y \<longrightarrow> y \<noteq> cursor_line s \<longrightarrow> lineAt (scr_grid s') y = lineAt (scr_grid s) y"
    unfolding del Let_def by blast
  have e: "take (r - m) (take x cs @ drop (x + m) (take r cs) @ drop x (take (x + m) cs) @ drop r cs) = take x cs @ drop (x + m) (take r cs)"
    "drop (r - m + m) (take x cs @ drop (x + m) (take r cs) @ drop x (take (x + m) cs) @ drop r cs) = drop r cs"
    using len m r(2) by simp_all
  show ?thesis
    using s'(1,2,4,5) s'(3) [unfolded e]
    by (intro exI [of _ s'] exI [of _ "(take x cs @ drop (x + m) (take r cs)) @ ys @ drop r cs"]) (simp add: assms(4) take_map drop_map)
qed

lemma insert_row:
  assumes "screen_ok s" "isCursorInsideMargins s"
    and "cu_originMode (scr_cursor s) \<longrightarrow> mg_left (scr_margin s) = 0 \<or> n \<le> r - x"
    and "row_cells K T s (cursor_line s) = Inr cs" "t = map (op_codepoints K) cs"
    and "x = nat (cursor_column s)" "r = nat (mg_right (scr_margin s) + 1)" "x < r" "m = min n (r - x)"
  shows "\<exists>s' cs'. insertCharacters K T (int n) s = Inr s' \<and> redrawn s s' \<and> row_cells K T s' (cursor_line s) = Inr cs' \<and>
    map (op_codepoints K) cs' = take x t @ replicate m [0x20] @ drop x (take (r - m) t) @ drop r t \<and>
    (\<forall>y. in_rows s y \<longrightarrow> y \<noteq> cursor_line s \<longrightarrow> lineAt (scr_grid s') y = lineAt (scr_grid s) y)"
proof -
  note d = screen_okD [OF assms(1)]
  have r: "int r = mg_right (scr_margin s) + 1" "r \<le> screen_columns s" using assms(7) d(3) by (auto simp: margin_ok_def)
  have x: "int x = cursor_column s" using assms(6) d(6) by simp
  have m: "x \<le> r - m" "x + m \<le> screen_columns s" "m \<le> r" "r - m \<le> r" using assms(8,9) r(2) by auto
  have row: "in_rows s (cursor_line s)" using d(4,5) by (simp add: in_rows_def)
  have len: "length cs = screen_columns s" by (rule row_cells_length [OF assms(4) d(1)])
  have mi: "min (int n) (mg_right (scr_margin s) - cl_column (logicalCursorPosition s) + 1) = int m"
    using assms(3,8,9) r(1) x d(3) by (auto simp: logicalCursorPosition_def margin_ok_def)
  have ins: "insertCharacters K T (int n) s = bind_result (on_line (cursor_line s) (rotate_cells K T (int x) (int (r - m)) (int r)) s) (\<lambda>s'.
      on_line (cursor_line s) (change_range K T (cursor_column s') (int m) (op_write K (rendition s') 0x20 1)) s')"
    using assms(2) mi r(1) x m by (simp add: insertCharacters_def insertChars_def Let_def of_nat_diff diff_add_eq)
  have "cursor_column s1 = int x"
    if "on_line (cursor_line s) (rotate_cells K T (int x) (int (r - m)) (int r)) s = Inr s1" for s1
    using redrawn_same(1) [OF on_line_redrawn [OF that d(1) rotate_cells_fits]] x by simp
  then have ins: "insertCharacters K T (int n) s = bind_result (on_line (cursor_line s) (rotate_cells K T (int x) (int (r - m)) (int r)) s) (\<lambda>s'.
      on_line (cursor_line s) (change_range K T (int x) (int m) (op_write K (rendition s') 0x20 1)) s')"
    unfolding ins by (cases "on_line (cursor_line s) (rotate_cells K T (int x) (int (r - m)) (int r)) s") auto
  from rotate_then_blank [OF d(1) row assms(4) m(1,4) r(2) m(2)] obtain s' ys where s': "insertCharacters K T (int n) s = Inr s'"
      "redrawn s s'"
      "row_cells K T s' (cursor_line s) = Inr (take x (take x cs @ drop (r - m) (take r cs) @ drop x (take (r - m) cs) @ drop r cs)
        @ ys @ drop (x + m) (take x cs @ drop (r - m) (take r cs) @ drop x (take (r - m) cs) @ drop r cs))"
      "map (op_codepoints K) ys = replicate m [0x20]"
      "\<forall>y. in_rows s y \<longrightarrow> y \<noteq> cursor_line s \<longrightarrow> lineAt (scr_grid s') y = lineAt (scr_grid s) y"
    unfolding ins Let_def by blast
  have e: "take x (take x cs @ drop (r - m) (take r cs) @ drop x (take (r - m) cs) @ drop r cs) = take x cs"
    "drop (x + m) (take x cs @ drop (r - m) (take r cs) @ drop x (take (r - m) cs) @ drop r cs) = drop x (take (r - m) cs) @ drop r cs"
    using len m r(2) by simp_all
  show ?thesis
    using s'(1,2,4,5) s'(3) [unfolded e]
    by (intro exI [of _ s'] exI [of _ "take x cs @ ys @ drop x (take (r - m) cs) @ drop r cs"]) (simp add: assms(5) take_map drop_map)
qed

end

text \<open>
  C30. Deleting characters shifts the rest of the line to the left, within the margins. With the
  cursor inside the margins, \<open>DCH\<close> removes the \<open>n\<close> characters from the cursor on, or as many as there
  are up to the right margin; the characters behind them, up to the margin, move to the cursor, and
  spaces fill the columns at the margin. What is outside of the margins, and every other line, stays.
\<close>

theorem delete_characters_row:
  fixes s :: "CompactCell Screen"
  assumes "screen_ok s" "isCursorInsideMargins s" "row_cells compact_ops T s (cursor_line s) = Inr cs"
    and "t = map (op_codepoints compact_ops) cs" "x = nat (cursor_column s)" "r = nat (mg_right (scr_margin s) + 1)"
    and "x < r" "0 < n" "m = min n (r - x)"
  shows "\<exists>s'. deleteCharacters compact_ops T (int n) s = Inr s' \<and> scr_cursor s' = scr_cursor s \<and>
    row_text compact_ops T s' (cursor_line s) = Inr (take x t @ drop (x + m) (take r t) @ replicate m [0x20] @ drop r t) \<and>
    other_rows_same s s'"
  using compact_screen.delete_row [OF assms] by (auto simp: other_rows_same_def in_rows_def redrawn_same dest: row_text_cells)

text \<open>A new screen with \<open>abcd\<close> in its first line and the cursor on the second column.\<close>

lemma row_text_row_cells: "row_text K T s y = Inr t \<Longrightarrow> \<exists>cs. row_cells K T s y = Inr cs \<and> map (op_codepoints K) cs = t"
  by (auto simp: row_cells_def row_text_def bind_result_eq_Inr)

lemma moveCursorTo_margin: "moveCursorTo y x s = Inr s' \<Longrightarrow> scr_margin s' = scr_margin s"
  by (auto simp: moveCursorTo_def updateCursorIterator_def Let_def bind_result_eq_Inr)

lemma typed_example:
  "\<exists>(s :: CompactCell Screen) s1. newScreen \<lparr>ps_lines = 2, ps_columns = 5\<rparr> True (HistoryLimit 5) = Inr s \<and>
    fold_result (print_byte compact_ops byte_lib) [0x61, 0x62, 0x63, 0x64] ((), s) = Inr ((), s1) \<and> screen_ok s1 \<and> same_frame s s1 \<and>
    scr_cursor s = newCursor \<and> scr_margin s = \<lparr>mg_top = 0, mg_bottom = 1, mg_left = 0, mg_right = 4\<rparr> \<and>
    gr_pageSize (scr_grid s) = \<lparr>ps_lines = 2, ps_columns = 5\<rparr> \<and>
    row_text compact_ops byte_lib s1 0 = Inr [[0x61], [0x62], [0x63], [0x64], []]"
proof -
  let ?ps = "\<lparr>ps_lines = 2, ps_columns = 5\<rparr>"
  obtain s and l :: "CompactCell Line" where s: "newScreen ?ps True (HistoryLimit 5) = Inr s"
      "typing_ready s" "\<not> cu_wrapPending (scr_cursor s)" "cursor_line s = 0" "cursor_column s = 0" "gr_pageSize (scr_grid s) = ?ps"
      "lineAt (scr_grid s) (cursor_line s) = Inr l" "line_storage l = TrivialBuffer (trivial_blank 5 defaultAttributes)"
    using new_screen_ready [of ?ps 5 True] by auto
  have m: "scr_cursor s = newCursor" "scr_margin s = \<lparr>mg_top = 0, mg_bottom = 1, mg_left = 0, mg_right = 4\<rparr>"
    using newScreen_ok [where ps = ?ps and n = 5 and rf = True and 'c = CompactCell] s(1) by auto
  let ?b = "trivial_blank 5 defaultAttributes"
  obtain cs where cs: "inflate compact_ops byte_lib ?b = Inr cs" "blank_cells compact_ops ?b cs"
    using compact_screen.inflate_blank [of ?b byte_lib] by (auto simp: trivial_blank_def)
  note plain = compact_screen.blank_cells_plain [OF cs(2)]
  have inf: "inflatedBuffer compact_ops byte_lib l = Inr (cs, l\<lparr>line_storage := InflatedBuffer cs\<rparr>)"
    by (simp add: inflatedBuffer_def s(8) cs(1))
  have n: "\<forall>c \<in> set (drop (nat (cursor_column s)) cs). narrow compact_ops c" "map (op_codepoints compact_ops) cs = replicate 5 []"
    using plain s(5) by (simp_all add: trivial_blank_def)
  have "\<exists>s'. fold_result (print_byte compact_ops byte_lib) [0x61, 0x62, 0x63, 0x64] (tl_init byte_lib, s) = Inr (tl_init byte_lib, s') \<and> screen_ok s' \<and>
    cursor_after (length [0x61, 0x62, 0x63, 0x64 :: byte]) s s' \<and> other_rows_same s s' \<and>
    row_text compact_ops byte_lib s' (cursor_line s)
      = Inr (overwrite (nat (cursor_column s)) [0x61, 0x62, 0x63, 0x64] (map (op_codepoints compact_ops) cs))"
    by (rule compact_screen.print_text_lemma [OF s(2,3) ascii_lib_byte_lib _ s(7) inf n(1)])
      (simp_all add: s(5,6) printable_def)
  then show ?thesis
    using s(1,4,5,6) m by (auto simp: n(2) overwrite_def cursor_after_def numeral_eq_Suc)
qed

lemma text_example:
  "\<exists>(s :: CompactCell Screen) s1 s2 cs. newScreen \<lparr>ps_lines = 2, ps_columns = 5\<rparr> True (HistoryLimit 5) = Inr s \<and>
    fold_result (print_byte compact_ops byte_lib) [0x61, 0x62, 0x63, 0x64] ((), s) = Inr ((), s1) \<and> moveCursorTo 0 1 s1 = Inr s2 \<and>
    screen_ok s2 \<and> isCursorInsideMargins s2 \<and> \<not> cu_originMode (scr_cursor s2) \<and> cursor_line s2 = 0 \<and> cursor_column s2 = 1 \<and>
    mg_right (scr_margin s2) = 4 \<and> row_cells compact_ops byte_lib s2 0 = Inr cs \<and>
    map (op_codepoints compact_ops) cs = [[0x61], [0x62], [0x63], [0x64], []]"
proof -
  obtain s s1 :: "CompactCell Screen" where s: "newScreen \<lparr>ps_lines = 2, ps_columns = 5\<rparr> True (HistoryLimit 5) = Inr s"
      "fold_result (print_byte compact_ops byte_lib) [0x61, 0x62, 0x63, 0x64] ((), s) = Inr ((), s1)" "screen_ok s1" "same_frame s s1"
      "scr_cursor s = newCursor" "scr_margin s = \<lparr>mg_top = 0, mg_bottom = 1, mg_left = 0, mg_right = 4\<rparr>"
      "gr_pageSize (scr_grid s) = \<lparr>ps_lines = 2, ps_columns = 5\<rparr>"
      "row_text compact_ops byte_lib s1 0 = Inr [[0x61], [0x62], [0x63], [0x64], []]"
    using typed_example by metis
  have f: "gr_pageSize (scr_grid s1) = \<lparr>ps_lines = 2, ps_columns = 5\<rparr>" "\<not> cu_originMode (scr_cursor s1)"
      "scr_margin s1 = \<lparr>mg_top = 0, mg_bottom = 1, mg_left = 0, mg_right = 4\<rparr>"
    using s(4,5,6,7) by (auto simp: same_frame_def newCursor_def)
  obtain s2 where s2: "moveCursorTo 0 1 s1 = Inr s2" "screen_ok s2" "scr_grid s2 = scr_grid s1" "scr_cursor s2 = (scr_cursor s1)\<lparr>cu_wrapPending := False,
      cu_position := \<lparr>cl_line = clampedLine s1 (0 + cl_line (origin s1)), cl_column = clampedColumn s1 (1 + cl_column (origin s1))\<rparr>\<rparr>"
    using moveCursorTo_ok [OF ok_shape [OF s(3)]] by blast
  have m: "scr_margin s2 = scr_margin s1" by (rule moveCursorTo_margin [OF s2(1)])
  have c: "cursor_line s2 = 0" "cursor_column s2 = 1" "\<not> cu_originMode (scr_cursor s2)"
    using f by (simp_all add: s2(4) clampedLine_def clampedColumn_def std_clamp_def origin_def)
  obtain cs where "row_cells compact_ops byte_lib s1 0 = Inr cs" "map (op_codepoints compact_ops) cs = [[0x61], [0x62], [0x63], [0x64], []]"
    using row_text_row_cells [OF s(8)] by (elim exE conjE) (rule that)
  then have "row_cells compact_ops byte_lib s2 0 = Inr cs" "map (op_codepoints compact_ops) cs = [[0x61], [0x62], [0x63], [0x64], []]"
    by (simp_all add: row_cells_def s2(3))
  moreover have "isCursorInsideMargins s2" using m f(3) c by (auto simp: isCursorInsideMargins_def vertical_contains_def horizontal_contains_def)
  ultimately show ?thesis using s(1,2) s2(1,2) c m f(3) by auto
qed

theorem delete_characters_row_witness:
  "\<exists>(s :: CompactCell Screen) s1 s2 s3. newScreen \<lparr>ps_lines = 2, ps_columns = 5\<rparr> True (HistoryLimit 5) = Inr s \<and>
    fold_result (print_byte compact_ops byte_lib) [0x61, 0x62, 0x63, 0x64] ((), s) = Inr ((), s1) \<and> moveCursorTo 0 1 s1 = Inr s2 \<and>
    deleteCharacters compact_ops byte_lib 2 s2 = Inr s3 \<and> row_text compact_ops byte_lib s3 0 = Inr [[0x61], [0x64], [], [0x20], [0x20]]"
proof -
  obtain s s1 s2 :: "CompactCell Screen" and cs where s: "newScreen \<lparr>ps_lines = 2, ps_columns = 5\<rparr> True (HistoryLimit 5) = Inr s"
      "fold_result (print_byte compact_ops byte_lib) [0x61, 0x62, 0x63, 0x64] ((), s) = Inr ((), s1)" "moveCursorTo 0 1 s1 = Inr s2"
      "screen_ok s2" "isCursorInsideMargins s2" "cursor_line s2 = 0" "cursor_column s2 = 1" "mg_right (scr_margin s2) = 4"
      "row_cells compact_ops byte_lib s2 (cursor_line s2) = Inr cs" "map (op_codepoints compact_ops) cs = [[0x61], [0x62], [0x63], [0x64], []]"
    using text_example by metis
  have "\<exists>s3. deleteCharacters compact_ops byte_lib (int 2) s2 = Inr s3 \<and> scr_cursor s3 = scr_cursor s2 \<and>
      row_text compact_ops byte_lib s3 (cursor_line s2) = Inr (take 1 [[0x61], [0x62], [0x63], [0x64], []]
        @ drop (1 + 2) (take 5 [[0x61], [0x62], [0x63], [0x64], []]) @ replicate 2 [0x20] @ drop 5 [[0x61], [0x62], [0x63], [0x64], []]) \<and>
      other_rows_same s2 s3"
    by (rule delete_characters_row [OF s(4,5,9) s(10) [symmetric]]) (use s(7,8) in simp_all)
  then show ?thesis using s(1-3,6) by (auto simp: numeral_eq_Suc)
qed

text \<open>
  C31. Inserting and then deleting the same number of characters restores the line up to what was
  pushed over the right margin: those columns are spaces afterwards. In origin mode with a left
  margin this is shown for up to as many characters as fit between the cursor and the right margin:
  there \<open>insertChars\<close> limits a greater number by the cursor's column relative to the left margin, and
  so by too much.
\<close>

theorem insert_delete_roundtrip:
  fixes s :: "CompactCell Screen"
  assumes "screen_ok s" "isCursorInsideMargins s"
    and "cu_originMode (scr_cursor s) \<longrightarrow> mg_left (scr_margin s) = 0 \<or> n \<le> r - x"
    and "row_cells compact_ops T s (cursor_line s) = Inr cs"
    and "t = map (op_codepoints compact_ops) cs" "x = nat (cursor_column s)" "r = nat (mg_right (scr_margin s) + 1)"
    and "x < r" "0 < n" "m = min n (r - x)"
  shows "\<exists>s1 s2. insertCharacters compact_ops T (int n) s = Inr s1 \<and> deleteCharacters compact_ops T (int n) s1 = Inr s2 \<and>
    row_text compact_ops T s1 (cursor_line s) = Inr (take x t @ replicate m [0x20] @ drop x (take (r - m) t) @ drop r t) \<and>
    row_text compact_ops T s2 (cursor_line s) = Inr (take (r - m) t @ replicate m [0x20] @ drop r t) \<and> other_rows_same s s2"
proof -
  obtain s1 cs1 where s1: "insertCharacters compact_ops T (int n) s = Inr s1" "redrawn s s1"
      "row_cells compact_ops T s1 (cursor_line s) = Inr cs1"
      "map (op_codepoints compact_ops) cs1 = take x t @ replicate m [0x20] @ drop x (take (r - m) t) @ drop r t"
      "\<forall>y. in_rows s y \<longrightarrow> y \<noteq> cursor_line s \<longrightarrow> lineAt (scr_grid s1) y = lineAt (scr_grid s) y"
    using compact_screen.insert_row [OF assms(1-8,10)] by blast
  note same = redrawn_same [OF s1(2)]
  have ok: "screen_ok s1" using s1(2) assms(1) by (rule redrawn_ok)
  have "tm_leftRightMargin s1 = tm_leftRightMargin s" using s1(2) by (cases s; cases s1; simp add: redrawn_def)
  then have inside: "isCursorInsideMargins s1" using assms(2) by (simp add: isCursorInsideMargins_def same)
  let ?t = "take x t @ replicate m [0x20] @ drop x (take (r - m) t) @ drop r t"
  have p: "row_cells compact_ops T s1 (cursor_line s1) = Inr cs1" "x = nat (cursor_column s1)" "r = nat (mg_right (scr_margin s1) + 1)"
    using s1(3) assms(6,7) same by simp_all
  obtain s2 cs2 where s2: "deleteCharacters compact_ops T (int n) s1 = Inr s2" "row_cells compact_ops T s2 (cursor_line s) = Inr cs2"
      "map (op_codepoints compact_ops) cs2 = take x ?t @ drop (x + m) (take r ?t) @ replicate m [0x20] @ drop r ?t"
      "\<forall>y. in_rows s1 y \<longrightarrow> y \<noteq> cursor_line s \<longrightarrow> lineAt (scr_grid s2) y = lineAt (scr_grid s1) y"
    using compact_screen.delete_row [OF ok inside p(1) s1(4) [symmetric] p(2,3) assms(8,9,10)] unfolding same(1) by blast
  have len: "length t = screen_columns s" "r \<le> screen_columns s" "x + m \<le> r" "m \<le> r"
    using row_cells_length [OF assms(4) screen_okD(1) [OF assms(1)]] screen_okD(3) [OF assms(1)] assms(5,7,8,10)
    by (auto simp: margin_ok_def)
  have "take x ?t = take x t" "drop r ?t = drop r t" "drop (x + m) (take r ?t) = drop x (take (r - m) t)"
    using len by (simp_all add: take_drop)
  moreover have "take x t @ drop x (take (r - m) t) = take (r - m) t"
    using len(3) by (metis append_take_drop_id le_diff_conv2 len(4) min.absorb1 take_take)
  ultimately have "map (op_codepoints compact_ops) cs2 = take (r - m) t @ replicate m [0x20] @ drop r t"
    using s2(3) by (metis append_assoc)
  then show ?thesis
    using s1 s2(1,2,4) same by (auto simp: other_rows_same_def in_rows_def dest: row_text_cells)
qed

theorem insert_delete_roundtrip_witness:
  "\<exists>(s :: CompactCell Screen) s1 s2 s3 s4. newScreen \<lparr>ps_lines = 2, ps_columns = 5\<rparr> True (HistoryLimit 5) = Inr s \<and>
    fold_result (print_byte compact_ops byte_lib) [0x61, 0x62, 0x63, 0x64] ((), s) = Inr ((), s1) \<and> moveCursorTo 0 1 s1 = Inr s2 \<and>
    insertCharacters compact_ops byte_lib 2 s2 = Inr s3 \<and> row_text compact_ops byte_lib s3 0 = Inr [[0x61], [0x20], [0x20], [0x62], [0x63]] \<and>
    deleteCharacters compact_ops byte_lib 2 s3 = Inr s4 \<and> row_text compact_ops byte_lib s4 0 = Inr [[0x61], [0x62], [0x63], [0x20], [0x20]]"
proof -
  obtain s s1 s2 :: "CompactCell Screen" and cs where s: "newScreen \<lparr>ps_lines = 2, ps_columns = 5\<rparr> True (HistoryLimit 5) = Inr s"
      "fold_result (print_byte compact_ops byte_lib) [0x61, 0x62, 0x63, 0x64] ((), s) = Inr ((), s1)" "moveCursorTo 0 1 s1 = Inr s2"
      "screen_ok s2" "isCursorInsideMargins s2" "cursor_line s2 = 0" "cursor_column s2 = 1" "mg_right (scr_margin s2) = 4"
      "row_cells compact_ops byte_lib s2 (cursor_line s2) = Inr cs" "map (op_codepoints compact_ops) cs = [[0x61], [0x62], [0x63], [0x64], []]"
      "\<not> cu_originMode (scr_cursor s2)"
    using text_example by metis
  let ?t = "[[0x61], [0x62], [0x63], [0x64], []] :: nat list list"
  have "\<exists>s3 s4. insertCharacters compact_ops byte_lib (int 2) s2 = Inr s3 \<and> deleteCharacters compact_ops byte_lib (int 2) s3 = Inr s4 \<and>
      row_text compact_ops byte_lib s3 (cursor_line s2) = Inr (take 1 ?t @ replicate 2 [0x20] @ drop 1 (take (5 - 2) ?t) @ drop 5 ?t) \<and>
      row_text compact_ops byte_lib s4 (cursor_line s2) = Inr (take (5 - 2) ?t @ replicate 2 [0x20] @ drop 5 ?t) \<and> other_rows_same s2 s4"
    by (rule insert_delete_roundtrip [OF s(4,5) _ s(9) s(10) [symmetric]]) (use s(7,8,11) in simp_all)
  then show ?thesis using s(1-3,6) by (auto simp: numeral_eq_Suc)
qed

subsection \<open>Tab stops\<close>

lemma default_tabs_cons: "8 < n \<Longrightarrow> \<exists>ts. map (\<lambda>c. c - 1) (filter (\<lambda>c. c mod 8 = 0) [8..int n - 1]) = 7 # ts"
  by (subst upto_rec1) auto

text \<open>
  C37. The default tab stops. Without margins and origin mode a tab moves the cursor to the next
  multiple of eight, or to the last column. The other two operations do not agree with these stops:
  a backward tab does not leave a stop, and clearing the tab in the first column, where there is
  none, moves the stop at column 8 to column 7.
\<close>

theorem default_tab_stops:
  assumes "screen_ok s" "tm_tabs s = []" "isFullHorizontalMargins s" "mg_left (scr_margin s) = 0" "\<not> cu_originMode (scr_cursor s)"
  shows "cursor_column (moveCursorToNextTab s) = min ((cursor_column s div 8 + 1) * 8) (int (screen_columns s) - 1) \<and>
    (0 < cursor_column s \<and> cursor_column s mod 8 = 0 \<longrightarrow> cursor_column (cursorBackwardTab 1 s) = cursor_column s) \<and>
    (cursor_column s = 0 \<and> 8 < screen_columns s \<longrightarrow> cursor_column (moveCursorToNextTab (clearTabUnderCursor s)) = 7)"
proof (intro conjI impI)
  note d = screen_okD [OF assms(1)]
  have right: "mg_right (scr_margin s) = int (screen_columns s) - 1" using assms(3) by (simp add: isFullHorizontalMargins_def)
  note defs = moveCursorForward_def horizontal_contains_def std_clamp_def logicalCursorPosition_def TabWidth_def
  have up: "(cursor_column s div 8 + 1) * 8 = cursor_column s + (8 - cursor_column s mod 8)" by presburger
  show "cursor_column (moveCursorToNextTab s) = min ((cursor_column s div 8 + 1) * 8) (int (screen_columns s) - 1)"
    unfolding up using d(6,7) assms(2,4,5) right pos_mod_bound [of 8 "cursor_column s"]
    by (auto simp: moveCursorToNextTab_def defs Let_def min_def)
  show "cursor_column (cursorBackwardTab 1 s) = cursor_column s"
    if "0 < cursor_column s \<and> cursor_column s mod 8 = 0"
  proof -
    have "8 \<le> cursor_column s" "(cursor_column s + 1) mod 8 = 1" using that by presburger+
    then show ?thesis
      using d(6,7) assms(2,4) right by (simp add: cursorBackwardTab_def moveCursorBackward_def defs)
  qed
  show "cursor_column (moveCursorToNextTab (clearTabUnderCursor s)) = 7" if c: "cursor_column s = 0 \<and> 8 < screen_columns s"
  proof -
    obtain ts where "map (\<lambda>c. c - 1) (filter (\<lambda>c. c mod 8 = 0) [8..int (screen_columns s) - 1]) = 7 # ts"
      using default_tabs_cons [OF conjunct2 [OF c]] by (elim exE) (rule that)
    then have "tm_tabs (clearTabUnderCursor s) = 7 # remove1 0 ts" using c assms(2) by (simp add: clearTabUnderCursor_def TabWidth_def)
    moreover have "clearTabUnderCursor s = s\<lparr>tm_tabs := tm_tabs (clearTabUnderCursor s)\<rparr>" by (simp add: clearTabUnderCursor_def Let_def)
    ultimately have "clearTabUnderCursor s = s\<lparr>tm_tabs := 7 # remove1 0 ts\<rparr>" by simp
    then show ?thesis
      using c assms(4,5) right by (simp add: moveCursorToNextTab_def defs)
  qed
qed

theorem default_tab_stops_witness:
  "\<exists>s :: CompactCell Screen. newScreen \<lparr>ps_lines = 2, ps_columns = 20\<rparr> True (HistoryLimit 5) = Inr s \<and>
    cursor_column (moveCursorToNextTab s) = 8 \<and> cursor_column (moveCursorToNextTab (clearTabUnderCursor s)) = 7 \<and>
    cursor_column (cursorBackwardTab 1 (set_position 0 16 s)) = 16"
proof -
  let ?ps = "\<lparr>ps_lines = 2, ps_columns = 20\<rparr>"
  obtain s :: "CompactCell Screen" where s: "newScreen ?ps True (HistoryLimit 5) = Inr s" "screen_ok s" "scr_cursor s = newCursor"
      "gr_pageSize (scr_grid s) = ?ps" "scr_margin s = \<lparr>mg_top = 0, mg_bottom = 1, mg_left = 0, mg_right = 19\<rparr>" "tm_tabs s = []"
    using newScreen_ok [where ps = ?ps and n = 5 and rf = True and 'c = CompactCell] by (auto simp: newScreen_def bind_result_eq_Inr)
  have full: "isFullHorizontalMargins s" "\<not> cu_originMode (scr_cursor s)" "cursor_column s = 0" "cursor_line s = 0"
    using s(3-5) by (simp_all add: isFullHorizontalMargins_def newCursor_def)
  let ?t = "set_position 0 16 s"
  have "screen_ok ?t" using s(2,4) full(4) by (simp add: screen_ok_def screen_shape_def in_page_def set_position_def)
  moreover have "tm_tabs ?t = []" "isFullHorizontalMargins ?t" "mg_left (scr_margin ?t) = 0" "\<not> cu_originMode (scr_cursor ?t)"
    using s(4-6) full by (simp_all add: set_position_def isFullHorizontalMargins_def)
  ultimately have "cursor_column (cursorBackwardTab 1 ?t) = 16" using default_tab_stops [of ?t] by (simp add: set_position_def)
  with default_tab_stops [of s] s full show ?thesis by auto
qed

subsection \<open>Selective erasing\<close>

definition unprotected :: "'c CellOps \<Rightarrow> 'c list \<Rightarrow> bool" where
  "unprotected K cs \<longleftrightarrow> \<not> list_ex (is_protected K) cs"

text \<open>Looking for protected characters inflates the row, which does not change its cells.\<close>

lemma containsProtectedCharacters_row:
  assumes "grid_ok (scr_grid s)" "in_rows s y" "row_cells K T s y = Inr cs"
  shows "\<exists>s'. containsProtectedCharacters K T y 0 (int (screen_columns s)) s = Inr (\<not> unprotected K cs, s') \<and> redrawn s s' \<and>
    (\<forall>y'. in_rows s y' \<longrightarrow> row_cells K T s' y' = row_cells K T s y')"
proof -
  from assms(3) obtain l l1 where l: "lineAt (scr_grid s) y = Inr l" "inflatedBuffer K T l = Inr (cs, l1)"
      "line_storage l1 = InflatedBuffer cs"
    by (rule row_cellsE)
  obtain k where "ring_index (gr_lines (scr_grid s)) y = Inr k"
    using ring_index_total [OF assms(1)] assms(2) by (auto simp: in_rows_def)
  from ring_set_total [OF this, of l1] obtain r where r: "ring_set (gr_lines (scr_grid s)) y l1 = Inr r" by blast
  let ?s = "set_grid ((scr_grid s)\<lparr>gr_lines := r\<rparr>) s"
  have len: "length cs = screen_columns s" by (rule row_cells_length [OF assms(3,1)])
  have run: "containsProtectedCharacters K T y 0 (int (screen_columns s)) s = Inr (\<not> unprotected K cs, ?s)"
    using l r len by (simp add: containsProtectedCharacters_def useCellAt_def unprotected_def)
  have "row_cells K T ?s y' = row_cells K T s y'" if "in_rows s y'" for y'
    using set_row_rows [OF assms(1) r, of y'] that assms(2) l
    by (simp add: row_cells_def set_grid_def in_rows_def inflatedBuffer_def [of K T l1])
  with run containsProtectedCharacters_redrawn [OF run assms(1)] show ?thesis by blast
qed

context screen_cells
begin

lemma clearLine_row:
  assumes "screen_ok s" "ga_flags (rendition s) AND flag CF_CharacterProtected = 0"
  shows "\<exists>s' cs. clearLine s = Inr s' \<and> redrawn s s' \<and> row_cells K T s' (cursor_line s) = Inr cs \<and> unprotected K cs \<and>
    map (op_codepoints K) cs = replicate (screen_columns s) [] \<and>
    (\<forall>y. in_rows s y \<longrightarrow> y \<noteq> cursor_line s \<longrightarrow> row_cells K T s' y = row_cells K T s y)"
proof -
  note d = screen_okD [OF assms(1)]
  let ?b = "trivial_blank (screen_columns s) (rendition s)"
  obtain l where l: "currentLine s = Inr l"
    using ring_index_total [OF d(1,4,5)] d(8) by (auto simp: currentLine_def)
  have "line_size l = screen_columns s" using currentLine_fits [OF d(1) l] by (simp add: line_fits_def)
  then have reset: "line_reset fl (rendition s) l = blank_line (screen_columns s) (rendition s) fl" for fl
    by (simp add: line_reset_blank)
  let ?l = "blank_line (screen_columns s) (rendition s) (defaultLineFlags (scr_grid s))"
  have run: "clearLine s = Inr (put_line ?l s)"
    using on_current_put [OF assms(1), of ?l] l by (simp add: clearLine_def on_current_def reset)
  obtain cs where cs: "inflate K T ?b = Inr cs" "blank_cells K ?b cs"
    using inflate_blank [of ?b T] grid_okD(5) [OF d(1)] by (auto simp: trivial_blank_def)
  have "op_codepoints K c = [] \<and> \<not> is_protected K c" if "c \<in> set cs" for c
    using cs(2) that make_ok [of "rendition s" 0] make_plain [of "rendition s" 0 c] empty_codepoints [of c] assms(2)
    by (auto simp: blank_cells_def trivial_blank_def is_protected_def)
  then have "unprotected K cs" "map (op_codepoints K) cs = replicate (screen_columns s) []"
    using cs(2) by (auto simp: unprotected_def list_ex_iff blank_cells_def trivial_blank_def intro!: nth_equalityI)
  moreover have "row_cells K T (put_line ?l s) (cursor_line s) = Inr cs"
    using put_line_rows [OF assms(1) d(4,5)] cs(1) by (simp add: row_cells_def inflatedBuffer_def blank_line_def)
  ultimately show ?thesis
    using run clearLine_redrawn [OF run d(1)] put_line_rows [OF assms(1)]
    by (intro exI [of _ "put_line ?l s"] exI [of _ cs]) (simp add: row_cells_def in_rows_def)
qed

lemma selectiveEraseLine_row:
  assumes "screen_ok s" "ga_flags (rendition s) AND flag CF_CharacterProtected = 0"
    and "in_rows s y" "row_cells K T s y = Inr cs" "unprotected K cs"
  shows "\<exists>s' cs'. selectiveEraseLine K T y s = Inr s' \<and> redrawn s s' \<and> row_cells K T s' (cursor_line s) = Inr cs' \<and>
    unprotected K cs' \<and> map (op_codepoints K) cs' = replicate (screen_columns s) [] \<and>
    (\<forall>y'. in_rows s y' \<longrightarrow> y' \<noteq> cursor_line s \<longrightarrow> row_cells K T s' y' = row_cells K T s y')"
proof -
  obtain s1 where s1: "containsProtectedCharacters K T y 0 (int (screen_columns s)) s = Inr (False, s1)" "redrawn s s1"
      "\<forall>y'. in_rows s y' \<longrightarrow> row_cells K T s1 y' = row_cells K T s y'"
    using containsProtectedCharacters_row [OF screen_okD(1) [OF assms(1)] assms(3,4)] assms(5) by auto
  note same = redrawn_same [OF s1(2)]
  have ok: "screen_ok s1" using s1(2) assms(1) by (rule redrawn_ok)
  have lines: "in_rows s1 = in_rows s" using same(3) by (intro ext) (simp add: in_rows_def)
  have "ga_flags (rendition s1) AND flag CF_CharacterProtected = 0" using assms(2) same(1) by simp
  from clearLine_row [OF ok this] obtain s2 cs' where s2: "clearLine s1 = Inr s2" "redrawn s1 s2"
      "row_cells K T s2 (cursor_line s) = Inr cs'" "unprotected K cs'" "map (op_codepoints K) cs' = replicate (screen_columns s) []"
      "\<forall>y'. in_rows s y' \<longrightarrow> y' \<noteq> cursor_line s \<longrightarrow> row_cells K T s2 y' = row_cells K T s1 y'"
    unfolding lines same by blast
  have "selectiveEraseLine K T y s = Inr s2" by (simp add: selectiveEraseLine_def s1(1) s2(1))
  with s1(3) s2 redrawn_trans [OF s1(2) s2(2)] show ?thesis by (intro exI [of _ s2] exI [of _ cs']) simp
qed

lemma selectiveEraseLines_rows:
  assumes "screen_ok s" "ga_flags (rendition s) AND flag CF_CharacterProtected = 0"
    and "\<forall>y. in_rows s y \<longrightarrow> (\<exists>cs. row_cells K T s y = Inr cs \<and> unprotected K cs)" "\<forall>y \<in> set ys. in_rows s y" "ys \<noteq> []"
  shows "\<exists>s' cs. fold_result (selectiveEraseLine K T) ys s = Inr s' \<and> redrawn s s' \<and> row_cells K T s' (cursor_line s) = Inr cs \<and>
    map (op_codepoints K) cs = replicate (screen_columns s) [] \<and>
    (\<forall>y. in_rows s y \<longrightarrow> y \<noteq> cursor_line s \<longrightarrow> row_cells K T s' y = row_cells K T s y)"
  using assms
proof (induction ys arbitrary: s)
  case (Cons y ys)
  obtain cs where "row_cells K T s y = Inr cs" "unprotected K cs" using Cons.prems(3,4) by auto
  with selectiveEraseLine_row [OF Cons.prems(1,2)] Cons.prems(4) obtain s1 cs1 where s1: "selectiveEraseLine K T y s = Inr s1"
      "redrawn s s1" "row_cells K T s1 (cursor_line s) = Inr cs1" "unprotected K cs1"
      "map (op_codepoints K) cs1 = replicate (screen_columns s) []"
      "\<forall>y'. in_rows s y' \<longrightarrow> y' \<noteq> cursor_line s \<longrightarrow> row_cells K T s1 y' = row_cells K T s y'"
    by (metis list.set_intros(1))
  note same = redrawn_same [OF s1(2)]
  have lines: "in_rows s1 = in_rows s" using same(3) by (intro ext) (simp add: in_rows_def)
  show ?case
  proof (cases "ys = []")
    case True
    with s1 show ?thesis by simp
  next
    case False
    have ok: "screen_ok s1" using s1(2) Cons.prems(1) by (rule redrawn_ok)
    have "\<exists>cs. row_cells K T s1 y' = Inr cs \<and> unprotected K cs" if "in_rows s y'" for y'
      using that s1(3,4,6) Cons.prems(3) by (cases "y' = cursor_line s") auto
    then obtain s2 cs2 where s2: "fold_result (selectiveEraseLine K T) ys s1 = Inr s2" "redrawn s1 s2"
        "row_cells K T s2 (cursor_line s) = Inr cs2" "map (op_codepoints K) cs2 = replicate (screen_columns s) []"
        "\<forall>y. in_rows s y \<longrightarrow> y \<noteq> cursor_line s \<longrightarrow> row_cells K T s2 y = row_cells K T s1 y"
      using Cons.IH [OF ok _ _ _ False] Cons.prems(2,4) unfolding lines same by (metis list.set_intros(2))
    with s1 redrawn_trans [OF s1(2) s2(2)] show ?thesis by (intro exI [of _ s2] exI [of _ cs2]) simp
  qed
qed simp

end

text \<open>
  C36. Selective erasing of the display erases the cursor's line only. Without any protected
  characters \<open>DECSED 2\<close> is to blank the whole page, but \<open>selectiveEraseLine\<close> resets the line of the
  cursor in place of the line it is called for: after it the cursor's line is blank, and every other
  line shows what it did before.
\<close>

theorem selective_erase_misses_rows:
  fixes s :: "CompactCell Screen"
  assumes "screen_ok s" "ga_flags (rendition s) AND flag CF_CharacterProtected = 0"
    and "\<forall>y. in_rows s y \<longrightarrow> (\<exists>cs. row_cells compact_ops T s y = Inr cs \<and> unprotected compact_ops cs)"
  shows "\<exists>s'. selectiveEraseScreen compact_ops T s = Inr s' \<and>
    row_text compact_ops T s' (cursor_line s) = Inr (replicate (screen_columns s) []) \<and>
    (\<forall>y. in_rows s y \<longrightarrow> y \<noteq> cursor_line s \<longrightarrow> row_text compact_ops T s' y = row_text compact_ops T s y)"
proof -
  let ?ys = "[0..int (screen_lines s) - 1]"
  have "\<forall>y \<in> set ?ys. in_rows s y" "?ys \<noteq> []" using screen_okD(4,5) [OF assms(1)] by (auto simp: in_rows_def)
  from compact_screen.selectiveEraseLines_rows [OF assms this] obtain s' cs where s': "selectiveEraseScreen compact_ops T s = Inr s'"
      "row_cells compact_ops T s' (cursor_line s) = Inr cs" "map (op_codepoints compact_ops) cs = replicate (screen_columns s) []"
      "\<forall>y. in_rows s y \<longrightarrow> y \<noteq> cursor_line s \<longrightarrow> row_cells compact_ops T s' y = row_cells compact_ops T s y"
    unfolding selectiveEraseScreen_def by blast
  have "row_text compact_ops T s' y = row_text compact_ops T s y" if y: "in_rows s y" "y \<noteq> cursor_line s" for y
  proof -
    obtain cs where "row_cells compact_ops T s y = Inr cs" using assms(3) y(1) by blast
    with s'(4) y show ?thesis by (simp add: row_text_cells)
  qed
  with s' row_text_cells [OF s'(2)] show ?thesis by auto
qed

lemma filled_cells:
  "\<exists>c cs. op_make compact_ops defaultAttributes 0 = Inr c \<and> \<not> is_protected compact_ops c \<and>
    map_result (op_write compact_ops defaultAttributes 0x61 1) [c, c, c] = Inr cs \<and> unprotected compact_ops cs \<and>
    map (op_codepoints compact_ops) cs = [[0x61], [0x61], [0x61]]"
proof -
  obtain c where "op_make compact_ops defaultAttributes 0 = Inr c" using compact.make_ok by blast
  moreover from this have "c = cc_blank" by (simp add: compact_ops_def cc_make_def cc_setWidth_def cc_blank_def cc_setHyperlink_def if_extra_def MaxCodepoints_def
      has_extra_def defaultAttributes_def Let_def)
  ultimately show ?thesis
    by (simp add: compact_ops_def cc_write_def MaxCodepoints_def cc_setWidth_def cc_blank_def has_extra_def if_extra_def defaultAttributes_def
        is_protected_def unprotected_def cc_flags_def cell_codepoints_def Let_def)
qed

theorem selective_erase_misses_rows_witness:
  "\<exists>(s :: CompactCell Screen) s1 s2. newScreen \<lparr>ps_lines = 2, ps_columns = 3\<rparr> True (HistoryLimit 5) = Inr s \<and>
    fillArea compact_ops byte_lib 0x61 \<lparr>rc_top = 1, rc_left = 0, rc_bottom = 1, rc_right = 2\<rparr> s = Inr s1 \<and>
    selectiveEraseScreen compact_ops byte_lib s1 = Inr s2 \<and> row_text compact_ops byte_lib s2 0 = Inr [[], [], []] \<and>
    row_text compact_ops byte_lib s2 1 = Inr [[0x61], [0x61], [0x61]]"
proof -
  let ?ps = "\<lparr>ps_lines = 2, ps_columns = 3\<rparr>"
  obtain s :: "CompactCell Screen" where s: "newScreen ?ps True (HistoryLimit 5) = Inr s" "screen_ok s" "scr_cursor s = newCursor"
      "gr_pageSize (scr_grid s) = ?ps"
      "\<forall>y. 0 \<le> y \<longrightarrow> y < 2 \<longrightarrow> lineAt (scr_grid s) y = Inr (blank_row defaultAttributes (scr_grid s))"
    using newScreen_ok [where ps = ?ps and n = 5 and rf = True and 'c = CompactCell] by auto
  have grid: "grid_ok (scr_grid s)" by (rule screen_okD(1) [OF s(2)])
  have rows: "in_rows s y \<longleftrightarrow> y = 0 \<or> y = 1" for y using s(4) by (auto simp: in_rows_def)
  obtain c cs where c: "op_make compact_ops defaultAttributes 0 = Inr c" "\<not> is_protected compact_ops c"
      "map_result (op_write compact_ops defaultAttributes 0x61 1) [c, c, c] = Inr cs" "unprotected compact_ops cs"
      "map (op_codepoints compact_ops) cs = [[0x61], [0x61], [0x61]]"
    using filled_cells by metis
  have blank: "row_cells compact_ops byte_lib s y = Inr [c, c, c]" if "in_rows s y" for y
    using that s(4,5) rows c(1)
    by (auto simp: row_cells_def blank_row_def blank_line_def inflatedBuffer_def trivial_blank_def inflate_def push_cells_def numeral_3_eq_3)
  let ?f = "change_range compact_ops byte_lib 0 3 (op_write compact_ops defaultAttributes 0x61 1)"
  have "\<forall>l l1. inflatedBuffer compact_ops byte_lib l = Inr ([c, c, c], l1) \<longrightarrow> (\<exists>l'. ?f l = Inr l' \<and> line_storage l' = InflatedBuffer cs)"
    using c(3) by (simp add: change_range_def del: map_result.simps)
  from on_line_cells [OF grid _ blank change_range_fits this, of 1] rows obtain s1 where s1: "on_line 1 ?f s = Inr s1" "redrawn s s1"
      "row_cells compact_ops byte_lib s1 1 = Inr cs" "lineAt (scr_grid s1) 0 = lineAt (scr_grid s) 0"
    by auto
  note same = redrawn_same [OF s1(2)]
  have fill: "fillArea compact_ops byte_lib 0x61 \<lparr>rc_top = 1, rc_left = 0, rc_bottom = 1, rc_right = 2\<rparr> s = Inr s1"
    using s1(1) s(3) by (simp add: fillArea_def on_rect_def newCursor_def byte_lib_def wrap8_def)
  have cur: "cursor_line s1 = 0" "ga_flags (rendition s1) AND flag CF_CharacterProtected = 0" "screen_columns s1 = 3"
    using same s(3,4) by (simp_all add: newCursor_def defaultAttributes_def)
  have lines: "in_rows s1 y \<longleftrightarrow> y = 0 \<or> y = 1" for y using rows same(3) by (simp add: in_rows_def)
  have "row_cells compact_ops byte_lib s1 0 = Inr [c, c, c]" using blank [of 0] rows s1(4) by (simp add: row_cells_def)
  then have "\<forall>y. in_rows s1 y \<longrightarrow> (\<exists>cs. row_cells compact_ops byte_lib s1 y = Inr cs \<and> unprotected compact_ops cs)"
    using s1(3) c(2,4) lines by (auto simp: unprotected_def)
  from selective_erase_misses_rows [OF redrawn_ok [OF s1(2) s(2)] cur(2) this] lines row_text_cells [OF s1(3)] c(5) cur(1,3) s(1) fill
  show ?thesis by (auto simp: numeral_3_eq_3)
qed

end
