(* ===== verification/Spec2Isabelle.thy ===== *)
theory Spec2Isabelle
  imports VT_ScreenProps
begin

text \<open>
  A verification development of the VT stack of the Contour terminal emulator: the parser of the
  byte stream, the collection of control sequences, the table of functions they are matched
  against, the screen they are executed on with its cursor, margins and character sets, the renditions they
  set, the cells those go into, the lines and the grid of the page and its history, and the containers
  underneath.

  \<^bold>\<open>The program and its parts.\<close> Bytes from the application reach \<open>Parser::parseFragment\<close>
  (\<open>src/vtparser\<close>), a state machine over a table of transitions, which calls an event listener. The
  listener is \<open>SequenceBuilder\<close>, which collects the parts of a sequence in a \<open>Sequence\<close> and hands it to
  a handler (\<open>src/vtbackend/SequenceBuilder.h\<close>, \<open>Sequence.h\<close>). The handler looks the sequence up among
  the functions that are supported at the moment (\<open>Functions.h\<close>) and executes it with \<open>Screen::apply\<close>
  (\<open>Screen.h\<close>, \<open>Screen.cpp\<close>), which moves the cursor, erases, edits and scrolls; for a graphic rendition
  that is \<open>applySGR\<close>, which sets the flags and colours (\<open>CellFlags.h\<close>, \<open>Color.h\<close>). Text goes through
  the character sets (\<open>Charset.h\<close>) and is written with that rendition into cells
  (\<open>cell/CompactCell.h\<close>, \<open>SimpleCell.h\<close>) of lines (\<open>Line.h\<close>) that the grid (\<open>Grid.h\<close>, \<open>Grid.cpp\<close>) keeps
  in a ring (\<open>crispy/ring.h\<close>).

  \<^bold>\<open>The theories.\<close>
  \<^item> \<open>Prelude\<close>: bytes, machine integers, faults as values (\<open>fault\<close>, \<open>'a result\<close>, \<open>bind_result\<close>,
    \<open>fold_result\<close>, \<open>result_in\<close>) and decimal numbers. Undefined behaviour, failed assertions and
    exceptions of the sources are values of \<open>fault\<close>, so that their absence is a theorem.
  \<^item> \<open>VT_Table\<close> and \<open>VT_Parser\<close>: \<open>ParserTable::get\<close> as the sequence of calls that fill the table, with
    a closed form, and the parser over it. The listener is a record with a step function; the locale
    \<open>parser_listener\<close> is what the parser promises a listener whose steps keep an invariant.
    It is interpreted on a listener that records its calls and takes bulk text of any width
    (\<open>bulk_protocol\<close>). Libunicode's scanner is a parameter with a contract (\<open>scan_contract\<close>), and what
    it does with US-ASCII text is \<open>ascii_scanner\<close>.
  \<^item> \<open>Crispy_Sort\<close>, \<open>Crispy_Escape\<close>: quicksort against the library's sorting; escaping and unescaping.
  \<^item> \<open>VT_Functions\<close>, \<open>VT_FunctionTable\<close>: the 137 functions, their order, the set of active ones as a
    prefix of an array, and the binary search for a selector.
  \<^item> \<open>VT_Sequence\<close>, \<open>VT_SequenceBuilder\<close>: parameters with their sub-parameter bits, the builder with
    its iterator, sequences, and the callbacks of the builder. The builder is the instance
    \<open>builder_listener\<close> of \<open>parser_listener\<close>.
  \<^item> \<open>VT_Dispatch\<close>: the composition: bytes to parser to builder to handler to function table.
  \<^item> \<open>Crispy_Ring\<close>: the ring with its index arithmetic, its refinement to a list, and the locale
    \<open>cyclic_buffer\<close> for loops over it, interpreted on the ring.
  \<^item> \<open>VT_Color\<close>, \<open>VT_Cell\<close>: packed colours, texts, palettes; flags and renditions; the two cell types
    and what the operations of the compact cell do to the simple cell it stands for
    (\<open>compact_effect\<close>).
  \<^item> \<open>VT_Line\<close>: the two storages of a line, inflating, reflow and text. The cells are a record of
    operations; the locale \<open>cell_interface\<close> is what lines and grid rely on, interpreted on both cell
    types.
  \<^item> \<open>VT_Grid\<close>: the grid's state and operations, from construction to resizing.
  \<^item> \<open>VT_GridScroll\<close>: the view of history and page, the grid's invariant, and scrolling.
  \<^item> \<open>VT_GridResize\<close>: resizing in both directions, reflow of cells and of runs of text, the grids that
    are reached by scrolling and resizing (\<open>grid_reachable\<close>), and the history's limit.
  \<^item> \<open>VT_SGR\<close>: the rendition parameters, from their bytes to their effect.
  \<^item> \<open>VT_Charset\<close>: the tables of the character sets and their designation and shifts.
  \<^item> \<open>VT_Screen\<close>: the screen as a record of its grid, cursor, margins and tab stops, and one definition
    for each method of \<open>Screen\<close> that changes them. The pointer to the current line is an index into the
    ring's vector, so that forgetting to update it shows.
  \<^item> \<open>VT_ScreenOps\<close>: the screen's invariant (\<open>screen_ok\<close>) and that the operations keep it; \<open>redrawn\<close> is
    what all of them share that change cells only.
  \<^item> \<open>VT_ScreenText\<close>: writing text, character by character and on the fast path. The locale
    \<open>screen_cells\<close> extends \<open>cell_interface\<close> with what writing relies on, and \<open>viewed_cells\<close> extends it
    with the simple cell that a cell shows, for both cell types.
  \<^item> \<open>VT_ScreenApply\<close>: \<open>Screen::apply\<close> by groups of functions in the order of the code, and
    \<open>processSequence\<close> with the check of the state (\<open>terminal_verifyState\<close>) behind it.
  \<^item> \<open>VT_ScreenProps\<close>: the properties of the screen, on reachable states and rows of cells.

  \<^bold>\<open>What the lemmas show.\<close> Parsing ends for every input, keeps to the protocol of its listener,
  reports characters in range and recovers; for US-ASCII text neither the fragments nor the bulk path
  change what the listener is told. The builder stays within
  its arrays or ends in a named fault, and the fault is exhibited: more than sixteen parameters.
  What \<open>Function::operator()\<close> prints is parsed back to the function and its arguments. The search
  finds a function exactly if one matches, after any history of enabling and disabling. Renditions
  have the effect their parameters denote. The ring refines a list, the compact cell follows the simple cell but
  for three differences that are stated, and colours, escaped texts and parameter strings are read back as they were
  written. Every sequence of scrolling, resetting and resizing keeps a grid with a limited history
  well-formed; scrolling up moves lines from the
  page into the history and loses only those beyond its limit; changing the width of lines that may be wrapped keeps the text, and
  changing the height keeps the lines, as long as the ring is in the order of the view. Every screen
  that control functions and text reach has its cursor in the page and its current line at the cursor,
  but for a line feed below the bottom margin, whose effect is stated; the bytes of a cursor position
  move the cursor there; a saved cursor is restored; the fast path for text shows the cells that the
  slow one shows; inserting and deleting characters shift the rest of the line; tabs go to the
  default stops, and selective erasing of the display reaches the cursor's line only. Where the code does not do what
  it means to, the theorem states what it does.

  \<^bold>\<open>Bounds and fuel.\<close> \<open>parseFragment\<close> is a partial function in the option monad, and returning is
  proved; every other loop is structurally recursive or has a termination proof, so no fuel is used.
  Sizes of a ring are below \<open>2 ^ 61\<close>, which a \<open>std::vector\<close> of objects cannot exceed, so that the sums
  of the index computation fit their types. Parameters of sequences are below \<open>2 ^ 16\<close> and pages and
  histories below \<open>2 ^ 31\<close> lines, so that offsets on the page are integers without bound.

  \<^bold>\<open>Not modelled.\<close> The operations of the screen that answer the application, capture its buffer,
  draw images or set hyperlinks, and the functions that \<open>Screen::apply\<close> passes on to the terminal:
  modes, reports, colours, titles and device control strings. \<open>applyPageSizeToMainDisplay\<close> is defined,
  but not a step of the reachable screens. Of \<open>Terminal::verifyState\<close> the checks on the mouse, the
  status lines and the tab stops are left out. The logical lines and the search over the grid; the terminal
  object with its threads and timers; input generation, image and sixel decoding, the vi mode, rendering,
  the status line, the PTY, font shaping and rasterisation, and the application around them. Scaling
  of colours by a \<open>float\<close>, conversion of cells to UTF-8 (libunicode) and trace output are left out of
  the modelled parts. The \<open>double\<close> of a colour distance is a real number; allocation does not fail.
\<close>

end
